(* ===== verification/Prelude.thy ===== *)
theory Prelude
  imports Main "HOL-Library.Monad_Syntax" "HOL-Library.Word" "HOL-Library.Code_Target_Numeral"
begin

text \<open>
  What every component shares: the machine-integer helpers, the intrusive-list
  predicate \<open>lseg\<close> with its lemmas, and the collections the component proofs add to.

  Conventions of the whole development.
  \<^item> Addresses and \<^verbatim>\<open>size_t\<close> values are natural numbers, with the 64-bit
    wrap-around written out (\<open>wrap64\<close>) wherever the code can reach it; address 0 is NULL.
  \<^item> A pointer to a process control block always points into the static array
    \<^verbatim>\<open>procs\<close>, so it is modelled as \<open>nat option\<close>: the slot number, \<open>None\<close> for NULL.
  \<^item> A computation that may fail to return (an endless traversal) or that would read an
    object that does not exist is of type \<open>'a option\<close>; \<open>None\<close> is that outcome.
    It is never the value of an error return, which is an ordinary result.
\<close>

named_theorems wf_intros \<comment> \<open>introduction rules for well-formedness\<close>
named_theorems const_defs \<comment> \<open>the numeric constants of the headers\<close>

section \<open>Machine integers\<close>

definition wrap64 :: "nat \<Rightarrow> nat" where
  "wrap64 n = n mod 2 ^ 64"

text \<open>The forms evaluation uses: the modulus as a numeral.\<close>

lemma wrap64_code [code]: "wrap64 n = n mod 18446744073709551616"
  by (simp add: wrap64_def)

definition inc64 :: "nat \<Rightarrow> nat" where
  "inc64 n = wrap64 (n + 1)"

definition dec64 :: "nat \<Rightarrow> nat" where
  "dec64 n = wrap64 (n + (2 ^ 64 - 1))"

lemma dec64_code [code]: "dec64 n = wrap64 (n + 18446744073709551615)"
  by (simp add: dec64_def)

lemma wrap64_less [simp]: "wrap64 n < 2 ^ 64"
  by (simp add: wrap64_def)

lemma wrap64_small: "n < 2 ^ 64 \<Longrightarrow> wrap64 n = n"
  by (simp add: wrap64_def)

lemma wrap64_sub: "y \<le> x \<Longrightarrow> x < 2 ^ 64 \<Longrightarrow> wrap64 (x + 2 ^ 64 - y) = x - y"
proof -
  assume le: "y \<le> x" and lt: "x < 2 ^ 64"
  from le have eq: "x + 2 ^ 64 - y = (x - y) + 2 ^ 64" by (rule Nat.diff_add_assoc2)
  from lt have "x - y < 2 ^ 64" by (rule less_imp_diff_less)
  then show ?thesis unfolding wrap64_def eq by (simp only: mod_add_self2 mod_less)
qed

lemma wrap64_less_num [simp]: "wrap64 n < 18446744073709551616"
  using wrap64_less [of n] by simp

section \<open>Intrusive singly linked lists\<close>

text \<open>
  \<open>lseg nx p xs\<close>: following the next-pointers \<open>nx\<close> from \<open>p\<close> visits exactly the
  slots \<open>xs\<close> and then reaches NULL.
\<close>

fun lseg :: "('a \<Rightarrow> 'a option) \<Rightarrow> 'a option \<Rightarrow> 'a list \<Rightarrow> bool" where
  "lseg nx p [] \<longleftrightarrow> p = None"
| "lseg nx p (x # xs) \<longleftrightarrow> p = Some x \<and> lseg nx (nx x) xs"

lemma lseg_None [simp]: "lseg nx None xs \<longleftrightarrow> xs = []"
  by (cases xs) auto

lemma lseg_Some: "lseg nx (Some x) xs \<longleftrightarrow> (\<exists>ys. xs = x # ys \<and> lseg nx (nx x) ys)"
  by (cases xs) auto

lemma lseg_unique: "lseg nx p xs \<Longrightarrow> lseg nx p ys \<Longrightarrow> xs = ys"
  by (induction xs arbitrary: p ys) (auto simp: lseg_Some)

lemma lseg_upd [simp]: "x \<notin> set xs \<Longrightarrow> lseg (nx(x := q)) p xs = lseg nx p xs"
  by (induction xs arbitrary: p) auto

lemma lseg_cong: "(\<And>x. x \<in> set xs \<Longrightarrow> nx x = nx' x) \<Longrightarrow> lseg nx p xs = lseg nx' p xs"
  by (induction xs arbitrary: p) auto

lemma lseg_suffix: "lseg nx p (xs @ y # ys) \<Longrightarrow> lseg nx (Some y) (y # ys)"
  by (induction xs arbitrary: p) auto

lemma lseg_hd_notin: "lseg nx (nx x) xs \<Longrightarrow> x \<notin> set xs"
proof
  assume seg: "lseg nx (nx x) xs" and "x \<in> set xs"
  then obtain us vs where xs: "xs = us @ x # vs"
    by (meson split_list)
  with seg have "lseg nx (nx x) vs"
    using lseg_suffix by fastforce
  with seg xs show False
    using lseg_unique by fastforce
qed

lemma lseg_distinct: "lseg nx p xs \<Longrightarrow> distinct xs"
  by (induction xs arbitrary: p) (auto dest: lseg_hd_notin)

text \<open>Appending a node at the tail, the code's \<^verbatim>\<open>tail->next = node\<close>.\<close>

lemma lseg_snoc:
  "lseg nx p (xs @ [t]) \<Longrightarrow> n \<notin> set (xs @ [t]) \<Longrightarrow>
   lseg (nx(t := Some n, n := None)) p (xs @ [t, n])"
proof (induction xs arbitrary: p)
  case (Cons a xs)
  then have "a \<noteq> t" using lseg_distinct by fastforce
  with Cons show ?case by auto
qed auto

text \<open>Unlinking the successor of a node, the code's \<^verbatim>\<open>prev->next = cursor->next\<close>.\<close>

lemma lseg_unlink:
  "lseg nx p (xs @ a # x # ys) \<Longrightarrow> lseg (nx(a := nx x)) p (xs @ a # ys)"
proof (induction xs arbitrary: p)
  case Nil
  then have "a \<notin> set ys" using lseg_distinct by fastforce
  then have "lseg (nx(a := nx x)) (nx x) ys = lseg nx (nx x) ys" by (rule lseg_upd)
  with Nil show ?case by (simp only: append_Nil lseg.simps fun_upd_same)
next
  case (Cons b xs)
  then have "b \<noteq> a" using lseg_distinct by fastforce
  with Cons show ?case by simp
qed

lemma lseg_head_next: "lseg nx p (x # ys) \<Longrightarrow> lseg nx (nx x) ys"
  by simp

lemma distinct_slots_length: "distinct xs \<Longrightarrow> set xs \<subseteq> {..<n} \<Longrightarrow> length xs \<le> n"
  by (metis card_lessThan card_mono distinct_card finite_lessThan)

lemma remove1_middle: "x \<notin> set us \<Longrightarrow> remove1 x (us @ x # vs) = us @ vs"
  by (simp add: remove1_append)

section \<open>The option monad\<close>

lemma bind_eq_Some: "Option.bind m f = Some y \<longleftrightarrow> (\<exists>x. m = Some x \<and> f x = Some y)"
  by (cases m) auto

end
