(* ===== verification/Sched.thy ===== *)
theory Sched
  imports Prelude
begin

text \<open>
  \<^verbatim>\<open>Kernel/process/sched.c\<close>, \<^verbatim>\<open>Kernel/include/sched.h\<close> and the timer interrupt that drives
  them (\<^verbatim>\<open>Kernel/sys/time.c\<close>, \<^verbatim>\<open>irq_timer_handler\<close>): process control blocks, the four FIFO
  ready queues threaded through \<^verbatim>\<open>queue_next\<close>, aging, and the scheduling step.

  The record \<open>sched_st\<close> is extended by the rest of the kernel state, so every operation here is
  also an operation of the whole kernel. Dereferencing NULL and endless traversals are \<open>None\<close>.
\<close>

section \<open>Process control blocks\<close>

datatype proc_state = NEW | READY | RUNNING | BLOCKED | EXITED

definition MAX_PROCS :: nat where [const_defs]: "MAX_PROCS = 128"
definition MAX_PRIOS :: nat where [const_defs]: "MAX_PRIOS = 4"
definition MIN_PRIO :: int where [const_defs]: "MIN_PRIO = 0"
definition HIGHEST_PRIO :: int where [const_defs]: "HIGHEST_PRIO = 3"
definition TIME_SLICE_TICKS :: int where [const_defs]: "TIME_SLICE_TICKS = 5"
definition AGING_THRESHOLD :: int where [const_defs]: "AGING_THRESHOLD = 10"

text \<open>
  \<^verbatim>\<open>pcb_t\<close>. Pointers into \<^verbatim>\<open>procs\<close> are slot numbers; \<open>kframe\<close>, \<open>kstack_base\<close>,
  \<open>fd_table\<close>, \<open>entry\<close> and \<open>argv\<close> are addresses, 0 for NULL. The queue of wait results
  (\<^verbatim>\<open>wait_res_head\<close>, \<^verbatim>\<open>wait_res_tail\<close>) is the list of its nodes: address, child pid, exit code.
\<close>

record pcb =
  pid :: int
  name :: string
  priority :: int
  base_priority :: int
  state :: proc_state
  kframe :: nat
  kstack_base :: nat
  parent_pid :: int
  fg :: bool
  ticks_left :: int
  next_proc :: "nat option"
  prev_proc :: "nat option"
  queue_next :: "nat option"
  cleanup_next :: "nat option"
  entry :: nat
  argc :: int
  argv :: nat
  exit_code :: int
  used :: bool
  waiting_for :: int
  child_head :: "nat option"
  sibling_next :: "nat option"
  waiter_head :: "nat option"
  wait_res :: "(nat \<times> int \<times> int) list"
  pending_exit_pid :: int
  pending_exit_code :: int
  pending_exit_valid :: bool
  exited :: bool
  zombie_reapable :: bool
  fd_table :: nat
  aging_ticks :: int

text \<open>A PCB after \<^verbatim>\<open>memset(p, 0, sizeof(pcb_t))\<close>.\<close>

definition pcb_zero :: pcb where
  "pcb_zero = \<lparr>pid = 0, name = [], priority = 0, base_priority = 0, state = NEW, kframe = 0,
     kstack_base = 0, parent_pid = 0, fg = False, ticks_left = 0, next_proc = None, prev_proc = None,
     queue_next = None, cleanup_next = None, entry = 0, argc = 0, argv = 0, exit_code = 0,
     used = False, waiting_for = 0, child_head = None, sibling_next = None, waiter_head = None,
     wait_res = [], pending_exit_pid = 0, pending_exit_code = 0, pending_exit_valid = False,
     exited = False, zombie_reapable = False, fd_table = 0, aging_ticks = 0\<rparr>"

record sched_st =
  procs :: "nat \<Rightarrow> pcb"
  ready_head :: "nat \<Rightarrow> nat option"
  ready_tail :: "nat \<Rightarrow> nat option"
  scheduler_enabled :: bool
  cur :: "nat option"
  idle_proc :: "nat option"
  ticks :: nat
  ellapsed :: int
  debug_timer_count :: int

definition upd :: "nat \<Rightarrow> (pcb \<Rightarrow> pcb) \<Rightarrow> 'a sched_st_scheme \<Rightarrow> 'a sched_st_scheme" where
  "upd i f s = s\<lparr>procs := (procs s)(i := f (procs s i))\<rparr>"

abbreviation qnext :: "'a sched_st_scheme \<Rightarrow> nat \<Rightarrow> nat option" where
  "qnext s i \<equiv> queue_next (procs s i)"

lemma upd_simps [simp]:
  "procs (upd i f s) = (procs s)(i := f (procs s i))" "ready_head (upd i f s) = ready_head s"
  "ready_tail (upd i f s) = ready_tail s" "cur (upd i f s) = cur s" "idle_proc (upd i f s) = idle_proc s"
  "scheduler_enabled (upd i f s) = scheduler_enabled s" "ticks (upd i f s) = ticks s"
  "sched_st.more (upd i f s) = sched_st.more s"
  by (simp_all add: upd_def)

section \<open>The ready queues\<close>

text \<open>The clamping of a priority to a queue index.\<close>

definition prio_index :: "int \<Rightarrow> nat" where
  "prio_index p = nat (if p < MIN_PRIO then MIN_PRIO else if p > HIGHEST_PRIO then HIGHEST_PRIO else p)"

definition q_push :: "nat \<Rightarrow> 'a sched_st_scheme \<Rightarrow> 'a sched_st_scheme option" where
  "q_push proc s =
    (let prio = prio_index (priority (procs s proc));
         s1 = upd proc (queue_next_update (\<lambda>_. None)) s
     in case ready_head s1 prio of
          None \<Rightarrow> Some (s1\<lparr>ready_head := (ready_head s1)(prio := Some proc),
                          ready_tail := (ready_tail s1)(prio := Some proc)\<rparr>)
        | Some _ \<Rightarrow> (case ready_tail s1 prio of
            None \<Rightarrow> None
          | Some t \<Rightarrow> Some ((upd t (queue_next_update (\<lambda>_. Some proc)) s1)
                       \<lparr>ready_tail := (ready_tail s1)(prio := Some proc)\<rparr>)))"

definition q_pop :: "nat \<Rightarrow> 'a sched_st_scheme \<Rightarrow> nat option \<times> 'a sched_st_scheme" where
  "q_pop prio s =
    (case ready_head s prio of
       None \<Rightarrow> (None, s)
     | Some h \<Rightarrow>
         (let s1 = s\<lparr>ready_head := (ready_head s)(prio := queue_next (procs s h))\<rparr>;
              s2 = (if ready_head s1 prio = None
                    then s1\<lparr>ready_tail := (ready_tail s1)(prio := None)\<rparr> else s1)
          in (Some h, upd h (queue_next_update (\<lambda>_. None)) s2)))"

partial_function (option) q_remove_loop ::
  "nat \<Rightarrow> nat \<Rightarrow> nat option \<Rightarrow> nat option \<Rightarrow> 'a sched_st_scheme \<Rightarrow> 'a sched_st_scheme option" where
  "q_remove_loop proc prio prev cursor s =
    (case cursor of
       None \<Rightarrow> Some s
     | Some c \<Rightarrow>
         if c = proc then
           let s1 = (case prev of
                       None \<Rightarrow> s\<lparr>ready_head := (ready_head s)(prio := queue_next (procs s c))\<rparr>
                     | Some p \<Rightarrow> upd p (queue_next_update (\<lambda>_. queue_next (procs s c))) s);
               s2 = (if ready_tail s1 prio = Some c
                     then s1\<lparr>ready_tail := (ready_tail s1)(prio := prev)\<rparr> else s1)
           in Some (upd c (queue_next_update (\<lambda>_. None)) s2)
         else q_remove_loop proc prio (Some c) (queue_next (procs s c)) s)"

definition q_remove :: "nat \<Rightarrow> 'a sched_st_scheme \<Rightarrow> 'a sched_st_scheme option" where
  "q_remove proc s =
    (let prio = priority (procs s proc) in
     if prio < MIN_PRIO \<or> prio > HIGHEST_PRIO then Some s
     else q_remove_loop proc (nat prio) None (ready_head s (nat prio)) s)"

text \<open>\<^verbatim>\<open>pick_next\<close>: the first queue that is not empty, from the highest priority down.\<close>

fun pick_from :: "nat list \<Rightarrow> 'a sched_st_scheme \<Rightarrow> nat option \<times> 'a sched_st_scheme" where
  "pick_from [] s = (None, s)"
| "pick_from (prio # ps) s =
    (if ready_head s prio \<noteq> None
     then (case q_pop prio s of
             (Some nx, s') \<Rightarrow> (Some nx, s')
           | (None, s') \<Rightarrow> pick_from ps s')
     else pick_from ps s)"

definition pick_next :: "'a sched_st_scheme \<Rightarrow> nat option \<times> 'a sched_st_scheme" where
  "pick_next s = pick_from [3, 2, 1, 0] s"

definition sched_pick_next :: "'a sched_st_scheme \<Rightarrow> nat option \<times> 'a sched_st_scheme" where
  "sched_pick_next s = pick_next s"

section \<open>Aging\<close>

text \<open>
  One queue of \<^verbatim>\<open>apply_aging\<close>: \<open>prev\<close> and \<open>node\<close> are the cursors, \<open>ph\<close> and \<open>pt\<close> the ends of
  the list of promoted processes.
\<close>

partial_function (option) aging_loop ::
  "nat \<Rightarrow> nat option \<Rightarrow> nat option \<Rightarrow> nat option \<times> nat option \<Rightarrow> 'a sched_st_scheme
   \<Rightarrow> ((nat option \<times> nat option) \<times> 'a sched_st_scheme) option" where
  "aging_loop prio prev node promoted s =
    (case node of
       None \<Rightarrow> Some (promoted, s)
     | Some n \<Rightarrow>
         let nx = queue_next (procs s n);
             a1 = aging_ticks (procs s n) + 1;
             a2 = (if a1 > AGING_THRESHOLD then AGING_THRESHOLD else a1);
             s1 = upd n (aging_ticks_update (\<lambda>_. a2)) s
         in if priority (procs s1 n) < HIGHEST_PRIO \<and> a2 \<ge> AGING_THRESHOLD then
              let s2 = (case prev of
                          None \<Rightarrow> s1\<lparr>ready_head := (ready_head s1)(prio := nx)\<rparr>
                        | Some p \<Rightarrow> upd p (queue_next_update (\<lambda>_. nx)) s1);
                  s3 = (if ready_tail s2 prio = Some n
                        then s2\<lparr>ready_tail := (ready_tail s2)(prio := prev)\<rparr> else s2);
                  s4 = upd n (queue_next_update (\<lambda>_. None)) s3;
                  (promoted', s5) =
                    (case promoted of
                       (ph, None) \<Rightarrow> ((Some n, Some n), s4)
                     | (ph, Some pt) \<Rightarrow> ((ph, Some n), upd pt (queue_next_update (\<lambda>_. Some n)) s4));
                  s6 = upd n (\<lambda>p. p\<lparr>priority := priority p + 1, aging_ticks := 0\<rparr>) s5
              in aging_loop prio prev nx promoted' s6
            else aging_loop prio (Some n) nx promoted s1)"

partial_function (option) reinsert_loop ::
  "nat option \<Rightarrow> 'a sched_st_scheme \<Rightarrow> 'a sched_st_scheme option" where
  "reinsert_loop promoted s =
    (case promoted of
       None \<Rightarrow> Some s
     | Some p \<Rightarrow>
         do {
           s1 \<leftarrow> q_push p (upd p (queue_next_update (\<lambda>_. None)) s);
           reinsert_loop (queue_next (procs s p)) s1
         })"

fun aging_prios ::
  "nat list \<Rightarrow> nat option \<times> nat option \<Rightarrow> 'a sched_st_scheme
   \<Rightarrow> ((nat option \<times> nat option) \<times> 'a sched_st_scheme) option" where
  "aging_prios [] promoted s = Some (promoted, s)"
| "aging_prios (prio # ps) promoted s = do {
     (promoted', s') \<leftarrow> aging_loop prio None (ready_head s prio) promoted s;
     aging_prios ps promoted' s'
   }"

definition apply_aging :: "'a sched_st_scheme \<Rightarrow> 'a sched_st_scheme option" where
  "apply_aging s = do {
     ((ph, _), s1) \<leftarrow> aging_prios [0, 1, 2, 3] (None, None) s;
     reinsert_loop ph s1
   }"

section \<open>Scheduling\<close>

definition sched_start :: "'a sched_st_scheme \<Rightarrow> 'a sched_st_scheme" where
  "sched_start s = s\<lparr>scheduler_enabled := True\<rparr>"

definition sched_is_enabled :: "'a sched_st_scheme \<Rightarrow> bool" where
  "sched_is_enabled s = scheduler_enabled s"

definition sched_current :: "'a sched_st_scheme \<Rightarrow> nat option" where
  "sched_current s = cur s"

definition sched_get_idle :: "'a sched_st_scheme \<Rightarrow> nat option" where
  "sched_get_idle s = idle_proc s"

definition sched_enqueue :: "nat \<Rightarrow> 'a sched_st_scheme \<Rightarrow> 'a sched_st_scheme option" where
  "sched_enqueue proc s =
    (if \<not> scheduler_enabled s \<and> cur s = None then
       Some ((upd proc (\<lambda>p. p\<lparr>state := RUNNING, ticks_left := TIME_SLICE_TICKS\<rparr>) s)\<lparr>cur := Some proc\<rparr>)
     else
       let prio = priority (procs s proc);
           prio' = (if prio < MIN_PRIO then MIN_PRIO else if prio > HIGHEST_PRIO then HIGHEST_PRIO else prio)
       in q_push proc (upd proc (\<lambda>p. p\<lparr>priority := prio', queue_next := None, state := READY,
                                       ticks_left := TIME_SLICE_TICKS, aging_ticks := 0\<rparr>) s))"

definition sched_remove :: "nat \<Rightarrow> 'a sched_st_scheme \<Rightarrow> 'a sched_st_scheme option" where
  "sched_remove proc s =
    (let s1 = (if cur s = Some proc then s\<lparr>cur := None\<rparr> else s)
     in if state (procs s1 proc) = READY then q_remove proc s1 else Some s1)"

text \<open>The result is the stack pointer to switch to, 0 for no switch.\<close>

definition schedule :: "nat \<Rightarrow> 'a sched_st_scheme \<Rightarrow> (nat \<times> 'a sched_st_scheme) option" where
  "schedule cur_rsp s =
    (case cur s of
       None \<Rightarrow> Some (0, s)
     | Some prev \<Rightarrow>
       if \<not> scheduler_enabled s then Some (0, s)
       else
         let s1 = upd prev (kframe_update (\<lambda>_. cur_rsp)) s;
             s2 = (if ticks_left (procs s1 prev) > 0
                   then upd prev (ticks_left_update (\<lambda>t. t - 1)) s1 else s1)
         in if ticks_left (procs s2 prev) > 0 \<and> state (procs s2 prev) = RUNNING then Some (0, s2)
         else do {
           s3 \<leftarrow> (if state (procs s2 prev) = RUNNING \<and> idle_proc s2 \<noteq> Some prev
                 then q_push prev (upd prev (\<lambda>p. p\<lparr>state := READY, ticks_left := TIME_SLICE_TICKS,
                                                   priority := base_priority p, aging_ticks := 0\<rparr>) s2)
                 else Some s2);
           let s4 = (if state (procs s3 prev) = BLOCKED \<or> state (procs s3 prev) = EXITED
                     then upd prev (ticks_left_update (\<lambda>_. 0)) s3 else s3);
           s5 \<leftarrow> apply_aging s4;
           let (picked, s6) = pick_next s5;
           let nx0 = (case picked of None \<Rightarrow> idle_proc s6 | Some n \<Rightarrow> Some n);
           case nx0 of
             None \<Rightarrow> Some (0, s6\<lparr>cur := Some prev\<rparr>)
           | Some n0 \<Rightarrow>
             let nx = (if kframe (procs s6 n0) = 0 then
                         (case idle_proc s6 of
                            Some idle \<Rightarrow> if idle \<noteq> n0 \<and> kframe (procs s6 idle) \<noteq> 0 then Some idle else None
                          | None \<Rightarrow> None)
                       else Some n0)
             in (case nx of
                   None \<Rightarrow> Some (0, s6\<lparr>cur := Some prev\<rparr>)
                 | Some n \<Rightarrow>
                     let s7 = upd n (\<lambda>p. p\<lparr>state := RUNNING, ticks_left := TIME_SLICE_TICKS\<rparr>) s6;
                         s8 = (if idle_proc s7 \<noteq> Some n
                               then upd n (\<lambda>p. p\<lparr>priority := base_priority p, aging_ticks := 0\<rparr>) s7 else s7);
                         s9 = s8\<lparr>cur := Some n\<rparr>
                     in Some (kframe (procs s9 n), s9))
         })"

section \<open>The timer interrupt\<close>

text \<open>\<^verbatim>\<open>Kernel/sys/time.c\<close>; \<open>ellapsed\<close> and \<open>debug_timer_count\<close> are 32-bit \<^verbatim>\<open>int\<close>.\<close>

definition swrap32 :: "int \<Rightarrow> int" where
  "swrap32 n = (n + 2147483648) mod 4294967296 - 2147483648"

definition timer_handler :: "'a sched_st_scheme \<Rightarrow> 'a sched_st_scheme" where
  "timer_handler s =
    (let d = debug_timer_count s + 1 in
     s\<lparr>ticks := inc64 (ticks s), ellapsed := swrap32 (ellapsed s + 55),
       debug_timer_count := (if d \<ge> 100 then 0 else d)\<rparr>)"

definition ticks_elapsed :: "'a sched_st_scheme \<Rightarrow> int" where
  "ticks_elapsed s = swrap32 (int (ticks s))"

definition seconds_elapsed :: "'a sched_st_scheme \<Rightarrow> int" where
  "seconds_elapsed s = swrap32 (int (ticks s div 18))"

definition ms_elapsed :: "'a sched_st_scheme \<Rightarrow> int" where
  "ms_elapsed s = swrap32 (int (wrap64 (ticks s * 5000) div 91))"

text \<open>\<^verbatim>\<open>timer_wait\<close>'s loop condition, at a later tick count \<open>now\<close>.\<close>

definition timer_wait_over :: "int \<Rightarrow> nat \<Rightarrow> nat \<Rightarrow> bool" where
  "timer_wait_over delta initial_ticks now \<longleftrightarrow>
     \<not> wrap64 (now + 2 ^ 64 - initial_ticks) < (if delta < 0 then 0 else nat delta)"

text \<open>\<^verbatim>\<open>irq_timer_handler\<close>: the tick, then the scheduling decision on the saved stack pointer.\<close>

definition irq_timer :: "nat \<Rightarrow> 'a sched_st_scheme \<Rightarrow> (nat \<times> 'a sched_st_scheme) option" where
  "irq_timer sp s = schedule sp (timer_handler s)"

text \<open>\<^verbatim>\<open>_force_schedule\<close> raises the timer interrupt; \<open>sp\<close> is the stack pointer it saves.\<close>

definition sched_force_yield :: "nat \<Rightarrow> 'a sched_st_scheme \<Rightarrow> (nat \<times> 'a sched_st_scheme) option" where
  "sched_force_yield sp s =
    irq_timer sp (case cur s of None \<Rightarrow> s | Some c \<Rightarrow> upd c (ticks_left_update (\<lambda>_. 0)) s)"

declare q_remove_loop.simps [code] aging_loop.simps [code] reinsert_loop.simps [code]

end
