(* ===== verification/Sched_Queues.thy ===== *)
theory Sched_Queues
  imports Sched
begin

text \<open>
  The ready queues as lists: \<open>queues Q s\<close> relates the intrusive lists of the code to one list of
  slots per priority. Each queue operation is shown to be the list operation one expects of a
  FIFO queue, whatever the rest of the kernel state is.
\<close>

section \<open>Representation\<close>

definition last_opt :: "'a list \<Rightarrow> 'a option" where
  "last_opt xs = (if xs = [] then None else Some (last xs))"

definition hd_opt :: "'a list \<Rightarrow> 'a option" where
  "hd_opt xs = (case xs of [] \<Rightarrow> None | x # _ \<Rightarrow> Some x)"

lemma opt_simps [simp]:
  "last_opt [] = None" "last_opt (xs @ [x]) = Some x" "last_opt (xs @ [y, x]) = Some x" "last_opt [x] = Some x" "hd_opt [] = None" "hd_opt (x # xs) = Some x"
  "last_opt xs = None \<longleftrightarrow> xs = []" "hd_opt xs = None \<longleftrightarrow> xs = []"
  by (auto simp: last_opt_def hd_opt_def split: list.split)

lemma last_opt_append: "last_opt (xs @ ys) = (if ys = [] then last_opt xs else last_opt ys)"
  by (simp add: last_opt_def)

lemma last_opt_Some: "last_opt xs = Some t \<longleftrightarrow> (\<exists>ys. xs = ys @ [t])"
  by (auto simp: last_opt_def) (metis append_butlast_last_id)

lemma lseg_head: "lseg nx p xs \<Longrightarrow> p = hd_opt xs"
  by (cases xs) auto

text \<open>Everything of a PCB but its queue link.\<close>

definition strip :: "pcb \<Rightarrow> pcb" where
  "strip p = p\<lparr>queue_next := None\<rparr>"

lemma strip_eqD:
  "strip p = strip q \<Longrightarrow> priority p = priority q" "strip p = strip q \<Longrightarrow> state p = state q"
  "strip p = strip q \<Longrightarrow> ticks_left p = ticks_left q" "strip p = strip q \<Longrightarrow> kframe p = kframe q"
  "strip p = strip q \<Longrightarrow> base_priority p = base_priority q" "strip p = strip q \<Longrightarrow> aging_ticks p = aging_ticks q"
  "strip p = strip q \<Longrightarrow> pid p = pid q" "strip p = strip q \<Longrightarrow> used p = used q"
  by (cases p; cases q; simp add: strip_def)+

lemma strip_upd [simp]: "strip (p\<lparr>queue_next := x\<rparr>) = strip p" "strip (queue_next_update f p) = strip p"
  by (simp_all add: strip_def)

text \<open>A queue operation changes queue links and queue ends, nothing else.\<close>

definition qframe :: "'a sched_st_scheme \<Rightarrow> 'a sched_st_scheme \<Rightarrow> bool" where
  "qframe s s' \<longleftrightarrow> (\<forall>i. strip (procs s' i) = strip (procs s i))
     \<and> cur s' = cur s \<and> idle_proc s' = idle_proc s \<and> scheduler_enabled s' = scheduler_enabled s
     \<and> ticks s' = ticks s \<and> ellapsed s' = ellapsed s \<and> debug_timer_count s' = debug_timer_count s
     \<and> sched_st.more s' = sched_st.more s"

lemma qframe_refl [simp]: "qframe s s"
  by (simp add: qframe_def)

lemma qframe_trans [trans]: "qframe s t \<Longrightarrow> qframe t u \<Longrightarrow> qframe s u"
  by (simp add: qframe_def)

lemma qframe_fields:
  assumes "qframe s s'"
  shows "cur s' = cur s" "idle_proc s' = idle_proc s" "scheduler_enabled s' = scheduler_enabled s"
    "ticks s' = ticks s" "sched_st.more s' = sched_st.more s"
    "priority (procs s' i) = priority (procs s i)" "state (procs s' i) = state (procs s i)"
    "ticks_left (procs s' i) = ticks_left (procs s i)" "kframe (procs s' i) = kframe (procs s i)"
    "base_priority (procs s' i) = base_priority (procs s i)"
    "aging_ticks (procs s' i) = aging_ticks (procs s i)"
    "pid (procs s' i) = pid (procs s i)" "used (procs s' i) = used (procs s i)"
proof -
  have eq: "strip (procs s' i) = strip (procs s i)" using assms by (simp add: qframe_def)
  show "priority (procs s' i) = priority (procs s i)" "state (procs s' i) = state (procs s i)"
    "ticks_left (procs s' i) = ticks_left (procs s i)" "kframe (procs s' i) = kframe (procs s i)"
    "base_priority (procs s' i) = base_priority (procs s i)"
    "aging_ticks (procs s' i) = aging_ticks (procs s i)"
    "pid (procs s' i) = pid (procs s i)" "used (procs s' i) = used (procs s i)"
    using strip_eqD [OF eq] by simp_all
qed (use assms in \<open>auto simp: qframe_def\<close>)

definition queues :: "(nat \<Rightarrow> nat list) \<Rightarrow> 'a sched_st_scheme \<Rightarrow> bool" where
  "queues Q s \<longleftrightarrow>
     (\<forall>p<4. lseg (qnext s) (ready_head s p) (Q p) \<and> ready_tail s p = last_opt (Q p))
     \<and> (\<forall>p<4. \<forall>q<4. p \<noteq> q \<longrightarrow> set (Q p) \<inter> set (Q q) = {})"

definition queued :: "(nat \<Rightarrow> nat list) \<Rightarrow> nat set" where
  "queued Q = (\<Union>p\<in>{..<4}. set (Q p))"

lemma queued_iff: "i \<in> queued Q \<longleftrightarrow> (\<exists>p<4. i \<in> set (Q p))"
  by (auto simp: queued_def)

lemma queues_lseg: "queues Q s \<Longrightarrow> p < 4 \<Longrightarrow> lseg (qnext s) (ready_head s p) (Q p)"
  and queues_tail: "queues Q s \<Longrightarrow> p < 4 \<Longrightarrow> ready_tail s p = last_opt (Q p)"
  and queues_disj: "queues Q s \<Longrightarrow> p < 4 \<Longrightarrow> q < 4 \<Longrightarrow> i \<in> set (Q p) \<Longrightarrow> i \<in> set (Q q) \<Longrightarrow> p = q"
  by (auto simp: queues_def)

text \<open>The one rule every operation uses: one queue changes, the links of the others do not.\<close>

lemma queues_update:
  assumes "queues Q s" "p < 4"
    and "lseg (qnext s') (ready_head s' p) xs" "ready_tail s' p = last_opt xs"
    and "\<And>q. q < 4 \<Longrightarrow> q \<noteq> p \<Longrightarrow> ready_head s' q = ready_head s q \<and> ready_tail s' q = ready_tail s q"
    and "\<And>q i. q < 4 \<Longrightarrow> q \<noteq> p \<Longrightarrow> i \<in> set (Q q) \<Longrightarrow> qnext s' i = qnext s i \<and> i \<notin> set xs"
  shows "queues (Q(p := xs)) s'"
proof -
  have other: "lseg (qnext s') (ready_head s' q) (Q q) \<and> ready_tail s' q = last_opt (Q q)"
    if q: "q < 4" "q \<noteq> p" for q
  proof -
    have "lseg (qnext s) (ready_head s q) (Q q) = lseg (qnext s') (ready_head s q) (Q q)"
      by (rule lseg_cong) (use assms(6) [OF q] in simp)
    with assms(1,5) q show ?thesis by (simp add: queues_def)
  qed
  have "set xs \<inter> set (Q q) = {}" if "q < 4" "q \<noteq> p" for q
    using assms(6) [OF that] by auto
  with other assms(1-4) show ?thesis
    unfolding queues_def by (simp add: Int_commute)
qed

section \<open>Push, pop, remove\<close>

lemma prio_index_less [simp]: "prio_index p < 4"
  by (auto simp: prio_index_def const_defs)

lemma prio_index_int: "0 \<le> p \<Longrightarrow> p \<le> 3 \<Longrightarrow> int (prio_index p) = p"
  by (auto simp: prio_index_def const_defs)

lemma q_push_queues:
  assumes Q: "queues Q s" and new: "proc \<notin> queued Q" and p: "p = prio_index (priority (procs s proc))"
  shows "\<exists>s'. q_push proc s = Some s' \<and> queues (Q(p := Q p @ [proc])) s' \<and> qframe s s'
     \<and> (\<forall>i. i \<notin> set (Q p) \<longrightarrow> i \<noteq> proc \<longrightarrow> qnext s' i = qnext s i)"
proof -
  let ?s1 = "upd proc (queue_next_update (\<lambda>_. None)) s"
  have p4: "p < 4" by (simp add: p)
  have notin: "proc \<notin> set (Q q)" if "q < 4" for q using new that by (auto simp: queued_iff)
  have seg: "lseg (qnext s) (ready_head s p) (Q p)" and tlp: "ready_tail s p = last_opt (Q p)"
    using Q p4 by (auto simp: queues_def)
  have disj: "i \<notin> set (Q p)" if "q < 4" "q \<noteq> p" "i \<in> set (Q q)" for q i
    using queues_disj [OF Q that(1) p4 that(3)] that(2) by blast
  show ?thesis
  proof (cases "Q p = []")
    case True
    let ?s = "?s1\<lparr>ready_head := (ready_head ?s1)(p := Some proc), ready_tail := (ready_tail ?s1)(p := Some proc)\<rparr>"
    have "q_push proc s = Some ?s"
      using seg True by (simp add: q_push_def Let_def p [symmetric])
    moreover have "queues (Q(p := Q p @ [proc])) ?s"
      by (rule queues_update [OF Q p4]) (use True notin in auto)
    moreover have "qframe s ?s"
      by (auto simp: qframe_def upd_def)
    ultimately show ?thesis by (intro exI [of _ ?s]) simp
  next
    case False
    then obtain us t where us: "Q p = us @ [t]" by (metis append_butlast_last_id)
    let ?s2 = "upd t (queue_next_update (\<lambda>_. Some proc)) ?s1"
    let ?s = "?s2\<lparr>ready_tail := (ready_tail ?s1)(p := Some proc)\<rparr>"
    have ne: "t \<noteq> proc" "t \<in> set (Q p)" "proc \<notin> set us" using notin [OF p4] us by auto
    have "ready_head s p \<noteq> None" using seg False by (cases "Q p") auto
    then have run: "q_push proc s = Some ?s"
      using tlp us by (auto simp: q_push_def Let_def p [symmetric])
    have "lseg ((qnext s)(t := Some proc, proc := None)) (ready_head s p) (us @ [t, proc])"
      by (rule lseg_snoc) (use seg us notin [OF p4] in auto)
    moreover have "qnext ?s = (qnext s)(t := Some proc, proc := None)"
      using ne by (auto simp: fun_eq_iff)
    ultimately have "queues (Q(p := Q p @ [proc])) ?s"
      by (intro queues_update [OF Q p4]) (use us notin disj ne in auto)
    moreover have "qframe s ?s"
      using ne by (auto simp: qframe_def upd_def)
    moreover have "\<forall>i. i \<notin> set (Q p) \<longrightarrow> i \<noteq> proc \<longrightarrow> qnext ?s i = qnext s i" using ne by auto
    ultimately show ?thesis using run by (intro exI [of _ ?s]) simp
  qed
qed

lemma q_pop_queues:
  assumes Q: "queues Q s" and p4: "p < 4"
  shows "case Q p of
      [] \<Rightarrow> q_pop p s = (None, s)
    | h # t \<Rightarrow> \<exists>s'. q_pop p s = (Some h, s') \<and> queues (Q(p := t)) s' \<and> qframe s s'"
proof -
  have seg: "lseg (qnext s) (ready_head s p) (Q p)" and tlp: "ready_tail s p = last_opt (Q p)"
    using Q p4 by (auto simp: queues_def)
  show ?thesis
  proof (cases "Q p")
    case Nil
    with seg show ?thesis by (simp add: q_pop_def)
  next
    case (Cons h t)
    let ?s1 = "s\<lparr>ready_head := (ready_head s)(p := qnext s h)\<rparr>"
    let ?s2 = "if ready_head ?s1 p = None then ?s1\<lparr>ready_tail := (ready_tail ?s1)(p := None)\<rparr> else ?s1"
    let ?s = "upd h (queue_next_update (\<lambda>_. None)) ?s2"
    have h: "ready_head s p = Some h" "lseg (qnext s) (qnext s h) t" "h \<notin> set t"
      using seg Cons lseg_distinct [OF seg] by auto
    have run: "q_pop p s = (Some h, ?s)" using h by (simp add: q_pop_def Let_def)
    have t0: "qnext s h = None \<longleftrightarrow> t = []" using h(2) by (cases t) auto
    have nx: "qnext ?s = (qnext s)(h := None)" "ready_head ?s = (ready_head s)(p := qnext s h)"
      "ready_tail ?s = (if t = [] then (ready_tail s)(p := None) else ready_tail s)"
      using t0 by (auto simp: fun_eq_iff)
    have "lseg (qnext ?s) (ready_head ?s p) t"
      unfolding nx using h(2,3) by simp
    moreover have "ready_tail ?s p = last_opt t"
      unfolding nx using tlp Cons by (simp add: last_opt_def)
    moreover have "h \<in> set (Q p)" "set t \<subseteq> set (Q p)" using Cons by auto
    ultimately have "queues (Q(p := t)) ?s"
      by (intro queues_update [OF Q p4]) (use nx queues_disj [OF Q _ p4] in auto)
    moreover have "qframe s ?s" by (auto simp: qframe_def upd_def)
    ultimately show ?thesis using run Cons by auto
  qed
qed

text \<open>What the loop of \<^verbatim>\<open>q_remove\<close> does once it stands on the process, \<open>pv\<close> being its predecessor.\<close>

definition unlink_at :: "nat \<Rightarrow> nat option \<Rightarrow> nat \<Rightarrow> 'a sched_st_scheme \<Rightarrow> 'a sched_st_scheme" where
  "unlink_at prio pv proc s =
    (let s1 = (case pv of None \<Rightarrow> s\<lparr>ready_head := (ready_head s)(prio := qnext s proc)\<rparr>
               | Some p \<Rightarrow> upd p (queue_next_update (\<lambda>_. qnext s proc)) s);
         s2 = (if ready_tail s1 prio = Some proc then s1\<lparr>ready_tail := (ready_tail s1)(prio := pv)\<rparr> else s1)
     in upd proc (queue_next_update (\<lambda>_. None)) s2)"

lemma unlink_at_None:
  "qnext (unlink_at prio None proc s) i = ((qnext s)(proc := None)) i"
  "ready_head (unlink_at prio None proc s) = (ready_head s)(prio := qnext s proc)"
  "ready_tail (unlink_at prio None proc s) =
     (if ready_tail s prio = Some proc then (ready_tail s)(prio := None) else ready_tail s)"
  by (auto simp: unlink_at_def Let_def fun_eq_iff)

lemma unlink_at_Some:
  "a \<noteq> proc \<Longrightarrow> qnext (unlink_at prio (Some a) proc s) i = ((qnext s)(a := qnext s proc, proc := None)) i"
  "ready_head (unlink_at prio (Some a) proc s) = ready_head s"
  "ready_tail (unlink_at prio (Some a) proc s) =
     (if ready_tail s prio = Some proc then (ready_tail s)(prio := Some a) else ready_tail s)"
  by (auto simp: unlink_at_def Let_def fun_eq_iff)

lemma q_remove_loop_found:
  "lseg (qnext s) cursor (us @ proc # vs) \<Longrightarrow> proc \<notin> set us \<Longrightarrow>
   q_remove_loop proc prio prev cursor s =
     Some (unlink_at prio (if us = [] then prev else Some (last us)) proc s)"
proof (induction us arbitrary: cursor prev)
  case Nil
  then show ?case by (subst q_remove_loop.simps) (simp add: unlink_at_def Let_def)
next
  case (Cons x us)
  then have "q_remove_loop proc prio prev cursor s = q_remove_loop proc prio (Some x) (qnext s x) s"
    by (subst q_remove_loop.simps) auto
  with Cons show ?case by simp
qed

lemma q_remove_loop_absent:
  "lseg (qnext s) cursor xs \<Longrightarrow> proc \<notin> set xs \<Longrightarrow> q_remove_loop proc prio prev cursor s = Some s"
proof (induction xs arbitrary: cursor prev)
  case Nil
  then show ?case by (subst q_remove_loop.simps) simp
next
  case (Cons x xs)
  then have "q_remove_loop proc prio prev cursor s = q_remove_loop proc prio (Some x) (qnext s x) s"
    by (subst q_remove_loop.simps) auto
  with Cons show ?case by simp
qed

lemma q_remove_queues:
  assumes Q: "queues Q s" and pr: "0 \<le> priority (procs s proc)" "priority (procs s proc) \<le> 3"
    and p: "p = nat (priority (procs s proc))"
  shows "\<exists>s'. q_remove proc s = Some s' \<and> queues (Q(p := remove1 proc (Q p))) s' \<and> qframe s s'"
proof -
  have p4: "p < 4" using pr p by simp
  have seg: "lseg (qnext s) (ready_head s p) (Q p)" and tlp: "ready_tail s p = last_opt (Q p)"
    using Q p4 by (auto simp: queues_def)
  have disj: "i \<notin> set (Q p)" if "q < 4" "q \<noteq> p" "i \<in> set (Q q)" for q i
    using queues_disj [OF Q that(1) p4 that(3)] that(2) by blast
  have run: "q_remove proc s = q_remove_loop proc p None (ready_head s p) s"
    using pr p by (simp add: q_remove_def const_defs Let_def)
  show ?thesis
  proof (cases "proc \<in> set (Q p)")
    case False
    with run q_remove_loop_absent [OF seg False] have "q_remove proc s = Some s" by simp
    moreover have "Q(p := remove1 proc (Q p)) = Q" using False by (simp add: remove1_idem)
    ultimately show ?thesis using Q by (intro exI [of _ s]) simp
  next
    case True
    then obtain us vs where us: "Q p = us @ proc # vs" "proc \<notin> set us"
      by (meson split_list_first)
    have rm: "remove1 proc (Q p) = us @ vs" using us by (simp add: remove1_middle)
    have dis: "distinct (us @ proc # vs)" using lseg_distinct [OF seg] us by simp
    have tail_iff: "ready_tail s p = Some proc \<longleftrightarrow> vs = []"
      using dis us by (auto simp: tlp last_opt_def)
    let ?pv = "if us = [] then None else Some (last us)"
    let ?s = "unlink_at p ?pv proc s"
    have go: "q_remove proc s = Some ?s"
      using run q_remove_loop_found [of s "ready_head s p" us proc vs p None] seg us by simp
    have "queues (Q(p := us @ vs)) ?s"
    proof (cases us rule: rev_cases)
      case Nil
      have "lseg (\<lambda>i. if i = proc then None else qnext s i) (qnext s proc) vs = lseg (qnext s) (qnext s proc) vs"
        by (rule lseg_cong) (use dis in auto)
      with seg us Nil show ?thesis
        by (intro queues_update [OF Q p4])
          (use tlp tail_iff disj True in \<open>auto simp: unlink_at_None last_opt_def\<close>)
    next
      case (snoc ws a)
      have ne: "a \<noteq> proc" "proc \<notin> set (ws @ a # vs)" using dis snoc by auto
      have "lseg ((qnext s)(a := qnext s proc)) (ready_head s p) (ws @ a # vs)"
        by (rule lseg_unlink [of _ _ ws a proc vs]) (use seg us snoc in simp)
      moreover have "lseg (qnext ?s) (ready_head s p) (ws @ a # vs)
          = lseg ((qnext s)(a := qnext s proc)) (ready_head s p) (ws @ a # vs)"
        by (rule lseg_cong) (use ne snoc in \<open>auto simp: unlink_at_Some\<close>)
      ultimately have "lseg (qnext ?s) (ready_head s p) (us @ vs)" using snoc by simp
      moreover have "ready_tail ?s p = last_opt (us @ vs)"
        using tlp us snoc tail_iff by (auto simp: unlink_at_Some last_opt_def)
      ultimately show ?thesis
        by (intro queues_update [OF Q p4])
          (use snoc disj us True ne in \<open>auto simp: unlink_at_Some\<close>)
    qed
    moreover have "qframe s ?s"
      by (cases us rule: rev_cases) (auto simp: qframe_def unlink_at_def upd_def Let_def)
    ultimately show ?thesis using rm go by (intro exI [of _ ?s]) simp
  qed
qed

end
