(* ===== verification/Sched_Aging.thy ===== *)
theory Sched_Aging
  imports Sched_Queues
begin

text \<open>
  \<^verbatim>\<open>pick_next\<close> and \<^verbatim>\<open>apply_aging\<close> on the abstract queues: the head of the highest non-empty
  queue is picked, and a process that waited ten scheduling decisions moves to the tail of the next
  queue up.
\<close>

section \<open>Picking\<close>

lemma pick_from_queues:
  assumes Q: "queues Q s" and ps: "set ps \<subseteq> {..<4}"
  shows "case find (\<lambda>p. Q p \<noteq> []) ps of
      None \<Rightarrow> pick_from ps s = (None, s)
    | Some p \<Rightarrow> \<exists>s'. pick_from ps s = (Some (hd (Q p)), s') \<and> queues (Q(p := tl (Q p))) s' \<and> qframe s s'"
  using ps
proof (induction ps)
  case (Cons p ps)
  then have p4: "p < 4" by simp
  have hd: "ready_head s p = hd_opt (Q p)" using queues_lseg [OF Q p4] by (rule lseg_head)
  show ?case
  proof (cases "Q p")
    case Nil
    with hd have skip: "pick_from (p # ps) s = pick_from ps s" by simp
    from Cons Nil show ?thesis unfolding skip by simp
  next
    case (Cons h t)
    with q_pop_queues [OF Q p4] hd show ?thesis by auto
  qed
qed simp

definition top_queue :: "(nat \<Rightarrow> nat list) \<Rightarrow> nat option" where
  "top_queue Q = find (\<lambda>p. Q p \<noteq> []) [3, 2, 1, 0]"

lemma top_queue_None: "top_queue Q = None \<longleftrightarrow> (\<forall>p<4. Q p = [])"
  by (auto simp: top_queue_def find_None_iff All_less_Suc numeral_eq_Suc)

lemma top_queue_Some: "top_queue Q = Some p \<Longrightarrow> p < 4 \<and> Q p \<noteq> [] \<and> (\<forall>q. p < q \<and> q < 4 \<longrightarrow> Q q = [])"
  by (auto simp: top_queue_def less_Suc_eq numeral_eq_Suc split: if_splits)

lemma pick_next_queues:
  assumes "queues Q s"
  shows "case top_queue Q of
      None \<Rightarrow> pick_next s = (None, s)
    | Some p \<Rightarrow> \<exists>s'. pick_next s = (Some (hd (Q p)), s') \<and> queues (Q(p := tl (Q p))) s' \<and> qframe s s'"
  unfolding pick_next_def top_queue_def by (rule pick_from_queues [OF assms]) simp

section \<open>Aging\<close>

definition aged_ticks :: "pcb \<Rightarrow> int" where
  "aged_ticks p = (if aging_ticks p + 1 > AGING_THRESHOLD then AGING_THRESHOLD else aging_ticks p + 1)"

definition promotes :: "pcb \<Rightarrow> bool" where
  "promotes p \<longleftrightarrow> priority p < HIGHEST_PRIO \<and> aged_ticks p \<ge> AGING_THRESHOLD"

definition aged :: "pcb \<Rightarrow> pcb" where
  "aged p = (if promotes p then p\<lparr>priority := priority p + 1, aging_ticks := 0\<rparr>
             else p\<lparr>aging_ticks := aged_ticks p\<rparr>)"

lemma aged_fields [simp]:
  "state (aged p) = state p" "kframe (aged p) = kframe p" "base_priority (aged p) = base_priority p"
  "queue_next (aged p) = queue_next p" "pid (aged p) = pid p" "used (aged p) = used p"
  "ticks_left (aged p) = ticks_left p" "name (aged p) = name p" "fd_table (aged p) = fd_table p"
  by (simp_all add: aged_def)

lemma strip_aged: "strip p = strip q \<Longrightarrow> strip (aged p) = strip (aged q)"
  by (cases p; cases q) (auto simp: strip_def aged_def promotes_def aged_ticks_def)

lemma promotes_strip: "strip p = strip q \<Longrightarrow> promotes p = promotes q"
  by (cases p; cases q) (auto simp: strip_def promotes_def aged_ticks_def)

text \<open>What one walk over a queue may change: links of the walked nodes, aging fields of those seen.\<close>

definition aframe :: "nat set \<Rightarrow> 'a sched_st_scheme \<Rightarrow> 'a sched_st_scheme \<Rightarrow> bool" where
  "aframe A s s' \<longleftrightarrow>
     (\<forall>i. strip (procs s' i) = (if i \<in> A then strip (aged (procs s i)) else strip (procs s i)))
     \<and> cur s' = cur s \<and> idle_proc s' = idle_proc s \<and> scheduler_enabled s' = scheduler_enabled s
     \<and> ticks s' = ticks s \<and> ellapsed s' = ellapsed s \<and> debug_timer_count s' = debug_timer_count s
     \<and> sched_st.more s' = sched_st.more s"

lemma aframe_empty: "aframe {} s s' \<longleftrightarrow> qframe s s'"
  by (simp add: aframe_def qframe_def)

lemma aframe_trans:
  "aframe A s t \<Longrightarrow> aframe B t u \<Longrightarrow> A \<inter> B = {} \<Longrightarrow> aframe (A \<union> B) s u"
proof -
  assume st: "aframe A s t" and tu: "aframe B t u" and dis: "A \<inter> B = {}"
  have "strip (procs u i) = (if i \<in> A \<union> B then strip (aged (procs s i)) else strip (procs s i))" for i
  proof (cases "i \<in> B")
    case True
    with dis st have "strip (procs t i) = strip (procs s i)" by (auto simp: aframe_def)
    then have "strip (aged (procs t i)) = strip (aged (procs s i))" by (rule strip_aged)
    with True tu show ?thesis by (simp add: aframe_def)
  qed (use st tu in \<open>simp add: aframe_def\<close>)
  with st tu show ?thesis by (simp add: aframe_def)
qed

lemma lseg_snoc_opt:
  assumes "lseg nx p xs" "n \<notin> set xs"
  shows "lseg (case last_opt xs of None \<Rightarrow> nx(n := None) | Some t \<Rightarrow> nx(t := Some n, n := None))
           (if xs = [] then Some n else p) (xs @ [n])"
proof (cases xs rule: rev_cases)
  case (snoc ys t)
  with lseg_snoc [of nx p ys t n] assms show ?thesis by simp
qed (use assms in simp)

text \<open>
  The walk: \<open>D\<close> are the nodes already kept, \<open>xs\<close> those still to visit, \<open>P\<close> those promoted so far.
\<close>

definition aging_repr ::
  "nat \<Rightarrow> nat list \<Rightarrow> nat list \<Rightarrow> nat list \<Rightarrow> nat option \<times> nat option \<Rightarrow> 'a sched_st_scheme \<Rightarrow> bool" where
  "aging_repr prio D xs P promoted s \<longleftrightarrow> distinct (D @ xs @ P)
     \<and> lseg (qnext s) (ready_head s prio) (D @ xs) \<and> ready_tail s prio = last_opt (D @ xs)
     \<and> lseg (qnext s) (fst promoted) P \<and> snd promoted = last_opt P"

lemma aging_keep_step:
  assumes rep: "aging_repr prio D (n # xs) P promoted s" and np: "\<not> promotes (procs s n)"
  defines "s1 \<equiv> upd n (aging_ticks_update (\<lambda>_. aged_ticks (procs s n))) s"
  shows "aging_loop prio (last_opt D) (Some n) promoted s = aging_loop prio (Some n) (qnext s n) promoted s1"
    and "aging_repr prio (D @ [n]) xs P promoted s1" and "aframe {n} s s1"
    and "qnext s1 = qnext s" "ready_head s1 = ready_head s" "ready_tail s1 = ready_tail s"
proof -
  show "aging_loop prio (last_opt D) (Some n) promoted s = aging_loop prio (Some n) (qnext s n) promoted s1"
    using np by (subst aging_loop.simps) (auto simp: Let_def s1_def promotes_def aged_ticks_def)
  show q: "qnext s1 = qnext s" "ready_head s1 = ready_head s" "ready_tail s1 = ready_tail s"
    by (auto simp: s1_def fun_eq_iff)
  show "aging_repr prio (D @ [n]) xs P promoted s1"
    using rep unfolding aging_repr_def q by auto
  show "aframe {n} s s1" using np by (auto simp: aframe_def s1_def aged_def upd_def)
qed

lemma aging_promote_step:
  assumes rep: "aging_repr prio D (n # xs) P promoted s" and pr: "promotes (procs s n)"
  shows "\<exists>promoted' s'. aging_loop prio (last_opt D) (Some n) promoted s
        = aging_loop prio (last_opt D) (qnext s n) promoted' s'
     \<and> aging_repr prio D xs (P @ [n]) promoted' s' \<and> aframe {n} s s'
     \<and> (\<forall>i. i \<notin> set (D @ n # xs @ P) \<longrightarrow> qnext s' i = qnext s i)
     \<and> (\<forall>i \<in> set xs. qnext s' i = qnext s i)
     \<and> (\<forall>q. q \<noteq> prio \<longrightarrow> ready_head s' q = ready_head s q \<and> ready_tail s' q = ready_tail s q)"
proof -
  have dis: "distinct (D @ n # xs @ P)" using rep by (simp add: aging_repr_def)
  have seg: "lseg (qnext s) (ready_head s prio) (D @ n # xs)" and tail: "ready_tail s prio = last_opt (D @ n # xs)"
    and Pseg: "lseg (qnext s) (fst promoted) P" "snd promoted = last_opt P"
    using rep by (auto simp: aging_repr_def)
  define a where "a = aged_ticks (procs s n)"
  define s1 where "s1 = upd n (aging_ticks_update (\<lambda>_. a)) s"
  define s2 where "s2 = (case last_opt D of
                          None \<Rightarrow> s1\<lparr>ready_head := (ready_head s1)(prio := qnext s n)\<rparr>
                        | Some p \<Rightarrow> upd p (queue_next_update (\<lambda>_. qnext s n)) s1)"
  define s3 where "s3 = (if ready_tail s2 prio = Some n
                        then s2\<lparr>ready_tail := (ready_tail s2)(prio := last_opt D)\<rparr> else s2)"
  define s4 where "s4 = upd n (queue_next_update (\<lambda>_. None)) s3"
  define pr' where "pr' = (if P = [] then Some n else fst promoted, Some n)"
  define s5 where "s5 = (case snd promoted of None \<Rightarrow> s4
                      | Some pt \<Rightarrow> upd pt (queue_next_update (\<lambda>_. Some n)) s4)"
  define s6 where "s6 = upd n (\<lambda>p. p\<lparr>priority := priority p + 1, aging_ticks := 0\<rparr>) s5"
  have run: "aging_loop prio (last_opt D) (Some n) promoted s = aging_loop prio (last_opt D) (qnext s n) pr' s6"
    using pr Pseg(2) by (subst aging_loop.simps)
      (auto simp: Let_def promotes_def aged_ticks_def a_def s1_def s2_def s3_def s4_def s5_def s6_def pr'_def
        split: prod.split option.split)
  have t2: "ready_tail s2 = ready_tail s" by (auto simp: s2_def s1_def split: option.split)
  have nD: "n \<noteq> d" if "last_opt D = Some d" for d using that dis by (auto simp: last_opt_Some)
  have nP: "n \<noteq> t" "t \<in> set P" if "last_opt P = Some t" for t using that dis by (auto simp: last_opt_Some)
  have q3: "qnext s3 i = (case last_opt D of None \<Rightarrow> qnext s i | Some d \<Rightarrow> if i = d then qnext s n else qnext s i)" for i
    by (auto simp: s3_def s2_def s1_def split: option.split)
  have q6: "qnext s6 i = (case last_opt P of None \<Rightarrow> (qnext s4)(n := None)
        | Some t \<Rightarrow> (qnext s4)(t := Some n, n := None)) i" for i
    using nP by (auto simp: s6_def s5_def s4_def Pseg(2) split: option.split)
  have q4: "qnext s4 i = (if i = n then None else qnext s3 i)" for i by (simp add: s4_def)
  have h6: "ready_head s6 = (case last_opt D of None \<Rightarrow> (ready_head s)(prio := qnext s n) | Some d \<Rightarrow> ready_head s)"
    by (auto simp: s6_def s5_def s4_def s3_def s2_def s1_def split: option.split)
  have t6: "ready_tail s6 = (if ready_tail s prio = Some n then (ready_tail s)(prio := last_opt D) else ready_tail s)"
    by (auto simp: s6_def s5_def s4_def s3_def t2 split: option.split)
  have same: "qnext s6 i = qnext s i" if "i \<notin> set (D @ n # P)" for i
    using that nP by (auto simp: q6 q4 q3 last_opt_Some split: option.split)
  have D_links: "qnext s6 i = (case last_opt D of None \<Rightarrow> qnext s i | Some d \<Rightarrow> if i = d then qnext s n else qnext s i)"
    if "i \<in> set (D @ xs)" for i
  proof -
    have "i \<noteq> n" "i \<notin> set P" using that dis by auto
    with nP show ?thesis by (auto simp: q6 q4 q3 split: option.split)
  qed
  have seg': "lseg (qnext s6) (ready_head s6 prio) (D @ xs)"
  proof (cases D rule: rev_cases)
    case Nil
    have "lseg (qnext s) (qnext s n) xs" using seg Nil by simp
    moreover have "lseg (qnext s6) (qnext s n) xs = lseg (qnext s) (qnext s n) xs"
      by (rule lseg_cong) (use D_links Nil in auto)
    ultimately show ?thesis using Nil h6 by simp
  next
    case (snoc ds d)
    have "lseg ((qnext s)(d := qnext s n)) (ready_head s prio) (ds @ d # xs)"
      by (rule lseg_unlink [of _ _ ds d n xs]) (use seg snoc in simp)
    moreover have "lseg (qnext s6) (ready_head s prio) (ds @ d # xs)
        = lseg ((qnext s)(d := qnext s n)) (ready_head s prio) (ds @ d # xs)"
      by (rule lseg_cong) (use D_links snoc in auto)
    ultimately show ?thesis using snoc h6 by simp
  qed
  have tail': "ready_tail s6 prio = last_opt (D @ xs)"
  proof (cases "xs = []")
    case True
    then show ?thesis using tail by (simp add: t6)
  next
    case False
    then have "last xs \<noteq> n" using dis by auto
    with False tail show ?thesis by (simp add: t6 last_opt_def)
  qed
  have "lseg (qnext s4) (fst promoted) P"
  proof -
    have "lseg (qnext s4) (fst promoted) P = lseg (qnext s) (fst promoted) P"
      by (rule lseg_cong) (use dis in \<open>auto simp: q4 q3 last_opt_Some split: option.split\<close>)
    with Pseg(1) show ?thesis by simp
  qed
  then have "lseg (case last_opt P of None \<Rightarrow> (qnext s4)(n := None) | Some t \<Rightarrow> (qnext s4)(t := Some n, n := None))
           (fst pr') (P @ [n])"
    using lseg_snoc_opt [of "qnext s4" "fst promoted" P n] dis by (simp add: pr'_def)
  then have P6: "lseg (qnext s6) (fst pr') (P @ [n])"
    using q6 lseg_cong [of "P @ [n]" "qnext s6"] by metis
  have rep6: "aging_repr prio D xs (P @ [n]) pr' s6"
    using dis seg' tail' P6 by (auto simp: aging_repr_def pr'_def)
  have "strip (procs s6 n) = strip (aged (procs s n))"
    using pr nP nD by (auto simp: s6_def s5_def s4_def s3_def s2_def s1_def Pseg(2) aged_def strip_def split: option.split)
  moreover have "strip (procs s6 i) = strip (procs s i)" if "i \<noteq> n" for i
    using that by (auto simp: s6_def s5_def s4_def s3_def s2_def s1_def split: option.split)
  ultimately have "aframe {n} s s6"
    by (auto simp: aframe_def s6_def s5_def s4_def s3_def s2_def s1_def upd_def split: option.split)
  moreover have "qnext s6 i = qnext s i" if "i \<in> set xs" for i
    by (rule same) (use that dis in auto)
  moreover have "\<forall>q. q \<noteq> prio \<longrightarrow> ready_head s6 q = ready_head s q \<and> ready_tail s6 q = ready_tail s q"
    by (auto simp: h6 t6 split: option.split)
  ultimately show ?thesis
    using run rep6 same by (intro exI [of _ pr'] exI [of _ s6]) auto
qed

text \<open>The whole walk over one queue.\<close>

abbreviation stays :: "'a sched_st_scheme \<Rightarrow> nat \<Rightarrow> bool" where
  "stays s i \<equiv> \<not> promotes (procs s i)"

abbreviation moves :: "'a sched_st_scheme \<Rightarrow> nat \<Rightarrow> bool" where
  "moves s i \<equiv> promotes (procs s i)"

lemma aging_loop_spec:
  "aging_repr prio D xs P promoted s \<Longrightarrow>
   \<exists>promoted' s'. aging_loop prio (last_opt D) (hd_opt xs) promoted s = Some (promoted', s')
     \<and> aging_repr prio (D @ filter (stays s) xs) [] (P @ filter (moves s) xs) promoted' s'
     \<and> aframe (set xs) s s'
     \<and> (\<forall>i. i \<notin> set (D @ xs @ P) \<longrightarrow> qnext s' i = qnext s i)
     \<and> (\<forall>q. q \<noteq> prio \<longrightarrow> ready_head s' q = ready_head s q \<and> ready_tail s' q = ready_tail s q)"
proof (induction xs arbitrary: D P promoted s)
  case Nil
  then show ?case
    by (subst aging_loop.simps) (simp add: aframe_empty)
next
  case (Cons n xs)
  have dis: "distinct (D @ n # xs @ P)" using Cons.prems by (simp add: aging_repr_def)
  have nx: "qnext s n = hd_opt xs"
  proof -
    have "lseg (qnext s) (ready_head s prio) (D @ n # xs)" using Cons.prems by (simp add: aging_repr_def)
    then have "lseg (qnext s) (Some n) (n # xs)" by (rule lseg_suffix)
    then show ?thesis using lseg_head by fastforce
  qed
  have keep: "filter (stays s1) xs = filter (stays s) xs \<and> filter (moves s1) xs = filter (moves s) xs"
    if "aframe {n} s s1" for s1 :: "'a sched_st_scheme"
  proof -
    have "promotes (procs s1 i) = promotes (procs s i)" if "i \<in> set xs" for i
      using \<open>aframe {n} s s1\<close> that dis by (intro promotes_strip) (auto simp: aframe_def)
    then show ?thesis by (auto intro: filter_cong)
  qed
  show ?case
  proof (cases "promotes (procs s n)")
    case False
    note st = aging_keep_step [OF Cons.prems False]
    let ?s1 = "upd n (aging_ticks_update (\<lambda>_. aged_ticks (procs s n))) s"
    from Cons.IH [OF st(2)] obtain pr s' where
      IH: "aging_loop prio (last_opt (D @ [n])) (hd_opt xs) promoted ?s1 = Some (pr, s')"
        "aging_repr prio ((D @ [n]) @ filter (stays ?s1) xs) [] (P @ filter (moves ?s1) xs) pr s'"
        "aframe (set xs) ?s1 s'"
        "\<forall>i. i \<notin> set ((D @ [n]) @ xs @ P) \<longrightarrow> qnext s' i = qnext ?s1 i"
        "\<forall>q. q \<noteq> prio \<longrightarrow> ready_head s' q = ready_head ?s1 q \<and> ready_tail s' q = ready_tail ?s1 q"
      by blast
    have "aframe ({n} \<union> set xs) s s'"
      using aframe_trans [OF st(3) IH(3)] dis by simp
    moreover have "\<forall>i. i \<notin> set (D @ (n # xs) @ P) \<longrightarrow> qnext s' i = qnext s i"
      using IH(4) st(4) by (metis (no_types, lifting) Un_iff append.assoc append_Cons append_Nil set_append)
    ultimately show ?thesis
      using IH(1,2,5) st(1,5,6) keep [OF st(3)] nx False
      by (intro exI [of _ pr] exI [of _ s']) simp
  next
    case True
    from aging_promote_step [OF Cons.prems True] obtain pr1 s1 where
      st: "aging_loop prio (last_opt D) (Some n) promoted s = aging_loop prio (last_opt D) (qnext s n) pr1 s1"
        "aging_repr prio D xs (P @ [n]) pr1 s1" "aframe {n} s s1"
        "\<forall>i. i \<notin> set (D @ n # xs @ P) \<longrightarrow> qnext s1 i = qnext s i"
        "\<forall>q. q \<noteq> prio \<longrightarrow> ready_head s1 q = ready_head s q \<and> ready_tail s1 q = ready_tail s q"
      by blast
    from Cons.IH [OF st(2)] obtain pr s' where
      IH: "aging_loop prio (last_opt D) (hd_opt xs) pr1 s1 = Some (pr, s')"
        "aging_repr prio (D @ filter (stays s1) xs) [] ((P @ [n]) @ filter (moves s1) xs) pr s'"
        "aframe (set xs) s1 s'"
        "\<forall>i. i \<notin> set (D @ xs @ P @ [n]) \<longrightarrow> qnext s' i = qnext s1 i"
        "\<forall>q. q \<noteq> prio \<longrightarrow> ready_head s' q = ready_head s1 q \<and> ready_tail s' q = ready_tail s1 q"
      by blast
    have "aframe ({n} \<union> set xs) s s'"
      using aframe_trans [OF st(3) IH(3)] dis by simp
    then show ?thesis
      using IH(1,2,4,5) st(1,4,5) keep [OF st(3)] nx True
      by (intro exI [of _ pr] exI [of _ s']) simp
  qed
qed

section \<open>All four queues\<close>

lemma queues_aging_repr:
  assumes Q: "queues Q s" "p < 4" and P: "lseg (qnext s) (fst promoted) P" "snd promoted = last_opt P"
    and fresh: "set P \<inter> set (Q p) = {}"
  shows "aging_repr p [] (Q p) P promoted s"
  using assms lseg_distinct [OF queues_lseg [OF Q]] lseg_distinct [OF P(1)]
  by (auto simp: aging_repr_def queues_lseg queues_tail)

lemma aging_one_queue:
  assumes Q: "queues Q s" "p < 4" and P: "lseg (qnext s) (fst promoted) P" "snd promoted = last_opt P"
    and fresh: "set P \<inter> queued Q = {}"
  shows "\<exists>promoted' s'. aging_loop p None (ready_head s p) promoted s = Some (promoted', s')
     \<and> queues (Q(p := filter (stays s) (Q p))) s'
     \<and> lseg (qnext s') (fst promoted') (P @ filter (moves s) (Q p))
     \<and> snd promoted' = last_opt (P @ filter (moves s) (Q p)) \<and> aframe (set (Q p)) s s'"
proof -
  have fp: "set P \<inter> set (Q p) = {}" using fresh Q(2) unfolding queued_def by blast
  from aging_loop_spec [OF queues_aging_repr [OF Q P fp]] obtain pr s' where
    sp: "aging_loop p None (hd_opt (Q p)) promoted s = Some (pr, s')"
      "aging_repr p (filter (stays s) (Q p)) [] (P @ filter (moves s) (Q p)) pr s'"
      "aframe (set (Q p)) s s'" "\<forall>i. i \<notin> set (Q p @ P) \<longrightarrow> qnext s' i = qnext s i"
      "\<forall>q. q \<noteq> p \<longrightarrow> ready_head s' q = ready_head s q \<and> ready_tail s' q = ready_tail s q"
    by auto
  have "qnext s' i = qnext s i \<and> i \<notin> set (filter (stays s) (Q p))"
    if "q < 4" "q \<noteq> p" "i \<in> set (Q q)" for q i
  proof -
    have "i \<notin> set (Q p)" using queues_disj [OF Q(1) that(1) Q(2) that(3)] that(2) by blast
    moreover have "i \<notin> set P" using fresh that unfolding queued_def by blast
    ultimately show ?thesis using sp(4) by simp
  qed
  then have "queues (Q(p := filter (stays s) (Q p))) s'"
    using sp(2,5) by (intro queues_update [OF Q]) (auto simp: aging_repr_def)
  moreover have "ready_head s p = hd_opt (Q p)" using queues_lseg [OF Q] by (rule lseg_head)
  ultimately show ?thesis using sp(1-3) by (auto simp: aging_repr_def)
qed

lemma aging_prios_queues:
  assumes "queues Q s" "distinct ps" "set ps \<subseteq> {..<4}"
    and "lseg (qnext s) (fst promoted) P" "snd promoted = last_opt P" "set P \<inter> queued Q = {}"
  shows "\<exists>promoted' s'. aging_prios ps promoted s = Some (promoted', s')
     \<and> queues (\<lambda>p. if p \<in> set ps then filter (stays s) (Q p) else Q p) s'
     \<and> lseg (qnext s') (fst promoted') (P @ concat (map (\<lambda>p. filter (moves s) (Q p)) ps))
     \<and> aframe (\<Union>p\<in>set ps. set (Q p)) s s'"
  using assms
proof (induction ps arbitrary: Q s P promoted)
  case Nil
  then show ?case by (simp add: aframe_empty)
next
  case (Cons p ps)
  have p4: "p < 4" using Cons.prems by simp
  let ?Q = "Q(p := filter (stays s) (Q p))" and ?P = "P @ filter (moves s) (Q p)"
  from aging_one_queue [OF Cons.prems(1) p4 Cons.prems(4,5,6)] obtain pr s1 where
    one: "aging_loop p None (ready_head s p) promoted s = Some (pr, s1)" "queues ?Q s1"
      "lseg (qnext s1) (fst pr) ?P" "snd pr = last_opt ?P" "aframe (set (Q p)) s s1" by blast
  have Qd: "i \<notin> set (Q p)" if "q < 4" "q \<noteq> p" "i \<in> set (Q q)" for q i
    using queues_disj [OF Cons.prems(1) that(1) p4 that(3)] that(2) by blast
  have same: "promotes (procs s1 i) = promotes (procs s i)" if "q < 4" "q \<noteq> p" "i \<in> set (Q q)" for q i
    using one(5) Qd [OF that] by (intro promotes_strip) (auto simp: aframe_def)
  have "i \<notin> queued ?Q" if "i \<in> set ?P" for i
    using that Cons.prems(6) Qd p4 by (fastforce simp: queued_iff split: if_splits)
  then have "set ?P \<inter> queued ?Q = {}" by blast
  from Cons.IH [OF one(2) _ _ one(3,4) this] Cons.prems(2,3) obtain pr' s' where
    IH: "aging_prios ps pr s1 = Some (pr', s')"
      "queues (\<lambda>q. if q \<in> set ps then filter (stays s1) (?Q q) else ?Q q) s'"
      "lseg (qnext s') (fst pr') (?P @ concat (map (\<lambda>q. filter (moves s1) (?Q q)) ps))"
      "aframe (\<Union>q\<in>set ps. set (?Q q)) s1 s'" by auto
  have ps: "q < 4 \<and> q \<noteq> p" if "q \<in> set ps" for q using that Cons.prems(2,3) by auto
  have Qeq: "(\<lambda>q. if q \<in> set ps then filter (stays s1) (?Q q) else ?Q q)
      = (\<lambda>q. if q \<in> set (p # ps) then filter (stays s) (Q q) else Q q)"
    using ps same by (auto simp: fun_eq_iff intro!: filter_cong)
  have Peq: "map (\<lambda>q. filter (moves s1) (?Q q)) ps = map (\<lambda>q. filter (moves s) (Q q)) ps"
    using ps same by (auto intro!: filter_cong)
  have Aeq: "(\<Union>q\<in>set ps. set (?Q q)) = (\<Union>q\<in>set ps. set (Q q))" using ps by auto
  have "set (Q p) \<inter> (\<Union>q\<in>set ps. set (Q q)) = {}" using ps Qd by blast
  then have "aframe (\<Union>q\<in>set (p # ps). set (Q q)) s s'"
    using aframe_trans [OF one(5) IH(4) [unfolded Aeq]] by simp
  then show ?case
    using one(1) IH(1) IH(2) [unfolded Qeq] IH(3) [unfolded Peq]
    by (intro exI [of _ pr'] exI [of _ s']) simp
qed

end
