(* ===== verification/Sched_Props.thy ===== *)
theory Sched_Props
  imports Sched_Aging
begin

text \<open>
  The scheduling step on the abstract queues: \<^verbatim>\<open>schedule\<close> keeps the scheduler invariant, runs a
  process of the highest non-empty queue in FIFO order, puts a preempted process back at the tail of
  the queue of its base priority, and falls back on the idle process.
\<close>

section \<open>Reinsertion of the promoted processes\<close>

lemma queues_cong: "(\<And>p. p < 4 \<Longrightarrow> Q p = Q' p) \<Longrightarrow> queues Q s = queues Q' s"
  by (simp add: queues_def)

lemma queues_upd: "(\<And>p. queue_next (f p) = queue_next p) \<Longrightarrow> queues Q (upd i f s) = queues Q s"
proof -
  assume "\<And>p. queue_next (f p) = queue_next p"
  then have "qnext (upd i f s) = qnext s" by (auto simp: fun_eq_iff)
  then show ?thesis by (simp add: queues_def)
qed

lemma queues_upd_free: "i \<notin> queued Q \<Longrightarrow> queues Q (upd i f s) = queues Q s"
proof -
  assume new: "i \<notin> queued Q"
  have "lseg (qnext (upd i f s)) h (Q p) = lseg (qnext s) h (Q p)" if "p < 4" for p h
    by (rule lseg_cong) (use new that in \<open>auto simp: queued_iff\<close>)
  then show ?thesis by (simp add: queues_def)
qed

lemma less4: "p < 4 \<longleftrightarrow> p = 0 \<or> p = 1 \<or> p = 2 \<or> p = (3::nat)"
  by linarith

lemma queued_push: "p < 4 \<Longrightarrow> queued (Q(p := Q p @ [x])) = insert x (queued Q)"
  by (auto simp: queued_def split: if_splits)

lemma reinsert_loop_queues:
  "queues Q s \<Longrightarrow> lseg (qnext s) h P \<Longrightarrow> set P \<inter> queued Q = {} \<Longrightarrow>
   \<exists>s'. reinsert_loop h s = Some s' \<and> qframe s s'
     \<and> queues (\<lambda>q. Q q @ filter (\<lambda>i. prio_index (priority (procs s i)) = q) P) s'"
proof (induction P arbitrary: Q s h)
  case Nil
  then show ?case by (subst reinsert_loop.simps) simp
next
  case (Cons x P)
  have x: "h = Some x" "lseg (qnext s) (qnext s x) P" "x \<notin> queued Q" "x \<notin> set P"
    using Cons.prems lseg_distinct [OF Cons.prems(2)] by auto
  let ?t = "upd x (queue_next_update (\<lambda>_. None)) s" and ?p = "prio_index (priority (procs s x))"
  have Qt: "queues Q ?t" using Cons.prems(1) x(3) by (simp add: queues_upd_free)
  have pr: "?p = prio_index (priority (procs ?t x))" by simp
  from q_push_queues [OF Qt x(3) pr] obtain s1 where
    push: "q_push x ?t = Some s1" "queues (Q(?p := Q ?p @ [x])) s1" "qframe ?t s1"
      "\<forall>i. i \<notin> set (Q ?p) \<longrightarrow> i \<noteq> x \<longrightarrow> qnext s1 i = qnext ?t i" by blast
  have fr: "qframe s s1"
  proof -
    have "qframe s ?t" by (simp add: qframe_def upd_def)
    then show ?thesis using push(3) by (rule qframe_trans)
  qed
  have "lseg (qnext s1) (qnext s x) P = lseg (qnext s) (qnext s x) P"
  proof (rule lseg_cong)
    fix i assume "i \<in> set P"
    moreover from this have "i \<notin> queued Q" using Cons.prems(3) by auto
    then have "i \<notin> set (Q ?p)" by (auto simp: queued_iff)
    ultimately show "qnext s1 i = qnext s i" using push(4) x(4) by auto
  qed
  with x(2) have P1: "lseg (qnext s1) (qnext s x) P" by simp
  have "set P \<inter> queued (Q(?p := Q ?p @ [x])) = {}"
    using Cons.prems(3) x(4) by (simp add: queued_push)
  from Cons.IH [OF push(2) P1 this] obtain s' where
    IH: "reinsert_loop (qnext s x) s1 = Some s'" "qframe s1 s'"
      "queues (\<lambda>q. (Q(?p := Q ?p @ [x])) q @ filter (\<lambda>i. prio_index (priority (procs s1 i)) = q) P) s'"
    by blast
  have "reinsert_loop h s = Some s'"
    using x(1) push(1) IH(1) by (subst reinsert_loop.simps) simp
  moreover have "(\<lambda>q. (Q(?p := Q ?p @ [x])) q @ filter (\<lambda>i. prio_index (priority (procs s1 i)) = q) P)
      = (\<lambda>q. Q q @ filter (\<lambda>i. prio_index (priority (procs s i)) = q) (x # P))"
    by (auto simp: fun_eq_iff qframe_fields(6) [OF fr])
  ultimately show ?case
    using qframe_trans [OF fr IH(2)] IH(3) by (intro exI [of _ s']) simp
qed

section \<open>apply_aging\<close>

definition aged_queues :: "'a sched_st_scheme \<Rightarrow> (nat \<Rightarrow> nat list) \<Rightarrow> nat \<Rightarrow> nat list" where
  "aged_queues s Q p = filter (stays s) (Q p) @ (if p = 0 then [] else filter (moves s) (Q (p - 1)))"

definition in_prio :: "(nat \<Rightarrow> nat list) \<Rightarrow> 'a sched_st_scheme \<Rightarrow> bool" where
  "in_prio Q s \<longleftrightarrow> (\<forall>p<4. \<forall>i \<in> set (Q p). priority (procs s i) = int p)"

lemma in_prioD: "in_prio Q s \<Longrightarrow> p < 4 \<Longrightarrow> i \<in> set (Q p) \<Longrightarrow> priority (procs s i) = int p"
  by (simp add: in_prio_def)

lemma queued_aged: "in_prio Q s \<Longrightarrow> queued (aged_queues s Q) = queued Q"
proof -
  assume "in_prio Q s"
  then have no3: "stays s i" if "i \<in> set (Q 3)" for i
    using in_prioD [of Q s 3 i] that by (simp add: promotes_def const_defs)
  have four: "{..<4} = {0, 1, 2, 3::nat}" by auto
  show ?thesis
    unfolding queued_def four using no3 by (auto simp: aged_queues_def)
qed

lemma apply_aging_queues:
  assumes Q: "queues Q s" and pr: "in_prio Q s"
  shows "\<exists>s'. apply_aging s = Some s' \<and> queues (aged_queues s Q) s' \<and> aframe (queued Q) s s'
    \<and> in_prio (aged_queues s Q) s'"
proof -
  have four: "(\<Union>p\<in>set [0, 1, 2, 3::nat]. set (Q p)) = queued Q"
    by (auto simp: queued_iff less4)
  have "\<exists>promoted' s'. aging_prios [0, 1, 2, 3] (None, None) s = Some (promoted', s')
     \<and> queues (\<lambda>p. if p \<in> set [0, 1, 2, 3] then filter (stays s) (Q p) else Q p) s'
     \<and> lseg (qnext s') (fst promoted') ([] @ concat (map (\<lambda>p. filter (moves s) (Q p)) [0, 1, 2, 3]))
     \<and> aframe (\<Union>p\<in>set [0, 1, 2, 3]. set (Q p)) s s'"
    by (rule aging_prios_queues [OF Q]) auto
  then obtain ph s1 where walk: "aging_prios [0, 1, 2, 3] (None, None) s = Some (ph, s1)"
      "queues (\<lambda>p. if p \<in> set [0, 1, 2, 3] then filter (stays s) (Q p) else Q p) s1"
      "lseg (qnext s1) (fst ph) (concat (map (\<lambda>p. filter (moves s) (Q p)) [0, 1, 2, 3]))"
      "aframe (queued Q) s s1"
    unfolding four by auto
  let ?P = "concat (map (\<lambda>p. filter (moves s) (Q p)) [0, 1, 2, 3])"
  let ?Q = "\<lambda>p. filter (stays s) (Q p)"
  have Q1: "queues ?Q s1"
    by (rule queues_cong [THEN iffD1, OF _ walk(2)]) (auto simp: less4)
  have P_iff: "i \<in> set ?P \<longleftrightarrow> i \<in> queued Q \<and> moves s i" for i
    by (auto simp: queued_iff less4)
  have "set ?P \<inter> queued ?Q = {}" using P_iff by (auto simp: queued_iff)
  from reinsert_loop_queues [OF Q1 walk(3) this] obtain s' where
    re: "reinsert_loop (fst ph) s1 = Some s'" "qframe s1 s'"
      "queues (\<lambda>q. ?Q q @ filter (\<lambda>i. prio_index (priority (procs s1 i)) = q) ?P) s'" by blast
  have "aframe {} s1 s'" using re(2) by (simp add: aframe_empty)
  from aframe_trans [OF walk(4) this] have fr: "aframe (queued Q) s s'" by simp
  have prio1: "priority (procs s1 i) = int p + 1 \<and> prio_index (int p + 1) = p + 1"
    if "p < 4" "i \<in> set (Q p)" "moves s i" for p i
  proof -
    have "strip (procs s1 i) = strip (aged (procs s i))"
      using walk(4) that by (auto simp: aframe_def queued_iff)
    then have "priority (procs s1 i) = priority (aged (procs s i))" by (rule strip_eqD)
    moreover have "priority (procs s i) = int p" using pr that by (simp add: in_prioD)
    ultimately have "priority (procs s1 i) = int p + 1" using that(3) by (simp add: aged_def)
    moreover have "int p < 3" using that(3) \<open>priority (procs s i) = int p\<close> by (simp add: promotes_def const_defs)
    ultimately show ?thesis by (auto simp: prio_index_def const_defs)
  qed
  have none3: "filter (moves s) (Q 3) = []"
    using in_prioD [OF pr, of 3] by (simp add: filter_empty_conv promotes_def const_defs)
  have pick: "filter (\<lambda>i. prio_index (priority (procs s1 i)) = q) (filter (moves s) (Q p))
      = (if q = p + 1 then filter (moves s) (Q p) else [])" if "p < 4" for p q
    using prio1 [OF that] by (auto simp: filter_empty_conv intro!: filter_cong)
  have "filter (\<lambda>i. prio_index (priority (procs s1 i)) = q) ?P = (if q = 0 then [] else filter (moves s) (Q (q - 1)))"
    if "q < 4" for q
    using that unfolding less4 by (elim disjE) (simp_all add: pick none3 del: filter_filter)
  with re(3) have Q': "queues (aged_queues s Q) s'"
    by (elim queues_cong [THEN iffD1, rotated]) (simp add: aged_queues_def)
  have "apply_aging s = Some s'"
    using walk(1) re(1) by (cases ph) (simp add: apply_aging_def)
  moreover have "in_prio (aged_queues s Q) s'"
    unfolding in_prio_def
  proof (intro allI impI ballI)
    fix p i assume p: "p < 4" and i: "i \<in> set (aged_queues s Q p)"
    have keep: "priority (procs s' j) = priority (aged (procs s j))" if "j \<in> queued Q" for j
      using fr that by (intro strip_eqD) (simp add: aframe_def)
    from i consider "i \<in> set (Q p)" "stays s i" | "0 < p" "i \<in> set (Q (p - 1))" "moves s i"
      by (auto simp: aged_queues_def split: if_splits)
    then show "priority (procs s' i) = int p"
    proof cases
      case 1
      then have "i \<in> queued Q" using p by (auto simp: queued_iff)
      with 1 pr p show ?thesis by (simp add: keep aged_def in_prio_def)
    next
      case 2
      then have "i \<in> queued Q" using p by (auto simp: queued_iff intro!: exI [of _ "p - 1"])
      moreover have "priority (procs s i) = int (p - 1)" by (rule in_prioD [OF pr]) (use 2 p in auto)
      ultimately show ?thesis using 2 p by (simp add: keep aged_def)
    qed
  qed
  ultimately show ?thesis using Q' fr by (intro exI [of _ s']) simp
qed

section \<open>The scheduler invariant\<close>

definition sched_inv :: "(nat \<Rightarrow> nat list) \<Rightarrow> 'a sched_st_scheme \<Rightarrow> bool" where
  "sched_inv Q s \<longleftrightarrow> queues Q s \<and> in_prio Q s
     \<and> (\<forall>i \<in> queued Q. state (procs s i) = READY \<and> used (procs s i)
          \<and> 0 \<le> base_priority (procs s i) \<and> base_priority (procs s i) \<le> 3)
     \<and> (\<forall>i. state (procs s i) = READY \<and> used (procs s i) \<longrightarrow> i \<in> queued Q)
     \<and> (\<forall>c. cur s = Some c \<longrightarrow> c \<notin> queued Q \<and> used (procs s c) \<and> state (procs s c) \<noteq> NEW
          \<and> 0 \<le> base_priority (procs s c) \<and> base_priority (procs s c) \<le> 3)
     \<and> (\<forall>d. idle_proc s = Some d \<longrightarrow> d \<notin> queued Q \<and> used (procs s d)
          \<and> 0 \<le> base_priority (procs s d) \<and> base_priority (procs s d) \<le> 3)"

text \<open>The bookkeeping of \<^verbatim>\<open>schedule\<close> on the outgoing process before anything is picked.\<close>

definition outgoing :: "nat \<Rightarrow> 'a sched_st_scheme \<Rightarrow> nat \<Rightarrow> pcb \<Rightarrow> pcb" where
  "outgoing rsp s c p =
    (let p1 = p\<lparr>kframe := rsp, ticks_left := (if ticks_left p > 0 then ticks_left p - 1 else ticks_left p)\<rparr>
     in if state p = RUNNING \<and> idle_proc s \<noteq> Some c
        then p1\<lparr>state := READY, ticks_left := TIME_SLICE_TICKS, priority := base_priority p, aging_ticks := 0\<rparr>
        else if state p = BLOCKED \<or> state p = EXITED then p1\<lparr>ticks_left := 0\<rparr> else p1)"

text \<open>The queues after the preempted process went back to the tail of its queue.\<close>

definition requeued :: "'a sched_st_scheme \<Rightarrow> nat \<Rightarrow> (nat \<Rightarrow> nat list) \<Rightarrow> nat \<Rightarrow> nat list" where
  "requeued s c Q =
    (if state (procs s c) = RUNNING \<and> idle_proc s \<noteq> Some c
     then (let b = nat (base_priority (procs s c)) in Q(b := Q b @ [c])) else Q)"

definition next_queues :: "nat \<Rightarrow> 'a sched_st_scheme \<Rightarrow> nat \<Rightarrow> (nat \<Rightarrow> nat list) \<Rightarrow> nat \<Rightarrow> nat list" where
  "next_queues rsp s c Q = aged_queues (upd c (outgoing rsp s c) s) (requeued s c Q)"

text \<open>The choice made once the queues are aged: the rest of \<^verbatim>\<open>schedule\<close>.\<close>

definition dispatch :: "nat \<Rightarrow> 'a sched_st_scheme \<Rightarrow> (nat \<times> 'a sched_st_scheme) option" where
  "dispatch prev s5 =
    (let (picked, s6) = pick_next s5;
         nx0 = (case picked of None \<Rightarrow> idle_proc s6 | Some n \<Rightarrow> Some n)
     in case nx0 of
             None \<Rightarrow> Some (0, s6\<lparr>cur := Some prev\<rparr>)
           | Some n0 \<Rightarrow>
             let nx = (if kframe (procs s6 n0) = 0 then
                         (case idle_proc s6 of
                            Some idle \<Rightarrow> if idle \<noteq> n0 \<and> kframe (procs s6 idle) \<noteq> 0 then Some idle else None
                          | None \<Rightarrow> None)
                       else Some n0)
             in (case nx of
                   None \<Rightarrow> Some (0, s6\<lparr>cur := Some prev\<rparr>)
                 | Some n \<Rightarrow>
                     let s7 = upd n (\<lambda>p. p\<lparr>state := RUNNING, ticks_left := TIME_SLICE_TICKS\<rparr>) s6;
                         s8 = (if idle_proc s7 \<noteq> Some n
                               then upd n (\<lambda>p. p\<lparr>priority := base_priority p, aging_ticks := 0\<rparr>) s7 else s7);
                         s9 = s8\<lparr>cur := Some n\<rparr>
                     in Some (kframe (procs s9 n), s9)))"

lemma ticks_left_update_eq: "ticks_left_update f p = p\<lparr>ticks_left := f (ticks_left p)\<rparr>"
  by (cases p) simp

text \<open>While the quantum lasts the running process goes on.\<close>

lemma schedule_no_switch:
  assumes "scheduler_enabled s" "cur s = Some c" "state (procs s c) = RUNNING" "1 < ticks_left (procs s c)"
  shows "schedule rsp s = Some (0, upd c (\<lambda>p. p\<lparr>kframe := rsp, ticks_left := ticks_left p - 1\<rparr>) s)"
  using assms by (simp add: schedule_def Let_def upd_def ticks_left_update_eq [of "\<lambda>t. t - 1"])

lemma schedule_prepare:
  assumes inv: "sched_inv Q s" and en: "scheduler_enabled s" and c: "cur s = Some c"
    and exp: "ticks_left (procs s c) \<le> 1 \<or> state (procs s c) \<noteq> RUNNING"
  shows "\<exists>s4. schedule rsp s = Option.bind (apply_aging s4) (dispatch c)
     \<and> queues (requeued s c Q) s4 \<and> qframe (upd c (outgoing rsp s c) s) s4"
proof -
  let ?run = "state (procs s c) = RUNNING \<and> idle_proc s \<noteq> Some c"
  define s1 where "s1 = upd c (kframe_update (\<lambda>_. rsp)) s"
  define s2 where "s2 = (if ticks_left (procs s1 c) > 0 then upd c (ticks_left_update (\<lambda>t. t - 1)) s1 else s1)"
  have out: "c \<notin> queued Q" "0 \<le> base_priority (procs s c)" "base_priority (procs s c) \<le> 3" "queues Q s"
    using inv c by (auto simp: sched_inv_def)
  have s2: "procs s2 = (procs s)(c := (procs s c)\<lparr>kframe := rsp, ticks_left :=
      (if ticks_left (procs s c) > 0 then ticks_left (procs s c) - 1 else ticks_left (procs s c))\<rparr>)"
    "idle_proc s2 = idle_proc s" "cur s2 = Some c"
    using c by (auto simp: s2_def s1_def upd_def fun_eq_iff)
  have go: "\<not> (ticks_left (procs s2 c) > 0 \<and> state (procs s2 c) = RUNNING)"
    using exp by (auto simp: s2)
  have Q2: "queues Q s2" using out(4) by (simp add: s2_def s1_def queues_upd)
  have fields: "s2 = upd c (\<lambda>p. p\<lparr>kframe := rsp, ticks_left :=
      (if ticks_left p > 0 then ticks_left p - 1 else ticks_left p)\<rparr>) s"
    by (simp add: s2_def s1_def upd_def ticks_left_update_eq [of "\<lambda>t. t - 1"])
  show ?thesis
  proof (cases ?run)
    case True
    let ?t = "upd c (\<lambda>p. p\<lparr>state := READY, ticks_left := TIME_SLICE_TICKS,
                   priority := base_priority p, aging_ticks := 0\<rparr>) s2"
    let ?b = "nat (base_priority (procs s c))"
    have t: "?t = upd c (outgoing rsp s c) s"
      using True by (simp add: fields upd_def outgoing_def)
    have "queues Q ?t" using Q2 by (simp add: queues_upd)
    moreover have "?b = prio_index (priority (procs ?t c))"
      using out(2,3) by (simp add: s2 prio_index_def const_defs)
    ultimately obtain s3 where s3: "q_push c ?t = Some s3" "queues (Q(?b := Q ?b @ [c])) s3" "qframe ?t s3"
      using q_push_queues [of Q ?t c ?b] out(1) by blast
    have "state (procs s3 c) = READY" using qframe_fields(7) [OF s3(3), of c] by simp
    then have "schedule rsp s = Option.bind (apply_aging s3) (dispatch c)"
      using en c go True s3(1)
      by (simp add: schedule_def Let_def s1_def [symmetric] s2_def [symmetric] s2 dispatch_def [abs_def])
    with s3(2,3) True show ?thesis unfolding t by (auto simp: requeued_def Let_def)
  next
    case False
    define s4 where "s4 = (if state (procs s2 c) = BLOCKED \<or> state (procs s2 c) = EXITED
                     then upd c (ticks_left_update (\<lambda>_. 0)) s2 else s2)"
    have "schedule rsp s = Option.bind (apply_aging s4) (dispatch c)"
      using en c go False
      by (auto simp add: schedule_def Let_def s1_def [symmetric] s2_def [symmetric] s2 s4_def dispatch_def [abs_def])
    moreover have "queues Q s4" using Q2 by (simp add: s4_def queues_upd)
    moreover have "s4 = upd c (outgoing rsp s c) s"
      using False by (auto simp: s4_def fields upd_def outgoing_def)
    ultimately show ?thesis using False by (auto simp: requeued_def)
  qed
qed

lemma queued_pop:
  assumes "queues Q s" "p < 4" "Q p = h # t"
  shows "queued (Q(p := t)) = queued Q - {h}"
proof -
  have "h \<notin> set t" using lseg_distinct [OF queues_lseg [OF assms(1,2)]] assms(3) by simp
  moreover have "h \<notin> set (Q q)" if "q < 4" "q \<noteq> p" for q
    using queues_disj [OF assms(1) that(1) assms(2)] that assms(3) by auto
  ultimately have hd: "h \<notin> set ((Q(p := t)) q)" if "q < 4" for q using that by simp
  show ?thesis
  proof (intro set_eqI iffI)
    fix i assume "i \<in> queued (Q(p := t))"
    then obtain q where q: "q < 4" "i \<in> set ((Q(p := t)) q)" unfolding queued_iff by blast
    then have "i \<in> set (Q q)" using assms(3) by (cases "q = p") auto
    with q hd show "i \<in> queued Q - {h}" unfolding queued_iff Diff_iff by blast
  next
    fix i assume "i \<in> queued Q - {h}"
    then obtain q where q: "q < 4" "i \<in> set (Q q)" "i \<noteq> h" unfolding queued_iff Diff_iff by blast
    then have "i \<in> set ((Q(p := t)) q)" using assms(3) by (cases "q = p") auto
    with q(1) show "i \<in> queued (Q(p := t))" unfolding queued_iff by blast
  qed
qed

text \<open>A process whose base priority is in range, as every live process has.\<close>

definition prio_ok :: "pcb \<Rightarrow> bool" where
  "prio_ok p \<longleftrightarrow> used p \<and> 0 \<le> base_priority p \<and> base_priority p \<le> 3"

lemma sched_inv_alt:
  "sched_inv Q s \<longleftrightarrow> queues Q s \<and> in_prio Q s
     \<and> (\<forall>i \<in> queued Q. state (procs s i) = READY \<and> prio_ok (procs s i))
     \<and> (\<forall>i. state (procs s i) = READY \<and> used (procs s i) \<longrightarrow> i \<in> queued Q)
     \<and> (\<forall>c. cur s = Some c \<longrightarrow> c \<notin> queued Q \<and> prio_ok (procs s c) \<and> state (procs s c) \<noteq> NEW)
     \<and> (\<forall>d. idle_proc s = Some d \<longrightarrow> d \<notin> queued Q \<and> prio_ok (procs s d))"
  by (auto simp: sched_inv_def prio_ok_def)

text \<open>Setting the chosen process running; its slot is outside the queues by then.\<close>

lemma run_inv:
  assumes Q: "queues Q s" and pr: "in_prio Q s" and n: "n \<notin> queued Q"
    and rdy: "\<forall>i \<in> queued Q. state (procs s i) = READY \<and> prio_ok (procs s i)"
    and all: "\<forall>i. i \<noteq> n \<and> state (procs s i) = READY \<and> used (procs s i) \<longrightarrow> i \<in> queued Q"
    and nb: "prio_ok (procs s n)"
    and idle: "\<forall>d. idle_proc s = Some d \<longrightarrow> d \<notin> queued Q \<and> prio_ok (procs s d)"
    and f: "queue_next (f (procs s n)) = queue_next (procs s n)" "state (f (procs s n)) = RUNNING"
      "prio_ok (f (procs s n))"
  shows "sched_inv Q ((upd n f s)\<lparr>cur := Some n\<rparr>)"
proof -
  let ?s = "(upd n f s)\<lparr>cur := Some n\<rparr>"
  have "queues Q ?s" using Q n queues_upd_free [of n Q f s] by (simp add: queues_def)
  moreover have "in_prio Q ?s" using pr n by (auto simp: in_prio_def queued_iff)
  moreover have "\<forall>i \<in> queued Q. state (procs ?s i) = READY \<and> prio_ok (procs ?s i)"
    using n rdy by auto
  moreover have "\<forall>i. state (procs ?s i) = READY \<and> used (procs ?s i) \<longrightarrow> i \<in> queued Q"
    using all f(2) by simp
  moreover have "\<forall>d. idle_proc ?s = Some d \<longrightarrow> d \<notin> queued Q \<and> prio_ok (procs ?s d)"
    using idle f(3) by simp
  moreover have "\<forall>c. cur ?s = Some c \<longrightarrow> c \<notin> queued Q \<and> prio_ok (procs ?s c) \<and> state (procs ?s c) \<noteq> NEW"
    using n f(2,3) by simp
  ultimately show ?thesis unfolding sched_inv_alt by (intro conjI)
qed

lemma aframe_fields:
  assumes "aframe A s s'"
  shows "state (procs s' i) = state (procs s i)" "kframe (procs s' i) = kframe (procs s i)"
    "base_priority (procs s' i) = base_priority (procs s i)" "used (procs s' i) = used (procs s i)"
    "cur s' = cur s" "idle_proc s' = idle_proc s"
proof -
  have "strip (procs s' i) = strip (if i \<in> A then aged (procs s i) else procs s i)"
    using assms by (simp add: aframe_def)
  from strip_eqD [OF this]
  show "state (procs s' i) = state (procs s i)" "kframe (procs s' i) = kframe (procs s i)"
    "base_priority (procs s' i) = base_priority (procs s i)" "used (procs s' i) = used (procs s i)"
    by simp_all
qed (use assms in \<open>auto simp: aframe_def\<close>)

definition run_pcb :: "bool \<Rightarrow> pcb \<Rightarrow> pcb" where
  "run_pcb is_idle p = (let p1 = p\<lparr>state := RUNNING, ticks_left := TIME_SLICE_TICKS\<rparr>
     in if is_idle then p1 else p1\<lparr>priority := base_priority p1, aging_ticks := 0\<rparr>)"

lemma run_pcb_fields:
  "queue_next (run_pcb b p) = queue_next p" "state (run_pcb b p) = RUNNING"
  "prio_ok (run_pcb b p) = prio_ok p" "ticks_left (run_pcb b p) = TIME_SLICE_TICKS"
  "kframe (run_pcb b p) = kframe p"
  by (simp_all add: run_pcb_def Let_def prio_ok_def)

lemma strip_run_pcb: "strip p = strip q \<Longrightarrow> strip (run_pcb b p) = strip (run_pcb b q)"
  by (cases p; cases q) (simp add: strip_def run_pcb_def Let_def)

lemma dispatch_spec:
  assumes Q: "queues Q s" and idle: "idle_proc s = Some d" and kf: "kframe (procs s d) \<noteq> 0"
    "\<forall>i \<in> queued Q. kframe (procs s i) \<noteq> 0"
  shows "case top_queue Q of
      None \<Rightarrow> dispatch c s = Some (kframe (procs s d), (upd d (run_pcb True) s)\<lparr>cur := Some d\<rparr>)
    | Some p \<Rightarrow> \<exists>s6. queues (Q(p := tl (Q p))) s6 \<and> qframe s s6 \<and> dispatch c s =
        Some (kframe (procs s (hd (Q p))),
          (upd (hd (Q p)) (run_pcb (hd (Q p) = d)) s6)\<lparr>cur := Some (hd (Q p))\<rparr>)"
proof (cases "top_queue Q")
  case None
  with pick_next_queues [OF Q] have "pick_next s = (None, s)" by simp
  then show ?thesis using None idle kf(1)
    by (simp add: dispatch_def Let_def run_pcb_def upd_def)
next
  case (Some p)
  then have p: "p < 4" "Q p \<noteq> []" using top_queue_Some by blast+
  then have hq: "hd (Q p) \<in> queued Q" by (auto simp: queued_iff)
  from pick_next_queues [OF Q] Some obtain s6 where
    s6: "pick_next s = (Some (hd (Q p)), s6)" "queues (Q(p := tl (Q p))) s6" "qframe s s6" by auto
  have kf6: "kframe (procs s6 (hd (Q p))) = kframe (procs s (hd (Q p)))" "kframe (procs s (hd (Q p))) \<noteq> 0"
    using qframe_fields(9) [OF s6(3)] kf(2) hq by auto
  have id6: "idle_proc s6 = Some d" using qframe_fields(2) [OF s6(3)] idle by simp
  have "dispatch c s = Some (kframe (procs s (hd (Q p))),
      (upd (hd (Q p)) (run_pcb (hd (Q p) = d)) s6)\<lparr>cur := Some (hd (Q p))\<rparr>)"
    using s6(1) kf6 id6 by (auto simp: dispatch_def Let_def run_pcb_def upd_def)
  with s6 Some show ?thesis by auto
qed

text \<open>
  Up to the choice: the outgoing process is back in its queue (if it still runs), every queued
  process has aged once, nothing else has changed.
\<close>

lemma schedule_aged:
  fixes rsp :: nat
  assumes inv: "sched_inv Q s" and en: "scheduler_enabled s" and c: "cur s = Some c"
    and exp: "ticks_left (procs s c) \<le> 1 \<or> state (procs s c) \<noteq> RUNNING"
  defines "t \<equiv> upd c (outgoing rsp s c) s"
  shows "\<exists>s5. schedule rsp s = dispatch c s5 \<and> queues (next_queues rsp s c Q) s5
    \<and> in_prio (next_queues rsp s c Q) s5
    \<and> queued (next_queues rsp s c Q) = queued (requeued s c Q) \<and> aframe (queued (requeued s c Q)) t s5"
proof -
  let ?Q1 = "requeued s c Q"
  let ?run = "state (procs s c) = RUNNING \<and> idle_proc s \<noteq> Some c"
  have Qs: "in_prio Q s" "c \<notin> queued Q" "0 \<le> base_priority (procs s c)"
    using inv c by (auto simp: sched_inv_def)
  from schedule_prepare [OF inv en c exp, of rsp] obtain s4 where
    s4: "schedule rsp s = Option.bind (apply_aging s4) (dispatch c)" "queues ?Q1 s4" "qframe t s4"
    unfolding t_def by blast
  have out: "?run \<Longrightarrow> priority (outgoing rsp s c (procs s c)) = base_priority (procs s c)"
    by (simp add: outgoing_def Let_def)
  have pr4: "priority (procs s4 i) = int p" if "p < 4" "i \<in> set (?Q1 p)" for p i
  proof (cases "i = c")
    case True
    then have "?run" "p = nat (base_priority (procs s c))"
      using that Qs(2) by (auto simp: requeued_def Let_def queued_iff split: if_splits)
    with True out Qs(3) show ?thesis using qframe_fields(6) [OF s4(3), of c] by (simp add: t_def)
  next
    case False
    then have "i \<in> set (Q p)" using that by (auto simp: requeued_def Let_def split: if_splits)
    with in_prioD [OF Qs(1) that(1)] False show ?thesis
      using qframe_fields(6) [OF s4(3), of i] by (simp add: t_def)
  qed
  then have pr4': "in_prio ?Q1 s4" by (simp add: in_prio_def)
  from apply_aging_queues [OF s4(2) pr4'] obtain s5 where
    s5: "apply_aging s4 = Some s5" "queues (aged_queues s4 ?Q1) s5" "aframe (queued ?Q1) s4 s5"
      "in_prio (aged_queues s4 ?Q1) s5" by blast
  have "promotes (procs s4 i) = promotes (procs t i)" for i
    using s4(3) by (intro promotes_strip) (simp add: qframe_def)
  then have Q2: "aged_queues s4 ?Q1 = next_queues rsp s c Q"
    by (simp add: next_queues_def aged_queues_def fun_eq_iff t_def)
  have "aframe (queued ?Q1) t s5"
    using aframe_trans [OF s4(3) [folded aframe_empty] s5(3)] by simp
  with s4(1) s5 queued_aged [OF pr4'] show ?thesis unfolding Q2 by (intro exI [of _ s5]) simp
qed

text \<open>What that leaves in the table.\<close>

lemma aged_table:
  assumes inv: "sched_inv Q s" and c: "cur s = Some c" and idle: "idle_proc s = Some d"
    and fr: "aframe (queued (requeued s c Q)) (upd c (outgoing rsp s c) s) s5"
  defines "A \<equiv> queued (requeued s c Q)"
  shows "\<forall>i \<in> A. state (procs s5 i) = READY \<and> prio_ok (procs s5 i)"
    "\<forall>i. state (procs s5 i) = READY \<and> used (procs s5 i) \<longrightarrow> i \<in> A"
    "idle_proc s5 = Some d" "d \<notin> A" "prio_ok (procs s5 d)" "A \<subseteq> insert c (queued Q)"
    "kframe (procs s5 i) = (if i = c then rsp else kframe (procs s i))"
proof -
  let ?t = "upd c (outgoing rsp s c) s"
  let ?run = "state (procs s c) = RUNNING \<and> idle_proc s \<noteq> Some c"
  have Qs: "c \<notin> queued Q" "d \<notin> queued Q" "0 \<le> base_priority (procs s c)" "base_priority (procs s c) \<le> 3"
    using inv c idle by (auto simp: sched_inv_def)
  have A: "A = (if ?run then insert c (queued Q) else queued Q)"
    using Qs(4) by (auto simp: A_def requeued_def Let_def queued_push)
  have out: "state (outgoing rsp s c (procs s c)) = (if ?run then READY else state (procs s c))"
    "kframe (outgoing rsp s c (procs s c)) = rsp"
    "prio_ok (outgoing rsp s c (procs s c)) = prio_ok (procs s c)"
    "used (outgoing rsp s c (procs s c)) = used (procs s c)"
    by (auto simp: outgoing_def Let_def prio_ok_def)
  have f5: "state (procs s5 i) = state (procs ?t i)" "kframe (procs s5 i) = kframe (procs ?t i)"
    "used (procs s5 i) = used (procs ?t i)" "prio_ok (procs s5 i) = prio_ok (procs s i)" for i
    using aframe_fields(1-4) [OF fr, of i] out(3) by (auto simp: prio_ok_def)
  show "idle_proc s5 = Some d" using aframe_fields(6) [OF fr] idle by simp
  show "d \<notin> A" using Qs(2) idle by (auto simp: A)
  show "prio_ok (procs s5 d)" using inv idle by (simp add: f5 sched_inv_alt)
  show "A \<subseteq> insert c (queued Q)" by (auto simp: A)
  show "kframe (procs s5 i) = (if i = c then rsp else kframe (procs s i))" by (simp add: f5 out(2))
  show "\<forall>i \<in> A. state (procs s5 i) = READY \<and> prio_ok (procs s5 i)"
    using inv c out(1) Qs(1) by (auto simp: A f5 sched_inv_alt)
  have "state (procs s c) \<noteq> READY" using inv c by (auto simp: sched_inv_alt prio_ok_def)
  with out(1) have cA: "c \<in> A" if "state (procs s5 c) = READY"
    using that by (simp add: A f5 split: if_splits)
  have "\<forall>i. state (procs s i) = READY \<and> used (procs s i) \<longrightarrow> i \<in> queued Q"
    using inv by (simp add: sched_inv_alt)
  then have "i \<in> A" if "i \<noteq> c" "state (procs s5 i) = READY" "used (procs s5 i)" for i
    using that by (simp add: A f5)
  with cA show "\<forall>i. state (procs s5 i) = READY \<and> used (procs s5 i) \<longrightarrow> i \<in> A" by metis
qed

text \<open>Taking the head of the highest queue and running it keeps the invariant.\<close>

lemma dispatch_inv:
  assumes Q: "queues Q s" and pr: "in_prio Q s" and idle: "idle_proc s = Some d" and db: "prio_ok (procs s d)"
    and dq: "d \<notin> queued Q" and kf: "kframe (procs s d) \<noteq> 0" "\<forall>i \<in> queued Q. kframe (procs s i) \<noteq> 0"
    and rdy: "\<forall>i \<in> queued Q. state (procs s i) = READY \<and> prio_ok (procs s i)"
    and all: "\<forall>i. state (procs s i) = READY \<and> used (procs s i) \<longrightarrow> i \<in> queued Q"
  shows "\<exists>n s' Q'. dispatch c s = Some (kframe (procs s' n), s') \<and> cur s' = Some n
    \<and> state (procs s' n) = RUNNING \<and> ticks_left (procs s' n) = TIME_SLICE_TICKS
    \<and> (case top_queue Q of None \<Rightarrow> n = d \<and> Q' = Q
         | Some p \<Rightarrow> Q p = n # tl (Q p) \<and> p < 4 \<and> Q' = Q(p := tl (Q p)))
    \<and> queued Q' = queued Q - {n} \<and> n \<in> insert d (queued Q)
    \<and> sched_inv Q' s' \<and> (\<forall>i. strip (procs s' i) = strip (if i = n then run_pcb (n = d) (procs s n) else procs s i))
    \<and> idle_proc s' = idle_proc s \<and> scheduler_enabled s' = scheduler_enabled s \<and> ticks s' = ticks s
    \<and> sched_st.more s' = sched_st.more s"
proof (cases "top_queue Q")
  case None
  let ?s' = "(upd d (run_pcb True) s)\<lparr>cur := Some d\<rparr>"
  have go: "dispatch c s = Some (kframe (procs s d), ?s')" using dispatch_spec [OF Q idle kf, of c] None by simp
  have "sched_inv Q ?s'"
    by (rule run_inv [OF Q pr dq rdy]) (use all db idle dq in \<open>simp_all add: run_pcb_fields\<close>)
  with go None dq show ?thesis by (intro exI [of _ d] exI [of _ ?s'] exI [of _ Q]) (simp add: run_pcb_fields)
next
  case (Some p)
  let ?n = "hd (Q p)" and ?Q' = "Q(p := tl (Q p))"
  from top_queue_Some [OF Some] have p: "p < 4" "Q p = ?n # tl (Q p)" by auto
  from dispatch_spec [OF Q idle kf, of c] Some obtain s6 where
    s6: "queues ?Q' s6" "qframe s s6"
      "dispatch c s = Some (kframe (procs s ?n), (upd ?n (run_pcb (?n = d)) s6)\<lparr>cur := Some ?n\<rparr>)" by auto
  define s9 where "s9 = (upd ?n (run_pcb (?n = d)) s6)\<lparr>cur := Some ?n\<rparr>"
  have nq: "?n \<in> queued Q" using p by (metis list.set_intros(1) queued_iff)
  note q' = queued_pop [OF Q p]
  note f6 = qframe_fields [OF s6(2)]
  have ok6: "prio_ok (procs s6 i) = prio_ok (procs s i)" for i by (simp add: prio_ok_def f6)
  have "set (?Q' q) \<subseteq> set (Q q)" for q using p(2) by (cases "Q p") auto
  then have pr6: "in_prio ?Q' s6" using pr unfolding in_prio_def f6 by blast
  have "sched_inv ?Q' s9" unfolding s9_def
    by (rule run_inv [OF s6(1) pr6])
      (use rdy all idle dq db nq in \<open>simp_all add: q' f6 ok6 run_pcb_fields\<close>)
  moreover have "strip (procs s9 i) = strip (if i = ?n then run_pcb (?n = d) (procs s ?n) else procs s i)" for i
    using s6(2) strip_run_pcb [of "procs s6 ?n" "procs s ?n"] by (simp add: s9_def qframe_def)
  moreover have "dispatch c s = Some (kframe (procs s9 ?n), s9)" using s6(3) by (simp add: s9_def run_pcb_fields f6)
  ultimately show ?thesis using Some p q' nq
    by (intro exI [of _ ?n] exI [of _ s9] exI [of _ ?Q']) (simp add: s9_def run_pcb_fields f6)
qed

text \<open>
  The scheduling step: when the quantum is over or the process no longer runs, \<^verbatim>\<open>schedule\<close>
  returns, runs the head of the highest non-empty queue after aging (the idle process when all are
  empty), gives it a full quantum and keeps the invariant.
\<close>

lemma schedule_step:
  assumes inv: "sched_inv Q s" and en: "scheduler_enabled s" and c: "cur s = Some c"
    and exp: "ticks_left (procs s c) \<le> 1 \<or> state (procs s c) \<noteq> RUNNING"
    and rsp: "rsp \<noteq> 0" and idle: "idle_proc s = Some d" and kf: "kframe (procs s d) \<noteq> 0"
      "\<forall>i \<in> queued Q. kframe (procs s i) \<noteq> 0"
  shows "\<exists>n s' s5 Q'. schedule rsp s = Some (kframe (procs s' n), s') \<and> cur s' = Some n
    \<and> state (procs s' n) = RUNNING \<and> ticks_left (procs s' n) = TIME_SLICE_TICKS
    \<and> (case top_queue (next_queues rsp s c Q) of None \<Rightarrow> n = d \<and> Q' = next_queues rsp s c Q
         | Some p \<Rightarrow> next_queues rsp s c Q p = n # tl (next_queues rsp s c Q p) \<and> p < 4
             \<and> Q' = (next_queues rsp s c Q)(p := tl (next_queues rsp s c Q p)))
    \<and> queued Q' = queued (requeued s c Q) - {n} \<and> n \<in> insert d (queued (requeued s c Q))
    \<and> sched_inv Q' s' \<and> aframe (queued (requeued s c Q)) (upd c (outgoing rsp s c) s) s5
    \<and> (\<forall>i. strip (procs s' i) = strip (if i = n then run_pcb (n = d) (procs s5 n) else procs s5 i))
    \<and> idle_proc s' = idle_proc s \<and> scheduler_enabled s' = scheduler_enabled s \<and> ticks s' = ticks s
    \<and> sched_st.more s' = sched_st.more s"
proof -
  let ?Q2 = "next_queues rsp s c Q"
  from schedule_aged [OF inv en c exp, of rsp] obtain s5 where
    s5: "schedule rsp s = dispatch c s5" "queues ?Q2 s5" "in_prio ?Q2 s5"
      "queued ?Q2 = queued (requeued s c Q)"
      "aframe (queued (requeued s c Q)) (upd c (outgoing rsp s c) s) s5" by blast
  note t = aged_table [OF inv c idle s5(5), folded s5(4)]
  have kf5: "kframe (procs s5 d) \<noteq> 0" "\<forall>i \<in> queued ?Q2. kframe (procs s5 i) \<noteq> 0"
    using kf rsp t(6) by (auto simp: t(7))
  have "idle_proc s5 = idle_proc s" "scheduler_enabled s5 = scheduler_enabled s" "ticks s5 = ticks s"
    "sched_st.more s5 = sched_st.more s"
    using s5(5) by (simp_all add: aframe_def)
  moreover from dispatch_inv [OF s5(2,3) t(3,5,4) kf5 t(1,2), of c] obtain n s' Q' where
    "dispatch c s5 = Some (kframe (procs s' n), s')" "cur s' = Some n"
    "state (procs s' n) = RUNNING" "ticks_left (procs s' n) = TIME_SLICE_TICKS"
    "case top_queue ?Q2 of None \<Rightarrow> n = d \<and> Q' = ?Q2
       | Some p \<Rightarrow> ?Q2 p = n # tl (?Q2 p) \<and> p < 4 \<and> Q' = ?Q2(p := tl (?Q2 p))"
    "queued Q' = queued ?Q2 - {n}" "n \<in> insert d (queued ?Q2)" "sched_inv Q' s'" "\<forall>i. strip (procs s' i) = strip (if i = n then run_pcb (n = d) (procs s5 n) else procs s5 i)"
    "idle_proc s' = idle_proc s5" "scheduler_enabled s' = scheduler_enabled s5" "ticks s' = ticks s5"
    "sched_st.more s' = sched_st.more s5"
    by (elim exE conjE) (rule that)
  ultimately show ?thesis using s5(1,4,5)
    by (intro exI [of _ n] exI [of _ s'] exI [of _ s5] exI [of _ Q'] conjI) simp_all
qed

end
