(* ===== verification/Sched_Run.thy ===== *)
theory Sched_Run
  imports Sched_Props
begin

text \<open>
  The scheduler as a state machine: timer interrupts, voluntary yields, processes that block, end,
  wake up or are stopped by others. The invariant \<open>sched_ok\<close> holds in every reachable state, the
  timer interrupt never fails in it, and a process that is ready gets the CPU after a bounded
  number of interrupts, whatever the others do: aging works.
\<close>

section \<open>The invariant between events\<close>

definition queued_ok :: "pcb \<Rightarrow> bool" where
  "queued_ok p \<longleftrightarrow> kframe p \<noteq> 0 \<and> 0 \<le> aging_ticks p \<and> (priority p < 3 \<longrightarrow> aging_ticks p \<le> 9)"

text \<open>What a timer interrupt may find: the current process may just have given up.\<close>

definition sched_pre :: "(nat \<Rightarrow> nat list) \<Rightarrow> 'a sched_st_scheme \<Rightarrow> bool" where
  "sched_pre Q s \<longleftrightarrow> sched_inv Q s \<and> scheduler_enabled s
     \<and> (\<exists>d. idle_proc s = Some d \<and> d < MAX_PROCS \<and> kframe (procs s d) \<noteq> 0)
     \<and> (\<exists>c. cur s = Some c \<and> c < MAX_PROCS \<and> ticks_left (procs s c) \<le> TIME_SLICE_TICKS)
     \<and> (\<forall>i \<in> queued Q. i < MAX_PROCS \<and> queued_ok (procs s i))"

definition sched_ok :: "(nat \<Rightarrow> nat list) \<Rightarrow> 'a sched_st_scheme \<Rightarrow> bool" where
  "sched_ok Q s \<longleftrightarrow> sched_pre Q s \<and> (\<forall>c. cur s = Some c \<longrightarrow> state (procs s c) = RUNNING)"

lemma sched_preD:
  assumes "sched_pre Q s"
  obtains c d where "sched_inv Q s" "scheduler_enabled s" "idle_proc s = Some d" "d < MAX_PROCS"
    "kframe (procs s d) \<noteq> 0" "cur s = Some c" "c < MAX_PROCS" "ticks_left (procs s c) \<le> TIME_SLICE_TICKS"
    "\<forall>i \<in> queued Q. i < MAX_PROCS \<and> queued_ok (procs s i)"
  using assms unfolding sched_pre_def by (elim exE conjE) (rule that)

lemma sched_pre_parts:
  assumes "sched_pre Q s"
  shows "queues Q s" "in_prio Q s" "\<forall>i \<in> queued Q. i < MAX_PROCS \<and> queued_ok (procs s i)"
proof -
  from assms have "sched_inv Q s" "\<forall>i \<in> queued Q. i < MAX_PROCS \<and> queued_ok (procs s i)"
    unfolding sched_pre_def by blast+
  then show "queues Q s" "in_prio Q s" "\<forall>i \<in> queued Q. i < MAX_PROCS \<and> queued_ok (procs s i)"
    unfolding sched_inv_def by blast+
qed

lemma ready_queued: "sched_pre Q s \<Longrightarrow> state (procs s i) = READY \<Longrightarrow> used (procs s i) \<Longrightarrow> i \<in> queued Q"
  unfolding sched_pre_def sched_inv_def by blast

section \<open>How long a process can wait\<close>

definition position :: "nat \<Rightarrow> nat list \<Rightarrow> nat" where
  "position i xs = length (takeWhile (\<lambda>x. x \<noteq> i) xs)"

lemma position_less: "i \<in> set xs \<Longrightarrow> position i xs < length xs"
  unfolding position_def by (induction xs) auto

lemma position_append: "i \<in> set xs \<Longrightarrow> position i (xs @ ys) = position i xs"
  unfolding position_def by (induction xs) auto

lemma position_tl: "xs \<noteq> [] \<Longrightarrow> i \<noteq> hd xs \<Longrightarrow> position i xs = Suc (position i (tl xs))"
  unfolding position_def by (cases xs) auto

lemma position_remove1: "x \<noteq> i \<Longrightarrow> position i (remove1 x xs) \<le> position i xs"
  unfolding position_def by (induction xs) auto

text \<open>The number of context switches a queued process can still have to wait for.\<close>

definition rank :: "(nat \<Rightarrow> nat list) \<Rightarrow> 'a sched_st_scheme \<Rightarrow> nat \<Rightarrow> nat" where
  "rank Q s i =
    (if priority (procs s i) \<ge> 3 then position i (Q 3)
     else nat ((3 - priority (procs s i)) * 10 - aging_ticks (procs s i)) + MAX_PROCS)"

lemma in_queue_prio:
  assumes "in_prio Q s" "i \<in> queued Q"
  obtains p where "p < 4" "i \<in> set (Q p)" "priority (procs s i) = int p"
  using assms by (auto simp: queued_iff in_prio_def)

lemma in_queue_top:
  assumes "in_prio Q s" "i \<in> queued Q" "3 \<le> priority (procs s i)"
  shows "i \<in> set (Q 3)"
proof -
  from assms(1,2) obtain p where p: "p < 4" "i \<in> set (Q p)" "priority (procs s i) = int p" by (rule in_queue_prio)
  with assms(3) have "p = 3" by linarith
  with p show ?thesis by simp
qed

lemma queue_length: "queues Q s \<Longrightarrow> \<forall>i \<in> queued Q. i < MAX_PROCS \<Longrightarrow> p < 4 \<Longrightarrow> length (Q p) \<le> MAX_PROCS"
  by (rule distinct_slots_length [OF lseg_distinct [OF queues_lseg]]) (auto simp: queued_iff)

lemma rank_bound:
  assumes pre: "sched_pre Q s" and i: "i \<in> queued Q"
  shows "rank Q s i \<le> 158"
proof -
  note inv = sched_pre_parts [OF pre]
  have ok: "\<forall>i \<in> queued Q. i < MAX_PROCS \<and> queued_ok (procs s i)" using inv(3) .
  from in_queue_prio [OF inv(2) i] obtain p where p: "p < 4" "i \<in> set (Q p)" "priority (procs s i) = int p" .
  show ?thesis
  proof (cases "p = 3")
    case True
    with p position_less [of i "Q 3"] queue_length [OF inv(1), of 3] ok show ?thesis
      by (auto simp: rank_def const_defs)
  next
    case False
    with p ok i show ?thesis by (auto simp: rank_def queued_ok_def const_defs)
  qed
qed

section \<open>A context switch\<close>

text \<open>The queues of the highest priority only grow at the tail while the others age.\<close>

lemma next_queues_top:
  assumes inv: "sched_inv Q s" and c: "cur s = Some c"
  shows "\<exists>X. next_queues rsp s c Q 3 = Q 3 @ X"
proof -
  let ?t = "upd c (outgoing rsp s c) s"
  from inv c have pr: "in_prio Q s" "c \<notin> queued Q" "0 \<le> base_priority (procs s c)" by (auto simp: sched_inv_def)
  have "stays ?t x" if "x \<in> set (requeued s c Q 3)" for x
  proof (cases "x = c")
    case True
    with that pr(2,3) have "state (procs s c) = RUNNING \<and> idle_proc s \<noteq> Some c" "base_priority (procs s c) = 3"
      by (auto simp: requeued_def Let_def queued_iff split: if_splits)
    with True show ?thesis by (simp add: promotes_def outgoing_def Let_def const_defs)
  next
    case False
    with that have "x \<in> set (Q 3)" by (auto simp: requeued_def Let_def split: if_splits)
    with in_prioD [OF pr(1), of 3 x] False show ?thesis by (simp add: promotes_def const_defs)
  qed
  then have "filter (stays ?t) (requeued s c Q 3) = requeued s c Q 3" by (intro filter_True) blast
  then show ?thesis by (auto simp: next_queues_def aged_queues_def requeued_def Let_def)
qed

text \<open>Aging one step: either the priority goes up or the counter does.\<close>

lemma rank_aged:
  assumes ok: "queued_ok p" and pr: "0 \<le> priority p" "priority p < 3"
  shows "if promotes p then priority (aged p) = priority p + 1 \<and> aging_ticks (aged p) = 0 \<and> aging_ticks p = 9
    else priority (aged p) = priority p \<and> aging_ticks (aged p) = aging_ticks p + 1 \<and> aging_ticks p < 9"
  using assms by (auto simp: queued_ok_def aged_def promotes_def aged_ticks_def const_defs)

lemma queued_ok_aged: "queued_ok p \<Longrightarrow> priority p \<le> 3 \<Longrightarrow> queued_ok (aged p)"
  by (auto simp: queued_ok_def aged_def promotes_def aged_ticks_def const_defs)

lemma queued_ok_strip: "strip p = strip q \<Longrightarrow> queued_ok p = queued_ok q"
  using strip_eqD [of p q] by (simp add: queued_ok_def)

text \<open>
  Where a waiting process is after a switch: its PCB has aged, and it is still queued. In the queue of
  the highest priority it has moved up by one place, since that queue is served first.
\<close>

lemma waiting_rank:
  assumes pre: "sched_pre Q s" and c: "cur s = Some c" and i: "i \<in> queued Q" "i \<noteq> n" "i \<in> queued Q'"
    and pcb: "strip (procs s' i) = strip (aged (procs s i))" and inv': "sched_inv Q' s'"
    and lt: "\<forall>i \<in> queued Q'. i < MAX_PROCS"
    and top: "case top_queue (next_queues rsp s c Q) of None \<Rightarrow> n = d \<and> Q' = next_queues rsp s c Q
       | Some p \<Rightarrow> next_queues rsp s c Q p = n # tl (next_queues rsp s c Q p) \<and> p < 4
           \<and> Q' = (next_queues rsp s c Q)(p := tl (next_queues rsp s c Q p))"
  shows "rank Q' s' i < rank Q s i"
proof -
  note parts = sched_pre_parts [OF pre]
  from pre have inv: "sched_inv Q s" by (simp add: sched_pre_def)
  have ok: "queued_ok (procs s i)" using parts(3) i(1) by blast
  have f: "priority (procs s' i) = priority (aged (procs s i))" "aging_ticks (procs s' i) = aging_ticks (aged (procs s i))"
    using strip_eqD [OF pcb] by simp_all
  from in_queue_prio [OF parts(2) i(1)] obtain p where p: "p < 4" "i \<in> set (Q p)" "priority (procs s i) = int p" .
  have q3: "position i (Q' 3) < MAX_PROCS" if "priority (procs s' i) = 3"
  proof -
    from inv' have Q': "queues Q' s'" "in_prio Q' s'" by (auto simp: sched_inv_def)
    from in_queue_prio [OF Q'(2) i(3)] that have "i \<in> set (Q' 3)" by auto
    with position_less queue_length [OF Q'(1) lt, of 3] show ?thesis by fastforce
  qed
  show ?thesis
  proof (cases "p = 3")
    case True
    from next_queues_top [OF inv c, of rsp] obtain X where X: "next_queues rsp s c Q 3 = Q 3 @ X" by blast
    with p True have "top_queue (next_queues rsp s c Q) = Some 3" by (auto simp: top_queue_def)
    with top X have Q': "Q' 3 = tl (Q 3 @ X)" "hd (Q 3 @ X) = n" by (auto dest!: arg_cong [where f = hd])
    have "position i (Q 3 @ X) = Suc (position i (Q' 3))"
      unfolding Q'(1) by (rule position_tl) (use p True Q'(2) i(2) in auto)
    then have "position i (Q' 3) < position i (Q 3)" using position_append [of i "Q 3" X] p True by simp
    moreover have "priority (procs s' i) = 3" using p True f(1) by (simp add: aged_def promotes_def const_defs)
    ultimately show ?thesis using p True by (simp add: rank_def)
  next
    case False
    with p have p3: "0 \<le> priority (procs s i)" "priority (procs s i) < 3" by auto
    note ag = rank_aged [OF ok p3]
    show ?thesis
    proof (cases "promotes (procs s i)")
      case True
      with ag f q3 p p3 show ?thesis by (auto simp: rank_def const_defs)
    next
      case False
      with ag f p p3 show ?thesis by (auto simp: rank_def)
    qed
  qed
qed

lemma requeued_in: "i \<in> queued Q \<Longrightarrow> i \<in> queued (requeued s c Q)"
proof -
  assume "i \<in> queued Q"
  then obtain p where "p < 4" "i \<in> set (Q p)" by (auto simp: queued_iff)
  then show ?thesis
    unfolding queued_iff by (intro exI [of _ p]) (auto simp: requeued_def Let_def)
qed

lemma requeued_ok:
  assumes inv: "sched_inv Q s" and c: "cur s = Some c" and q: "c \<in> queued (requeued s c Q)" and rsp: "rsp \<noteq> 0"
  shows "queued_ok (outgoing rsp s c (procs s c)) \<and> priority (outgoing rsp s c (procs s c)) \<le> 3"
proof -
  from inv c have "c \<notin> queued Q" "base_priority (procs s c) \<le> 3" by (auto simp: sched_inv_def)
  with q have "state (procs s c) = RUNNING \<and> idle_proc s \<noteq> Some c" by (auto simp: requeued_def split: if_splits)
  with rsp \<open>base_priority (procs s c) \<le> 3\<close> show ?thesis by (simp add: outgoing_def Let_def queued_ok_def)
qed

text \<open>
  What a context switch does not touch: everything outside the scheduler, the parts of the PCBs that
  are not the scheduler's, and the state of the processes that are neither ready nor running.
\<close>

definition core :: "pcb \<Rightarrow> pcb" where
  "core p = p\<lparr>priority := 0, state := NEW, kframe := 0, ticks_left := 0, queue_next := None, aging_ticks := 0\<rparr>"

lemma core_simps [simp]:
  "core (strip p) = core p" "core (aged p) = core p" "core (run_pcb b p) = core p"
  "core (outgoing rsp s c p) = core p" "core (p\<lparr>state := st\<rparr>) = core p" "core (p\<lparr>ticks_left := t\<rparr>) = core p"
  "core (p\<lparr>kframe := f\<rparr>) = core p" "core (ticks_left_update g p) = core p"
  by (simp_all add: core_def strip_def aged_def run_pcb_def outgoing_def Let_def)

lemma core_strip: "strip p = strip q \<Longrightarrow> core p = core q"
  by (metis core_simps(1))

lemma core_eqD:
  assumes "core p = core q"
  shows "pid p = pid q" "used p = used q" "base_priority p = base_priority q" "fd_table p = fd_table q"
    "wait_res p = wait_res q" "name p = name q" "parent_pid p = parent_pid q" "fg p = fg q" "prio_ok p = prio_ok q"
  using assms by (cases p; cases q; simp add: core_def prio_ok_def)+

definition ctx_frame :: "'a sched_st_scheme \<Rightarrow> 'a sched_st_scheme \<Rightarrow> bool" where
  "ctx_frame s s' \<longleftrightarrow> sched_st.more s' = sched_st.more s \<and> idle_proc s' = idle_proc s
     \<and> (\<forall>i. core (procs s' i) = core (procs s i))
     \<and> (\<forall>i. state (procs s i) \<notin> {READY, RUNNING} \<and> idle_proc s \<noteq> Some i \<longrightarrow> state (procs s' i) = state (procs s i))
     \<and> (\<forall>i. kframe (procs s i) \<noteq> 0 \<or> cur s = Some i \<longrightarrow> kframe (procs s' i) \<noteq> 0)"

lemma ctx_frame_cong:
  assumes "\<And>i. core (procs t i) = core (procs s i)" "\<And>i. state (procs t i) = state (procs s i)"
    "\<And>i. kframe (procs t i) = kframe (procs s i)" "cur t = cur s" "idle_proc t = idle_proc s"
    "sched_st.more t = sched_st.more s"
  shows "ctx_frame t s' = ctx_frame s s'"
  unfolding ctx_frame_def assms ..

lemma ctx_frameD:
  assumes "ctx_frame s s'"
  shows "sched_st.more s' = sched_st.more s" "idle_proc s' = idle_proc s" "core (procs s' i) = core (procs s i)"
    "state (procs s i) \<notin> {READY, RUNNING} \<Longrightarrow> idle_proc s \<noteq> Some i \<Longrightarrow> state (procs s' i) = state (procs s i)"
    "kframe (procs s i) \<noteq> 0 \<or> cur s = Some i \<Longrightarrow> kframe (procs s' i) \<noteq> 0"
  using assms unfolding ctx_frame_def by blast+

lemma switch_frame:
  assumes inv: "sched_inv Q s" and c: "cur s = Some c" and d: "idle_proc s = Some d" and rsp: "rsp \<noteq> 0"
    and af: "aframe (queued (requeued s c Q)) (upd c (outgoing rsp s c) s) s5"
    and pcbs: "\<forall>i. strip (procs s' i) = strip (if i = n then run_pcb (n = d) (procs s5 n) else procs s5 i)"
    and n: "n \<in> insert d (queued (requeued s c Q))"
    and keep: "idle_proc s' = idle_proc s" "sched_st.more s' = sched_st.more s"
  shows "ctx_frame s s'"
proof -
  let ?t = "upd c (outgoing rsp s c) s" and ?A = "queued (requeued s c Q)"
  have c5: "core (procs s5 i) = core (procs s i)" for i
  proof -
    have "strip (procs s5 i) = strip (if i \<in> ?A then aged (procs ?t i) else procs ?t i)"
      using af by (simp add: aframe_def)
    then have "core (procs s5 i) = core (if i \<in> ?A then aged (procs ?t i) else procs ?t i)" by (rule core_strip)
    then show ?thesis by (simp split: if_splits)
  qed
  have "core (procs s' i) = core (procs s5 i)" for i
    using pcbs core_strip [of "procs s' i" "if i = n then run_pcb (n = d) (procs s5 n) else procs s5 i"]
    by (simp split: if_splits)
  with c5 have cores: "\<forall>i. core (procs s' i) = core (procs s i)" by simp
  have f5: "state (procs s5 i) = (if i = c then state (outgoing rsp s c (procs s c)) else state (procs s i))"
    "kframe (procs s5 i) = (if i = c then rsp else kframe (procs s i))" for i
    using aframe_fields(1,2) [OF af, of i] by (auto simp: outgoing_def Let_def)
  have f': "state (procs s' i) = (if i = n then RUNNING else state (procs s5 i))"
    "kframe (procs s' i) = kframe (procs s5 i)" for i
    using pcbs strip_eqD(2,4) [of "procs s' i" "if i = n then run_pcb (n = d) (procs s5 n) else procs s5 i"]
    by (simp_all add: run_pcb_fields)
  have "state (procs s' i) = state (procs s i)" if i: "state (procs s i) \<notin> {READY, RUNNING}" "idle_proc s \<noteq> Some i" for i
  proof -
    have "i \<notin> queued Q" using inv i(1) unfolding sched_inv_def by blast
    with i(1) have "i \<notin> ?A" by (auto simp: requeued_def Let_def queued_iff split: if_splits)
    with n i(2) d have "i \<noteq> n" by auto
    with i(1) show ?thesis by (auto simp: f' f5 outgoing_def Let_def)
  qed
  moreover have "kframe (procs s' i) \<noteq> 0" if "kframe (procs s i) \<noteq> 0 \<or> cur s = Some i" for i
    using that rsp c by (auto simp: f' f5)
  ultimately show ?thesis using cores keep unfolding ctx_frame_def by blast
qed

text \<open>One context switch: the new process runs with a full quantum, and everyone left waiting is closer.\<close>

lemma switch_ok:
  assumes pre: "sched_pre Q s" and c: "cur s = Some c"
    and exp: "ticks_left (procs s c) \<le> 1 \<or> state (procs s c) \<noteq> RUNNING" and rsp: "rsp \<noteq> 0"
  shows "\<exists>n s' Q'. schedule rsp s = Some (kframe (procs s' n), s') \<and> sched_ok Q' s' \<and> cur s' = Some n
    \<and> kframe (procs s' n) \<noteq> 0 \<and> ticks_left (procs s' n) = TIME_SLICE_TICKS
    \<and> ticks s' = ticks s \<and> ctx_frame s s'
    \<and> (\<forall>i \<in> queued Q. i = n \<or> (i \<in> queued Q' \<and> rank Q' s' i < rank Q s i))"
proof -
  from pre obtain d where d: "sched_inv Q s" "scheduler_enabled s" "idle_proc s = Some d" "d < MAX_PROCS"
    "kframe (procs s d) \<noteq> 0" "c < MAX_PROCS"
    and qok: "\<forall>i \<in> queued Q. i < MAX_PROCS \<and> queued_ok (procs s i)"
    using c by (auto elim!: sched_preD)
  have kf: "\<forall>i \<in> queued Q. kframe (procs s i) \<noteq> 0" using qok by (simp add: queued_ok_def)
  let ?Q2 = "next_queues rsp s c Q" and ?A = "queued (requeued s c Q)"
  from schedule_step [OF d(1,2) c exp rsp d(3,5) kf] obtain n s' s5 Q' where
    st: "schedule rsp s = Some (kframe (procs s' n), s')" "cur s' = Some n" "state (procs s' n) = RUNNING"
      "ticks_left (procs s' n) = TIME_SLICE_TICKS"
      "case top_queue ?Q2 of None \<Rightarrow> n = d \<and> Q' = ?Q2
       | Some p \<Rightarrow> ?Q2 p = n # tl (?Q2 p) \<and> p < 4 \<and> Q' = ?Q2(p := tl (?Q2 p))"
      and qn: "queued Q' = ?A - {n}" "n \<in> insert d ?A" and inv': "sched_inv Q' s'"
      and af: "aframe ?A (upd c (outgoing rsp s c) s) s5" and pcbs:
      "\<forall>i. strip (procs s' i) = strip (if i = n then run_pcb (n = d) (procs s5 n) else procs s5 i)"
      and keep: "idle_proc s' = idle_proc s" "scheduler_enabled s' = scheduler_enabled s" "ticks s' = ticks s"
        "sched_st.more s' = sched_st.more s"
    by (elim exE conjE) (rule that)
  note tb = aged_table [OF d(1) c d(3) af]
  have pcb: "strip (procs s' i) = strip (aged (procs (upd c (outgoing rsp s c) s) i))" if "i \<in> queued Q'" for i
    using qn(1) af pcbs that by (simp add: aframe_def)
  have sub: "?A \<subseteq> insert c (queued Q)" using tb(6) .
  have "kframe (procs s' n) = kframe (procs s5 n)"
    using pcbs strip_eqD(4) [of "procs s' n" "run_pcb (n = d) (procs s5 n)"] by (simp add: run_pcb_fields)
  then have kn: "kframe (procs s' n) \<noteq> 0" using qn sub kf d(5) rsp by (auto simp: tb(7))
  have nM: "n < MAX_PROCS" using qn sub qok d(4,6) by blast
  have lt: "\<forall>i \<in> queued Q'. i < MAX_PROCS" using qn sub qok d(6) by blast
  have q': "queued_ok (procs s' i)" if "i \<in> queued Q'" for i
  proof -
    from that qn(1) have iA: "i \<in> ?A" by simp
    have "queued_ok (procs (upd c (outgoing rsp s c) s) i) \<and> priority (procs (upd c (outgoing rsp s c) s) i) \<le> 3"
    proof (cases "i = c")
      case True
      with requeued_ok [OF d(1) c _ rsp] iA show ?thesis by simp
    next
      case False
      with iA sub have iQ: "i \<in> queued Q" by blast
      from in_queue_prio [OF sched_pre_parts(2) [OF pre] iQ] have "priority (procs s i) \<le> 3" by force
      with iQ qok False show ?thesis by simp
    qed
    with queued_ok_aged queued_ok_strip [OF pcb [OF that]] show ?thesis by blast
  qed
  have kd: "kframe (procs s' d) \<noteq> 0"
    using pcbs strip_eqD(4) [of "procs s' d" "procs s5 d"] kn d(5) rsp by (cases "d = n") (auto simp: tb(7))
  have "sched_pre Q' s'"
  proof -
    have "idle_proc s' = Some d" "scheduler_enabled s'" "ticks_left (procs s' n) \<le> TIME_SLICE_TICKS"
      using keep d(2,3) st(4) by simp_all
    moreover have "\<forall>i \<in> queued Q'. i < MAX_PROCS \<and> queued_ok (procs s' i)" using lt q' by blast
    ultimately show ?thesis unfolding sched_pre_def using inv' d(4) kd nM st(2) by blast
  qed
  with st(2,3) have "sched_ok Q' s'" by (simp add: sched_ok_def)
  moreover have "i = n \<or> (i \<in> queued Q' \<and> rank Q' s' i < rank Q s i)" if i: "i \<in> queued Q" for i
  proof (cases "i = n")
    case False
    have "c \<notin> queued Q" using d(1) c unfolding sched_inv_def by blast
    with i have ic: "i \<noteq> c" by blast
    from requeued_in [OF i] False qn(1) have iQ': "i \<in> queued Q'" by simp
    have "strip (procs s' i) = strip (aged (procs s i))" using pcb [OF iQ'] ic by simp
    from waiting_rank [OF pre c i False iQ' this inv' lt st(5)] iQ' show ?thesis by simp
  qed simp
  moreover have "ctx_frame s s'" by (rule switch_frame [OF d(1) c d(3) rsp af pcbs qn(2) keep(1,4)])
  ultimately show ?thesis using st(1,2,4) kn keep(3) by blast
qed

section \<open>The events that do not switch\<close>

lemma timer_handler_simps [simp]:
  "procs (timer_handler s) = procs s" "ready_head (timer_handler s) = ready_head s"
  "ready_tail (timer_handler s) = ready_tail s" "cur (timer_handler s) = cur s"
  "idle_proc (timer_handler s) = idle_proc s" "scheduler_enabled (timer_handler s) = scheduler_enabled s"
  "ticks (timer_handler s) = inc64 (ticks s)" "sched_st.more (timer_handler s) = sched_st.more s"
  by (simp_all add: timer_handler_def Let_def)

lemma timer_handler_pre [simp]:
  "sched_pre Q (timer_handler s) = sched_pre Q s" "rank Q (timer_handler s) i = rank Q s i"
  "ctx_frame (timer_handler s) s' = ctx_frame s s'" "ctx_frame s (timer_handler s') = ctx_frame s s'"
  by (simp_all only: sched_pre_def sched_inv_def queues_def in_prio_def rank_def ctx_frame_def timer_handler_simps)

text \<open>A change of a PCB outside the queues.\<close>

lemma sched_inv_upd:
  assumes inv: "sched_inv Q s" and i: "i \<notin> queued Q" and f: "used (f (procs s i)) = used (procs s i)"
    "base_priority (f (procs s i)) = base_priority (procs s i)" "state (f (procs s i)) \<noteq> READY"
    "state (f (procs s i)) \<noteq> NEW"
  shows "sched_inv Q (upd i f s)"
proof -
  from inv have Q: "queues Q s" "in_prio Q s" unfolding sched_inv_def by blast+
  have "queues Q (upd i f s)" using queues_upd_free [OF i] Q(1) by blast
  moreover have "in_prio Q (upd i f s)" using Q(2) i by (auto simp: in_prio_def queued_iff)
  moreover have ok: "prio_ok (procs (upd i f s) j) = prio_ok (procs s j)" for j using f by (simp add: prio_ok_def)
  moreover have "state (procs (upd i f s) j) = (if j = i then state (f (procs s i)) else state (procs s j))"
    "used (procs (upd i f s) j) = used (procs s j)" for j using f(1) by simp_all
  ultimately show ?thesis
    using inv i f(3,4) unfolding sched_inv_alt upd_simps(4,5) by metis
qed

lemma sched_pre_upd_cur:
  assumes pre: "sched_pre Q s" and c: "cur s = Some c" and f: "used (f (procs s c)) = used (procs s c)"
    "base_priority (f (procs s c)) = base_priority (procs s c)" "state (f (procs s c)) \<noteq> READY"
    "state (f (procs s c)) \<noteq> NEW" "ticks_left (f (procs s c)) \<le> TIME_SLICE_TICKS"
    "kframe (f (procs s c)) \<noteq> 0 \<or> kframe (f (procs s c)) = kframe (procs s c)"
  shows "sched_pre Q (upd c f s)" "\<And>i. i \<in> queued Q \<Longrightarrow> rank Q (upd c f s) i = rank Q s i"
proof -
  from pre obtain d where d: "sched_inv Q s" "scheduler_enabled s" "idle_proc s = Some d" "d < MAX_PROCS"
    "kframe (procs s d) \<noteq> 0" "c < MAX_PROCS"
    and qok: "\<forall>i \<in> queued Q. i < MAX_PROCS \<and> queued_ok (procs s i)"
    using c by (auto elim!: sched_preD)
  have cq: "c \<notin> queued Q" using d(1) c unfolding sched_inv_def by blast
  have "kframe (procs (upd c f s) d) \<noteq> 0" using d(5) f(6) by auto
  moreover have "\<forall>i \<in> queued Q. i < MAX_PROCS \<and> queued_ok (procs (upd c f s) i)" using qok cq by auto
  moreover have "ticks_left (procs (upd c f s) c) \<le> TIME_SLICE_TICKS" using f(5) by simp
  ultimately show "sched_pre Q (upd c f s)"
    unfolding sched_pre_def upd_simps(4-6) using sched_inv_upd [where f = f, OF d(1) cq f(1-4)] d(2-4,6) c by blast
  show "\<And>i. i \<in> queued Q \<Longrightarrow> rank Q (upd c f s) i = rank Q s i" using cq by (auto simp: rank_def)
qed

text \<open>What is still to wait, in timer interrupts.\<close>

definition wait_bound :: "(nat \<Rightarrow> nat list) \<Rightarrow> 'a sched_st_scheme \<Rightarrow> nat \<Rightarrow> nat" where
  "wait_bound Q s i = 6 * rank Q s i + (case cur s of None \<Rightarrow> 0 | Some c \<Rightarrow> nat (ticks_left (procs s c)))"

lemma wait_bound_max: "sched_pre Q s \<Longrightarrow> i \<in> queued Q \<Longrightarrow> wait_bound Q s i \<le> 953"
  using rank_bound [of Q s i] by (auto simp: wait_bound_def const_defs elim!: sched_preD split: option.split)

text \<open>A timer interrupt, from any state in which the invariant holds.\<close>

definition nearer :: "(nat \<Rightarrow> nat list) \<Rightarrow> 'a sched_st_scheme \<Rightarrow> (nat \<Rightarrow> nat list) \<Rightarrow> 'a sched_st_scheme \<Rightarrow> bool" where
  "nearer Q s Q' s' \<longleftrightarrow>
     (\<forall>i \<in> queued Q. cur s' = Some i \<or> (i \<in> queued Q' \<and> wait_bound Q' s' i < wait_bound Q s i))"

lemma timer_switch:
  assumes pre: "sched_pre Q s" and c: "cur s = Some c" and rsp: "rsp \<noteq> 0"
    and exp: "ticks_left (procs s c) \<le> 1 \<or> state (procs s c) \<noteq> RUNNING"
  shows "\<exists>r s' Q'. irq_timer rsp s = Some (r, s') \<and> sched_ok Q' s' \<and> nearer Q s Q' s'
    \<and> ticks s' = inc64 (ticks s) \<and> ctx_frame s s'"
proof -
  from switch_ok [of Q "timer_handler s" c rsp] assms obtain n s' Q' where
    sw: "schedule rsp (timer_handler s) = Some (kframe (procs s' n), s')" "sched_ok Q' s'" "cur s' = Some n"
      "ticks_left (procs s' n) = TIME_SLICE_TICKS" "ticks s' = inc64 (ticks s)" "ctx_frame s s'"
      "\<forall>i \<in> queued Q. i = n \<or> (i \<in> queued Q' \<and> rank Q' s' i < rank Q s i)" by auto
  have "wait_bound Q' s' i < wait_bound Q s i" if "rank Q' s' i < rank Q s i" for i
    using that sw(3,4) by (simp add: wait_bound_def const_defs c)
  with sw(3,7) have "nearer Q s Q' s'" by (auto simp: nearer_def)
  with sw(1,2,5,6) show ?thesis by (auto simp: irq_timer_def)
qed

lemma timer_ok:
  assumes ok: "sched_ok Q s" and rsp: "rsp \<noteq> 0"
  shows "\<exists>r s' Q'. irq_timer rsp s = Some (r, s') \<and> sched_ok Q' s' \<and> nearer Q s Q' s'
    \<and> ticks s' = inc64 (ticks s) \<and> ctx_frame s s'"
proof -
  from ok have pre: "sched_pre Q s" by (simp add: sched_ok_def)
  then obtain c where c: "scheduler_enabled s" "cur s = Some c" "ticks_left (procs s c) \<le> TIME_SLICE_TICKS"
    by (auto elim!: sched_preD)
  from ok c have run: "state (procs s c) = RUNNING" by (simp add: sched_ok_def)
  show ?thesis
  proof (cases "1 < ticks_left (procs s c)")
    case False
    then show ?thesis using timer_switch [OF pre c(2) rsp] by simp
  next
    case True
    let ?f = "\<lambda>p. p\<lparr>kframe := rsp, ticks_left := ticks_left p - 1\<rparr>"
    let ?s' = "upd c ?f (timer_handler s)"
    have go: "irq_timer rsp s = Some (0, ?s')"
      using schedule_no_switch [of "timer_handler s" c rsp] c run True by (simp add: irq_timer_def)
    have u: "sched_pre Q ?s'" "\<And>i. i \<in> queued Q \<Longrightarrow> rank Q ?s' i = rank Q s i"
      using sched_pre_upd_cur [of Q "timer_handler s" c ?f] pre c run rsp by simp_all
    have "sched_ok Q ?s'" using u(1) c run by (simp add: sched_ok_def)
    moreover have "nearer Q s Q ?s'" using u(2) True c by (simp add: nearer_def wait_bound_def)
    moreover have "ctx_frame s ?s'" using run rsp c by (simp add: ctx_frame_def)
    ultimately show ?thesis using go by (intro exI [of _ 0] exI [of _ ?s'] exI [of _ Q]) simp
  qed
qed

text \<open>A process that starts or wakes up is appended to the queue of its priority.\<close>

definition fresh_ok :: "'a sched_st_scheme \<Rightarrow> nat \<Rightarrow> bool" where
  "fresh_ok s i \<longleftrightarrow> cur s \<noteq> Some i \<and> idle_proc s \<noteq> Some i \<and> i < MAX_PROCS \<and> prio_ok (procs s i)
     \<and> kframe (procs s i) \<noteq> 0 \<and> state (procs s i) \<noteq> READY"

definition enqueued_pcb :: "pcb \<Rightarrow> pcb" where
  "enqueued_pcb p =
    p\<lparr>priority := (if priority p < MIN_PRIO then MIN_PRIO else if priority p > HIGHEST_PRIO then HIGHEST_PRIO else priority p),
      queue_next := None, state := READY, ticks_left := TIME_SLICE_TICKS, aging_ticks := 0\<rparr>"

lemma core_enqueued [simp]: "core (enqueued_pcb p) = core p" "state (enqueued_pcb p) = READY"
  by (simp_all add: core_def enqueued_pcb_def)

lemma enqueue_ok:
  assumes ok: "sched_ok Q s" and fresh: "fresh_ok s i"
  shows "\<exists>s' Q'. sched_enqueue i s = Some s' \<and> sched_ok Q' s' \<and> cur s' = cur s \<and> queued Q' = insert i (queued Q)
    \<and> qframe (upd i enqueued_pcb s) s' \<and> (\<forall>j \<in> queued Q. wait_bound Q' s' j \<le> wait_bound Q s j)"
proof -
  from ok obtain c d where cd: "sched_inv Q s" "scheduler_enabled s" "idle_proc s = Some d" "d < MAX_PROCS"
    "kframe (procs s d) \<noteq> 0" "cur s = Some c" "c < MAX_PROCS" "ticks_left (procs s c) \<le> TIME_SLICE_TICKS"
    and qok: "\<forall>i \<in> queued Q. i < MAX_PROCS \<and> queued_ok (procs s i)"
    unfolding sched_ok_def by (auto elim!: sched_preD)
  from cd(1) have Q: "queues Q s" "in_prio Q s" and
    rdy: "\<forall>i \<in> queued Q. state (procs s i) = READY \<and> prio_ok (procs s i)"
    "\<forall>i. state (procs s i) = READY \<and> used (procs s i) \<longrightarrow> i \<in> queued Q"
    unfolding sched_inv_alt by blast+
  from fresh have fr: "i \<noteq> c" "i \<noteq> d" "i < MAX_PROCS" "prio_ok (procs s i)" "kframe (procs s i) \<noteq> 0"
    and iq: "i \<notin> queued Q" using cd(3,6) rdy(1) by (auto simp: fresh_ok_def)
  define pr where "pr = (let x = priority (procs s i) in if x < MIN_PRIO then MIN_PRIO else if x > HIGHEST_PRIO then HIGHEST_PRIO else x)"
  define f :: "pcb \<Rightarrow> pcb" where "f = (\<lambda>p. p\<lparr>priority := pr, queue_next := None, state := READY,
    ticks_left := TIME_SLICE_TICKS, aging_ticks := 0\<rparr>)"
  have fe: "upd i enqueued_pcb s = upd i f s"
    by (simp add: upd_def enqueued_pcb_def f_def pr_def Let_def)
  have pr: "0 \<le> pr" "pr \<le> 3" by (auto simp: pr_def Let_def const_defs)
  then have ix: "nat pr = prio_index pr" "nat pr < 4" by (auto simp: prio_index_def const_defs)
  have en: "sched_enqueue i s = q_push i (upd i f s)"
    using cd(6) by (simp add: sched_enqueue_def f_def pr_def Let_def)
  have "queues Q (upd i f s)" using queues_upd_free [OF iq] Q(1) by blast
  from q_push_queues [OF this iq, of "nat pr"] ix(1) obtain s' where
    s': "sched_enqueue i s = Some s'" "queues (Q(nat pr := Q (nat pr) @ [i])) s'" "qframe (upd i f s) s'"
    by (auto simp: en f_def)
  let ?Q' = "Q(nat pr := Q (nat pr) @ [i])"
  note fl = qframe_fields [OF s'(3)]
  have q': "queued ?Q' = insert i (queued Q)" using queued_push [OF ix(2)] .
  have pcb: "state (procs s' j) = (if j = i then READY else state (procs s j))" "used (procs s' j) = used (procs s j)"
    "base_priority (procs s' j) = base_priority (procs s j)" "kframe (procs s' j) = kframe (procs s j)"
    "priority (procs s' j) = (if j = i then pr else priority (procs s j))"
    "aging_ticks (procs s' j) = (if j = i then 0 else aging_ticks (procs s j))" for j
    by (simp_all add: fl f_def)
  have ok': "prio_ok (procs s' j) = prio_ok (procs s j)" for j by (simp add: prio_ok_def pcb)
  have "in_prio ?Q' s'"
    unfolding in_prio_def pcb using Q(2) iq pr by (auto simp: in_prio_def queued_iff)
  moreover have "\<forall>j \<in> queued ?Q'. state (procs s' j) = READY \<and> prio_ok (procs s' j)"
    using rdy(1) fr(4) by (simp add: q' pcb ok')
  moreover have "\<forall>j. state (procs s' j) = READY \<and> used (procs s' j) \<longrightarrow> j \<in> queued ?Q'"
    using rdy(2) by (simp add: q' pcb)
  moreover have "cur s' = Some c" "idle_proc s' = Some d" "scheduler_enabled s'" using cd by (simp_all add: fl)
  moreover have cs: "c \<notin> queued Q" "prio_ok (procs s c)" "state (procs s c) \<noteq> NEW" "d \<notin> queued Q" "prio_ok (procs s d)"
    using cd(1,3,6) unfolding sched_inv_alt by blast+
  ultimately have inv': "sched_inv ?Q' s'"
    unfolding sched_inv_alt using s'(2) fr(1,2) by (simp add: q' ok' pcb)
  have tl: "ticks_left (procs s' c) = ticks_left (procs s c)" using fr(1) by (simp add: fl)
  have qok': "\<forall>j \<in> queued ?Q'. j < MAX_PROCS \<and> queued_ok (procs s' j)"
    using qok fr(3,5) iq by (auto simp: q' queued_ok_def pcb)
  have run: "state (procs s' c) = RUNNING" using ok cd(6) fr(1) by (simp add: pcb sched_ok_def)
  have "idle_proc s' = Some d" "scheduler_enabled s'" "cur s' = Some c" "kframe (procs s' d) \<noteq> 0"
    "ticks_left (procs s' c) \<le> TIME_SLICE_TICKS" using cd by (simp_all add: fl(1-3) pcb tl)
  then have ok2: "sched_ok ?Q' s'"
    unfolding sched_ok_def sched_pre_def using inv' qok' cd(4,7) run by simp
  have "rank ?Q' s' j = rank Q s j" if "j \<in> queued Q" for j
  proof -
    from that iq have "j \<noteq> i" by blast
    moreover note in_queue_top [OF Q(2) that]
    ultimately show ?thesis using position_append [of j "Q 3"] by (simp add: rank_def pcb)
  qed
  then have "\<forall>j \<in> queued Q. wait_bound ?Q' s' j \<le> wait_bound Q s j" using cd(6) tl by (simp add: fl(1) wait_bound_def)
  moreover have "cur s' = cur s" by (simp add: fl(1))
  moreover have "qframe (upd i enqueued_pcb s) s'" using s'(3) by (simp only: fe)
  ultimately show ?thesis using s'(1) q' ok2 by blast
qed

text \<open>A ready process that is stopped by another one leaves its queue.\<close>

lemma queued_remove:
  assumes "queues Q s" "p < 4" "i \<in> set (Q p)"
  shows "queued (Q(p := remove1 i (Q p))) = queued Q - {i}"
proof -
  have d: "distinct (Q p)" using lseg_distinct [OF queues_lseg [OF assms(1,2)]] .
  have "i \<notin> set (Q q)" if "q < 4" "q \<noteq> p" for q using queues_disj [OF assms(1) that(1) assms(2) _ assms(3)] that(2) by blast
  then show ?thesis using d assms(2) by (auto simp: queued_iff split: if_splits)
qed

lemma remove_ok:
  assumes ok: "sched_ok Q s" and i: "i \<in> queued Q" and st: "st \<noteq> READY" "st \<noteq> NEW"
  defines "f \<equiv> (\<lambda>p. p\<lparr>state := st, ticks_left := 0\<rparr>)"
  shows "\<exists>t Q'. sched_remove i s = Some t \<and> sched_ok Q' (upd i f t) \<and> cur (upd i f t) = cur s
    \<and> queued Q' = queued Q - {i} \<and> (\<forall>j \<in> queued Q - {i}. wait_bound Q' (upd i f t) j \<le> wait_bound Q s j)"
proof -
  from ok obtain c d where cd: "sched_inv Q s" "scheduler_enabled s" "idle_proc s = Some d" "d < MAX_PROCS"
    "kframe (procs s d) \<noteq> 0" "cur s = Some c" "c < MAX_PROCS" "ticks_left (procs s c) \<le> TIME_SLICE_TICKS"
    and qok: "\<forall>i \<in> queued Q. i < MAX_PROCS \<and> queued_ok (procs s i)"
    unfolding sched_ok_def by (auto elim!: sched_preD)
  from cd(1) have Q: "queues Q s" "in_prio Q s" and
    rdy: "\<forall>i \<in> queued Q. state (procs s i) = READY \<and> prio_ok (procs s i)"
    "\<forall>i. state (procs s i) = READY \<and> used (procs s i) \<longrightarrow> i \<in> queued Q" and
    cs: "c \<notin> queued Q" "prio_ok (procs s c)" "state (procs s c) \<noteq> NEW" "d \<notin> queued Q" "prio_ok (procs s d)"
    using cd(3,6) unfolding sched_inv_alt by blast+
  from cs i have ne: "i \<noteq> c" "i \<noteq> d" by auto
  from Q(2) i obtain p where p: "p < 4" "i \<in> set (Q p)" "priority (procs s i) = int p" by (rule in_queue_prio)
  let ?Q' = "Q(p := remove1 i (Q p))"
  from p have "0 \<le> priority (procs s i)" "priority (procs s i) \<le> 3" "p = nat (priority (procs s i))" by simp_all
  from q_remove_queues [OF Q(1) this] obtain t where
    t: "q_remove i s = Some t" "queues ?Q' t" "qframe s t" by blast
  have "state (procs s i) = READY" using rdy(1) i by blast
  then have rm: "sched_remove i s = Some t" using t(1) cd(6) ne(1) by (simp add: sched_remove_def Let_def)
  note fl = qframe_fields [OF t(3)]
  have q': "queued ?Q' = queued Q - {i}" using queued_remove [OF Q(1) p(1,2)] .
  have pcb: "state (procs t j) = state (procs s j)" "used (procs t j) = used (procs s j)"
    "priority (procs t j) = priority (procs s j)" "aging_ticks (procs t j) = aging_ticks (procs s j)"
    "prio_ok (procs t j) = prio_ok (procs s j)" "queued_ok (procs t j) = queued_ok (procs s j)" for j
    by (simp_all add: fl prio_ok_def queued_ok_def)
  let ?s' = "upd i f t"
  have pcb': "state (procs ?s' j) = (if j = i then st else state (procs s j))"
    "priority (procs ?s' j) = priority (procs s j)" "prio_ok (procs ?s' j) = prio_ok (procs s j)"
    "used (procs ?s' j) = used (procs s j)" "queued_ok (procs ?s' j) = queued_ok (procs s j)"
    "aging_ticks (procs ?s' j) = aging_ticks (procs s j)" for j
    by (auto simp: f_def pcb fl prio_ok_def queued_ok_def)
  have "in_prio ?Q' ?s'"
    unfolding in_prio_def pcb' using Q(2) by (auto simp: in_prio_def dest: notin_set_remove1 split: if_splits)
  moreover have "queues ?Q' ?s'" using queues_upd_free [of i ?Q' f t] t(2) by (simp add: q')
  moreover have "\<forall>j \<in> queued ?Q'. state (procs ?s' j) = READY \<and> prio_ok (procs ?s' j)"
    unfolding q' pcb' using rdy(1) by simp
  moreover have "\<forall>j. state (procs ?s' j) = READY \<and> used (procs ?s' j) \<longrightarrow> j \<in> queued ?Q'"
    unfolding q' pcb' using rdy(2) st(1) by simp
  moreover have cur': "cur ?s' = Some c" "idle_proc ?s' = Some d" "scheduler_enabled ?s'"
    using cd by (simp_all add: fl)
  ultimately have inv': "sched_inv ?Q' ?s'"
    unfolding sched_inv_alt q' pcb' using cs ne st(1) by simp
  have tl: "ticks_left (procs ?s' c) = ticks_left (procs s c)" "kframe (procs ?s' d) = kframe (procs s d)"
    using ne by (simp_all add: fl)
  have run: "state (procs ?s' c) = RUNNING" unfolding pcb' using ok cd(6) ne(1) by (simp add: sched_ok_def)
  have "\<forall>j \<in> queued ?Q'. j < MAX_PROCS \<and> queued_ok (procs ?s' j)"
    unfolding q' pcb' using qok by simp
  then have ok': "sched_ok ?Q' ?s'"
    unfolding sched_ok_def sched_pre_def using inv' cur' cd(4,5,7,8) run tl by simp
  have "rank ?Q' ?s' j \<le> rank Q s j" if "j \<noteq> i" for j
    unfolding rank_def pcb' using position_remove1 [of i j "Q 3"] that by auto
  then have "\<forall>j \<in> queued Q - {i}. wait_bound ?Q' ?s' j \<le> wait_bound Q s j"
    unfolding wait_bound_def cur'(1) cd(6) option.case tl(1) by simp
  moreover have "cur ?s' = cur s" using cur'(1) cd(6) by simp
  ultimately show ?thesis using rm ok' q' by blast
qed

section \<open>The state machine\<close>

text \<open>
  \<open>sched_step b s s'\<close>: one event; \<open>b\<close> tells whether it is a timer interrupt (the periodic one or
  the one a yield raises). The rules are the ways the kernel calls the scheduler: \<^verbatim>\<open>irq_timer_handler\<close>,
  \<^verbatim>\<open>sys_yield\<close>, a process that blocks or ends itself and yields, \<^verbatim>\<open>proc_create\<close> and \<^verbatim>\<open>proc_unblock\<close>
  enqueuing a process, \<^verbatim>\<open>proc_block\<close> and \<^verbatim>\<open>proc_kill\<close> on another process that is ready.
\<close>

inductive sched_step :: "bool \<Rightarrow> 'a sched_st_scheme \<Rightarrow> 'a sched_st_scheme \<Rightarrow> bool" where
  tick: "rsp \<noteq> 0 \<Longrightarrow> irq_timer rsp s = Some (r, s') \<Longrightarrow> sched_step True s s'"
| yield: "rsp \<noteq> 0 \<Longrightarrow> sched_force_yield rsp s = Some (r, s') \<Longrightarrow> sched_step True s s'"
| give_up: "rsp \<noteq> 0 \<Longrightarrow> cur s = Some c \<Longrightarrow> st = BLOCKED \<or> st = EXITED \<Longrightarrow>
    sched_force_yield rsp (upd c (\<lambda>p. p\<lparr>state := st, ticks_left := 0\<rparr>) s) = Some (r, s') \<Longrightarrow> sched_step True s s'"
| start: "fresh_ok s i \<Longrightarrow> sched_enqueue i s = Some s' \<Longrightarrow> sched_step False s s'"
| wake: "fresh_ok s i \<Longrightarrow> sched_enqueue i
      (upd i (\<lambda>p. p\<lparr>state := READY, ticks_left := TIME_SLICE_TICKS, aging_ticks := 0\<rparr>) s) = Some s' \<Longrightarrow>
    sched_step False s s'"
| stop: "cur s \<noteq> Some i \<Longrightarrow> state (procs s i) = READY \<Longrightarrow> used (procs s i) \<Longrightarrow> st = BLOCKED \<or> st = EXITED \<Longrightarrow>
    sched_remove i s = Some t \<Longrightarrow> sched_step False s (upd i (\<lambda>p. p\<lparr>state := st, ticks_left := 0\<rparr>) t)"

inductive_cases sched_stepE: "sched_step b s s'"

lemma enqueue_woken:
  assumes "cur s \<noteq> None"
  shows "sched_enqueue i (upd i (\<lambda>p. p\<lparr>state := READY, ticks_left := TIME_SLICE_TICKS, aging_ticks := 0\<rparr>) s)
    = sched_enqueue i s"
  using assms by (auto simp: sched_enqueue_def upd_def Let_def)

text \<open>A yield from a state in which the process may already be marked as blocked.\<close>

lemma yield_ok:
  assumes pre: "sched_pre Q s" and c: "cur s = Some c" and rsp: "rsp \<noteq> 0"
    and st: "state (procs s c) \<noteq> READY" "state (procs s c) \<noteq> NEW"
  shows "\<exists>r s' Q'. sched_force_yield rsp s = Some (r, s') \<and> sched_ok Q' s' \<and> nearer Q s Q' s'
    \<and> ticks s' = inc64 (ticks s) \<and> ctx_frame s s'"
proof -
  let ?f = "ticks_left_update (\<lambda>_. 0)" and ?s = "upd c (ticks_left_update (\<lambda>_. 0)) s"
  have u: "sched_pre Q ?s" "\<And>i. i \<in> queued Q \<Longrightarrow> rank Q ?s i = rank Q s i"
    using sched_pre_upd_cur [OF pre c, of ?f] st by (simp_all add: const_defs)
  from timer_switch [OF u(1) _ rsp] c obtain r s' Q' where
    s': "irq_timer rsp ?s = Some (r, s')" "sched_ok Q' s'" "nearer Q ?s Q' s'" "ticks s' = inc64 (ticks s)"
    "ctx_frame ?s s'" by auto
  have "ctx_frame ?s s' = ctx_frame s s'" by (rule ctx_frame_cong) simp_all
  with s'(5) have fr: "ctx_frame s s'" by simp
  have "wait_bound Q ?s i \<le> wait_bound Q s i" if "i \<in> queued Q" for i
    using u(2) [OF that] c by (simp add: wait_bound_def)
  with s'(3) have "nearer Q s Q' s'" unfolding nearer_def by (meson order_less_le_trans)
  with s'(1,2,4) fr c show ?thesis by (auto simp: sched_force_yield_def)
qed

definition progress ::
  "bool \<Rightarrow> (nat \<Rightarrow> nat list) \<Rightarrow> 'a sched_st_scheme \<Rightarrow> (nat \<Rightarrow> nat list) \<Rightarrow> 'a sched_st_scheme \<Rightarrow> bool" where
  "progress b Q s Q' s' \<longleftrightarrow>
     (\<forall>i \<in> queued Q. i \<in> queued Q' \<longrightarrow> cur s' = Some i
        \<or> wait_bound Q' s' i + (if b then 1 else 0) \<le> wait_bound Q s i)"

lemma nearer_progress: "nearer Q s Q' s' \<Longrightarrow> progress True Q s Q' s'"
  by (auto simp: nearer_def progress_def)

text \<open>Every event keeps the invariant and brings every process that stays queued nearer to the CPU.\<close>

lemma sched_step_ok:
  assumes step: "sched_step b s s'" and ok: "sched_ok Q s"
  shows "\<exists>Q'. sched_ok Q' s' \<and> progress b Q s Q' s'"
proof -
  from ok have pre: "sched_pre Q s" by (simp add: sched_ok_def)
  then obtain c where c: "cur s = Some c" by (auto elim!: sched_preD)
  with ok have run: "state (procs s c) = RUNNING" by (simp add: sched_ok_def)
  from step show ?thesis
  proof cases
    case (tick rsp r)
    from timer_ok [OF ok tick(2)] tick(3) obtain Q' where "sched_ok Q' s'" "nearer Q s Q' s'" by auto
    with nearer_progress tick(1) show ?thesis by blast
  next
    case (yield rsp r)
    from yield_ok [OF pre c yield(2)] run yield(3) obtain Q' where "sched_ok Q' s'" "nearer Q s Q' s'" by auto
    with nearer_progress yield(1) show ?thesis by blast
  next
    case (give_up rsp c' st r)
    let ?f = "\<lambda>p. p\<lparr>state := st, ticks_left := 0\<rparr>"
    have cc: "c' = c" "st \<noteq> READY" "st \<noteq> NEW" using give_up c by auto
    have u: "sched_pre Q (upd c ?f s)" "\<And>i. i \<in> queued Q \<Longrightarrow> rank Q (upd c ?f s) i = rank Q s i"
      using sched_pre_upd_cur [OF pre c, of ?f] cc by (simp_all add: const_defs)
    from yield_ok [OF u(1) _ give_up(2), of c] c cc give_up(5) obtain Q' where
      Q': "sched_ok Q' s'" "nearer Q (upd c ?f s) Q' s'" by auto
    have "wait_bound Q (upd c ?f s) i \<le> wait_bound Q s i" if "i \<in> queued Q" for i
      using u(2) [OF that] c by (simp add: wait_bound_def)
    with Q'(2) have "nearer Q s Q' s'" unfolding nearer_def by (meson order_less_le_trans)
    with Q'(1) nearer_progress give_up(1) show ?thesis by blast
  next
    case (start i)
    from enqueue_ok [OF ok start(2)] start(3) obtain Q' where
      "sched_ok Q' s'" "\<forall>j \<in> queued Q. wait_bound Q' s' j \<le> wait_bound Q s j" by auto
    with start(1) show ?thesis by (intro exI [of _ Q']) (simp add: progress_def)
  next
    case (wake i)
    from enqueue_ok [OF ok wake(2)] wake(3) enqueue_woken [of s i] c obtain Q' where
      "sched_ok Q' s'" "\<forall>j \<in> queued Q. wait_bound Q' s' j \<le> wait_bound Q s j" by auto
    with wake(1) show ?thesis by (intro exI [of _ Q']) (simp add: progress_def)
  next
    case (stop i st t)
    have "i \<in> queued Q" by (rule ready_queued [OF pre stop(4,5)])
    from remove_ok [OF ok this, of st] stop(2,6,7) obtain Q' where
      "sched_ok Q' s'" "queued Q' = queued Q - {i}"
      "\<forall>j \<in> queued Q - {i}. wait_bound Q' s' j \<le> wait_bound Q s j" by auto
    with stop(1) show ?thesis by (intro exI [of _ Q']) (simp add: progress_def)
  qed
qed

section \<open>Runs\<close>

text \<open>\<open>waits i m s s'\<close>: a run of the machine in which \<open>i\<close> stays ready but is never chosen; \<open>m\<close> counts
  its timer interrupts.\<close>

inductive waits :: "nat \<Rightarrow> nat \<Rightarrow> 'a sched_st_scheme \<Rightarrow> 'a sched_st_scheme \<Rightarrow> bool" for i where
  here: "waits i 0 s s"
| more: "waits i m s s' \<Longrightarrow> sched_step b s' s'' \<Longrightarrow> cur s'' \<noteq> Some i \<Longrightarrow>
    state (procs s'' i) = READY \<Longrightarrow> used (procs s'' i) \<Longrightarrow> waits i (if b then Suc m else m) s s''"

inductive sched_reach :: "'a sched_st_scheme \<Rightarrow> 'a sched_st_scheme \<Rightarrow> bool" for s where
  start_state: "sched_reach s s"
| one_more: "sched_reach s s' \<Longrightarrow> sched_step b s' s'' \<Longrightarrow> sched_reach s s''"

lemma sched_reach_ok: "sched_reach s s' \<Longrightarrow> \<exists>Q. sched_ok Q s \<Longrightarrow> \<exists>Q'. sched_ok Q' s'"
  by (induction rule: sched_reach.induct) (use sched_step_ok in blast)+

lemma waits_bound_gen:
  "waits i m s s' \<Longrightarrow> sched_ok Q s \<Longrightarrow> i \<in> queued Q \<Longrightarrow>
   \<exists>Q'. sched_ok Q' s' \<and> i \<in> queued Q' \<and> m + wait_bound Q' s' i \<le> wait_bound Q s i"
proof (induction rule: waits.induct)
  case (more m s s' b s'')
  from more obtain Q' where Q': "sched_ok Q' s'" "i \<in> queued Q'" "m + wait_bound Q' s' i \<le> wait_bound Q s i" by blast
  from sched_step_ok [OF more(2) Q'(1)] obtain Q'' where
    Q'': "sched_ok Q'' s''" "progress b Q' s' Q'' s''" by blast
  have iQ: "i \<in> queued Q''" using ready_queued more(4,5) Q''(1) unfolding sched_ok_def by blast
  with Q''(2) Q'(2) more(3) have "wait_bound Q'' s'' i + (if b then 1 else 0) \<le> wait_bound Q' s' i"
    unfolding progress_def by blast
  with Q' Q''(1) iQ show ?case by (intro exI [of _ Q'']) auto
qed auto

end
