(* ===== verification/Sched_Theorems.thy ===== *)
theory Sched_Theorems
  imports Sched_Run
begin

text \<open>
  The properties of the scheduler, each followed by an application to a concrete state: a machine
  with the idle process in slot 0, slot 1 running and slots 2 and 3 ready.
\<close>

section \<open>A concrete state\<close>

definition demo_pcb :: "int \<Rightarrow> proc_state \<Rightarrow> int \<Rightarrow> nat option \<Rightarrow> pcb" where
  "demo_pcb pd st prio nx = pcb_zero\<lparr>pid := pd, used := True, state := st, priority := prio,
     base_priority := prio, kframe := 4096, ticks_left := TIME_SLICE_TICKS, queue_next := nx\<rparr>"

definition demo_sched :: sched_st where
  "demo_sched = \<lparr>procs = (\<lambda>_. pcb_zero)(0 := demo_pcb 1 RUNNING 0 None, 1 := demo_pcb 2 RUNNING 1 None,
       2 := demo_pcb 3 READY 1 (Some 3), 3 := demo_pcb 4 READY 1 None),
     ready_head = (\<lambda>_. None)(1 := Some 2), ready_tail = (\<lambda>_. None)(1 := Some 3),
     scheduler_enabled = True, cur = Some 1, idle_proc = Some 0, ticks = 7, ellapsed = 0,
     debug_timer_count = 0\<rparr>"

definition demo_queues :: "nat \<Rightarrow> nat list" where
  "demo_queues = (\<lambda>_. [])(1 := [2, 3])"

lemma demo_queued: "queued demo_queues = {2, 3}"
  by (auto simp: queued_iff demo_queues_def split: if_splits)

lemma demo_procs [simp]:
  "procs demo_sched 0 = demo_pcb 1 RUNNING 0 None" "procs demo_sched (Suc 0) = demo_pcb 2 RUNNING 1 None"
  "procs demo_sched 2 = demo_pcb 3 READY 1 (Some 3)" "procs demo_sched 3 = demo_pcb 4 READY 1 None"
  "cur demo_sched = Some 1" "idle_proc demo_sched = Some 0" "scheduler_enabled demo_sched"
  by (simp_all add: demo_sched_def)

lemma demo_pcb_fields [simp]:
  "used (demo_pcb pd st pr nx)" "state (demo_pcb pd st pr nx) = st" "priority (demo_pcb pd st pr nx) = pr"
  "base_priority (demo_pcb pd st pr nx) = pr" "kframe (demo_pcb pd st pr nx) = 4096"
  "ticks_left (demo_pcb pd st pr nx) = 5" "queue_next (demo_pcb pd st pr nx) = nx"
  "aging_ticks (demo_pcb pd st pr nx) = 0" "pid (demo_pcb pd st pr nx) = pd"
  by (simp_all add: demo_pcb_def pcb_zero_def const_defs)

lemma demo_used: "used (procs demo_sched i) \<longleftrightarrow> i \<in> {0, 1, 2, 3}"
  by (auto simp: demo_sched_def pcb_zero_def)

lemma demo_queues_ok: "queues demo_queues demo_sched"
  by (auto simp: queues_def demo_queues_def demo_sched_def last_opt_def less4)

lemma demo_in_prio: "in_prio demo_queues demo_sched"
  by (auto simp: in_prio_def demo_queues_def less4)

lemma demo_inv: "sched_inv demo_queues demo_sched"
proof -
  have "i \<in> {2, 3}" if "state (procs demo_sched i) = READY \<and> used (procs demo_sched i)" for i
    using that demo_used [of i] by auto
  then show ?thesis
    unfolding sched_inv_def demo_queued using demo_queues_ok demo_in_prio by auto
qed

lemma demo_ok: "sched_ok demo_queues demo_sched"
  using demo_inv by (auto simp: sched_ok_def sched_pre_def demo_queued queued_ok_def const_defs)

section \<open>Safety\<close>







section \<open>One scheduling decision\<close>

text \<open>C3. When the quantum is used up or the process no longer runs, the scheduler puts a process
  that still runs at the tail of the queue of its base priority, ages the queues, and switches to
  the head of the highest non-empty queue, or to the idle process when all are empty; the chosen
  process gets a full quantum, and its saved stack pointer is what the interrupt returns.\<close>

theorem schedule_chooses_head_of_highest_queue:
  assumes "sched_inv Q s" "scheduler_enabled s" "cur s = Some c"
    "ticks_left (procs s c) \<le> 1 \<or> state (procs s c) \<noteq> RUNNING"
    "rsp \<noteq> 0" "idle_proc s = Some d" "kframe (procs s d) \<noteq> 0" "\<forall>i \<in> queued Q. kframe (procs s i) \<noteq> 0"
  shows "\<exists>n s' Q'. schedule rsp s = Some (kframe (procs s' n), s') \<and> cur s' = Some n
    \<and> state (procs s' n) = RUNNING \<and> ticks_left (procs s' n) = TIME_SLICE_TICKS \<and> sched_inv Q' s'
    \<and> (case top_queue (next_queues rsp s c Q) of None \<Rightarrow> n = d \<and> Q' = next_queues rsp s c Q
         | Some p \<Rightarrow> next_queues rsp s c Q p = n # tl (next_queues rsp s c Q p)
             \<and> Q' = (next_queues rsp s c Q)(p := tl (next_queues rsp s c Q p)))"
proof -
  from schedule_step [OF assms] obtain n s' s5 Q' where
    st: "schedule rsp s = Some (kframe (procs s' n), s')" "cur s' = Some n"
      "state (procs s' n) = RUNNING" "ticks_left (procs s' n) = TIME_SLICE_TICKS" "sched_inv Q' s'"
      "case top_queue (next_queues rsp s c Q) of None \<Rightarrow> n = d \<and> Q' = next_queues rsp s c Q
         | Some p \<Rightarrow> next_queues rsp s c Q p = n # tl (next_queues rsp s c Q p) \<and> p < 4
             \<and> Q' = (next_queues rsp s c Q)(p := tl (next_queues rsp s c Q p))"
    by (elim exE conjE) (rule that)
  then show ?thesis
    by (intro exI [of _ n] exI [of _ s'] exI [of _ Q']) (auto split: option.splits)
qed

definition demo_expired :: sched_st where
  "demo_expired = upd 1 (ticks_left_update (\<lambda>_. 1)) demo_sched"

lemma demo_expired_inv: "sched_inv demo_queues demo_expired"
  unfolding demo_expired_def
  by (rule sched_inv_upd [OF demo_inv]) (simp_all add: demo_queued)

theorem schedule_chooses_head_of_highest_queue_witness:
  "\<exists>n s' Q'. schedule 8192 demo_expired = Some (kframe (procs s' n), s') \<and> cur s' = Some n
    \<and> state (procs s' n) = RUNNING \<and> ticks_left (procs s' n) = TIME_SLICE_TICKS \<and> sched_inv Q' s'
    \<and> (case top_queue (next_queues 8192 demo_expired 1 demo_queues) of
         None \<Rightarrow> n = 0 \<and> Q' = next_queues 8192 demo_expired 1 demo_queues
       | Some p \<Rightarrow> next_queues 8192 demo_expired 1 demo_queues p = n # tl (next_queues 8192 demo_expired 1 demo_queues p)
           \<and> Q' = (next_queues 8192 demo_expired 1 demo_queues)(p := tl (next_queues 8192 demo_expired 1 demo_queues p)))"
  by (rule schedule_chooses_head_of_highest_queue [OF demo_expired_inv, of 1 8192 0])
    (simp_all add: demo_expired_def demo_queued)

text \<open>C5. Aging: one pass moves every process of the queues 0 to 2 that has waited long enough to the
  tail of the next higher queue, in order, lets every other process keep its place, and never
  fails; whoever is in a queue has that queue's priority afterwards.\<close>

theorem aging_moves_up_in_order:
  assumes "queues Q s" "in_prio Q s"
  shows "\<exists>s'. apply_aging s = Some s' \<and> in_prio (aged_queues s Q) s'
    \<and> queues (\<lambda>p. filter (\<lambda>i. \<not> promotes (procs s i)) (Q p)
        @ (if p = 0 then [] else filter (\<lambda>i. promotes (procs s i)) (Q (p - 1)))) s'"
  using apply_aging_queues [OF assms] unfolding aged_queues_def by blast

theorem aging_moves_up_in_order_witness:
  "\<exists>s'. apply_aging demo_sched = Some s' \<and> in_prio (aged_queues demo_sched demo_queues) s'
    \<and> queues (\<lambda>p. filter (\<lambda>i. \<not> promotes (procs demo_sched i)) (demo_queues p)
        @ (if p = 0 then [] else filter (\<lambda>i. promotes (procs demo_sched i)) (demo_queues (p - 1)))) s'"
  by (rule aging_moves_up_in_order [OF demo_queues_ok demo_in_prio])

section \<open>The ready queues are lists\<close>

text \<open>C4. The linked queues implement lists: with the four queues holding the lists \<open>Q\<close>, enqueuing
  appends at the tail of the list of the clamped priority, popping takes the head, removing
  deletes the process wherever it is, and no operation changes anything else.\<close>

theorem ready_queues_refine_lists:
  assumes "queues Q s" "p < 4" "i \<notin> queued Q" "0 \<le> priority (procs s j)" "priority (procs s j) \<le> 3"
  shows "(\<exists>t. q_push i s = Some t \<and> qframe s t
      \<and> queues (Q(prio_index (priority (procs s i)) := Q (prio_index (priority (procs s i))) @ [i])) t)
    \<and> (case Q p of [] \<Rightarrow> q_pop p s = (None, s)
       | h # xs \<Rightarrow> \<exists>t. q_pop p s = (Some h, t) \<and> queues (Q(p := xs)) t \<and> qframe s t)
    \<and> (\<exists>t. q_remove j s = Some t \<and> qframe s t
      \<and> queues (Q(nat (priority (procs s j)) := remove1 j (Q (nat (priority (procs s j)))))) t)"
  using q_push_queues [OF assms(1,3) refl] q_pop_queues [OF assms(1,2)] q_remove_queues [OF assms(1,4,5) refl]
  by blast

theorem ready_queues_refine_lists_witness:
  "(\<exists>t. q_push 1 demo_sched = Some t \<and> qframe demo_sched t
      \<and> queues (demo_queues(prio_index (priority (procs demo_sched 1))
          := demo_queues (prio_index (priority (procs demo_sched 1))) @ [1])) t)
    \<and> (case demo_queues 1 of [] \<Rightarrow> q_pop 1 demo_sched = (None, demo_sched)
       | h # xs \<Rightarrow> \<exists>t. q_pop 1 demo_sched = (Some h, t) \<and> queues (demo_queues(1 := xs)) t \<and> qframe demo_sched t)
    \<and> (\<exists>t. q_remove 3 demo_sched = Some t \<and> qframe demo_sched t
      \<and> queues (demo_queues(nat (priority (procs demo_sched 3))
          := remove1 3 (demo_queues (nat (priority (procs demo_sched 3)))))) t)"
  by (rule ready_queues_refine_lists [OF demo_queues_ok]) (simp_all add: demo_queued)

section \<open>Yielding and the clock\<close>

text \<open>A voluntary yield always switches, and advances the system clock by a whole tick: it is
  raised as a timer interrupt. Time measured in ticks runs ahead of real time when processes yield.\<close>

theorem yield_advances_clock:
  assumes "sched_ok Q s" "rsp \<noteq> 0"
  shows "\<exists>r s' Q'. sched_force_yield rsp s = Some (r, s') \<and> sched_ok Q' s' \<and> ticks s' = inc64 (ticks s)"
proof -
  from assms(1) obtain c where "sched_pre Q s" "cur s = Some c" "state (procs s c) = RUNNING"
    by (auto simp: sched_ok_def elim!: sched_preD)
  with yield_ok [OF this(1,2) assms(2)] show ?thesis by auto
qed

theorem yield_advances_clock_witness:
  "\<exists>r s' Q'. sched_force_yield 8192 demo_sched = Some (r, s') \<and> sched_ok Q' s' \<and> ticks s' = inc64 (ticks demo_sched)"
  by (rule yield_advances_clock [OF demo_ok]) simp

end
