(* ===== verification/Mm_Types.thy ===== *)
theory Mm_Types
  imports Prelude
begin

text \<open>
  The data both allocators report: \<^verbatim>\<open>memory_info_t\<close> of \<^verbatim>\<open>Kernel/include/memory_manager.h\<close>
  and \<^verbatim>\<open>mm_stats_t\<close> of \<^verbatim>\<open>Kernel/include/mm_stats.h\<close>. Byte counters are natural numbers: they
  are sums over disjoint blocks of one heap and stay below \<open>2 ^ 64\<close>.
\<close>

definition MM_NAME_MAX :: nat where [const_defs]: "MM_NAME_MAX = 16"
definition MM_MAX_ORDER :: nat where [const_defs]: "MM_MAX_ORDER = 20"
definition MM_MAX_SIMPLE_BLOCKS :: nat where [const_defs]: "MM_MAX_SIMPLE_BLOCKS = 32"

record memory_info =
  total_memory :: nat
  used_memory :: nat
  free_memory :: nat
  allocated_blocks :: nat
  mi_free_blocks :: nat

record mm_order_info =
  oi_order :: nat
  oi_block_size :: nat
  oi_free_count :: nat

record mm_stats =
  mm_name :: string
  heap_total :: nat
  used_bytes :: nat
  free_bytes :: nat
  free_blocks :: nat
  largest_free :: nat
  has_buddy :: nat
  st_max_order :: nat
  orders :: "mm_order_info list"
  heap_base :: nat
  st_heap_end :: nat
  freelist_count :: nat
  freelist_truncated :: nat
  freelist :: "(nat \<times> nat) list"

text \<open>\<^verbatim>\<open>memset(stats, 0, sizeof(*stats))\<close>; only the filled entries of \<^verbatim>\<open>freelist\<close> are kept.\<close>

definition mm_stats_zero :: mm_stats where
  "mm_stats_zero = \<lparr>mm_name = [], heap_total = 0, used_bytes = 0, free_bytes = 0, free_blocks = 0,
     largest_free = 0, has_buddy = 0, st_max_order = 0,
     orders = replicate MM_MAX_ORDER \<lparr>oi_order = 0, oi_block_size = 0, oi_free_count = 0\<rparr>,
     heap_base = 0, st_heap_end = 0, freelist_count = 0, freelist_truncated = 0, freelist = []\<rparr>"

text \<open>\<^verbatim>\<open>mm_stats_set_name\<close>: at most \<^verbatim>\<open>MM_NAME_MAX - 1\<close> characters are kept.\<close>

definition mm_stats_set_name :: "mm_stats \<Rightarrow> string \<Rightarrow> mm_stats" where
  "mm_stats_set_name stats name = stats\<lparr>mm_name := take (MM_NAME_MAX - 1) name\<rparr>"

end
