(* ===== verification/First_Fit.thy ===== *)
theory First_Fit
  imports Mm_Types
begin

text \<open>
  \<^verbatim>\<open>Kernel/mm/first_fit.c\<close>: the default heap of the kernel.

  Memory is a function from cell addresses to contents. A block header
  (\<^verbatim>\<open>memory_block_t\<close>, 32 bytes) at address \<open>b\<close> occupies the cells \<open>b\<close>
  (\<^verbatim>\<open>size\<close>), \<open>b + 8\<close> (\<^verbatim>\<open>is_free\<close>, 4 bytes), \<open>b + 16\<close> (\<^verbatim>\<open>next\<close>) and
  \<open>b + 24\<close> (\<^verbatim>\<open>magic\<close>, 4 bytes): every 8-byte word of the heap is one cell, and a
  4-byte field is the low half of its cell. A header is read wherever the code reads one,
  also at an address that is not a block. Traversals follow the \<^verbatim>\<open>next\<close> cells and are
  partial functions: on a cyclic chain they have no result.
\<close>

section \<open>State and headers\<close>

type_synonym mem = "nat \<Rightarrow> nat"

definition HDR :: nat where [const_defs]: "HDR = 32"
definition MIN_BLOCK_SIZE :: nat where [const_defs]: "MIN_BLOCK_SIZE = 16"
definition BLOCK_MAGIC :: nat where [const_defs]: "BLOCK_MAGIC = 0xDEADBEEF"
definition FREE_MAGIC :: nat where [const_defs]: "FREE_MAGIC = 0xFEEDFACE"

definition blk_size :: "mem \<Rightarrow> nat \<Rightarrow> nat" where "blk_size m b = m b"
definition blk_is_free :: "mem \<Rightarrow> nat \<Rightarrow> bool" where "blk_is_free m b \<longleftrightarrow> m (b + 8) mod 2 ^ 32 \<noteq> 0"
definition blk_next :: "mem \<Rightarrow> nat \<Rightarrow> nat" where "blk_next m b = m (b + 16)"
definition blk_magic :: "mem \<Rightarrow> nat \<Rightarrow> nat" where "blk_magic m b = m (b + 24) mod 2 ^ 32"

record ff =
  mem :: mem
  heap_start :: nat
  heap_end :: nat
  total_heap_size :: nat
  initialized :: bool
  total_allocations :: nat
  total_frees :: nat
  current_allocated_blocks :: nat

definition ff_boot :: ff where
  "ff_boot = \<lparr>mem = (\<lambda>_. 0), heap_start = 0, heap_end = 0, total_heap_size = 0,
     initialized = False, total_allocations = 0, total_frees = 0, current_allocated_blocks = 0\<rparr>"

section \<open>Operations\<close>

text \<open>\<^verbatim>\<open>(n + 7) & ~7\<close> on a \<^verbatim>\<open>size_t\<close>.\<close>

definition align8 :: "nat \<Rightarrow> nat" where
  "align8 n = wrap64 (n + 7) div 8 * 8"

definition first_fit_init :: "nat \<Rightarrow> nat \<Rightarrow> ff \<Rightarrow> ff" where
  "first_fit_init start_addr total_size s =
    (if start_addr = 0 \<or> total_size < HDR then s
     else
       let aligned_start = align8 start_addr;
           adjusted_size = wrap64 (total_size + 2 ^ 64 - wrap64 (aligned_start + 2 ^ 64 - start_addr))
       in s\<lparr>heap_start := aligned_start,
            heap_end := wrap64 (aligned_start + adjusted_size),
            total_heap_size := adjusted_size,
            mem := (mem s)(aligned_start := wrap64 (adjusted_size + 2 ^ 64 - HDR),
                           aligned_start + 8 := 1,
                           aligned_start + 16 := 0,
                           aligned_start + 24 := FREE_MAGIC),
            initialized := True,
            total_allocations := 0,
            total_frees := 0,
            current_allocated_blocks := 0\<rparr>)"

partial_function (option) find_free_block :: "mem \<Rightarrow> nat \<Rightarrow> nat \<Rightarrow> nat option" where
  "find_free_block m current sz =
    (if current = 0 then Some 0
     else if blk_is_free m current \<and> sz \<le> blk_size m current then Some current
     else find_free_block m (blk_next m current) sz)"

definition split_block :: "mem \<Rightarrow> nat \<Rightarrow> nat \<Rightarrow> mem" where
  "split_block m block sz =
    (if block = 0 \<or> \<not> blk_is_free m block then m
     else
       let remaining_size = wrap64 (blk_size m block + 2 ^ 64 - sz)
       in if remaining_size < HDR + MIN_BLOCK_SIZE then m
          else
            let new_block = block + HDR + sz
            in m(new_block := remaining_size - HDR,
                 new_block + 8 := 1,
                 new_block + 16 := blk_next m block,
                 new_block + 24 := FREE_MAGIC,
                 block := sz,
                 block + 16 := new_block))"

partial_function (option) coalesce_blocks :: "mem \<Rightarrow> nat \<Rightarrow> mem option" where
  "coalesce_blocks m current =
    (if current = 0 \<or> blk_next m current = 0 then Some m
     else if blk_is_free m current \<and> blk_is_free m (blk_next m current)
             \<and> current + HDR + blk_size m current = blk_next m current
     then coalesce_blocks
            (m(current := blk_size m current + (HDR + blk_size m (blk_next m current)),
               current + 16 := blk_next m (blk_next m current))) current
     else coalesce_blocks m (blk_next m current))"

definition get_block_header :: "nat \<Rightarrow> nat" where
  "get_block_header ptr = (if ptr = 0 then 0 else wrap64 (ptr + 2 ^ 64 - HDR))"

definition first_fit_malloc :: "nat \<Rightarrow> ff \<Rightarrow> (nat \<times> ff) option" where
  "first_fit_malloc req s =
    (if \<not> initialized s \<or> req = 0 then Some (0, s)
     else
       let size1 = align8 req;
           sz = (if size1 < MIN_BLOCK_SIZE then MIN_BLOCK_SIZE else size1)
       in do {
         block \<leftarrow> find_free_block (mem s) (heap_start s) sz;
         if block = 0 then Some (0, s)
         else Some (block + HDR,
                s\<lparr>mem := (split_block (mem s) block sz)(block + 8 := 0, block + 24 := BLOCK_MAGIC),
                  total_allocations := inc64 (total_allocations s),
                  current_allocated_blocks := inc64 (current_allocated_blocks s)\<rparr>)
       })"

text \<open>\<^verbatim>\<open>memset(ptr, 0, n)\<close> clears every cell that lies wholly in the range.\<close>

definition mem_clear :: "mem \<Rightarrow> nat \<Rightarrow> nat \<Rightarrow> mem" where
  "mem_clear m ptr n = (\<lambda>a. if ptr \<le> a \<and> a + 8 \<le> ptr + n then 0 else m a)"

definition first_fit_free :: "nat \<Rightarrow> ff \<Rightarrow> ff option" where
  "first_fit_free ptr s =
    (if \<not> initialized s \<or> ptr = 0 then Some s
     else
       let block = get_block_header ptr in
       if block = 0 \<or> blk_magic (mem s) block \<noteq> BLOCK_MAGIC \<or> blk_is_free (mem s) block
          \<or> block < heap_start s \<or> heap_end s \<le> block
       then Some s
       else do {
         m \<leftarrow> coalesce_blocks
               (mem_clear ((mem s)(block + 8 := 1, block + 24 := FREE_MAGIC))
                  ptr (blk_size (mem s) block))
               (heap_start s);
         Some (s\<lparr>mem := m,
                 total_frees := inc64 (total_frees s),
                 current_allocated_blocks := dec64 (current_allocated_blocks s)\<rparr>)
       })"

section \<open>Reports\<close>

text \<open>The loop of \<^verbatim>\<open>first_fit_get_info\<close>: header overhead counts as used memory.\<close>

partial_function (option) info_loop :: "mem \<Rightarrow> nat \<Rightarrow> memory_info \<Rightarrow> memory_info option" where
  "info_loop m current info =
    (if current = 0 then Some info
     else
       let info1 = (if blk_is_free m current
                    then info\<lparr>free_memory := free_memory info + blk_size m current,
                              mi_free_blocks := mi_free_blocks info + 1\<rparr>
                    else info\<lparr>used_memory := used_memory info + blk_size m current,
                              allocated_blocks := allocated_blocks info + 1\<rparr>)
       in info_loop m (blk_next m current) (info1\<lparr>used_memory := used_memory info1 + HDR\<rparr>))"

definition first_fit_get_info :: "memory_info \<Rightarrow> ff \<Rightarrow> memory_info option" where
  "first_fit_get_info info s =
    (if \<not> initialized s then Some info
     else info_loop (mem s) (heap_start s)
       \<lparr>total_memory = total_heap_size s, used_memory = 0, free_memory = 0,
         allocated_blocks = 0, mi_free_blocks = 0\<rparr>)"

partial_function (option) integrity_loop :: "mem \<Rightarrow> nat \<Rightarrow> nat \<Rightarrow> nat \<Rightarrow> nat \<Rightarrow> nat option" where
  "integrity_loop m hs he current errors =
    (if current = 0 then Some errors
     else
       let expected_magic = (if blk_is_free m current then FREE_MAGIC else BLOCK_MAGIC);
           e1 = (if blk_magic m current \<noteq> expected_magic then errors + 1 else errors)
       in if current < hs \<or> he \<le> current then Some (e1 + 1)
          else
            let nx = blk_next m current;
                e2 = (if nx \<noteq> 0 \<and> (nx < hs \<or> he \<le> nx) then e1 + 1 else e1)
            in integrity_loop m hs he nx e2)"

definition first_fit_check_integrity :: "ff \<Rightarrow> bool option" where
  "first_fit_check_integrity s =
    (if \<not> initialized s then Some False
     else do {
       errors \<leftarrow> integrity_loop (mem s) (heap_start s) (heap_end s) (heap_start s) 0;
       Some (errors = 0)
     })"

text \<open>The scan of \<^verbatim>\<open>first_fit_collect_stats\<close>; at most 32 free blocks are listed.\<close>

partial_function (option) stats_loop :: "mem \<Rightarrow> nat \<Rightarrow> mm_stats \<Rightarrow> mm_stats option" where
  "stats_loop m current st =
    (if current = 0 then Some st
     else if blk_is_free m current then
       stats_loop m (blk_next m current)
         (st\<lparr>free_bytes := free_bytes st + blk_size m current,
            free_blocks := free_blocks st + 1,
            largest_free := (if blk_size m current > largest_free st then blk_size m current
                             else largest_free st),
            freelist := (if freelist_count st < MM_MAX_SIMPLE_BLOCKS
                         then freelist st @ [(current, blk_size m current)] else freelist st),
            freelist_count := (if freelist_count st < MM_MAX_SIMPLE_BLOCKS
                               then freelist_count st + 1 else freelist_count st),
            freelist_truncated := (if freelist_count st < MM_MAX_SIMPLE_BLOCKS
                                   then freelist_truncated st else freelist_truncated st + 1)\<rparr>)
     else stats_loop m (blk_next m current) st)"

definition first_fit_collect_stats :: "ff \<Rightarrow> mm_stats option" where
  "first_fit_collect_stats s =
    (let st0 = (mm_stats_set_name mm_stats_zero ''simple'')\<lparr>has_buddy := 0\<rparr> in
     if \<not> initialized s \<or> heap_start s = 0 then Some (st0\<lparr>heap_total := 0\<rparr>)
     else do {
       st1 \<leftarrow> stats_loop (mem s) (heap_start s) st0;
       let st2 = st1\<lparr>heap_total := total_heap_size s\<rparr>;
       let st3 = (if free_bytes st2 \<le> heap_total st2
                  then st2\<lparr>used_bytes := heap_total st2 - free_bytes st2\<rparr>
                  else st2\<lparr>used_bytes := 0, free_bytes := heap_total st2\<rparr>);
       let st4 = (if largest_free st3 > free_bytes st3 then st3\<lparr>largest_free := free_bytes st3\<rparr> else st3);
       Some (st4\<lparr>heap_base := heap_start s, st_heap_end := heap_end s\<rparr>)
     })"

text \<open>The traversals are executable: their unfolding equations are the code equations.\<close>

declare find_free_block.simps [code] coalesce_blocks.simps [code] info_loop.simps [code]
  integrity_loop.simps [code] stats_loop.simps [code]

end
