(* ===== verification/First_Fit_Inv.thy ===== *)
theory First_Fit_Inv
  imports First_Fit
begin

text \<open>
  Well-formed First Fit heaps and what the allocator keeps of them: the blocks of the chain
  tile the heap from \<open>heap_start\<close> to \<open>heap_end\<close>, no two free blocks are adjacent, every
  magic number agrees with its flag. \<^verbatim>\<open>malloc\<close> and \<^verbatim>\<open>free\<close> always return on such a heap.
\<close>

section \<open>The chain of blocks\<close>

definition blk_end :: "mem \<Rightarrow> nat \<Rightarrow> nat" where
  "blk_end m b = b + HDR + blk_size m b"

definition blk_ok :: "mem \<Rightarrow> nat \<Rightarrow> nat \<Rightarrow> bool" where
  "blk_ok m H b \<longleftrightarrow> 8 dvd b
     \<and> blk_next m b = (if blk_end m b = H then 0 else blk_end m b)
     \<and> blk_magic m b = (if blk_is_free m b then FREE_MAGIC else BLOCK_MAGIC)"

fun seg :: "mem \<Rightarrow> nat \<Rightarrow> nat \<Rightarrow> nat list \<Rightarrow> nat \<Rightarrow> bool" where
  "seg m H a [] e \<longleftrightarrow> a = e"
| "seg m H a (b # bs) e \<longleftrightarrow> a = b \<and> blk_ok m H b \<and> seg m H (blk_end m b) bs e"

lemmas hdr_defs = blk_end_def blk_size_def blk_next_def blk_is_free_def blk_magic_def HDR_def

lemma blk_end_gt: "b + 32 \<le> blk_end m b"
  by (simp add: hdr_defs)

lemma seg_append: "seg m H a (xs @ ys) e \<longleftrightarrow> (\<exists>c. seg m H a xs c \<and> seg m H c ys e)"
  by (induction xs arbitrary: a) auto

lemma seg_le: "seg m H a bs e \<Longrightarrow> a \<le> e"
proof (induction bs arbitrary: a)
  case (Cons b bs)
  then show ?case using blk_end_gt [of b m] by fastforce
qed simp

lemma seg_nonempty_le: "seg m H a bs e \<Longrightarrow> bs \<noteq> [] \<Longrightarrow> a + 32 \<le> e"
  by (cases bs) (auto dest!: seg_le intro: order_trans [OF blk_end_gt])

lemma seg_bounds: "seg m H a bs e \<Longrightarrow> b \<in> set bs \<Longrightarrow> a \<le> b \<and> blk_end m b \<le> e"
proof (induction bs arbitrary: a)
  case (Cons c bs)
  show ?case
  proof (cases "b = c")
    case True
    with Cons.prems seg_le show ?thesis by auto
  next
    case False
    with Cons have "blk_end m c \<le> b \<and> blk_end m b \<le> e" by auto
    with Cons.prems blk_end_gt [of c m] show ?thesis by auto
  qed
qed simp

lemma seg_frame:
  "seg m H a bs e \<Longrightarrow> (\<And>c. a \<le> c \<Longrightarrow> c < e \<Longrightarrow> m' c = m c) \<Longrightarrow> seg m' H a bs e"
proof (induction bs arbitrary: a)
  case (Cons b bs)
  from Cons.prems(1) have le: "blk_end m b \<le> e" and ab: "a = b" and ok: "blk_ok m H b"
    using seg_le by auto
  have cells: "m' (b + k) = m (b + k)" if "k < 32" for k
    using Cons.prems(2) ab le that blk_end_gt [of b m] by simp
  have same: "blk_size m' b = blk_size m b" "blk_next m' b = blk_next m b"
    "blk_is_free m' b = blk_is_free m b" "blk_magic m' b = blk_magic m b"
    using cells [of 0] cells [of 8] cells [of 16] cells [of 24] by (simp_all add: hdr_defs)
  then have "blk_end m' b = blk_end m b" by (simp add: blk_end_def)
  with same ok have "blk_ok m' H b" by (simp add: blk_ok_def)
  moreover have "seg m' H (blk_end m b) bs e"
  proof (rule Cons.IH)
    show "seg m H (blk_end m b) bs e" using Cons.prems(1) by simp
    fix c assume "blk_end m b \<le> c" "c < e"
    with ab blk_end_gt [of b m] show "m' c = m c" by (intro Cons.prems(2)) auto
  qed
  ultimately show ?case using ab \<open>blk_end m' b = blk_end m b\<close> by simp
qed simp

lemma seg_unique: "seg m H a bs H \<Longrightarrow> seg m H a cs H \<Longrightarrow> bs = cs"
proof (induction bs arbitrary: a cs)
  case Nil
  then show ?case using seg_nonempty_le by fastforce
next
  case (Cons b bs)
  then obtain cs' where "cs = b # cs'"
    using seg_nonempty_le [of m H a "b # bs" H] by (cases cs) auto
  with Cons show ?case by auto
qed

lemma seg_distinct: "seg m H a bs e \<Longrightarrow> distinct bs"
proof (induction bs arbitrary: a)
  case (Cons b bs)
  have "b \<notin> set bs"
    using Cons.prems seg_bounds [of m H "blk_end m b" bs e b] blk_end_gt [of b m] by auto
  with Cons show ?case by auto
qed simp

text \<open>Following \<^verbatim>\<open>next\<close> from a block of the chain reaches the following block, or NULL.\<close>

lemma seg_next:
  assumes "seg m H a (b # bs) H" and "0 < a"
  shows "blk_next m b = (case bs of [] \<Rightarrow> 0 | c # _ \<Rightarrow> c)"
proof (cases bs)
  case Nil
  with assms show ?thesis by (simp add: blk_ok_def)
next
  case (Cons c cs)
  with assms have "blk_end m b = c" "c < H"
    using seg_nonempty_le [of m H "blk_end m b" bs H] by auto
  with assms Cons show ?thesis by (simp add: blk_ok_def)
qed

lemma find_free_block_seg:
  "seg m H a bs H \<Longrightarrow> 0 < a \<Longrightarrow> bs \<noteq> [] \<Longrightarrow>
   find_free_block m a sz =
     Some (case find (\<lambda>b. blk_is_free m b \<and> sz \<le> blk_size m b) bs of None \<Rightarrow> 0 | Some b \<Rightarrow> b)"
proof (induction bs arbitrary: a)
  case (Cons b bs)
  have nx: "blk_next m b = (case bs of [] \<Rightarrow> 0 | c # _ \<Rightarrow> c)"
    using seg_next Cons.prems by blast
  show ?case
  proof (cases "blk_is_free m b \<and> sz \<le> blk_size m b")
    case True
    with Cons.prems show ?thesis by (simp add: find_free_block.simps)
  next
    case False
    show ?thesis
    proof (cases bs)
      case Nil
      with False Cons.prems nx show ?thesis
        by (simp add: find_free_block.simps)
    next
      case (Cons c cs)
      with Cons.prems have "0 < blk_end m b" "blk_end m b = c"
        using blk_end_gt [of b m] by auto
      moreover have "seg m H (blk_end m b) bs H" using Cons.prems by simp
      ultimately show ?thesis
        using False Cons.prems nx Cons.IH [of "blk_end m b"] Cons
        by (subst find_free_block.simps) auto
    qed
  qed
qed simp

section \<open>Well-formed heaps\<close>

fun no_adj :: "mem \<Rightarrow> nat list \<Rightarrow> bool" where
  "no_adj m (b # c # cs) \<longleftrightarrow> \<not> (blk_is_free m b \<and> blk_is_free m c) \<and> no_adj m (c # cs)"
| "no_adj m _ \<longleftrightarrow> True"

definition ff_wf :: "nat list \<Rightarrow> ff \<Rightarrow> bool" where
  "ff_wf bs s \<longleftrightarrow> initialized s \<and> bs \<noteq> [] \<and> 0 < heap_start s \<and> heap_end s < 2 ^ 64
     \<and> heap_start s \<le> heap_end s \<and> total_heap_size s = heap_end s - heap_start s
     \<and> seg (mem s) (heap_end s) (heap_start s) bs (heap_end s) \<and> no_adj (mem s) bs"

lemma no_adj_cong:
  "(\<And>b. b \<in> set bs \<Longrightarrow> blk_is_free m' b = blk_is_free m b) \<Longrightarrow> no_adj m' bs = no_adj m bs"
  by (induction m bs rule: no_adj.induct) auto

lemma no_adj_append:
  "no_adj m (xs @ ys) \<longleftrightarrow> no_adj m xs \<and> no_adj m ys
     \<and> (xs \<noteq> [] \<and> ys \<noteq> [] \<longrightarrow> \<not> (blk_is_free m (last xs) \<and> blk_is_free m (hd ys)))"
proof (induction xs rule: induct_list012)
  case (2 x)
  then show ?case by (cases ys) auto
qed auto

text \<open>The block of the chain that contains the header \<open>b\<close>, cut out of the chain.\<close>

lemma seg_split:
  assumes "seg m H a bs e" and "b \<in> set bs"
  obtains pre post where "bs = pre @ b # post" "seg m H a pre b" "blk_ok m H b"
    "seg m H (blk_end m b) post e" "blk_end m b \<le> e" "a \<le> b"
proof -
  from assms(2) obtain pre post where bs: "bs = pre @ b # post" by (meson split_list)
  with assms(1) have "seg m H a pre b" "blk_ok m H b" "seg m H (blk_end m b) post e"
    by (auto simp: seg_append)
  with bs show thesis using that seg_le by blast
qed

lemma align8_bounds:
  assumes "n + 7 < 2 ^ 64"
  shows "n \<le> align8 n" "align8 n < n + 8" "8 dvd align8 n"
  using assms by (auto simp: align8_def wrap64_small)

lemma align8_dvd [simp]: "8 dvd align8 n"
  by (simp add: align8_def)

section \<open>Allocation\<close>

definition alloc_size :: "nat \<Rightarrow> nat" where
  "alloc_size req = (let s1 = align8 req in if s1 < MIN_BLOCK_SIZE then MIN_BLOCK_SIZE else s1)"

lemma alloc_size_props [simp]: "8 dvd alloc_size req" "16 \<le> alloc_size req"
  by (auto simp: alloc_size_def Let_def MIN_BLOCK_SIZE_def)

text \<open>Taking (and perhaps cutting) the free block \<open>b\<close>.\<close>

definition take_block :: "mem \<Rightarrow> nat \<Rightarrow> nat \<Rightarrow> mem" where
  "take_block m b sz = (split_block m b sz)(b + 8 := 0, b + 24 := BLOCK_MAGIC)"

definition cut_blocks :: "mem \<Rightarrow> nat \<Rightarrow> nat \<Rightarrow> nat list" where
  "cut_blocks m b sz = (if blk_size m b - sz < 48 then [b] else [b, b + 32 + sz])"

lemma take_block_outside:
  assumes "sz \<le> blk_size m b" "blk_size m b < 2 ^ 64" "c < b \<or> blk_end m b \<le> c"
  shows "take_block m b sz c = m c"
proof -
  have "wrap64 (m b + 2 ^ 64 - sz) = m b - sz"
    using assms by (intro wrap64_sub) (auto simp: blk_size_def)
  then show ?thesis
    using assms by (auto simp: take_block_def split_block_def Let_def hdr_defs MIN_BLOCK_SIZE_def)
qed

lemma seg_take_block:
  assumes ok: "blk_ok m H b" and free: "blk_is_free m b" and le: "sz \<le> blk_size m b"
    and al: "8 dvd sz" "16 \<le> sz" and b: "0 < b" and H: "blk_end m b \<le> H" "H < 2 ^ 64"
  shows "seg (take_block m b sz) H b (cut_blocks m b sz) (blk_end m b)"
proof -
  have rem: "wrap64 (blk_size m b + 2 ^ 64 - sz) = blk_size m b - sz"
    using H le by (intro wrap64_sub) (auto simp: hdr_defs)
  show ?thesis
  proof (cases "blk_size m b - sz < 48")
    case True
    then have "take_block m b sz = m(b + 8 := 0, b + 24 := BLOCK_MAGIC)"
      using rem b free by (simp add: take_block_def split_block_def HDR_def MIN_BLOCK_SIZE_def)
    with True ok show ?thesis
      by (simp add: cut_blocks_def blk_ok_def hdr_defs BLOCK_MAGIC_def)
  next
    case False
    then have tb: "take_block m b sz =
       m(b + 32 + sz := blk_size m b - sz - 32, b + 32 + sz + 8 := 1,
         b + 32 + sz + 16 := blk_next m b, b + 32 + sz + 24 := FREE_MAGIC,
         b := sz, b + 16 := b + 32 + sz, b + 8 := 0, b + 24 := BLOCK_MAGIC)"
      using rem b free by (simp add: take_block_def split_block_def HDR_def MIN_BLOCK_SIZE_def Let_def)
    have "8 dvd b + 32 + sz" using ok al by (simp add: blk_ok_def)
    moreover have "b + 32 + sz < H" using False H by (simp add: hdr_defs)
    ultimately show ?thesis
      using False ok le unfolding tb
      by (simp add: cut_blocks_def blk_ok_def hdr_defs BLOCK_MAGIC_def FREE_MAGIC_def)
  qed
qed

definition ff_allocs :: "mem \<Rightarrow> nat list \<Rightarrow> (nat \<times> nat) list" where
  "ff_allocs m bs = map (\<lambda>b. (b + HDR, blk_size m b)) (filter (\<lambda>b. \<not> blk_is_free m b) bs)"

lemma ff_allocs_simps [simp]:
  "ff_allocs m [] = []"
  "ff_allocs m (b # bs) =
     (if blk_is_free m b then ff_allocs m bs else (b + HDR, blk_size m b) # ff_allocs m bs)"
  "ff_allocs m (xs @ ys) = ff_allocs m xs @ ff_allocs m ys"
  by (simp_all add: ff_allocs_def)

text \<open>Two memories that agree on the range of a chain agree on what is read of its blocks.\<close>

lemma seg_same_headers:
  assumes "seg m H a bs e" "\<And>c. a \<le> c \<Longrightarrow> c < e \<Longrightarrow> m' c = m c" "b \<in> set bs"
  shows "blk_is_free m' b = blk_is_free m b" "blk_size m' b = blk_size m b"
proof -
  have "m' (b + k) = m (b + k)" if "k < 32" for k
    using assms(2) seg_bounds [OF assms(1,3)] blk_end_gt [of b m] that by simp
  from this [of 8] this [of 0]
  show "blk_is_free m' b = blk_is_free m b" "blk_size m' b = blk_size m b"
    by (simp_all add: hdr_defs)
qed

lemma seg_same_allocs:
  assumes "seg m H a bs e" "\<And>c. a \<le> c \<Longrightarrow> c < e \<Longrightarrow> m' c = m c"
  shows "ff_allocs m' bs = ff_allocs m bs"
proof -
  have "filter (\<lambda>b. \<not> blk_is_free m' b) bs = filter (\<lambda>b. \<not> blk_is_free m b) bs"
    by (rule filter_cong) (simp_all add: seg_same_headers [OF assms])
  then show ?thesis
    using seg_same_headers(2) [OF assms] by (simp add: ff_allocs_def)
qed

lemma seg_same_no_adj:
  "seg m H a bs e \<Longrightarrow> (\<And>c. a \<le> c \<Longrightarrow> c < e \<Longrightarrow> m' c = m c) \<Longrightarrow> no_adj m' bs = no_adj m bs"
  by (rule no_adj_cong) (rule seg_same_headers)

lemma first_fit_malloc_take:
  assumes "initialized s" "0 < req"
  shows "first_fit_malloc req s =
    (case find_free_block (mem s) (heap_start s) (alloc_size req) of
       None \<Rightarrow> None
     | Some b \<Rightarrow> Some (if b = 0 then (0, s) else (b + 32,
         s\<lparr>mem := take_block (mem s) b (alloc_size req),
           total_allocations := inc64 (total_allocations s),
           current_allocated_blocks := inc64 (current_allocated_blocks s)\<rparr>)))"
  using assms
  by (simp add: first_fit_malloc_def alloc_size_def take_block_def Let_def HDR_def split: option.split)

lemma first_fit_malloc_cases:
  assumes "ff_wf bs s" and "0 < req"
  shows "first_fit_malloc req s = Some (0, s)
      \<and> (\<forall>b \<in> set bs. blk_is_free (mem s) b \<longrightarrow> blk_size (mem s) b < alloc_size req)
    \<or> (\<exists>b \<in> set bs. blk_is_free (mem s) b \<and> alloc_size req \<le> blk_size (mem s) b \<and>
         first_fit_malloc req s = Some (b + 32,
           s\<lparr>mem := take_block (mem s) b (alloc_size req),
             total_allocations := inc64 (total_allocations s),
             current_allocated_blocks := inc64 (current_allocated_blocks s)\<rparr>))"
proof -
  let ?P = "\<lambda>b. blk_is_free (mem s) b \<and> alloc_size req \<le> blk_size (mem s) b"
  have seg: "seg (mem s) (heap_end s) (heap_start s) bs (heap_end s)" "0 < heap_start s" "bs \<noteq> []"
    using assms by (auto simp: ff_wf_def)
  have ffb: "find_free_block (mem s) (heap_start s) (alloc_size req) =
      Some (case find ?P bs of None \<Rightarrow> 0 | Some b \<Rightarrow> b)"
    using find_free_block_seg [OF seg] by simp
  have ini: "initialized s" using assms by (simp add: ff_wf_def)
  show ?thesis
  proof (cases "find ?P bs")
    case None
    with ffb have "first_fit_malloc req s = Some (0, s)"
      using ini assms(2) by (simp add: first_fit_malloc_take)
    with None show ?thesis by (auto simp: find_None_iff not_le)
  next
    case (Some b)
    then have b: "b \<in> set bs" "?P b" by (auto simp: find_Some_iff in_set_conv_nth)
    then have "0 < b" using seg seg_bounds [of "mem s" "heap_end s" "heap_start s" bs] by fastforce
    with ffb Some b show ?thesis
      using ini assms(2) by (auto simp: first_fit_malloc_take intro!: bexI [of _ b])
  qed
qed

lemma take_block_allocs:
  assumes free: "blk_is_free m b" and b: "0 < b" and le: "sz \<le> blk_size m b" "blk_size m b < 2 ^ 64"
  shows "ff_allocs (take_block m b sz) (cut_blocks m b sz) =
      [(b + HDR, if blk_size m b - sz < 48 then blk_size m b else sz)]"
proof -
  have rem: "wrap64 (blk_size m b + 2 ^ 64 - sz) = blk_size m b - sz"
    using le by (rule wrap64_sub)
  show ?thesis
  proof (cases "blk_size m b - sz < 48")
    case True
    then show ?thesis using free b rem
      by (simp add: cut_blocks_def take_block_def split_block_def HDR_def MIN_BLOCK_SIZE_def)
         (simp add: blk_is_free_def blk_size_def)
  next
    case False
    then show ?thesis using free b rem
      by (simp add: cut_blocks_def take_block_def split_block_def HDR_def MIN_BLOCK_SIZE_def Let_def)
         (simp add: blk_is_free_def blk_size_def)
  qed
qed

lemma take_block_wf:
  fixes x y :: nat
  assumes wf: "ff_wf (pre @ b # post) s" and free: "blk_is_free (mem s) b"
    and le: "alloc_size req \<le> blk_size (mem s) b"
  defines "s' \<equiv> s\<lparr>mem := take_block (mem s) b (alloc_size req), total_allocations := x,
    current_allocated_blocks := y\<rparr>"
  shows "ff_wf (pre @ cut_blocks (mem s) b (alloc_size req) @ post) s'"
    and "\<exists>n. alloc_size req \<le> n \<and> n \<le> blk_size (mem s) b
           \<and> ff_allocs (mem s') (pre @ cut_blocks (mem s) b (alloc_size req) @ post)
             = ff_allocs (mem s) pre @ (b + HDR, n) # ff_allocs (mem s) post"
proof -
  let ?m = "mem s" and ?H = "heap_end s" and ?sz = "alloc_size req"
  let ?m' = "take_block ?m b ?sz"
  have sg: "seg ?m ?H (heap_start s) pre b" "blk_ok ?m ?H b" "seg ?m ?H (blk_end ?m b) post ?H"
    using wf by (auto simp: ff_wf_def seg_append)
  have b: "0 < b" "blk_end ?m b \<le> ?H" "?H < 2 ^ 64"
    using sg seg_le wf by (fastforce simp: ff_wf_def)+
  then have szlt: "blk_size ?m b < 2 ^ 64" by (simp add: hdr_defs)
  have out: "?m' c = ?m c" if "c < b \<or> blk_end ?m b \<le> c" for c
    using take_block_outside [OF le szlt that] .
  have pre: "seg ?m' ?H (heap_start s) pre b" using sg(1) out by (auto intro: seg_frame)
  have post: "seg ?m' ?H (blk_end ?m b) post ?H" using sg(3) out by (auto intro: seg_frame)
  have mid: "seg ?m' ?H b (cut_blocks ?m b ?sz) (blk_end ?m b)"
    by (rule seg_take_block) (use sg b free le in auto)
  have used: "\<not> blk_is_free ?m' b" by (simp add: take_block_def blk_is_free_def)
  have na: "no_adj ?m (pre @ b # post)" using wf by (simp add: ff_wf_def)
  have "no_adj ?m' pre = no_adj ?m pre" "no_adj ?m' post = no_adj ?m post"
    by (rule seg_same_no_adj [OF sg(1)] seg_same_no_adj [OF sg(3)], simp add: out)+
  with na have "no_adj ?m' pre" and "no_adj ?m' post"
    by (simp_all add: no_adj_append) (cases post; simp)
  moreover have "post \<noteq> [] \<Longrightarrow> blk_is_free ?m' (hd post) = blk_is_free ?m (hd post)"
    by (rule seg_same_headers(1) [OF sg(3)]) (simp_all add: out)
  with na free have "post \<noteq> [] \<Longrightarrow> \<not> blk_is_free ?m' (hd post)"
    by (cases post) (simp_all add: no_adj_append)
  ultimately have "no_adj ?m' (cut_blocks ?m b ?sz @ post)"
    using used by (cases post) (simp_all add: cut_blocks_def)
  moreover have "cut_blocks ?m b ?sz \<noteq> []" "hd (cut_blocks ?m b ?sz) = b"
    by (simp_all add: cut_blocks_def)
  ultimately have na': "no_adj ?m' (pre @ cut_blocks ?m b ?sz @ post)"
    using used \<open>no_adj ?m' pre\<close> by (simp add: no_adj_append)
  have "seg ?m' ?H (heap_start s) (pre @ cut_blocks ?m b ?sz @ post) ?H"
    using pre mid post by (auto simp: seg_append)
  with na' wf \<open>cut_blocks ?m b ?sz \<noteq> []\<close> show "ff_wf (pre @ cut_blocks ?m b ?sz @ post) s'"
    by (simp add: ff_wf_def s'_def)
  have al: "ff_allocs ?m' (cut_blocks ?m b ?sz) =
      [(b + HDR, if blk_size ?m b - ?sz < 48 then blk_size ?m b else ?sz)]"
    using free b(1) le szlt by (rule take_block_allocs)
  have al_pre: "ff_allocs ?m' pre = ff_allocs ?m pre"
    by (rule seg_same_allocs [OF sg(1)]) (simp add: out)
  have al_post: "ff_allocs ?m' post = ff_allocs ?m post"
    by (rule seg_same_allocs [OF sg(3)]) (simp add: out)
  show "\<exists>n. ?sz \<le> n \<and> n \<le> blk_size ?m b
      \<and> ff_allocs (mem s') (pre @ cut_blocks ?m b ?sz @ post)
        = ff_allocs ?m pre @ (b + HDR, n) # ff_allocs ?m post"
    using al le al_pre al_post
    by (auto simp: s'_def intro!: exI [of _ "if blk_size ?m b - ?sz < 48 then blk_size ?m b else ?sz"])
qed

end
