(* ===== verification/First_Fit_Free.thy ===== *)
theory First_Fit_Free
  imports First_Fit_Inv
begin

text \<open>
  Releasing a block of a well-formed heap: merging runs of free blocks keeps the tiling and the
  used blocks and leaves no two free blocks side by side.
\<close>

section \<open>Coalescing\<close>

text \<open>What a merge may change: only the headers of free blocks.\<close>

definition used_cells_kept :: "mem \<Rightarrow> nat list \<Rightarrow> mem \<Rightarrow> bool" where
  "used_cells_kept m bs m' \<longleftrightarrow>
     (\<forall>b \<in> set bs. \<not> blk_is_free m b \<longrightarrow> (\<forall>c. b \<le> c \<and> c < blk_end m b \<longrightarrow> m' c = m c))"

definition merge_next :: "mem \<Rightarrow> nat \<Rightarrow> mem" where
  "merge_next m b = m(b := blk_size m b + (HDR + blk_size m (blk_next m b)),
                      b + 16 := blk_next m (blk_next m b))"

lemma merge_next_seg:
  assumes seg: "seg m H a (b # c # cs) H" and "0 < a" and free: "blk_is_free m b" "blk_is_free m c"
  shows "seg (merge_next m b) H a (b # cs) H"
    and "ff_allocs (merge_next m b) (b # cs) = ff_allocs m (b # c # cs)"
    and "blk_is_free (merge_next m b) b"
    and "x < b \<or> blk_end m c \<le> x \<Longrightarrow> merge_next m b x = m x"
proof -
  have nx: "blk_next m b = c" using seg_next [OF seg \<open>0 < a\<close>] by simp
  have c: "c = blk_end m b" "b + 32 \<le> c" "c + 32 \<le> blk_end m c"
    using seg blk_end_gt [of b m] blk_end_gt [of c m] by auto
  then show out: "x < b \<or> blk_end m c \<le> x \<Longrightarrow> merge_next m b x = m x" for x
    by (auto simp: merge_next_def)
  have rest: "seg m H (blk_end m c) cs H" using seg by simp
  have "blk_end (merge_next m b) b = blk_end m c"
    using nx c by (simp add: merge_next_def hdr_defs)
  moreover from this have "blk_ok (merge_next m b) H b"
    using seg nx c free by (simp add: blk_ok_def merge_next_def) (simp add: hdr_defs)
  moreover have "seg (merge_next m b) H (blk_end m c) cs H"
    by (rule seg_frame [OF rest]) (simp add: out)
  ultimately show "seg (merge_next m b) H a (b # cs) H" using seg by simp
  show fb: "blk_is_free (merge_next m b) b" using free by (simp add: merge_next_def blk_is_free_def)
  have "ff_allocs (merge_next m b) cs = ff_allocs m cs"
    by (rule seg_same_allocs [OF rest]) (simp add: out)
  with fb free show "ff_allocs (merge_next m b) (b # cs) = ff_allocs m (b # c # cs)" by simp
qed

lemma coalesce_blocks_step:
  assumes "0 < b" "blk_next m b = c" "0 < c"
  shows "coalesce_blocks m b =
    (if blk_is_free m b \<and> blk_is_free m c \<and> blk_end m b = c
     then coalesce_blocks (merge_next m b) b else coalesce_blocks m c)"
  using assms by (subst coalesce_blocks.simps) (simp add: merge_next_def blk_end_def)

definition coalesced :: "mem \<Rightarrow> nat \<Rightarrow> nat list \<Rightarrow> nat \<Rightarrow> mem \<Rightarrow> nat list \<Rightarrow> bool" where
  "coalesced m H bs a m' bs' \<longleftrightarrow> seg m' H a bs' H \<and> bs' \<noteq> [] \<and> no_adj m' bs'
     \<and> ff_allocs m' bs' = ff_allocs m bs \<and> (\<forall>c < a. m' c = m c)
     \<and> used_cells_kept m bs m' \<and> blk_is_free m' a = blk_is_free m a"

lemma coalesce_blocks_seg:
  "seg m H a bs H \<Longrightarrow> bs \<noteq> [] \<Longrightarrow> 0 < a \<Longrightarrow>
   \<exists>m' bs'. coalesce_blocks m a = Some m' \<and> coalesced m H bs a m' bs'"
proof (induction "length bs" arbitrary: m a bs rule: less_induct)
  case less
  then obtain b rest where bs: "bs = b # rest" by (cases bs) auto
  have ab: "a = b" "0 < b" using less.prems bs by auto
  show ?case
  proof (cases rest)
    case Nil
    with less.prems bs have "coalesced m H bs a m bs"
      by (simp add: coalesced_def used_cells_kept_def)
    moreover have "coalesce_blocks m a = Some m"
      using seg_next [of m H a b "[]"] less.prems bs Nil by (subst coalesce_blocks.simps) simp
    ultimately show ?thesis by blast
  next
    case (Cons c cs)
    have nx: "blk_next m b = c" and c: "c = blk_end m b" "0 < c"
      using seg_next [of m H a b rest] less.prems bs Cons blk_end_gt [of b m] by auto
    show ?thesis
    proof (cases "blk_is_free m b \<and> blk_is_free m c")
      case True
      note mg = merge_next_seg [of m H a b c cs]
      have sg: "seg m H a (b # c # cs) H" using less.prems bs Cons by simp
      have "\<exists>m' bs'. coalesce_blocks (merge_next m b) a = Some m'
               \<and> coalesced (merge_next m b) H (b # cs) a m' bs'"
        using mg(1) [OF sg less.prems(3)] True bs Cons less.prems by (intro less.hyps) auto
      then obtain m' bs' where IH: "coalesce_blocks (merge_next m b) a = Some m'"
          "coalesced (merge_next m b) H (b # cs) a m' bs'" by blast
      have "coalesce_blocks m a = Some m'"
        using IH(1) coalesce_blocks_step [OF ab(2) nx c(2)] True c ab by simp
      moreover have "used_cells_kept m bs m'"
        unfolding used_cells_kept_def
      proof (intro ballI impI allI)
        fix x y assume x: "x \<in> set bs" "\<not> blk_is_free m x" and y: "x \<le> y \<and> y < blk_end m x"
        then have xcs: "x \<in> set cs" using True bs Cons by auto
        then have "blk_end m c \<le> x" using sg seg_bounds [of m H "blk_end m c" cs H x] by auto
        then have eq: "merge_next m b z = m z" if "x \<le> z" for z
          using mg(4) [OF sg less.prems(3)] True that by auto
        have "\<not> blk_is_free (merge_next m b) x" "blk_end (merge_next m b) x = blk_end m x"
          using x eq [of "x + 8"] eq [of x] by (simp_all add: hdr_defs)
        then have "m' y = merge_next m b y"
          using IH(2) xcs y by (auto simp: coalesced_def used_cells_kept_def)
        then show "m' y = m y" using eq y by simp
      qed
      moreover have "ff_allocs m' bs' = ff_allocs m bs"
        using IH(2) mg(2) [OF sg less.prems(3)] True bs Cons by (simp add: coalesced_def)
      ultimately have "coalesced m H bs a m' bs'"
        using IH(2) mg(3,4) [OF sg less.prems(3)] True ab by (auto simp: coalesced_def)
      with \<open>coalesce_blocks m a = Some m'\<close> show ?thesis by blast
    next
      case False
      have sg: "seg m H c (c # cs) H" "blk_ok m H b" using less.prems bs Cons by auto
      then obtain m' bs' where IH: "coalesce_blocks m c = Some m'" "coalesced m H (c # cs) c m' bs'"
        using less.hyps [of "c # cs" m c] bs Cons c(2) by auto
      have "coalesce_blocks m a = Some m'"
        using IH(1) coalesce_blocks_step [OF ab(2) nx c(2)] False ab by auto
      moreover have keep: "m' x = m x" if "x < c" for x
        using IH(2) that by (simp add: coalesced_def)
      have low: "\<forall>x<b. m' x = m x" using keep c blk_end_gt [of b m] by auto
      have same: "blk_is_free m' b = blk_is_free m b" "blk_size m' b = blk_size m b"
          "blk_next m' b = blk_next m b" "blk_magic m' b = blk_magic m b"
        using keep [of b] keep [of "b + 8"] keep [of "b + 16"] keep [of "b + 24"] c blk_end_gt [of b m]
        by (simp_all add: hdr_defs)
      then have "blk_end m' b = c" "blk_ok m' H b" using sg(2) c by (simp_all add: blk_ok_def blk_end_def)
      moreover obtain ds where "bs' = c # ds" using IH(2) by (cases bs') (auto simp: coalesced_def)
      ultimately have "coalesced m H bs a m' (b # bs')"
        using IH(2) False ab bs Cons keep same c low
        by (auto simp: coalesced_def used_cells_kept_def)
      with \<open>coalesce_blocks m a = Some m'\<close> show ?thesis by blast
    qed
  qed
qed

section \<open>Releasing a used block\<close>

definition release_block :: "mem \<Rightarrow> nat \<Rightarrow> mem" where
  "release_block m b = mem_clear (m(b + 8 := 1, b + 24 := FREE_MAGIC)) (b + HDR) (blk_size m b)"

lemma release_block_outside: "c < b \<or> blk_end m b \<le> c \<Longrightarrow> release_block m b c = m c"
  by (auto simp: release_block_def mem_clear_def hdr_defs)

lemma release_block_header:
  "blk_size (release_block m b) b = blk_size m b" "blk_next (release_block m b) b = blk_next m b"
  "blk_is_free (release_block m b) b" "blk_magic (release_block m b) b = FREE_MAGIC"
  by (simp_all add: release_block_def mem_clear_def hdr_defs FREE_MAGIC_def)

lemma release_block_seg:
  assumes seg: "seg m H a (pre @ b # post) H" and used: "\<not> blk_is_free m b"
  shows "seg (release_block m b) H a (pre @ b # post) H"
    and "ff_allocs (release_block m b) (pre @ b # post) = ff_allocs m pre @ ff_allocs m post"
    and "x \<in> set (pre @ post) \<Longrightarrow> blk_is_free (release_block m b) x = blk_is_free m x
           \<and> blk_end (release_block m b) x = blk_end m x"
    and "x \<in> set (pre @ post) \<Longrightarrow> x \<le> c \<Longrightarrow> c < blk_end m x \<Longrightarrow> release_block m b c = m c"
proof -
  let ?m = "release_block m b"
  from seg have pre: "seg m H a pre b" and ok: "blk_ok m H b" and post: "seg m H (blk_end m b) post H"
    by (auto simp: seg_append)
  have e: "blk_end ?m b = blk_end m b" by (simp add: blk_end_def release_block_header)
  have "seg ?m H a pre b" by (rule seg_frame [OF pre]) (simp add: release_block_outside)
  moreover have "seg ?m H (blk_end m b) post H"
    by (rule seg_frame [OF post]) (simp add: release_block_outside)
  moreover have "blk_ok ?m H b" using ok by (simp add: blk_ok_def release_block_header e)
  ultimately show "seg ?m H a (pre @ b # post) H" by (auto simp: seg_append e)
  have "ff_allocs ?m pre = ff_allocs m pre"
    by (rule seg_same_allocs [OF pre]) (simp add: release_block_outside)
  moreover have "ff_allocs ?m post = ff_allocs m post"
    by (rule seg_same_allocs [OF post]) (simp add: release_block_outside)
  ultimately show "ff_allocs ?m (pre @ b # post) = ff_allocs m pre @ ff_allocs m post"
    by (simp add: release_block_header)
  have bnd: "blk_end m x \<le> b \<or> blk_end m b \<le> x" if "x \<in> set (pre @ post)" for x
    using that seg_bounds [OF pre] seg_bounds [OF post] by auto
  then show "x \<in> set (pre @ post) \<Longrightarrow> x \<le> c \<Longrightarrow> c < blk_end m x \<Longrightarrow> ?m c = m c"
    using release_block_outside [of c b m] by fastforce
  assume "x \<in> set (pre @ post)"
  with bnd have "?m (x + k) = m (x + k)" if "k < 32" for k
    using that release_block_outside [of "x + k" b m] blk_end_gt [of x m] by fastforce
  from this [of 0] this [of 8]
  show "blk_is_free ?m x = blk_is_free m x \<and> blk_end ?m x = blk_end m x" by (simp add: hdr_defs)
qed

lemma first_fit_free_used:
  assumes wf: "ff_wf (pre @ b # post) s" and used: "\<not> blk_is_free (mem s) b"
  obtains s' bs' where "first_fit_free (b + 32) s = Some s'" "ff_wf bs' s'"
    "heap_start s' = heap_start s" "heap_end s' = heap_end s"
    "ff_allocs (mem s') bs' = ff_allocs (mem s) pre @ ff_allocs (mem s) post"
    "\<And>x c. x \<in> set (pre @ post) \<Longrightarrow> \<not> blk_is_free (mem s) x \<Longrightarrow> x \<le> c \<Longrightarrow> c < blk_end (mem s) x
       \<Longrightarrow> mem s' c = mem s c"
    "total_frees s' = inc64 (total_frees s)"
    "current_allocated_blocks s' = dec64 (current_allocated_blocks s)"
proof -
  let ?m = "release_block (mem s) b" and ?H = "heap_end s" and ?bs = "pre @ b # post"
  have sg: "seg (mem s) ?H (heap_start s) ?bs ?H" "0 < heap_start s" "?H < 2 ^ 64" "initialized s"
    using wf by (auto simp: ff_wf_def)
  have b: "heap_start s \<le> b" "b < ?H" "blk_magic (mem s) b = BLOCK_MAGIC"
    using seg_bounds [OF sg(1), of b] blk_end_gt [of b "mem s"] sg(1) used
    by (auto simp: seg_append blk_ok_def)
  have hdr: "get_block_header (b + 32) = b"
    using b sg(3) by (simp add: get_block_header_def HDR_def wrap64_def)
  note rel = release_block_seg [OF sg(1) used]
  obtain m' bs' where co: "coalesce_blocks ?m (heap_start s) = Some m'"
      "coalesced ?m ?H ?bs (heap_start s) m' bs'"
    using coalesce_blocks_seg [OF rel(1)] sg(2) by auto
  let ?s = "s\<lparr>mem := m', total_frees := inc64 (total_frees s),
     current_allocated_blocks := dec64 (current_allocated_blocks s)\<rparr>"
  have "first_fit_free (b + 32) s = Some ?s"
    using hdr b sg used co(1) by (simp add: first_fit_free_def release_block_def HDR_def Let_def)
  moreover have "ff_wf bs' ?s" using wf co(2) by (simp add: ff_wf_def coalesced_def)
  moreover have "ff_allocs (mem ?s) bs' = ff_allocs (mem s) pre @ ff_allocs (mem s) post"
    using co(2) rel(2) by (simp add: coalesced_def)
  moreover have "mem ?s c = mem s c"
    if x: "x \<in> set (pre @ post)" "\<not> blk_is_free (mem s) x" "x \<le> c" "c < blk_end (mem s) x" for x c
  proof -
    have "m' c = ?m c"
      using co(2) x rel(3) [OF x(1)] by (auto simp: coalesced_def used_cells_kept_def)
    also have "\<dots> = mem s c" by (rule rel(4) [OF x(1) x(3,4)])
    finally show ?thesis by simp
  qed
  ultimately show thesis by (intro that [of ?s bs']) simp_all
qed

end
