(* ===== verification/Allocator.thy ===== *)
theory Allocator
  imports Prelude
begin

text \<open>
  The contract a kernel component relies on when it takes storage from the heap: an allocator
  with an invariant and a set of live (address, size) pairs. The laws are what
  \<^verbatim>\<open>mm_malloc\<close> and \<^verbatim>\<open>mm_free\<close> promise; the lemmas are what a client concludes.
\<close>

definition ranges_disjoint :: "(nat \<times> nat) set \<Rightarrow> bool" where
  "ranges_disjoint A \<longleftrightarrow>
     (\<forall>(p, n) \<in> A. \<forall>(q, k) \<in> A. (p, n) \<noteq> (q, k) \<longrightarrow> p + n \<le> q \<or> q + k \<le> p)"

locale allocator =
  fixes alloc :: "nat \<Rightarrow> 's \<Rightarrow> (nat \<times> 's) option"
    and release :: "nat \<Rightarrow> 's \<Rightarrow> 's option"
    and inv :: "'s \<Rightarrow> bool"
    and live :: "'s \<Rightarrow> (nat \<times> nat) set"
    and need :: "nat \<Rightarrow> nat"
  assumes alloc_zero: "alloc 0 s = Some (0, s)"
    and alloc_law: "inv s \<Longrightarrow> 0 < n \<Longrightarrow> alloc n s = Some (0, s) \<or>
      (\<exists>p k s'. alloc n s = Some (p, s') \<and> 0 < p \<and> need n \<le> k \<and> inv s'
         \<and> p \<notin> fst ` live s \<and> live s' = insert (p, k) (live s))"
    and release_null: "release 0 s = Some s"
    and release_law: "inv s \<Longrightarrow> (p, k) \<in> live s \<Longrightarrow>
      \<exists>s'. release p s = Some s' \<and> inv s' \<and> live s' = live s - {(p, k)}"
    and live_disjoint: "inv s \<Longrightarrow> ranges_disjoint (live s)"
    and live_pos: "inv s \<Longrightarrow> (p, k) \<in> live s \<Longrightarrow> 0 < p"
begin

text \<open>Allocation always returns, and keeps the invariant whether or not it succeeds.\<close>

lemma alloc_total: "inv s \<Longrightarrow> \<exists>p s'. alloc n s = Some (p, s') \<and> inv s' \<and> live s \<subseteq> live s'"
  using alloc_law [of s n] alloc_zero [of s] by (cases "n = 0") auto

lemma alloc_keeps:
  assumes "inv s" "alloc n s = Some (p, s')"
  shows "inv s'" and "p = 0 \<Longrightarrow> s' = s"
    and "p \<noteq> 0 \<Longrightarrow> \<exists>k. need n \<le> k \<and> p \<notin> fst ` live s \<and> live s' = insert (p, k) (live s)"
  using assms alloc_law [of s n] alloc_zero [of s] by (cases "n = 0"; auto)+

text \<open>Storage that was just taken and is given back leaves the same live set.\<close>

lemma alloc_release:
  assumes "inv s" "alloc n s = Some (p, s')"
  shows "\<exists>s''. release p s' = Some s'' \<and> inv s'' \<and> live s'' = live s"
proof (cases "p = 0")
  case True
  with alloc_keeps [OF assms] release_null assms show ?thesis by auto
next
  case False
  with alloc_keeps [OF assms] obtain k where
    k: "p \<notin> fst ` live s" "live s' = insert (p, k) (live s)" "inv s'" by auto
  with release_law [of s' p k] obtain s'' where
    "release p s' = Some s''" "inv s''" "live s'' = live s' - {(p, k)}" by auto
  moreover have "(p, k) \<notin> live s" using k(1) by force
  ultimately show ?thesis using k by auto
qed

text \<open>
  A client that only gives back what it was given: \<open>reqs\<close> is a list of requests, served in
  order; every address handed out stays distinct from the others and from what was live.
\<close>

fun alloc_all :: "nat list \<Rightarrow> 's \<Rightarrow> (nat list \<times> 's) option" where
  "alloc_all [] s = Some ([], s)"
| "alloc_all (n # ns) s = do {
     (p, s1) \<leftarrow> alloc n s;
     (ps, s2) \<leftarrow> alloc_all ns s1;
     Some (p # ps, s2)
   }"

lemma alloc_all_spec:
  "inv s \<Longrightarrow> \<exists>ps s'. alloc_all ns s = Some (ps, s') \<and> inv s' \<and> length ps = length ns
     \<and> distinct (filter (\<lambda>p. p \<noteq> 0) ps)
     \<and> fst ` live s' = fst ` live s \<union> (set ps - {0})
     \<and> fst ` live s \<inter> (set ps - {0}) = {}"
proof (induction ns arbitrary: s)
  case (Cons n ns)
  from alloc_total [OF Cons.prems] obtain p s1 where p: "alloc n s = Some (p, s1)" by blast
  note k = alloc_keeps [OF Cons.prems p]
  from Cons.IH [OF k(1)] obtain ps s' where ps: "alloc_all ns s1 = Some (ps, s')" "inv s'"
    "length ps = length ns" "distinct (filter (\<lambda>p. p \<noteq> 0) ps)"
    "fst ` live s' = fst ` live s1 \<union> (set ps - {0})" "fst ` live s1 \<inter> (set ps - {0}) = {}"
    by (elim exE conjE) (rule that)
  show ?case
  proof (cases "p = 0")
    case True
    with k(2) have "s1 = s" by simp
    with True p ps have "alloc_all (n # ns) s = Some (0 # ps, s')" by simp
    with ps \<open>s1 = s\<close> show ?thesis by (intro exI [of _ "0 # ps"] exI [of _ s']) simp
  next
    case False
    with k(3) obtain q where q: "p \<notin> fst ` live s" "live s1 = insert (p, q) (live s)" by blast
    then have live1: "fst ` live s1 = insert p (fst ` live s)" by simp
    with ps(6) have new: "p \<notin> set ps" using False by simp
    have "alloc_all (n # ns) s = Some (p # ps, s')" using p ps(1) by simp
    moreover have "distinct (filter (\<lambda>p. p \<noteq> 0) (p # ps))" using new ps(4) by simp
    moreover have "fst ` live s' = fst ` live s \<union> (set (p # ps) - {0})" using ps(5) live1 False by auto
    moreover have "fst ` live s \<inter> (set (p # ps) - {0}) = {}" using ps(6) live1 q(1) False by auto
    ultimately show ?thesis using ps(2,3) by (intro exI [of _ "p # ps"] exI [of _ s']) simp
  qed
qed simp

end

end
