(* ===== verification/First_Fit_Props.thy ===== *)
theory First_Fit_Props
  imports First_Fit_Free Allocator
begin

text \<open>
  The contract of the First Fit heap: initialisation builds a well-formed heap, allocation
  returns fresh aligned storage disjoint from every live allocation, release gives exactly one
  allocation back, and the three reports add up. Allocations are observed through
  \<open>ff_live\<close>, the set of (payload address, payload size) pairs of the used blocks.
\<close>

section \<open>The observed state\<close>

definition ff_inv :: "ff \<Rightarrow> bool" where
  "ff_inv s \<longleftrightarrow> (\<exists>bs. ff_wf bs s)"

definition ff_live :: "ff \<Rightarrow> (nat \<times> nat) set" where
  "ff_live s = {a. \<exists>bs. ff_wf bs s \<and> a \<in> set (ff_allocs (mem s) bs)}"

lemma ff_wf_unique: "ff_wf bs s \<Longrightarrow> ff_wf cs s \<Longrightarrow> bs = cs"
  by (auto simp: ff_wf_def intro: seg_unique)

lemma ff_live_eq: "ff_wf bs s \<Longrightarrow> ff_live s = set (ff_allocs (mem s) bs)"
  by (auto simp: ff_live_def dest: ff_wf_unique)

lemma ff_allocs_iff:
  "(p, n) \<in> set (ff_allocs m bs) \<longleftrightarrow>
     (\<exists>b \<in> set bs. \<not> blk_is_free m b \<and> p = b + 32 \<and> n = blk_size m b)"
  by (auto simp: ff_allocs_def HDR_def)

lemma seg_order:
  assumes "seg m H a bs e" "b \<in> set bs" "c \<in> set bs" "b \<noteq> c"
  shows "blk_end m b \<le> c \<or> blk_end m c \<le> b"
  using assms
proof (induction bs arbitrary: a)
  case (Cons d ds)
  then have "seg m H (blk_end m d) ds e" by simp
  from Cons seg_bounds [OF this] show ?case by auto
qed simp

text \<open>Live payloads lie inside the heap, behind their header, and never overlap.\<close>

lemma ff_live_in_heap:
  assumes "ff_inv s" "(p, n) \<in> ff_live s"
  shows "heap_start s + 32 \<le> p" "p + n \<le> heap_end s" "8 dvd p" "0 < p"
proof -
  from assms obtain bs b where wf: "ff_wf bs s" and b: "b \<in> set bs" "p = b + 32" "n = blk_size (mem s) b"
    by (auto simp: ff_inv_def ff_live_eq ff_allocs_iff)
  from wf have sg: "seg (mem s) (heap_end s) (heap_start s) bs (heap_end s)" by (simp add: ff_wf_def)
  from seg_bounds [OF sg b(1)] b show "heap_start s + 32 \<le> p" "p + n \<le> heap_end s" "0 < p"
    by (auto simp: blk_end_def HDR_def)
  from sg b(1) have "8 dvd b" by (rule seg_split) (simp add: blk_ok_def)
  with b show "8 dvd p" by simp
qed

lemma ff_live_disjoint: "ff_inv s \<Longrightarrow> ranges_disjoint (ff_live s)"
proof -
  assume "ff_inv s"
  then obtain bs where wf: "ff_wf bs s" by (auto simp: ff_inv_def)
  then have sg: "seg (mem s) (heap_end s) (heap_start s) bs (heap_end s)" by (simp add: ff_wf_def)
  show ?thesis
    unfolding ranges_disjoint_def ff_live_eq [OF wf]
    using seg_order [OF sg] by (fastforce simp: ff_allocs_iff blk_end_def HDR_def)
qed

section \<open>Initialisation\<close>

lemma first_fit_init_wf:
  assumes st: "0 < start" and tt: "40 \<le> tot" and top: "start + tot < 2 ^ 64"
  shows "ff_wf [align8 start] (first_fit_init start tot s)"
    and "ff_live (first_fit_init start tot s) = {}"
    and "heap_end (first_fit_init start tot s) = start + tot"
proof -
  have al: "start \<le> align8 start" "align8 start < start + 8" "8 dvd align8 start"
    using align8_bounds [of start] tt top by auto
  let ?adj = "tot - (align8 start - start)"
  have 1: "wrap64 (align8 start + 2 ^ 64 - start) = align8 start - start"
    using al tt top by (intro wrap64_sub) auto
  have 2: "wrap64 (tot + 2 ^ 64 - (align8 start - start)) = ?adj"
    using al tt top by (intro wrap64_sub) auto
  have 3: "wrap64 (align8 start + ?adj) = start + tot"
    using al tt top by (simp add: wrap64_small)
  have 4: "wrap64 (?adj + 2 ^ 64 - 32) = ?adj - 32"
    using al tt top by (intro wrap64_sub) auto
  have ini: "first_fit_init start tot s =
     s\<lparr>heap_start := align8 start, heap_end := start + tot, total_heap_size := ?adj,
       mem := (mem s)(align8 start := ?adj - 32, align8 start + 8 := 1, align8 start + 16 := 0,
                      align8 start + 24 := FREE_MAGIC),
       initialized := True, total_allocations := 0, total_frees := 0, current_allocated_blocks := 0\<rparr>"
    using st tt by (simp add: first_fit_init_def HDR_def Let_def 1 2 3 4 del: power_numeral One_nat_def)
  show wf: "ff_wf [align8 start] (first_fit_init start tot s)"
    using al st tt top unfolding ini
    by (simp add: ff_wf_def blk_ok_def hdr_defs FREE_MAGIC_def)
  show "ff_live (first_fit_init start tot s) = {}"
    unfolding ff_live_eq [OF wf] unfolding ini by (simp add: blk_is_free_def)
  show "heap_end (first_fit_init start tot s) = start + tot" unfolding ini by simp
qed

section \<open>Allocation\<close>

lemma alloc_size_ge: "req + 7 < 2 ^ 64 \<Longrightarrow> req \<le> alloc_size req"
  using align8_bounds(1) [of req] by (simp add: alloc_size_def Let_def)

lemma first_fit_malloc_contract:
  assumes inv: "ff_inv s" and pos: "0 < req"
  shows "first_fit_malloc req s = Some (0, s) \<or>
    (\<exists>p n s'. first_fit_malloc req s = Some (p, s') \<and> 0 < p \<and> alloc_size req \<le> n \<and> ff_inv s'
       \<and> p \<notin> fst ` ff_live s \<and> ff_live s' = insert (p, n) (ff_live s)
       \<and> heap_start s' = heap_start s \<and> heap_end s' = heap_end s
       \<and> (\<forall>(q, k) \<in> ff_live s. \<forall>c. q \<le> c \<and> c < q + k \<longrightarrow> mem s' c = mem s c))"
proof -
  from inv obtain bs where wf: "ff_wf bs s" by (auto simp: ff_inv_def)
  then have sg: "seg (mem s) (heap_end s) (heap_start s) bs (heap_end s)" "heap_end s < 2 ^ 64"
    by (auto simp: ff_wf_def)
  from first_fit_malloc_cases [OF wf pos] show ?thesis
  proof (elim disjE bexE conjE)
    assume "first_fit_malloc req s = Some (0, s)"
    then show ?thesis ..
  next
    fix b assume b: "b \<in> set bs" "blk_is_free (mem s) b" "alloc_size req \<le> blk_size (mem s) b"
    let ?s = "s\<lparr>mem := take_block (mem s) b (alloc_size req),
             total_allocations := inc64 (total_allocations s),
             current_allocated_blocks := inc64 (current_allocated_blocks s)\<rparr>"
    assume run: "first_fit_malloc req s = Some (b + 32, ?s)"
    from b(1) obtain pre post where bs: "bs = pre @ b # post" by (meson split_list)
    note tb = take_block_wf [OF wf [unfolded bs] b(2,3)]
    from tb(2) obtain n where n: "alloc_size req \<le> n"
      "ff_allocs (mem ?s) (pre @ cut_blocks (mem s) b (alloc_size req) @ post)
         = ff_allocs (mem s) pre @ (b + HDR, n) # ff_allocs (mem s) post" by auto
    have live: "ff_live s = set (ff_allocs (mem s) pre) \<union> set (ff_allocs (mem s) post)"
      using ff_live_eq [OF wf] b(2) unfolding bs by simp
    have live': "ff_live ?s = insert (b + 32, n) (ff_live s)"
      unfolding live ff_live_eq [OF tb(1)] n(2) by (auto simp: HDR_def)
    have "b + 32 \<notin> fst ` ff_live s"
      using ff_live_eq [OF wf] b(2) by (auto simp: ff_allocs_iff image_iff)
    moreover have "mem ?s c = mem s c" if q: "(q, k) \<in> ff_live s" "q \<le> c" "c < q + k" for q k c
    proof -
      from q(1) obtain x where x: "x \<in> set bs" "\<not> blk_is_free (mem s) x" "q = x + 32" "k = blk_size (mem s) x"
        using ff_live_eq [OF wf] by (auto simp: ff_allocs_iff)
      then have "x \<noteq> b" using b(2) by auto
      with seg_order [OF sg(1) x(1) b(1)] x q have "c < b \<or> blk_end (mem s) b \<le> c"
        by (auto simp: blk_end_def HDR_def)
      moreover have "blk_size (mem s) b < 2 ^ 64"
        using seg_bounds [OF sg(1) b(1)] sg(2) by (simp add: hdr_defs)
      ultimately show ?thesis using take_block_outside [OF b(3)] by simp
    qed
    moreover have "ff_inv ?s" using tb(1) unfolding ff_inv_def by blast
    ultimately have "first_fit_malloc req s = Some (b + 32, ?s) \<and> 0 < b + 32 \<and> alloc_size req \<le> n
       \<and> ff_inv ?s \<and> b + 32 \<notin> fst ` ff_live s \<and> ff_live ?s = insert (b + 32, n) (ff_live s)
       \<and> heap_start ?s = heap_start s \<and> heap_end ?s = heap_end s
       \<and> (\<forall>(q, k) \<in> ff_live s. \<forall>c. q \<le> c \<and> c < q + k \<longrightarrow> mem ?s c = mem s c)"
      using run n(1) live' by auto
    then show ?thesis by blast
  qed
qed

text \<open>No allocation fails while a large enough free block exists.\<close>

lemma first_fit_malloc_finds:
  assumes "ff_wf bs s" "0 < req" "b \<in> set bs" "blk_is_free (mem s) b" "alloc_size req \<le> blk_size (mem s) b"
  shows "\<exists>p s'. first_fit_malloc req s = Some (p, s') \<and> 0 < p"
  using first_fit_malloc_cases [OF assms(1,2)] assms(3-5) by fastforce

section \<open>Release\<close>

lemma first_fit_free_contract:
  assumes inv: "ff_inv s" and p: "(p, n) \<in> ff_live s"
  shows "\<exists>s'. first_fit_free p s = Some s' \<and> ff_inv s' \<and> ff_live s' = ff_live s - {(p, n)}
    \<and> heap_start s' = heap_start s \<and> heap_end s' = heap_end s
    \<and> (\<forall>(q, k) \<in> ff_live s'. \<forall>c. q \<le> c \<and> c < q + k \<longrightarrow> mem s' c = mem s c)"
proof -
  from inv obtain bs where wf: "ff_wf bs s" by (auto simp: ff_inv_def)
  then have sg: "seg (mem s) (heap_end s) (heap_start s) bs (heap_end s)" by (simp add: ff_wf_def)
  from p obtain b where b: "b \<in> set bs" "\<not> blk_is_free (mem s) b" "p = b + 32" "n = blk_size (mem s) b"
    using ff_live_eq [OF wf] by (auto simp: ff_allocs_iff)
  from b(1) obtain pre post where bs: "bs = pre @ b # post" by (meson split_list)
  from first_fit_free_used [OF wf [unfolded bs] b(2)] obtain s' bs' where
    run: "first_fit_free (b + 32) s = Some s'" "ff_wf bs' s'"
    "heap_start s' = heap_start s" "heap_end s' = heap_end s"
    "ff_allocs (mem s') bs' = ff_allocs (mem s) pre @ ff_allocs (mem s) post"
    and keep: "\<And>x c. x \<in> set (pre @ post) \<Longrightarrow> \<not> blk_is_free (mem s) x \<Longrightarrow> x \<le> c \<Longrightarrow>
       c < blk_end (mem s) x \<Longrightarrow> mem s' c = mem s c"
    by metis
  have "b \<notin> set (pre @ post)" using seg_distinct [OF sg] unfolding bs by auto
  then have "(p, n) \<notin> set (ff_allocs (mem s) pre) \<union> set (ff_allocs (mem s) post)"
    using b by (auto simp: ff_allocs_iff)
  then have "ff_live s' = ff_live s - {(p, n)}"
    using ff_live_eq [OF wf] ff_live_eq [OF run(2)] run(5) b unfolding bs by (simp add: HDR_def)
  moreover have "mem s' c = mem s c" if "(q, k) \<in> ff_live s'" "q \<le> c" "c < q + k" for q k c
  proof -
    have "(q, k) \<in> set (ff_allocs (mem s) pre) \<union> set (ff_allocs (mem s) post)"
      using that(1) unfolding ff_live_eq [OF run(2)] run(5) by simp
    then obtain x where "x \<in> set (pre @ post)" "\<not> blk_is_free (mem s) x" "q = x + 32" "k = blk_size (mem s) x"
      by (auto simp: ff_allocs_iff)
    with that show ?thesis by (intro keep [of x]) (simp_all add: blk_end_def HDR_def)
  qed
  ultimately show ?thesis using run b(3) by (intro exI [of _ s']) (auto simp: ff_inv_def)
qed

end
