(* ===== verification/First_Fit_Reports.thy ===== *)
theory First_Fit_Reports
  imports First_Fit_Props
begin

text \<open>
  The three read-only reports on a well-formed heap: the byte counts add up to the heap size,
  the integrity check accepts it, and the detailed statistics agree with the chain of blocks.
\<close>

text \<open>Every block but the last is followed by its successor; the walk of all three loops.\<close>

lemma seg_walk:
  assumes "seg m H a (b # bs) H" "0 < a"
  shows "a = b" "blk_next m b = (if bs = [] then 0 else hd bs)" "seg m H (blk_end m b) bs H"
    "bs \<noteq> [] \<Longrightarrow> hd bs = blk_end m b" "0 < blk_end m b"
  using assms seg_next [OF assms] blk_end_gt [of b m] by (cases bs; auto)+

definition sum_sizes :: "mem \<Rightarrow> nat list \<Rightarrow> nat" where
  "sum_sizes m bs = (\<Sum>b\<leftarrow>bs. blk_size m b)"

lemma seg_total: "seg m H a bs e \<Longrightarrow> a + sum_sizes m bs + 32 * length bs = e"
proof (induction bs arbitrary: a)
  case (Cons b bs)
  then have "blk_end m b + sum_sizes m bs + 32 * length bs = e" "a = b" by auto
  then show ?case by (simp add: sum_sizes_def blk_end_def HDR_def)
qed (simp add: sum_sizes_def)

lemma sum_sizes_split:
  "sum_sizes m (filter P bs) + sum_sizes m (filter (\<lambda>b. \<not> P b) bs) = sum_sizes m bs"
  by (induction bs) (auto simp: sum_sizes_def)

lemma sum_sizes_Cons [simp]: "sum_sizes m (b # bs) = blk_size m b + sum_sizes m bs" "sum_sizes m [] = 0"
  by (simp_all add: sum_sizes_def)

abbreviation free_of :: "mem \<Rightarrow> nat list \<Rightarrow> nat list" where
  "free_of m bs \<equiv> filter (blk_is_free m) bs"
abbreviation used_of :: "mem \<Rightarrow> nat list \<Rightarrow> nat list" where
  "used_of m bs \<equiv> filter (\<lambda>b. \<not> blk_is_free m b) bs"

section \<open>first_fit_get_info\<close>

lemma info_loop_seg:
  "seg m H a bs H \<Longrightarrow> 0 < a \<Longrightarrow>
   info_loop m (if bs = [] then 0 else hd bs) info =
     Some (info\<lparr>used_memory := used_memory info + sum_sizes m (used_of m bs) + 32 * length bs,
                free_memory := free_memory info + sum_sizes m (free_of m bs),
                allocated_blocks := allocated_blocks info + length (used_of m bs),
                mi_free_blocks := mi_free_blocks info + length (free_of m bs)\<rparr>)"
proof (induction bs arbitrary: a info)
  case Nil
  then show ?case by (subst info_loop.simps) simp
next
  case (Cons b bs)
  note w = seg_walk [OF Cons.prems]
  show ?case
    using Cons.prems w(1) Cons.IH [OF w(3) w(5)]
    by (subst info_loop.simps) (simp add: w(2) Let_def HDR_def add_ac)
qed

lemma first_fit_get_info_wf:
  assumes "ff_wf bs s"
  shows "first_fit_get_info info s = Some
     \<lparr>total_memory = total_heap_size s,
      used_memory = sum_sizes (mem s) (used_of (mem s) bs) + 32 * length bs,
      free_memory = sum_sizes (mem s) (free_of (mem s) bs),
      allocated_blocks = length (used_of (mem s) bs),
      mi_free_blocks = length (free_of (mem s) bs)\<rparr>"
proof -
  have sg: "seg (mem s) (heap_end s) (heap_start s) bs (heap_end s)" "0 < heap_start s" "bs \<noteq> []"
    and ini: "initialized s" using assms by (auto simp: ff_wf_def)
  then have "hd bs = heap_start s" by (cases bs) auto
  with info_loop_seg [OF sg(1,2)] sg(3) ini show ?thesis by (simp add: first_fit_get_info_def)
qed

lemma ff_wf_sizes:
  assumes "ff_wf bs s"
  shows "sum_sizes (mem s) (used_of (mem s) bs) + 32 * length bs + sum_sizes (mem s) (free_of (mem s) bs)
       = total_heap_size s"
proof -
  have "heap_start s + sum_sizes (mem s) bs + 32 * length bs = heap_end s"
    using assms by (intro seg_total [where H = "heap_end s"]) (simp add: ff_wf_def)
  moreover have "total_heap_size s = heap_end s - heap_start s" using assms by (simp add: ff_wf_def)
  ultimately show ?thesis using sum_sizes_split [of "mem s" "blk_is_free (mem s)" bs] by simp
qed

lemma ff_live_card:
  assumes wf: "ff_wf bs s"
  shows "card (ff_live s) = length (used_of (mem s) bs)"
proof -
  have "distinct bs" using wf seg_distinct by (auto simp: ff_wf_def)
  then have "distinct (ff_allocs (mem s) bs)"
    by (simp add: ff_allocs_def distinct_map inj_on_def)
  then show ?thesis by (simp add: ff_live_eq [OF wf] distinct_card) (simp add: ff_allocs_def)
qed

section \<open>first_fit_check_integrity\<close>

lemma integrity_loop_seg:
  "seg m he a bs he \<Longrightarrow> hs \<le> a \<Longrightarrow> 0 < a \<Longrightarrow>
   integrity_loop m hs he (if bs = [] then 0 else hd bs) e = Some e"
proof (induction bs arbitrary: a e)
  case Nil
  then show ?case by (subst integrity_loop.simps) simp
next
  case (Cons b bs)
  note w = seg_walk [OF Cons.prems(1,3)]
  have mg: "blk_magic m b = (if blk_is_free m b then FREE_MAGIC else BLOCK_MAGIC)"
    using Cons.prems by (simp add: blk_ok_def)
  have lt: "b < he" using seg_bounds [OF Cons.prems(1), of b] blk_end_gt [of b m] by simp
  have nxt: "blk_next m b \<noteq> 0 \<longrightarrow> hs \<le> blk_next m b \<and> blk_next m b < he"
    using w(1,2,4) Cons.prems blk_end_gt [of b m] seg_nonempty_le [OF w(3)] by auto
  have "hs \<le> blk_end m b" using Cons.prems w(1) blk_end_gt [of b m] by simp
  then have IH: "integrity_loop m hs he (blk_next m b) e = Some e"
    using Cons.IH [OF w(3) _ w(5)] w(2) by simp
  show ?case
    using Cons.prems w(1) mg lt nxt IH by (subst integrity_loop.simps) (auto simp: Let_def)
qed

lemma first_fit_check_integrity_wf: "ff_inv s \<Longrightarrow> first_fit_check_integrity s = Some True"
proof -
  assume "ff_inv s"
  then obtain bs where wf: "ff_wf bs s" by (auto simp: ff_inv_def)
  then have sg: "seg (mem s) (heap_end s) (heap_start s) bs (heap_end s)" "0 < heap_start s" "bs \<noteq> []"
    "initialized s" by (auto simp: ff_wf_def)
  then have "hd bs = heap_start s" by (cases bs) auto
  with integrity_loop_seg [OF sg(1) order_refl sg(2)] sg(3,4) show ?thesis
    by (simp add: first_fit_check_integrity_def)
qed

section \<open>first_fit_collect_stats\<close>

definition max_size :: "mem \<Rightarrow> nat list \<Rightarrow> nat" where
  "max_size m bs = foldr (\<lambda>b n. max (blk_size m b) n) bs 0"

lemma max_size_Cons [simp]:
  "max_size m (b # bs) = max (blk_size m b) (max_size m bs)" "max_size m [] = 0"
  by (simp_all add: max_size_def)

lemma max_size_le: "max_size m bs \<le> sum_sizes m bs"
  by (induction bs) auto

lemma stats_loop_seg:
  "seg m H a bs H \<Longrightarrow> 0 < a \<Longrightarrow> freelist_count st \<le> 32 \<Longrightarrow>
   \<exists>st'. stats_loop m (if bs = [] then 0 else hd bs) st = Some st'
     \<and> free_bytes st' = free_bytes st + sum_sizes m (free_of m bs)
     \<and> free_blocks st' = free_blocks st + length (free_of m bs)
     \<and> largest_free st' = max (largest_free st) (max_size m (free_of m bs))
     \<and> freelist st' = freelist st @ take (32 - freelist_count st)
          (map (\<lambda>b. (b, blk_size m b)) (free_of m bs))
     \<and> freelist_count st' = min 32 (freelist_count st + length (free_of m bs))
     \<and> freelist_count st' + freelist_truncated st'
         = freelist_count st + freelist_truncated st + length (free_of m bs)"
proof (induction bs arbitrary: a st)
  case Nil
  then show ?case by (subst stats_loop.simps) simp
next
  case (Cons b bs)
  note w = seg_walk [OF Cons.prems(1,2)]
  show ?case
  proof (cases "blk_is_free m b")
    case False
    then show ?thesis
      using Cons.prems w(1) Cons.IH [OF w(3) w(5) Cons.prems(3)]
      by (subst stats_loop.simps) (simp add: w(2))
  next
    case True
    let ?st = "st\<lparr>free_bytes := free_bytes st + blk_size m b,
            free_blocks := free_blocks st + 1,
            largest_free := (if blk_size m b > largest_free st then blk_size m b
                             else largest_free st),
            freelist := (if freelist_count st < MM_MAX_SIMPLE_BLOCKS
                         then freelist st @ [(b, blk_size m b)] else freelist st),
            freelist_count := (if freelist_count st < MM_MAX_SIMPLE_BLOCKS
                               then freelist_count st + 1 else freelist_count st),
            freelist_truncated := (if freelist_count st < MM_MAX_SIMPLE_BLOCKS
                                   then freelist_truncated st else freelist_truncated st + 1)\<rparr>"
    have run: "stats_loop m b st = stats_loop m (if bs = [] then 0 else hd bs) ?st"
      using True w(1) Cons.prems by (subst stats_loop.simps) (simp add: w(2))
    have "freelist_count ?st \<le> 32" using Cons.prems(3) by (simp add: MM_MAX_SIMPLE_BLOCKS_def)
    from Cons.IH [OF w(3) w(5) this] obtain st' where
      IH: "stats_loop m (if bs = [] then 0 else hd bs) ?st = Some st'"
      "free_bytes st' = free_bytes ?st + sum_sizes m (free_of m bs)"
      "free_blocks st' = free_blocks ?st + length (free_of m bs)"
      "largest_free st' = max (largest_free ?st) (max_size m (free_of m bs))"
      "freelist st' = freelist ?st @ take (32 - freelist_count ?st)
          (map (\<lambda>b. (b, blk_size m b)) (free_of m bs))"
      "freelist_count st' = min 32 (freelist_count ?st + length (free_of m bs))"
      "freelist_count st' + freelist_truncated st'
         = freelist_count ?st + freelist_truncated ?st + length (free_of m bs)" by blast
    have fl: "freelist st' = freelist st @ take (32 - freelist_count st)
          (map (\<lambda>b. (b, blk_size m b)) (b # free_of m bs))"
      using IH(5) Cons.prems(3)
      by (cases "freelist_count st < 32")
         (simp_all add: MM_MAX_SIMPLE_BLOCKS_def take_Cons' diff_diff_add)
    show ?thesis
      using IH(1-4,6,7) fl run True Cons.prems(3) w(1)
      by (intro exI [of _ st']) (simp add: MM_MAX_SIMPLE_BLOCKS_def split: if_splits)
  qed
qed

lemma first_fit_collect_stats_wf:
  assumes wf: "ff_wf bs s"
  shows "\<exists>st. first_fit_collect_stats s = Some st
    \<and> heap_total st = total_heap_size s
    \<and> free_bytes st = sum_sizes (mem s) (free_of (mem s) bs)
    \<and> used_bytes st + free_bytes st = heap_total st
    \<and> free_blocks st = length (free_of (mem s) bs)
    \<and> largest_free st = max_size (mem s) (free_of (mem s) bs)
    \<and> freelist st = take 32 (map (\<lambda>b. (b, blk_size (mem s) b)) (free_of (mem s) bs))
    \<and> freelist_count st + freelist_truncated st = free_blocks st
    \<and> heap_base st = heap_start s \<and> st_heap_end st = heap_end s"
proof -
  let ?st0 = "(mm_stats_set_name mm_stats_zero ''simple'')\<lparr>has_buddy := 0\<rparr>"
  have sg: "seg (mem s) (heap_end s) (heap_start s) bs (heap_end s)" "0 < heap_start s" "bs \<noteq> []"
    and ini: "initialized s" using wf by (auto simp: ff_wf_def)
  have st0: "free_bytes ?st0 = 0" "free_blocks ?st0 = 0" "largest_free ?st0 = 0" "freelist ?st0 = []"
    "freelist_count ?st0 = 0" "freelist_truncated ?st0 = 0"
    by (simp_all add: mm_stats_set_name_def mm_stats_zero_def)
  have hd: "(if bs = [] then 0 else hd bs) = heap_start s" using sg by (cases bs) auto
  have "freelist_count ?st0 \<le> 32" by (simp add: st0)
  from stats_loop_seg [OF sg(1,2) this] obtain st1 where
    st1: "stats_loop (mem s) (heap_start s) ?st0 = Some st1"
    "free_bytes st1 = sum_sizes (mem s) (free_of (mem s) bs)"
    "free_blocks st1 = length (free_of (mem s) bs)"
    "largest_free st1 = max_size (mem s) (free_of (mem s) bs)"
    "freelist st1 = take 32 (map (\<lambda>b. (b, blk_size (mem s) b)) (free_of (mem s) bs))"
    "freelist_count st1 + freelist_truncated st1 = length (free_of (mem s) bs)"
    unfolding hd st0 by auto
  have le: "free_bytes st1 \<le> total_heap_size s"
    using ff_wf_sizes [OF wf] st1(2) by simp
  have lf: "\<not> largest_free st1 > free_bytes st1"
    using st1(2,4) max_size_le [of "mem s"] by (simp add: not_less)
  show ?thesis
    using ini sg(2) st1 le lf by (simp add: first_fit_collect_stats_def Let_def)
qed

end
