(* ===== verification/Buddy.thy ===== *)
theory Buddy
  imports Mm_Types
begin

unbundle bit_operations_syntax

text \<open>
  \<^verbatim>\<open>Kernel/mm/buddy_system.c\<close>: the allocator selected by \<^verbatim>\<open>USE_BUDDY_SYSTEM\<close>.

  The allocator's own memory is two stores: \<open>node_next\<close>, the \<^verbatim>\<open>next\<close> word the code keeps in the
  first bytes of every free block, by block address, and \<open>bytes\<close>, the bytes from \<^verbatim>\<open>order_map\<close>
  on. \<^verbatim>\<open>used_map\<close> starts \<open>num_pages\<close> bytes after \<^verbatim>\<open>order_map\<close>, as in the code, so an index
  past the end of the first map reads the second one. Traversals of a free list are partial
  functions.
\<close>

section \<open>State\<close>

definition BUDDY_PAGE_SHIFT :: nat where [const_defs]: "BUDDY_PAGE_SHIFT = 12"
definition BUDDY_PAGE_SIZE :: nat where [const_defs]: "BUDDY_PAGE_SIZE = 4096"
definition BUDDY_MIN_ORDER :: nat where [const_defs]: "BUDDY_MIN_ORDER = 12"
definition BUDDY_MAX_ORDERS :: nat where [const_defs]: "BUDDY_MAX_ORDERS = 20"

record buddy =
  node_next :: "nat \<Rightarrow> nat"
  bytes :: "nat \<Rightarrow> nat"
  free_lists :: "nat \<Rightarrow> nat"
  num_pages :: nat
  region_base :: nat
  region_end :: nat
  max_order :: nat
  bd_initialized :: bool
  stat_total :: nat
  stat_used :: nat
  stat_alloc_blocks :: nat
  stat_free_blocks :: nat

definition buddy_boot :: buddy where
  "buddy_boot = \<lparr>node_next = (\<lambda>_. 0), bytes = (\<lambda>_. 0), free_lists = (\<lambda>_. 0), num_pages = 0,
     region_base = 0, region_end = 0, max_order = 0, bd_initialized = False,
     stat_total = 0, stat_used = 0, stat_alloc_blocks = 0, stat_free_blocks = 0\<rparr>"

definition order_at :: "buddy \<Rightarrow> nat \<Rightarrow> nat" where
  "order_at s idx = bytes s idx"

definition used_at :: "buddy \<Rightarrow> nat \<Rightarrow> nat" where
  "used_at s idx = bytes s (num_pages s + idx)"

definition set_order :: "nat \<Rightarrow> nat \<Rightarrow> buddy \<Rightarrow> buddy" where
  "set_order idx order s = s\<lparr>bytes := (bytes s)(idx := order mod 256)\<rparr>"

definition set_used :: "nat \<Rightarrow> nat \<Rightarrow> buddy \<Rightarrow> buddy" where
  "set_used idx v s = s\<lparr>bytes := (bytes s)(num_pages s + idx := v)\<rparr>"

section \<open>Helpers\<close>

definition align_up_ptr :: "nat \<Rightarrow> nat \<Rightarrow> nat" where
  "align_up_ptr ptr alignment = wrap64 (ptr + alignment - 1) div alignment * alignment"

definition align_down_ptr :: "nat \<Rightarrow> nat \<Rightarrow> nat" where
  "align_down_ptr ptr alignment = ptr div alignment * alignment"

definition ptr_to_index :: "buddy \<Rightarrow> nat \<Rightarrow> nat" where
  "ptr_to_index s ptr = wrap64 (ptr + 2 ^ 64 - region_base s) div 2 ^ BUDDY_PAGE_SHIFT"

definition index_to_ptr :: "buddy \<Rightarrow> nat \<Rightarrow> nat" where
  "index_to_ptr s idx = wrap64 (region_base s + idx * 2 ^ BUDDY_PAGE_SHIFT)"

text \<open>The loop of \<^verbatim>\<open>size_to_order\<close> runs at most \<open>max_order - order\<close> times.\<close>

function order_loop :: "nat \<Rightarrow> nat \<Rightarrow> nat \<Rightarrow> nat \<Rightarrow> nat" where
  "order_loop mo sz block_size order =
    (if block_size < sz \<and> order < mo then order_loop mo sz (block_size * 2) (order + 1) else order)"
  by pat_completeness auto
termination by (relation "measure (\<lambda>(mo, sz, block_size, order). mo - order)") auto

declare order_loop.simps [simp del]

definition size_to_order :: "nat \<Rightarrow> nat \<Rightarrow> nat" where
  "size_to_order mo sz =
    (if sz = 0 then BUDDY_MIN_ORDER else order_loop mo sz BUDDY_PAGE_SIZE BUDDY_MIN_ORDER)"

definition buddy_index :: "nat \<Rightarrow> nat \<Rightarrow> nat" where
  "buddy_index idx order = idx XOR 2 ^ (order - BUDDY_MIN_ORDER)"

definition add_to_free_list :: "nat \<Rightarrow> nat \<Rightarrow> buddy \<Rightarrow> buddy" where
  "add_to_free_list idx order s =
    (let node = index_to_ptr s idx in
     s\<lparr>node_next := (node_next s)(node := free_lists s order),
       free_lists := (free_lists s)(order := node),
       stat_free_blocks := inc64 (stat_free_blocks s)\<rparr>)"

text \<open>
  \<^verbatim>\<open>remove_from_free_list\<close>: \<open>prev = 0\<close> stands for \<^verbatim>\<open>current == &free_lists[order]\<close>, another
  value for \<^verbatim>\<open>current == &prev->next\<close>.
\<close>

partial_function (option) remove_loop ::
  "nat \<Rightarrow> nat \<Rightarrow> nat \<Rightarrow> nat \<Rightarrow> buddy \<Rightarrow> (bool \<times> buddy) option" where
  "remove_loop target order prev current s =
    (if current = 0 then Some (False, s)
     else if current = target then
       let s1 = (if prev = 0
                 then s\<lparr>free_lists := (free_lists s)(order := node_next s current)\<rparr>
                 else s\<lparr>node_next := (node_next s)(prev := node_next s current)\<rparr>)
       in Some (True, s1\<lparr>stat_free_blocks := dec64 (stat_free_blocks s1)\<rparr>)
     else remove_loop target order current (node_next s current) s)"

definition remove_from_free_list :: "nat \<Rightarrow> nat \<Rightarrow> buddy \<Rightarrow> (bool \<times> buddy) option" where
  "remove_from_free_list idx order s =
    remove_loop (index_to_ptr s idx) order 0 (free_lists s order) s"

section \<open>buddy_init\<close>

function max_order_loop :: "nat \<Rightarrow> nat \<Rightarrow> nat \<Rightarrow> nat" where
  "max_order_loop aligned_size test_size mo =
    (if test_size < aligned_size \<and> mo < BUDDY_MAX_ORDERS - 1
     then max_order_loop aligned_size (test_size * 2) (mo + 1) else mo)"
  by pat_completeness auto
termination by (relation "measure (\<lambda>(a, t, mo). BUDDY_MAX_ORDERS - mo)") auto

declare max_order_loop.simps [simp del]

text \<open>The loop that cuts the region into blocks; every block is put on the list of its order.\<close>

partial_function (option) carve_loop :: "nat \<Rightarrow> nat \<Rightarrow> nat \<Rightarrow> buddy \<Rightarrow> buddy option" where
  "carve_loop aligned_start available_size current_offset s =
    (if current_offset < available_size then
       let remaining = available_size - current_offset;
           order0 = size_to_order (max_order s) remaining;
           order1 = (if order0 > max_order s then max_order s else order0);
           order = (if 2 ^ order1 > remaining then order1 - 1 else order1);
           idx = (region_base s + current_offset - aligned_start) div 2 ^ BUDDY_PAGE_SHIFT
       in carve_loop aligned_start available_size (current_offset + 2 ^ order)
            (add_to_free_list idx order (set_used idx 0 (set_order idx order s)))
     else Some s)"

definition clear_maps :: "nat \<Rightarrow> (nat \<Rightarrow> nat) \<Rightarrow> nat \<Rightarrow> nat" where
  "clear_maps n by i = (if i < n then 0xFF else if i < 2 * n then 0 else by i)"

definition buddy_init :: "nat \<Rightarrow> nat \<Rightarrow> buddy \<Rightarrow> buddy option" where
  "buddy_init start_addr total_size s =
    (let aligned_start = align_up_ptr start_addr BUDDY_PAGE_SIZE;
         aligned_end = align_down_ptr (wrap64 (start_addr + total_size)) BUDDY_PAGE_SIZE;
         aligned_size = aligned_end - aligned_start;
         pages = aligned_size div 2 ^ BUDDY_PAGE_SHIFT;
         s1 = s\<lparr>max_order := max_order_loop aligned_size BUDDY_PAGE_SIZE BUDDY_MIN_ORDER\<rparr>;
         metadata_size = (pages * 2 + BUDDY_PAGE_SIZE - 1) div BUDDY_PAGE_SIZE * BUDDY_PAGE_SIZE;
         base = aligned_start + metadata_size
     in if start_addr = 0 \<or> total_size < BUDDY_PAGE_SIZE * 2 then Some s
        else if aligned_end \<le> aligned_start then Some s
        else if metadata_size \<ge> aligned_size div 2 then Some s1
        else do {
          s2 \<leftarrow> carve_loop aligned_start (aligned_end - base) 0
                 (s1\<lparr>bytes := clear_maps pages (bytes s), num_pages := pages,
                     region_base := base, region_end := aligned_end,
                     free_lists := (\<lambda>i. if i < BUDDY_MAX_ORDERS then 0 else free_lists s i)\<rparr>);
          Some (s2\<lparr>stat_total := aligned_end - base, stat_used := 0,
                   stat_alloc_blocks := 0, bd_initialized := True\<rparr>)
        })"

section \<open>buddy_alloc and buddy_free\<close>

function find_order :: "buddy \<Rightarrow> nat \<Rightarrow> nat" where
  "find_order s current_order =
    (if current_order \<le> max_order s \<and> free_lists s current_order = 0
     then find_order s (current_order + 1) else current_order)"
  by pat_completeness auto
termination by (relation "measure (\<lambda>(s, c). Suc (max_order s) - c)") auto

declare find_order.simps [simp del]

text \<open>\<^verbatim>\<open>split_to order idx current_order s\<close> is the splitting loop of \<^verbatim>\<open>buddy_alloc\<close>.\<close>

function split_to :: "nat \<Rightarrow> nat \<Rightarrow> nat \<Rightarrow> buddy \<Rightarrow> buddy" where
  "split_to order idx current_order s =
    (if current_order > order then
       let co = current_order - 1;
           buddy_idx = buddy_index idx (co + 1)
       in split_to order idx co (add_to_free_list buddy_idx co (set_used buddy_idx 0 (set_order buddy_idx co s)))
     else s)"
  by pat_completeness auto
termination by (relation "measure (\<lambda>(order, idx, co, s). co)") auto

declare split_to.simps [simp del]

definition buddy_alloc :: "nat \<Rightarrow> buddy \<Rightarrow> nat \<times> buddy" where
  "buddy_alloc sz s =
    (if \<not> bd_initialized s \<or> sz = 0 then (0, s)
     else
       let order = size_to_order (max_order s) sz in
       if order > max_order s then (0, s)
       else
         let current_order = find_order s order in
         if current_order > max_order s then (0, s)
         else
           let block = free_lists s current_order;
               s1 = s\<lparr>free_lists := (free_lists s)(current_order := node_next s block),
                      stat_free_blocks := dec64 (stat_free_blocks s)\<rparr>;
               idx = ptr_to_index s1 block;
               s2 = split_to order idx current_order s1;
               s3 = set_used idx 1 (set_order idx order s2)
           in (block, s3\<lparr>stat_used := wrap64 (stat_used s3 + 2 ^ order),
                         stat_alloc_blocks := inc64 (stat_alloc_blocks s3)\<rparr>))"

partial_function (option) merge_loop :: "nat \<Rightarrow> nat \<Rightarrow> buddy \<Rightarrow> (nat \<times> nat \<times> buddy) option" where
  "merge_loop idx order s =
    (if order < max_order s then
       let buddy_idx = buddy_index idx order in
       if buddy_idx \<ge> (region_end s - region_base s) div 2 ^ BUDDY_PAGE_SHIFT then Some (idx, order, s)
       else if order_at s buddy_idx \<noteq> order \<or> used_at s buddy_idx \<noteq> 0 then Some (idx, order, s)
       else do {
         (removed, s1) \<leftarrow> remove_from_free_list buddy_idx order s;
         if \<not> removed then Some (idx, order, s1)
         else
           let idx' = (if buddy_idx < idx then buddy_idx else idx)
           in merge_loop idx' (order + 1) (set_order idx' (order + 1) s1)
       }
     else Some (idx, order, s))"

definition buddy_free :: "nat \<Rightarrow> buddy \<Rightarrow> buddy option" where
  "buddy_free ptr s =
    (if \<not> bd_initialized s \<or> ptr = 0 then Some s
     else if ptr < region_base s \<or> region_end s \<le> ptr then Some s
     else
       let idx = ptr_to_index s ptr in
       if order_at s idx = 0xFF \<or> used_at s idx = 0 then Some s
       else
         let order = order_at s idx;
             s1 = set_used idx 0 s;
             s2 = s1\<lparr>stat_used := wrap64 (stat_used s1 + 2 ^ 64 - 2 ^ order),
                     stat_alloc_blocks := dec64 (stat_alloc_blocks s1)\<rparr>
         in do {
           (idx', order', s3) \<leftarrow> merge_loop idx order s2;
           Some (add_to_free_list idx' order' s3)
         })"

section \<open>Reports\<close>

definition buddy_get_info :: "memory_info \<Rightarrow> buddy \<Rightarrow> memory_info" where
  "buddy_get_info info s =
    (if \<not> bd_initialized s then info
     else \<lparr>total_memory = stat_total s, used_memory = stat_used s,
           free_memory = wrap64 (stat_total s + 2 ^ 64 - stat_used s),
           allocated_blocks = stat_alloc_blocks s, mi_free_blocks = stat_free_blocks s\<rparr>)"

partial_function (option) count_nodes :: "(nat \<Rightarrow> nat) \<Rightarrow> nat \<Rightarrow> nat \<Rightarrow> nat option" where
  "count_nodes nx current n =
    (if current = 0 then Some n else count_nodes nx (nx current) (n + 1))"

text \<open>The \<^verbatim>\<open>for\<close> loop over the orders \<^verbatim>\<open>BUDDY_MIN_ORDER .. max_order\<close>.\<close>

fun count_free :: "buddy \<Rightarrow> nat list \<Rightarrow> nat \<Rightarrow> nat option" where
  "count_free s [] n = Some n"
| "count_free s (order # os) n =
    do { n' \<leftarrow> count_nodes (node_next s) (free_lists s order) n; count_free s os n' }"

definition buddy_check_integrity :: "buddy \<Rightarrow> bool option" where
  "buddy_check_integrity s =
    (if \<not> bd_initialized s then Some False
     else do {
       n \<leftarrow> count_free s [BUDDY_MIN_ORDER ..< max_order s + 1] 0;
       Some (n = stat_free_blocks s)
     })"

fun order_stats :: "buddy \<Rightarrow> nat list \<Rightarrow> mm_stats \<times> nat \<Rightarrow> (mm_stats \<times> nat) option" where
  "order_stats s [] acc = Some acc"
| "order_stats s (order # os) (st, computed_free) = do {
     count \<leftarrow> count_nodes (node_next s) (free_lists s order) 0;
     let block_size = 2 ^ order;
     let idx = order - BUDDY_MIN_ORDER;
     let st1 = (if idx < MM_MAX_ORDER
                then st\<lparr>orders := (orders st)[idx := \<lparr>oi_order = idx, oi_block_size = block_size,
                                                        oi_free_count = count\<rparr>]\<rparr>
                else st);
     let st2 = (if count > 0 \<and> block_size > largest_free st1
                then st1\<lparr>largest_free := block_size\<rparr> else st1);
     order_stats s os (st2, wrap64 (computed_free + count * block_size))
   }"

definition buddy_collect_stats :: "buddy \<Rightarrow> mm_stats option" where
  "buddy_collect_stats s =
    (let st0 = mm_stats_set_name mm_stats_zero ''buddy'' in
     if \<not> bd_initialized s then Some st0
     else
       let relative_max = (if max_order s \<ge> BUDDY_MIN_ORDER then (max_order s - BUDDY_MIN_ORDER) mod 256 else 0);
           st1 = st0\<lparr>heap_total := stat_total s, used_bytes := stat_used s,
                     free_bytes := (if stat_total s \<ge> stat_used s then stat_total s - stat_used s else 0),
                     free_blocks := stat_free_blocks s, has_buddy := 1,
                     heap_base := region_base s, st_heap_end := region_end s,
                     st_max_order := (if relative_max \<ge> MM_MAX_ORDER then MM_MAX_ORDER - 1 else relative_max)\<rparr>
       in do {
         (st2, computed_free) \<leftarrow> order_stats s [BUDDY_MIN_ORDER ..< max_order s + 1] (st1, 0);
         let st3 = (if computed_free < free_bytes st2 then
                      (let st = st2\<lparr>free_bytes := computed_free\<rparr> in
                       if heap_total st \<ge> free_bytes st
                       then st\<lparr>used_bytes := heap_total st - free_bytes st\<rparr> else st)
                    else if computed_free > free_bytes st2 \<and> heap_total st2 \<ge> computed_free then
                      st2\<lparr>free_bytes := computed_free, used_bytes := heap_total st2 - computed_free\<rparr>
                    else st2);
         Some (if largest_free st3 > free_bytes st3
               then st3\<lparr>largest_free := free_bytes st3\<rparr> else st3)
       })"

text \<open>The traversals are executable: their unfolding equations are the code equations.\<close>

declare remove_loop.simps [code] carve_loop.simps [code] merge_loop.simps [code] count_nodes.simps [code]

end
