(* ===== verification/Buddy_Props.thy ===== *)
theory Buddy_Props
  imports Buddy
begin

text \<open>
  What the buddy allocator keeps: the order computed for a request, the free lists as lists of
  block addresses, removal from a list, release of a block that is not in use, the counters.
\<close>

section \<open>Orders\<close>

lemma order_loop_spec:
  "k \<le> mo \<Longrightarrow> (12 < k \<longrightarrow> 2 ^ (k - 1) < sz) \<Longrightarrow>
   k \<le> order_loop mo sz (2 ^ k) k \<and> order_loop mo sz (2 ^ k) k \<le> mo
   \<and> (order_loop mo sz (2 ^ k) k < mo \<longrightarrow> sz \<le> 2 ^ order_loop mo sz (2 ^ k) k)
   \<and> (12 < order_loop mo sz (2 ^ k) k \<longrightarrow> 2 ^ (order_loop mo sz (2 ^ k) k - 1) < sz)"
proof (induction "mo - k" arbitrary: k)
  case 0
  then have "mo = k" by simp
  with 0 show ?case by (simp add: order_loop.simps [of k sz "2 ^ k" k])
next
  case (Suc n)
  show ?case
  proof (cases "2 ^ k < sz")
    case True
    moreover have "k < mo" using Suc.hyps(2) by simp
    ultimately have "order_loop mo sz (2 ^ k) k = order_loop mo sz (2 ^ Suc k) (Suc k)"
      using order_loop.simps [of mo sz "2 ^ k" k] by (simp add: mult.commute)
    moreover have "n = mo - Suc k" "Suc k \<le> mo" using Suc.hyps(2) by auto
    ultimately show ?thesis using Suc.hyps(1) [of "Suc k"] True by (auto dest: Suc_leD)
  next
    case False
    with Suc.prems show ?thesis by (simp add: order_loop.simps [of mo sz "2 ^ k" k])
  qed
qed

lemma size_to_order_spec:
  assumes "12 \<le> mo"
  shows "12 \<le> size_to_order mo sz \<and> size_to_order mo sz \<le> mo
    \<and> (size_to_order mo sz < mo \<longrightarrow> sz \<le> 2 ^ size_to_order mo sz)
    \<and> (12 < size_to_order mo sz \<longrightarrow> 2 ^ (size_to_order mo sz - 1) < sz)"
proof -
  have "(2::nat) ^ 12 = 4096" by simp
  with order_loop_spec [of 12 mo sz] assms show ?thesis
    unfolding size_to_order_def BUDDY_PAGE_SIZE_def BUDDY_MIN_ORDER_def by auto
qed

lemma buddy_index_invol: "buddy_index (buddy_index idx order) order = idx"
  by (simp add: buddy_index_def xor.assoc)

lemma buddy_index_neq: "buddy_index idx order \<noteq> idx"
proof
  assume "buddy_index idx order = idx"
  then have "idx XOR (idx XOR 2 ^ (order - 12)) = idx XOR idx"
    by (simp add: buddy_index_def const_defs)
  then show False by (simp add: xor.assoc [symmetric])
qed

section \<open>Free lists\<close>

definition as_ptr :: "nat \<Rightarrow> nat option" where
  "as_ptr p = (if p = 0 then None else Some p)"

definition chain :: "(nat \<Rightarrow> nat) \<Rightarrow> nat \<Rightarrow> nat list \<Rightarrow> bool" where
  "chain nx p xs \<longleftrightarrow> lseg (\<lambda>a. as_ptr (nx a)) (as_ptr p) xs"

lemma ptr_simps [simp]: "as_ptr 0 = None" "as_ptr p = None \<longleftrightarrow> p = 0" "as_ptr p = Some q \<longleftrightarrow> p = q \<and> q \<noteq> 0"
  by (auto simp: as_ptr_def)

lemma chain_simps [simp]:
  "chain nx p [] \<longleftrightarrow> p = 0" "chain nx p (x # xs) \<longleftrightarrow> p = x \<and> x \<noteq> 0 \<and> chain nx (nx x) xs"
  by (auto simp: chain_def)

lemma chain_upd: "x \<notin> set xs \<Longrightarrow> chain (nx(x := q)) p xs = chain nx p xs"
  by (induction xs arbitrary: p) auto

lemma chain_distinct: "chain nx p xs \<Longrightarrow> distinct xs"
  unfolding chain_def by (rule lseg_distinct)

lemma remove_loop_chain:
  "chain (node_next s) current xs \<Longrightarrow> node_next s prev = current \<Longrightarrow> prev \<notin> set xs \<Longrightarrow> prev \<noteq> 0 \<Longrightarrow>
   if target \<in> set xs
   then \<exists>nx. remove_loop target order prev current s
             = Some (True, s\<lparr>node_next := nx, stat_free_blocks := dec64 (stat_free_blocks s)\<rparr>)
          \<and> chain nx (nx prev) (remove1 target xs)
          \<and> (\<forall>y. y \<noteq> prev \<and> y \<notin> set xs \<longrightarrow> nx y = node_next s y)
   else remove_loop target order prev current s = Some (False, s)"
proof (induction xs arbitrary: current prev)
  case Nil
  then show ?case by (subst remove_loop.simps) simp
next
  case (Cons x xs)
  then have cur: "current = x" "x \<noteq> 0" "chain (node_next s) (node_next s x) xs" "prev \<noteq> x"
    "x \<notin> set xs" "prev \<notin> set xs"
    using chain_distinct [OF Cons.prems(1)] by auto
  show ?case
  proof (cases "x = target")
    case True
    let ?nx = "(node_next s)(prev := node_next s x)"
    have "remove_loop target order prev current s
        = Some (True, s\<lparr>node_next := ?nx, stat_free_blocks := dec64 (stat_free_blocks s)\<rparr>)"
      using cur True Cons.prems by (subst remove_loop.simps) (simp add: Let_def)
    moreover have "chain ?nx (?nx prev) xs" using cur by (simp add: chain_upd)
    ultimately show ?thesis using True cur by auto
  next
    case False
    have run: "remove_loop target order prev current s = remove_loop target order x (node_next s x) s"
      using cur False by (subst remove_loop.simps) simp
    note IH = Cons.IH [OF cur(3) refl cur(5) cur(2)]
    show ?thesis
    proof (cases "target \<in> set xs")
      case False
      with IH run \<open>x \<noteq> target\<close> show ?thesis by auto
    next
      case True
      with IH obtain nx where nx: "remove_loop target order x (node_next s x) s
             = Some (True, s\<lparr>node_next := nx, stat_free_blocks := dec64 (stat_free_blocks s)\<rparr>)"
        "chain nx (nx x) (remove1 target xs)" "\<forall>y. y \<noteq> x \<and> y \<notin> set xs \<longrightarrow> nx y = node_next s y" by auto
      then have "nx prev = x" using cur Cons.prems by auto
      with nx True run \<open>x \<noteq> target\<close> cur show ?thesis by auto
    qed
  qed
qed

text \<open>
  \<^verbatim>\<open>remove_from_free_list\<close> takes exactly the node of the index out of the list of its order,
  and says whether it was there.
\<close>

lemma remove_from_free_list_spec:
  assumes ch: "chain (node_next s) (free_lists s order) xs"
  shows "if index_to_ptr s idx \<in> set xs
    then \<exists>s'. remove_from_free_list idx order s = Some (True, s')
       \<and> chain (node_next s') (free_lists s' order) (remove1 (index_to_ptr s idx) xs)
       \<and> stat_free_blocks s' = dec64 (stat_free_blocks s)
       \<and> (\<forall>o'. o' \<noteq> order \<longrightarrow> free_lists s' o' = free_lists s o')
       \<and> (\<forall>y. y \<notin> set xs \<longrightarrow> node_next s' y = node_next s y) \<and> bytes s' = bytes s
    else remove_from_free_list idx order s = Some (False, s)"
proof (cases xs)
  case Nil
  with ch show ?thesis
    by (simp add: remove_from_free_list_def remove_loop.simps)
next
  case (Cons x ys)
  let ?t = "index_to_ptr s idx"
  have x: "free_lists s order = x" "x \<noteq> 0" "chain (node_next s) (node_next s x) ys" "x \<notin> set ys"
    using ch Cons chain_distinct [OF ch] by auto
  show ?thesis
  proof (cases "x = ?t")
    case True
    then show ?thesis using x Cons
      by (simp add: remove_from_free_list_def remove_loop.simps [of ?t order 0 ?t s] Let_def)
  next
    case False
    have run: "remove_from_free_list idx order s = remove_loop ?t order x (node_next s x) s"
      using x False by (simp add: remove_from_free_list_def remove_loop.simps [of ?t order 0 x s])
    from remove_loop_chain [OF x(3) refl x(4,2), of ?t order] show ?thesis
    proof (cases "?t \<in> set ys")
      case True
      with remove_loop_chain [OF x(3) refl x(4,2), of ?t order] obtain nx where
        "remove_loop ?t order x (node_next s x) s
             = Some (True, s\<lparr>node_next := nx, stat_free_blocks := dec64 (stat_free_blocks s)\<rparr>)"
        "chain nx (nx x) (remove1 ?t ys)" "\<forall>y. y \<noteq> x \<and> y \<notin> set ys \<longrightarrow> nx y = node_next s y" by auto
      with run x False True Cons show ?thesis by auto
    qed (use run False Cons in auto)
  qed
qed

lemma add_to_free_list_chain:
  assumes "chain (node_next s) (free_lists s order) xs"
    and "index_to_ptr s idx \<notin> set xs" "index_to_ptr s idx \<noteq> 0"
  shows "chain (node_next (add_to_free_list idx order s)) (free_lists (add_to_free_list idx order s) order)
           (index_to_ptr s idx # xs)"
  using assms by (simp add: add_to_free_list_def Let_def chain_upd)

text \<open>Taking a node out right after putting it in gives the list back.\<close>

lemma add_remove_free_list:
  assumes "index_to_ptr s idx \<noteq> 0" "stat_free_blocks s < 2 ^ 64"
  shows "\<exists>s'. remove_from_free_list idx order (add_to_free_list idx order s) = Some (True, s')
    \<and> free_lists s' = free_lists s \<and> stat_free_blocks s' = stat_free_blocks s \<and> bytes s' = bytes s"
proof -
  have "dec64 (inc64 (stat_free_blocks s)) = stat_free_blocks s"
    using assms(2) by (simp add: dec64_def inc64_def wrap64_def mod_add_left_eq)
  then show ?thesis
    using assms(1)
    by (simp add: remove_from_free_list_def add_to_free_list_def Let_def index_to_ptr_def
        remove_loop.simps)
qed

section \<open>Release and counters\<close>

lemma buddy_free_ignored:
  assumes "ptr = 0 \<or> ptr < region_base s \<or> region_end s \<le> ptr \<or> used_at s (ptr_to_index s ptr) = 0
     \<or> order_at s (ptr_to_index s ptr) = 0xFF"
  shows "buddy_free ptr s = Some s"
  using assms by (auto simp: buddy_free_def Let_def)

lemma count_nodes_chain: "chain nx p xs \<Longrightarrow> count_nodes nx p n = Some (n + length xs)"
proof (induction xs arbitrary: p n)
  case Nil
  then show ?case by (subst count_nodes.simps) simp
next
  case (Cons x xs)
  then show ?case by (subst count_nodes.simps) simp
qed

lemma count_free_chains:
  "(\<And>k. k \<in> set ks \<Longrightarrow> chain (node_next s) (free_lists s k) (L k)) \<Longrightarrow>
   count_free s ks n = Some (n + (\<Sum>k\<leftarrow>ks. length (L k)))"
proof (induction ks arbitrary: n)
  case (Cons k ks)
  then show ?case using count_nodes_chain [OF Cons.prems [of k], of n] by simp
qed simp

text \<open>The integrity check compares the counter with the lengths of the free lists.\<close>

lemma buddy_check_integrity_chains:
  assumes "bd_initialized s"
    and "\<And>k. 12 \<le> k \<Longrightarrow> k \<le> max_order s \<Longrightarrow> chain (node_next s) (free_lists s k) (L k)"
  shows "buddy_check_integrity s =
    Some ((\<Sum>k\<leftarrow>[12 ..< max_order s + 1]. length (L k)) = stat_free_blocks s)"
  using assms count_free_chains [of "[12 ..< max_order s + 1]" s L 0]
  by (simp add: buddy_check_integrity_def BUDDY_MIN_ORDER_def del: upt_Suc)

section \<open>Allocation\<close>

lemma split_to_fields:
  "num_pages (split_to order idx co s) = num_pages s \<and> region_base (split_to order idx co s) = region_base s
   \<and> region_end (split_to order idx co s) = region_end s \<and> max_order (split_to order idx co s) = max_order s
   \<and> bd_initialized (split_to order idx co s) = bd_initialized s"
proof (induction order idx co s rule: split_to.induct)
  case (1 order idx co s)
  then show ?case
    by (subst (1 2 3 4 5) split_to.simps)
       (simp add: Let_def add_to_free_list_def set_used_def set_order_def)
qed

text \<open>The block handed out is recorded as used, with the order computed for the request.\<close>

lemma buddy_alloc_recorded:
  assumes run: "buddy_alloc sz s = (p, s')" and p: "p \<noteq> 0"
    and np: "0 < num_pages s" and mo: "12 \<le> max_order s" "max_order s < 20"
  shows "order_at s' (ptr_to_index s p) = size_to_order (max_order s) sz"
    and "used_at s' (ptr_to_index s p) = 1"
    and "sz \<le> 2 ^ max_order s \<Longrightarrow> sz \<le> 2 ^ order_at s' (ptr_to_index s p)"
proof -
  let ?o = "size_to_order (max_order s) sz"
  note so = size_to_order_spec [OF mo(1), of sz]
  have o256: "?o mod 256 = ?o" using so mo by simp
  define co where "co = find_order s ?o"
  define s1 where "s1 = s\<lparr>free_lists := (free_lists s)(co := node_next s (free_lists s co)),
                      stat_free_blocks := dec64 (stat_free_blocks s)\<rparr>"
  define s2 where "s2 = split_to ?o (ptr_to_index s1 (free_lists s co)) co s1"
  have np2: "num_pages s2 = num_pages s" by (simp add: s2_def split_to_fields s1_def)
  have idx: "ptr_to_index s1 q = ptr_to_index s q" for q by (simp add: ptr_to_index_def s1_def)
  note s2_eq = s2_def [unfolded idx, symmetric]
  from run p have "p = free_lists s co"
    "bytes s' = bytes (set_used (ptr_to_index s p) 1 (set_order (ptr_to_index s p) ?o s2))"
    "num_pages s' = num_pages s2"
    by (auto simp: buddy_alloc_def Let_def co_def [symmetric] s1_def [symmetric] s2_eq idx
        set_used_def set_order_def split: if_splits)
  with np np2 o256 show "order_at s' (ptr_to_index s p) = ?o" "used_at s' (ptr_to_index s p) = 1"
    by (simp_all add: order_at_def used_at_def set_used_def set_order_def)
  with so show "sz \<le> 2 ^ max_order s \<Longrightarrow> sz \<le> 2 ^ order_at s' (ptr_to_index s p)"
    by (cases "?o < max_order s") auto
qed

text \<open>
  \<^verbatim>\<open>size_to_order\<close> never exceeds \<open>max_order\<close>, so the \<^verbatim>\<open>order > max_order\<close> test of
  \<^verbatim>\<open>buddy_alloc\<close> never fires: a request larger than the largest block gets that block.
\<close>

lemma buddy_alloc_oversize_gen:
  assumes "bd_initialized s" "12 \<le> max_order s" "2 ^ max_order s < sz" "free_lists s (max_order s) \<noteq> 0"
  shows "fst (buddy_alloc sz s) = free_lists s (max_order s)"
proof -
  have "size_to_order (max_order s) sz = max_order s"
  proof (rule ccontr)
    assume "size_to_order (max_order s) sz \<noteq> max_order s"
    with size_to_order_spec [OF assms(2), of sz]
    have "sz \<le> 2 ^ size_to_order (max_order s) sz" "size_to_order (max_order s) sz \<le> max_order s" by auto
    moreover from this(2) have "(2::nat) ^ size_to_order (max_order s) sz \<le> 2 ^ max_order s"
      by (rule power_increasing) simp
    ultimately show False using assms(3) by linarith
  qed
  moreover have "find_order s (max_order s) = max_order s"
    using assms(4) by (subst find_order.simps) simp
  ultimately show ?thesis using assms by (simp add: buddy_alloc_def Let_def)
qed

text \<open>A heap of sixteen pages, for the concrete runs.\<close>

definition buddy_small :: buddy where
  "buddy_small = the (buddy_init 0x100000 0x10000 buddy_boot)"

end
