(* ===== verification/Memory_Manager.thy ===== *)
theory Memory_Manager
  imports First_Fit_Reports Buddy_Props Allocator
begin

text \<open>
  \<^verbatim>\<open>Kernel/mm/memory_manager.c\<close>: the interface the kernel calls. The build selects the
  allocator with \<^verbatim>\<open>USE_BUDDY_SYSTEM\<close>; the constructor of the state is that choice. The
  allocator contract is discharged for the default build.
\<close>

datatype mm = First_Fit ff | Buddy buddy

fun mm_init :: "nat \<Rightarrow> nat \<Rightarrow> mm \<Rightarrow> mm option" where
  "mm_init start_addr total_size (First_Fit s) = Some (First_Fit (first_fit_init start_addr total_size s))"
| "mm_init start_addr total_size (Buddy s) = map_option Buddy (buddy_init start_addr total_size s)"

fun mm_malloc :: "nat \<Rightarrow> mm \<Rightarrow> (nat \<times> mm) option" where
  "mm_malloc sz (First_Fit s) = map_option (map_prod id First_Fit) (first_fit_malloc sz s)"
| "mm_malloc sz (Buddy s) = Some (map_prod id Buddy (buddy_alloc sz s))"

fun mm_free :: "nat \<Rightarrow> mm \<Rightarrow> mm option" where
  "mm_free ptr (First_Fit s) = (if ptr = 0 then Some (First_Fit s)
     else map_option First_Fit (first_fit_free ptr s))"
| "mm_free ptr (Buddy s) = (if ptr = 0 then Some (Buddy s) else map_option Buddy (buddy_free ptr s))"

fun mm_get_info :: "memory_info \<Rightarrow> mm \<Rightarrow> memory_info option" where
  "mm_get_info info (First_Fit s) = first_fit_get_info info s"
| "mm_get_info info (Buddy s) = Some (buddy_get_info info s)"

fun mm_check_integrity :: "mm \<Rightarrow> bool option" where
  "mm_check_integrity (First_Fit s) = first_fit_check_integrity s"
| "mm_check_integrity (Buddy s) = buddy_check_integrity s"

fun mm_collect_stats :: "mm \<Rightarrow> mm_stats option" where
  "mm_collect_stats (First_Fit s) = first_fit_collect_stats s"
| "mm_collect_stats (Buddy s) = buddy_collect_stats s"

section \<open>The default build keeps the allocator contract\<close>

fun mm_inv :: "mm \<Rightarrow> bool" where
  "mm_inv (First_Fit s) \<longleftrightarrow> ff_inv s"
| "mm_inv (Buddy s) \<longleftrightarrow> False"

fun mm_live :: "mm \<Rightarrow> (nat \<times> nat) set" where
  "mm_live (First_Fit s) = ff_live s"
| "mm_live (Buddy s) = {}"

interpretation ffheap: allocator first_fit_malloc first_fit_free ff_inv ff_live alloc_size
proof
  fix s n p k
  show "first_fit_malloc 0 s = Some (0, s)" by (simp add: first_fit_malloc_def)
  show "first_fit_free 0 s = Some s" by (simp add: first_fit_free_def)
  assume inv: "ff_inv s"
  then show "0 < n \<Longrightarrow> first_fit_malloc n s = Some (0, s) \<or>
      (\<exists>p k s'. first_fit_malloc n s = Some (p, s') \<and> 0 < p \<and> alloc_size n \<le> k \<and> ff_inv s'
         \<and> p \<notin> fst ` ff_live s \<and> ff_live s' = insert (p, k) (ff_live s))"
    using first_fit_malloc_contract by blast
  show "ranges_disjoint (ff_live s)"
    by (rule ff_live_disjoint [OF inv])
  assume "(p, k) \<in> ff_live s"
  with inv show "\<exists>s'. first_fit_free p s = Some s' \<and> ff_inv s' \<and> ff_live s' = ff_live s - {(p, k)}"
    and "0 < p"
    using first_fit_free_contract ff_live_in_heap(4) by blast+
qed

lemma mm_inv_First_Fit: "mm_inv m \<longleftrightarrow> (\<exists>s. m = First_Fit s \<and> ff_inv s)"
  by (cases m) auto

interpretation mmheap: allocator mm_malloc mm_free mm_inv mm_live alloc_size
proof
  fix s n p k
  show "mm_malloc 0 s = Some (0, s)"
    by (cases s) (auto simp: buddy_alloc_def ffheap.alloc_zero)
  show "mm_free 0 s = Some s" by (cases s) auto
  assume "mm_inv s"
  then obtain h where h: "s = First_Fit h" "ff_inv h" by (auto simp: mm_inv_First_Fit)
  then show "0 < n \<Longrightarrow> mm_malloc n s = Some (0, s) \<or>
      (\<exists>p k s'. mm_malloc n s = Some (p, s') \<and> 0 < p \<and> alloc_size n \<le> k \<and> mm_inv s'
         \<and> p \<notin> fst ` mm_live s \<and> mm_live s' = insert (p, k) (mm_live s))"
    using ffheap.alloc_law [of h n] by (fastforce simp: mm_inv_First_Fit)
  show "ranges_disjoint (mm_live s)" using h ffheap.live_disjoint by simp
  assume "(p, k) \<in> mm_live s"
  with h show "\<exists>s'. mm_free p s = Some s' \<and> mm_inv s' \<and> mm_live s' = mm_live s - {(p, k)}" and "0 < p"
    using ffheap.release_law [of h p k] ffheap.live_pos [of h p k] by (auto simp: mm_inv_First_Fit)
qed

end
