(* ===== verification/Memory_Theorems.thy ===== *)
theory Memory_Theorems
  imports Memory_Manager
begin

text \<open>
  The properties of the two allocators and of the interface over them, each with an application to
  a concrete heap: 1 KB at address 4096 for first fit, 64 KB at 1 MB for the buddy system.
\<close>

section \<open>Concrete heaps\<close>

definition ff_small :: ff where "ff_small = first_fit_init 4096 1024 ff_boot"
definition ff_demo :: ff where "ff_demo = snd (the (first_fit_malloc 100 ff_small))"

lemma ff_small_wf: "ff_wf [4096] ff_small"
  by code_simp

lemma ff_demo_wf: "ff_wf [4096, 4232] ff_demo"
  by code_simp

lemma ff_small_inv: "ff_inv ff_small" and ff_demo_inv: "ff_inv ff_demo"
  using ff_small_wf ff_demo_wf by (auto simp: ff_inv_def)

lemma ff_demo_allocs: "ff_allocs (mem ff_demo) [4096, 4232] = [(4128, 104)]"
  by code_simp

lemma ff_demo_live: "(4128, 104) \<in> ff_live ff_demo"
  by (simp add: ff_live_eq [OF ff_demo_wf] ff_demo_allocs del: ff_allocs_simps)

section \<open>First fit\<close>

text \<open>Initialisation: a region that does not wrap around the address space and has room for
  one header and eight bytes becomes a well-formed heap of one free block, ending where the region
  ends, with no allocation.\<close>

theorem first_fit_init_establishes:
  assumes "0 < start" "40 \<le> tot" "start + tot < 2 ^ 64"
  shows "ff_inv (first_fit_init start tot s) \<and> ff_live (first_fit_init start tot s) = {}
    \<and> heap_start (first_fit_init start tot s) = align8 start
    \<and> heap_end (first_fit_init start tot s) = start + tot"
proof -
  note wf = first_fit_init_wf [OF assms, of s]
  have "heap_start (first_fit_init start tot s) = align8 start"
    using assms by (simp add: first_fit_init_def Let_def const_defs)
  with wf show ?thesis by (auto simp: ff_inv_def)
qed

theorem first_fit_init_establishes_witness:
  "ff_inv (first_fit_init 4096 1024 ff_boot) \<and> ff_live (first_fit_init 4096 1024 ff_boot) = {}
    \<and> heap_start (first_fit_init 4096 1024 ff_boot) = align8 4096
    \<and> heap_end (first_fit_init 4096 1024 ff_boot) = 4096 + 1024"
  by (rule first_fit_init_establishes) simp_all



text \<open>C8. Allocation is complete: it fails only when no free block is as large as the rounded
  request.\<close>

theorem first_fit_malloc_complete:
  assumes "ff_wf bs s" "0 < req" "first_fit_malloc req s = Some (0, s')"
  shows "\<forall>b \<in> set bs. blk_is_free (mem s) b \<longrightarrow> blk_size (mem s) b < alloc_size req"
proof (intro ballI impI)
  fix b assume "b \<in> set bs" "blk_is_free (mem s) b"
  with first_fit_malloc_finds [OF assms(1,2), of b] assms(3) show "blk_size (mem s) b < alloc_size req"
    by fastforce
qed

lemma ff_small_full: "first_fit_malloc 2000 ff_small = Some (0, ff_small)"
proof -
  have "find_free_block (mem ff_small) (heap_start ff_small) 2000 = Some 0" by code_simp
  then show ?thesis by (simp add: first_fit_malloc_def align8_def wrap64_def const_defs Let_def)
qed

theorem first_fit_malloc_complete_witness:
  "blk_is_free (mem ff_small) 4096 \<and> blk_size (mem ff_small) 4096 < alloc_size 2000"
proof -
  have free: "blk_is_free (mem ff_small) 4096" by code_simp
  moreover have "\<forall>b \<in> set [4096]. blk_is_free (mem ff_small) b \<longrightarrow> blk_size (mem ff_small) b < alloc_size 2000"
    by (rule first_fit_malloc_complete [OF ff_small_wf _ ff_small_full]) simp
  ultimately show ?thesis by simp
qed

text \<open>C9. Release: freeing a live block returns, removes exactly that allocation, keeps the heap
  well formed with no two adjacent free blocks, and leaves the other live data as it was.\<close>

theorem first_fit_free_correct:
  assumes "ff_inv s" "(p, n) \<in> ff_live s"
  shows "\<exists>s'. first_fit_free p s = Some s' \<and> ff_inv s' \<and> ff_live s' = ff_live s - {(p, n)}
    \<and> (\<forall>(q, k) \<in> ff_live s'. \<forall>c. q \<le> c \<and> c < q + k \<longrightarrow> mem s' c = mem s c)"
  using first_fit_free_contract [OF assms] by blast

theorem first_fit_free_correct_witness:
  "\<exists>s'. first_fit_free 4128 ff_demo = Some s' \<and> ff_inv s' \<and> ff_live s' = ff_live ff_demo - {(4128, 104)}
    \<and> (\<forall>(q, k) \<in> ff_live s'. \<forall>c. q \<le> c \<and> c < q + k \<longrightarrow> mem s' c = mem ff_demo c)"
  by (rule first_fit_free_correct [OF ff_demo_inv ff_demo_live])

text \<open>The report adds up: used and free memory are the whole heap, headers counted as used,
  and the number of allocated blocks is the number of live allocations.\<close>

theorem first_fit_info_conserves:
  assumes "ff_inv s"
  shows "\<exists>i. first_fit_get_info info s = Some i \<and> used_memory i + free_memory i = total_memory i
    \<and> total_memory i = heap_end s - heap_start s \<and> allocated_blocks i = card (ff_live s)"
proof -
  from assms obtain bs where wf: "ff_wf bs s" by (auto simp: ff_inv_def)
  have "total_heap_size s = heap_end s - heap_start s" using wf by (simp add: ff_wf_def)
  with first_fit_get_info_wf [OF wf] ff_wf_sizes [OF wf] ff_live_card [OF wf] show ?thesis by simp
qed

definition info_zero :: memory_info where
  "info_zero = \<lparr>total_memory = 0, used_memory = 0, free_memory = 0, allocated_blocks = 0, mi_free_blocks = 0\<rparr>"

theorem first_fit_info_conserves_witness:
  "\<exists>i. first_fit_get_info info_zero ff_demo = Some i \<and> used_memory i + free_memory i = total_memory i
    \<and> total_memory i = heap_end ff_demo - heap_start ff_demo \<and> allocated_blocks i = card (ff_live ff_demo)"
  by (rule first_fit_info_conserves [OF ff_demo_inv])

text \<open>The integrity check accepts every well-formed heap, and the statistics describe it: the
  bytes add up, the free blocks are counted and the largest is named, and the first 32 are listed.\<close>

theorem first_fit_checks_accept:
  assumes "ff_wf bs s"
  shows "first_fit_check_integrity s = Some True
    \<and> (\<exists>st. first_fit_collect_stats s = Some st \<and> used_bytes st + free_bytes st = heap_total st
        \<and> free_blocks st = length (free_of (mem s) bs) \<and> largest_free st = max_size (mem s) (free_of (mem s) bs)
        \<and> freelist st = take 32 (map (\<lambda>b. (b, blk_size (mem s) b)) (free_of (mem s) bs)))"
  using first_fit_collect_stats_wf [OF assms] first_fit_check_integrity_wf [of s] assms by (auto simp: ff_inv_def)

theorem first_fit_checks_accept_witness:
  "first_fit_check_integrity ff_demo = Some True
    \<and> (\<exists>st. first_fit_collect_stats ff_demo = Some st \<and> used_bytes st + free_bytes st = heap_total st
        \<and> free_blocks st = length (free_of (mem ff_demo) [4096, 4232])
        \<and> largest_free st = max_size (mem ff_demo) (free_of (mem ff_demo) [4096, 4232])
        \<and> freelist st = take 32 (map (\<lambda>b. (b, blk_size (mem ff_demo) b)) (free_of (mem ff_demo) [4096, 4232])))"
  by (rule first_fit_checks_accept [OF ff_demo_wf])

text \<open>C10. A defect: rounding the size up wraps around, so a request within seven bytes of
  \<^verbatim>\<open>SIZE_MAX\<close> is served like a request for one byte instead of being refused.\<close>

theorem first_fit_huge_request_wraps:
  assumes "2 ^ 64 - 7 \<le> n" "n < 2 ^ 64"
  shows "first_fit_malloc n s = first_fit_malloc 1 s"
proof -
  have "wrap64 (n + 7) = n + 7 - 2 ^ 64"
    using assms by (simp add: wrap64_def mod_if)
  then have "align8 n = 0" using assms by (simp add: align8_def)
  moreover have "align8 1 = 8" by (simp add: align8_def wrap64_def)
  ultimately show ?thesis using assms(1) by (simp add: first_fit_malloc_def Let_def const_defs)
qed

theorem first_fit_huge_request_wraps_witness:
  "first_fit_malloc (2 ^ 64 - 1) ff_small = first_fit_malloc 1 ff_small"
  by (rule first_fit_huge_request_wraps) simp_all

section \<open>The interface\<close>

text \<open>Through \<^verbatim>\<open>mm_malloc\<close> any sequence of requests returns; the addresses handed out are
  distinct, were not allocated before, and are exactly what is allocated in addition afterwards.\<close>

theorem mm_malloc_sequence:
  assumes "mm_inv s"
  shows "\<exists>ps s'. mmheap.alloc_all ns s = Some (ps, s') \<and> mm_inv s' \<and> length ps = length ns
     \<and> distinct (filter (\<lambda>p. p \<noteq> 0) ps) \<and> fst ` mm_live s' = fst ` mm_live s \<union> (set ps - {0})
     \<and> fst ` mm_live s \<inter> (set ps - {0}) = {} \<and> ranges_disjoint (mm_live s')"
proof -
  from mmheap.alloc_all_spec [OF assms, of ns] obtain ps s' where
    r: "mmheap.alloc_all ns s = Some (ps, s')" "mm_inv s'" "length ps = length ns"
      "distinct (filter (\<lambda>p. p \<noteq> 0) ps)" "fst ` mm_live s' = fst ` mm_live s \<union> (set ps - {0})"
      "fst ` mm_live s \<inter> (set ps - {0}) = {}"
    by (elim exE conjE) (rule that)
  with mmheap.live_disjoint [OF r(2)] show ?thesis by blast
qed

theorem mm_malloc_sequence_witness:
  "\<exists>ps s'. mmheap.alloc_all [24, 100, 5000] (First_Fit ff_small) = Some (ps, s') \<and> mm_inv s'
     \<and> length ps = length [24, 100, 5000 :: nat]
     \<and> distinct (filter (\<lambda>p. p \<noteq> 0) ps)
     \<and> fst ` mm_live s' = fst ` mm_live (First_Fit ff_small) \<union> (set ps - {0})
     \<and> fst ` mm_live (First_Fit ff_small) \<inter> (set ps - {0}) = {} \<and> ranges_disjoint (mm_live s')"
  by (rule mm_malloc_sequence) (simp add: ff_small_inv)

text \<open>C11. Freeing what was just allocated restores the set of live allocations.\<close>

theorem mm_malloc_free_roundtrip:
  assumes "mm_inv s" "mm_malloc n s = Some (p, s')"
  shows "\<exists>s''. mm_free p s' = Some s'' \<and> mm_inv s'' \<and> mm_live s'' = mm_live s"
  by (rule mmheap.alloc_release [OF assms])

lemma ff_small_alloc: "mm_malloc 100 (First_Fit ff_small) = Some (4128, First_Fit ff_demo)"
proof -
  have "map_option fst (first_fit_malloc 100 ff_small) = Some 4128" by code_simp
  then show ?thesis by (auto simp: ff_demo_def)
qed

theorem mm_malloc_free_roundtrip_witness:
  "\<exists>s''. mm_free 4128 (First_Fit ff_demo) = Some s'' \<and> mm_inv s'' \<and> mm_live s'' = mm_live (First_Fit ff_small)"
  by (rule mm_malloc_free_roundtrip [OF _ ff_small_alloc]) (simp add: ff_small_inv)

section \<open>The buddy system\<close>

text \<open>The order computed for a request is the smallest whose block holds it, unless that
  exceeds the largest order, which is then returned although its block is too small.\<close>

theorem size_to_order_smallest:
  assumes "12 \<le> mo"
  shows "12 \<le> size_to_order mo sz \<and> size_to_order mo sz \<le> mo
    \<and> (sz \<le> 2 ^ mo \<longrightarrow> sz \<le> 2 ^ size_to_order mo sz)
    \<and> (12 < size_to_order mo sz \<longrightarrow> 2 ^ (size_to_order mo sz - 1) < sz)
    \<and> (2 ^ mo < sz \<longrightarrow> size_to_order mo sz = mo)"
proof -
  note sp = size_to_order_spec [OF assms, of sz]
  have "size_to_order mo sz = mo" if "2 ^ mo < sz"
  proof (rule ccontr)
    assume "size_to_order mo sz \<noteq> mo"
    with sp have "size_to_order mo sz < mo" "sz \<le> 2 ^ size_to_order mo sz" by auto
    moreover from this(1) have "(2 :: nat) ^ size_to_order mo sz < 2 ^ mo" by simp
    ultimately show False using that by linarith
  qed
  with sp show ?thesis by (cases "size_to_order mo sz = mo") auto
qed

theorem size_to_order_smallest_witness:
  "12 < size_to_order 16 5000 \<and> size_to_order 16 5000 \<le> 16 \<and> (5000::nat) \<le> 2 ^ size_to_order 16 5000
    \<and> (2::nat) ^ (size_to_order 16 5000 - 1) < 5000 \<and> size_to_order 16 100000 = 16"
proof -
  have "size_to_order 16 5000 \<noteq> 12" by code_simp
  with size_to_order_smallest [of 16 5000] size_to_order_smallest [of 16 100000] show ?thesis by auto
qed

text \<open>Removing a block from a free list refines removal from a list: if the block is on the
  list it is unlinked wherever it stands and counted off; if not, nothing changes and the caller
  is told. The bytes of the maps and the other lists are untouched.\<close>

theorem buddy_remove_refines_list:
  assumes "chain (node_next s) (free_lists s order) xs"
  shows "if index_to_ptr s idx \<in> set xs
    then \<exists>s'. remove_from_free_list idx order s = Some (True, s')
       \<and> chain (node_next s') (free_lists s' order) (remove1 (index_to_ptr s idx) xs)
       \<and> stat_free_blocks s' = dec64 (stat_free_blocks s)
       \<and> (\<forall>o'. o' \<noteq> order \<longrightarrow> free_lists s' o' = free_lists s o') \<and> bytes s' = bytes s
    else remove_from_free_list idx order s = Some (False, s)"
  using remove_from_free_list_spec [OF assms, of idx] by (auto split: if_splits)

definition buddy_demo :: buddy where
  "buddy_demo = add_to_free_list 2 12 (buddy_boot\<lparr>region_base := 0x100000\<rparr>)"

lemma buddy_demo_chain: "chain (node_next buddy_demo) (free_lists buddy_demo 12) [0x102000]"
  by (simp add: buddy_demo_def add_to_free_list_def buddy_boot_def index_to_ptr_def const_defs wrap64_def)

theorem buddy_remove_refines_list_witness:
  "if index_to_ptr buddy_demo 2 \<in> set [0x102000]
    then \<exists>s'. remove_from_free_list 2 12 buddy_demo = Some (True, s')
       \<and> chain (node_next s') (free_lists s' 12) (remove1 (index_to_ptr buddy_demo 2) [0x102000])
       \<and> stat_free_blocks s' = dec64 (stat_free_blocks buddy_demo)
       \<and> (\<forall>o'. o' \<noteq> 12 \<longrightarrow> free_lists s' o' = free_lists buddy_demo o') \<and> bytes s' = bytes buddy_demo
    else remove_from_free_list 2 12 buddy_demo = Some (False, buddy_demo)"
  by (rule buddy_remove_refines_list [OF buddy_demo_chain])



end
