(* ===== verification/Strings.thy ===== *)
theory Strings
  imports Prelude
begin

text \<open>
  The C strings of the kernel: names of processes, semaphores and pipes. A string is the list of
  its characters; every reader stops at the end of the list or at a NUL, whichever comes first.
\<close>

abbreviation NUL :: char where "NUL \<equiv> CHR 0x00"

text \<open>The value of a \<^verbatim>\<open>char\<close> (signed on this target) and of an \<^verbatim>\<open>unsigned char\<close>.\<close>

definition schar :: "char \<Rightarrow> int" where
  "schar c = (let n = int (of_char c) in if n \<ge> 128 then n - 256 else n)"

definition uchar :: "char \<Rightarrow> int" where
  "uchar c = int (of_char c)"

section \<open>Hashing\<close>

text \<open>The djb2 loop shared by \<^verbatim>\<open>sem_hash\<close> and \<^verbatim>\<open>pipe_hash\<close>, on a 32-bit accumulator.\<close>

fun hash_loop :: "32 word \<Rightarrow> string \<Rightarrow> 32 word" where
  "hash_loop hash [] = hash"
| "hash_loop hash (c # cs) =
    (if c = NUL then hash else hash_loop (push_bit 5 hash + hash + word_of_int (schar c)) cs)"

definition KSEM_HASH_BUCKETS :: nat where [const_defs]: "KSEM_HASH_BUCKETS = 32"
definition PIPE_HASH_BUCKETS :: nat where [const_defs]: "PIPE_HASH_BUCKETS = 16"
definition KSEM_NAME_MAX :: nat where [const_defs]: "KSEM_NAME_MAX = 32"
definition PIPE_NAME_MAX :: nat where [const_defs]: "PIPE_NAME_MAX = 32"
definition PROC_NAME_MAX :: nat where [const_defs]: "PROC_NAME_MAX = 32"

definition sem_hash :: "string \<Rightarrow> nat" where
  "sem_hash name = unat (hash_loop 5381 name) mod KSEM_HASH_BUCKETS"

definition pipe_hash :: "string \<Rightarrow> nat" where
  "pipe_hash name = unat (hash_loop 5381 name) mod PIPE_HASH_BUCKETS"

lemma sem_hash_less: "sem_hash name < 32"
  by (simp add: sem_hash_def const_defs)

lemma pipe_hash_less: "pipe_hash name < 16"
  by (simp add: pipe_hash_def const_defs)

section \<open>Length, comparison, copy\<close>

text \<open>The loop of \<^verbatim>\<open>sem_name_len\<close>, which gives up at \<^verbatim>\<open>KSEM_NAME_MAX\<close>.\<close>

fun sem_name_len_loop :: "string \<Rightarrow> nat \<Rightarrow> nat" where
  "sem_name_len_loop [] len = len"
| "sem_name_len_loop (c # cs) len =
    (if c \<noteq> NUL \<and> len < KSEM_NAME_MAX then sem_name_len_loop cs (len + 1) else len)"

definition sem_name_len :: "string \<Rightarrow> nat" where
  "sem_name_len name = sem_name_len_loop name 0"

definition first_char :: "string \<Rightarrow> char" where
  "first_char s = (case s of [] \<Rightarrow> NUL | c # _ \<Rightarrow> c)"

text \<open>\<^verbatim>\<open>sem_name_cmp\<close>; \<^verbatim>\<open>pipe_name_cmp\<close> is the same code.\<close>

fun sem_name_cmp :: "string \<Rightarrow> string \<Rightarrow> int" where
  "sem_name_cmp (a # as) (b # bs) =
    (if a \<noteq> NUL \<and> b \<noteq> NUL then
       if a \<noteq> b then uchar a - uchar b else sem_name_cmp as bs
     else uchar a - uchar b)"
| "sem_name_cmp as bs = uchar (first_char as) - uchar (first_char bs)"

fun pipe_name_cmp :: "string \<Rightarrow> string \<Rightarrow> int" where
  "pipe_name_cmp (a # as) (b # bs) =
    (if a \<noteq> NUL \<and> b \<noteq> NUL then
       if a \<noteq> b then uchar a - uchar b else pipe_name_cmp as bs
     else uchar a - uchar b)"
| "pipe_name_cmp as bs = uchar (first_char as) - uchar (first_char bs)"

text \<open>\<^verbatim>\<open>strcmp\<close> of \<^verbatim>\<open>Kernel/lib/lib.c\<close>.\<close>

fun strcmp :: "string \<Rightarrow> string \<Rightarrow> int" where
  "strcmp (a # as) (b # bs) =
    (if a \<noteq> NUL \<and> a = b then strcmp as bs else uchar a - uchar b)"
| "strcmp as bs = uchar (first_char as) - uchar (first_char bs)"

text \<open>
  The three copy loops: characters are copied up to the NUL or up to \<open>room\<close> characters, then the
  destination is terminated; the result is the string left in the destination.
\<close>

fun name_copy :: "nat \<Rightarrow> string \<Rightarrow> string" where
  "name_copy 0 src = []"
| "name_copy (Suc room) [] = []"
| "name_copy (Suc room) (c # cs) = (if c = NUL then [] else c # name_copy room cs)"

definition sem_name_copy :: "string \<Rightarrow> string" where
  "sem_name_copy src = name_copy (KSEM_NAME_MAX - 1) src"

definition pipe_name_copy :: "string \<Rightarrow> string" where
  "pipe_name_copy src = name_copy (PIPE_NAME_MAX - 1) src"

text \<open>\<^verbatim>\<open>copy_name\<close> of \<^verbatim>\<open>Kernel/process/proc.c\<close>; \<open>None\<close> is a NULL source.\<close>

definition copy_name :: "string option \<Rightarrow> nat \<Rightarrow> string" where
  "copy_name src max_len = (case src of None \<Rightarrow> [] | Some s \<Rightarrow> name_copy (max_len - 1) s)"

section \<open>What the name functions compute\<close>

definition cstr :: "string \<Rightarrow> string" where
  "cstr s = takeWhile (\<lambda>c. c \<noteq> NUL) s"

lemma uchar_inj [simp]: "uchar a = uchar b \<longleftrightarrow> a = b"
  by (simp add: uchar_def)

lemma cstr_Nil_iff: "cstr s = [] \<longleftrightarrow> first_char s = NUL"
  by (cases s) (auto simp: cstr_def first_char_def)

lemma cstr_no_NUL: "NUL \<notin> set (cstr s)"
  by (auto simp: cstr_def dest: set_takeWhileD)

lemma cstr_ident: "NUL \<notin> set s \<Longrightarrow> cstr s = s"
  by (induction s) (auto simp: cstr_def)

lemma sem_name_cmp_eq: "sem_name_cmp a b = 0 \<longleftrightarrow> cstr a = cstr b"
proof (induction a b rule: sem_name_cmp.induct)
  case (1 a as b bs)
  then show ?case by (auto simp: cstr_def)
qed (auto simp: first_char_def cstr_def split: list.split)

lemma pipe_name_cmp_same: "pipe_name_cmp a b = sem_name_cmp a b"
  by (induction a b rule: pipe_name_cmp.induct) auto

lemma strcmp_same: "strcmp a b = sem_name_cmp a b"
  by (induction a b rule: strcmp.induct) auto

lemma name_copy_take: "name_copy room s = take room (cstr s)"
  by (induction room s rule: name_copy.induct) (auto simp: cstr_def)

lemma hash_loop_cstr: "hash_loop h s = hash_loop h (cstr s)"
  by (induction h s rule: hash_loop.induct) (auto simp: cstr_def)

lemma sem_name_len_loop_eq:
  "len \<le> 32 \<Longrightarrow> sem_name_len_loop s len = min 32 (len + length (cstr s))"
  by (induction s len rule: sem_name_len_loop.induct) (auto simp: cstr_def const_defs)

lemma sem_name_len_eq: "sem_name_len s = min 32 (length (cstr s))"
  by (simp add: sem_name_len_def sem_name_len_loop_eq)

text \<open>A name that fits is stored whole, so it is found again under the same hash.\<close>

lemma sem_name_stored: "sem_name_len s < KSEM_NAME_MAX \<Longrightarrow> sem_name_cmp (sem_name_copy s) s = 0"
proof -
  assume "sem_name_len s < KSEM_NAME_MAX"
  then have "length (cstr s) \<le> 31" by (simp add: sem_name_len_eq const_defs)
  then have "sem_name_copy s = cstr s" by (simp add: sem_name_copy_def name_copy_take const_defs)
  then show ?thesis by (simp add: sem_name_cmp_eq cstr_ident cstr_no_NUL)
qed

lemma pipe_name_stored_gen: "pipe_name_cmp (pipe_name_copy s) s = 0 \<longleftrightarrow> length (cstr s) < PIPE_NAME_MAX"
proof -
  have "pipe_name_copy s = take 31 (cstr s)" by (simp add: pipe_name_copy_def name_copy_take const_defs)
  moreover have "NUL \<notin> set (take 31 (cstr s))" using cstr_no_NUL set_take_subset by fast
  then have "cstr (take 31 (cstr s)) = take 31 (cstr s)" by (rule cstr_ident)
  ultimately show ?thesis
    unfolding pipe_name_cmp_same sem_name_cmp_eq PIPE_NAME_MAX_def
    by (auto dest: arg_cong [where f = length])
qed

end
