(* ===== verification/Kernel_State.thy ===== *)
theory Kernel_State
  imports Sched Strings Memory_Manager
begin

text \<open>
  The state of the kernel: the scheduler state extended by the process table's lists, the heap, the
  objects allocated on it, the terminal and the handle table.

  An object that lives on the heap (an open file, a descriptor table, a semaphore, a pipe) is an
  entry of a typed map at the address \<^verbatim>\<open>mm_malloc\<close> returned, removed when it is freed; reading
  an address with no entry is a use of a dead object and has no result. The private queue nodes
  (\<^verbatim>\<open>sem_waiter_t\<close>, \<^verbatim>\<open>pipe_waiter_t\<close>, \<^verbatim>\<open>tty_waiter_t\<close>, \<^verbatim>\<open>wait_result_t\<close>) are reached only from
  the head and tail of their queue, so a queue is the list of its nodes with their addresses;
  the addresses are still allocated and freed. Interrupt masking and the spinlocks have no effect
  on one CPU and are left out: the code between two yields is one step.
\<close>

section \<open>Objects\<close>

datatype fd_type = FD_NONE | FD_TTY | FD_PIPE
datatype fd_ops = TTY_OPS | PIPE_OPS

definition FD_MAX :: nat where [const_defs]: "FD_MAX = 64"
definition KSEM_HANDLE_MAX :: nat where [const_defs]: "KSEM_HANDLE_MAX = 128"
definition PIPE_CAP :: nat where [const_defs]: "PIPE_CAP = 4096"
definition TTY_BUFFER_CAP :: nat where [const_defs]: "TTY_BUFFER_CAP = 256"
definition KSTACK_SIZE :: nat where [const_defs]: "KSTACK_SIZE = 16384"
definition UINT32_MAX :: nat where [const_defs]: "UINT32_MAX = 4294967295"
definition E_BG_INPUT :: int where [const_defs]: "E_BG_INPUT = -7"

text \<open>The sizes passed to \<^verbatim>\<open>mm_malloc\<close>, as laid out for x86-64.\<close>

definition sizeof_file :: nat where [const_defs]: "sizeof_file = 32"
definition sizeof_fd_table :: nat where [const_defs]: "sizeof_fd_table = 512"
definition sizeof_ksem :: nat where [const_defs]: "sizeof_ksem = 72"
definition sizeof_kpipe :: nat where [const_defs]: "sizeof_kpipe = 4200"
definition sizeof_waiter :: nat where [const_defs]: "sizeof_waiter = 16"
definition sizeof_wait_result :: nat where [const_defs]: "sizeof_wait_result = 16"

text \<open>\<^verbatim>\<open>regs_t\<close>, the frame a suspended process resumes from; the registers never read are one
  field. A pointer to a PCB in \<^verbatim>\<open>rdi\<close> is its slot.\<close>

datatype code_ptr = Trampoline | Code nat

record regs =
  r_rip :: code_ptr
  r_cs :: nat
  r_rflags :: nat
  r_rsp :: nat
  r_ss :: nat
  r_rdi :: nat
  r_rbp :: nat
  r_others :: nat

record kfile =
  ftype :: fd_type
  fops :: fd_ops
  fptr :: nat
  can_read :: bool
  can_write :: bool
  fg_read_guard :: bool
  refcount :: int

record ksem =
  s_name :: string
  s_count :: nat
  s_refcount :: nat
  s_unlinked :: bool
  s_destroying :: bool
  s_waiters :: "(nat \<times> nat) list"

record kpipe =
  p_name :: string
  p_buf :: "nat \<Rightarrow> nat"
  p_r :: nat
  p_w :: nat
  p_size :: nat
  p_readers :: int
  p_writers :: int
  p_unlinked :: bool
  p_rwait :: "(nat \<times> nat) list"
  p_wwait :: "(nat \<times> nat) list"

record tty =
  t_buffer :: "nat \<Rightarrow> char"
  t_head :: nat
  t_tail :: nat
  t_size :: nat
  t_eof :: bool
  t_wait :: "(nat \<times> nat) list"
  t_fg_pid :: int

record kernel = sched_st +
  proc_head :: "nat option"
  proc_tail :: "nat option"
  zombie_head :: "nat option"
  next_pid :: int
  heap :: mm
  frames :: "nat \<Rightarrow> regs"
  files :: "nat \<Rightarrow> kfile option"
  fd_tables :: "nat \<Rightarrow> nat list option"
  stdin_file :: nat
  stdout_file :: nat
  stderr_file :: nat
  sems :: "nat \<Rightarrow> ksem option"
  sem_buckets :: "nat \<Rightarrow> nat list"
  sem_handles :: "nat \<Rightarrow> nat \<times> int"
  pipes :: "nat \<Rightarrow> kpipe option"
  pipe_buckets :: "nat \<Rightarrow> nat list"
  default_tty :: tty
  default_tty_initialized :: bool
  screen :: string

text \<open>The address of the static \<^verbatim>\<open>default_tty\<close>: any value that is not NULL.\<close>

definition TTY_ADDR :: nat where "TTY_ADDR = 1"

section \<open>Memory\<close>

definition kmalloc :: "nat \<Rightarrow> kernel \<Rightarrow> (nat \<times> kernel) option" where
  "kmalloc sz k = do { (p, h) \<leftarrow> mm_malloc sz (heap k); Some (p, k\<lparr>heap := h\<rparr>) }"

definition kfree :: "nat \<Rightarrow> kernel \<Rightarrow> kernel option" where
  "kfree p k = do { h \<leftarrow> mm_free p (heap k); Some (k\<lparr>heap := h\<rparr>) }"

fun kfree_all :: "nat list \<Rightarrow> kernel \<Rightarrow> kernel option" where
  "kfree_all [] k = Some k"
| "kfree_all (p # ps) k = do { k1 \<leftarrow> kfree p k; kfree_all ps k1 }"

definition kheap_ok :: "kernel \<Rightarrow> bool" where
  "kheap_ok k \<longleftrightarrow> mm_inv (heap k)"

lemma kmalloc_total:
  assumes "kheap_ok k"
  obtains p h where "kmalloc n k = Some (p, k\<lparr>heap := h\<rparr>)" "kheap_ok (k\<lparr>heap := h\<rparr>)"
    "p = 0 \<Longrightarrow> h = heap k" "p \<noteq> 0 \<Longrightarrow> p \<notin> fst ` mm_live (heap k)"
    "p \<noteq> 0 \<Longrightarrow> \<exists>sz. alloc_size n \<le> sz \<and> mm_live h = insert (p, sz) (mm_live (heap k))"
proof -
  from assms have inv: "mm_inv (heap k)" by (simp add: kheap_ok_def)
  from mmheap.alloc_total [OF inv] obtain p h where al: "mm_malloc n (heap k) = Some (p, h)" by blast
  from mmheap.alloc_keeps [OF inv al] that [of p h] al show thesis
    by (auto simp: kmalloc_def kheap_ok_def)
qed

lemma kfree_live:
  assumes "kheap_ok k" "(p, sz) \<in> mm_live (heap k)"
  obtains h where "kfree p k = Some (k\<lparr>heap := h\<rparr>)" "kheap_ok (k\<lparr>heap := h\<rparr>)"
    "mm_live h = mm_live (heap k) - {(p, sz)}"
  using mmheap.release_law [of "heap k" p sz] assms that by (auto simp: kfree_def kheap_ok_def)

end
