(* ===== verification/Ring.thy ===== *)
theory Ring
  imports Prelude
begin

text \<open>
  Circular buffers, the arithmetic the terminal's input buffer and the pipes share: \<open>cap\<close> cells,
  a read position and a count; the contents are the list read from the read position on.
\<close>

locale ring =
  fixes cap :: nat
  assumes cap_pos: "0 < cap"
begin

definition contents :: "(nat \<Rightarrow> 'a) \<Rightarrow> nat \<Rightarrow> nat \<Rightarrow> 'a list" where
  "contents buf h n = map (\<lambda>i. buf ((h + i) mod cap)) [0 ..< n]"

lemma contents_length [simp]: "length (contents buf h n) = n"
  by (simp add: contents_def)

lemma contents_0 [simp]: "contents buf h 0 = []"
  by (simp add: contents_def)

lemma contents_head:
  "h < cap \<Longrightarrow> contents buf h (Suc n) = buf h # contents buf ((h + 1) mod cap) n"
  by (simp add: contents_def upt_conv_Cons map_Suc_upt [symmetric] comp_def mod_simps del: upt_Suc)

lemma position_neq: "i < n \<Longrightarrow> n < cap \<Longrightarrow> (h + i) mod cap \<noteq> (h + n) mod cap"
proof
  assume lt: "i < n" "n < cap" and eq: "(h + i) mod cap = (h + n) mod cap"
  from eq have "cap dvd (h + n) - (h + i)"
    using lt(1) by (metis add_le_cancel_left less_imp_le mod_eq_dvd_iff_nat)
  then have "cap dvd n - i" by simp
  with lt show False using dvd_imp_le [of cap "n - i"] by simp
qed

lemma contents_snoc:
  "n < cap \<Longrightarrow> contents (buf((h + n) mod cap := x)) h (Suc n) = contents buf h n @ [x]"
  using position_neq [of _ n h] by (auto simp: contents_def)

lemma tail_step: "((h + n) mod cap + 1) mod cap = (h + Suc n) mod cap"
  by (simp add: mod_simps)

lemma head_step: "0 < n \<Longrightarrow> ((h + 1) mod cap + (n - 1)) mod cap = (h + n) mod cap"
proof -
  assume "0 < n"
  then obtain m where "n = Suc m" by (cases n) auto
  then show ?thesis by (simp add: mod_simps)
qed

end

end
