(* ===== verification/Tty.thy ===== *)
theory Tty
  imports Kernel_State Ring
begin

text \<open>
  \<^verbatim>\<open>Kernel/fs/tty.c\<close>, the part that does not wake anybody: the circular input buffer, the queue
  of blocked readers, reading and writing. (\<open>Tty_Input\<close> has the keyboard side.)

  A blocking call returns an \<open>io\<close>: \<open>Ret\<close> is its return value with the bytes it stored,
  \<open>Suspend r\<close> that the process gave up the CPU (\<open>r\<close> is the stack pointer switched to, 0 if the
  stub found nobody to switch to) and \<open>Again\<close> that it must test its condition anew. After the
  last two the loop of the code starts over with nothing transferred: the call is made again.
\<close>

datatype 'a io = Ret int "'a list" | Suspend nat | Again

section \<open>The buffer\<close>

definition tty_zero :: tty where
  "tty_zero = \<lparr>t_buffer = (\<lambda>_. NUL), t_head = 0, t_tail = 0, t_size = 0, t_eof = False,
     t_wait = [], t_fg_pid = 0\<rparr>"

definition tty_default :: "kernel \<Rightarrow> kernel" where
  "tty_default k =
    (if \<not> default_tty_initialized k
     then k\<lparr>default_tty := tty_zero\<lparr>t_fg_pid := -1\<rparr>, default_tty_initialized := True\<rparr> else k)"

text \<open>The copy loop of \<^verbatim>\<open>tty_read\<close>.\<close>

fun tty_take :: "nat \<Rightarrow> tty \<Rightarrow> string \<times> tty" where
  "tty_take 0 t = ([], t)"
| "tty_take (Suc n) t =
    (let c = t_buffer t (t_head t);
         (cs, t') = tty_take n (t\<lparr>t_head := (t_head t + 1) mod TTY_BUFFER_CAP, t_size := t_size t - 1\<rparr>)
     in (c # cs, t'))"

text \<open>Storing one character: the oldest one is dropped when the buffer is full.\<close>

definition tty_store :: "char \<Rightarrow> tty \<Rightarrow> tty" where
  "tty_store c t =
    (let t1 = (if t_size t = TTY_BUFFER_CAP
               then t\<lparr>t_head := (t_head t + 1) mod TTY_BUFFER_CAP, t_size := t_size t - 1\<rparr> else t)
     in t1\<lparr>t_buffer := (t_buffer t1)(t_tail t1 := c),
           t_tail := (t_tail t1 + 1) mod TTY_BUFFER_CAP, t_size := t_size t1 + 1\<rparr>)"

section \<open>Waiters\<close>

definition tty_enqueue_waiter :: "nat \<Rightarrow> nat \<Rightarrow> tty \<Rightarrow> tty" where
  "tty_enqueue_waiter proc node t = (if node = 0 then t else t\<lparr>t_wait := t_wait t @ [(node, proc)]\<rparr>)"

definition tty_dequeue_waiter :: "kernel \<Rightarrow> (nat option \<times> kernel) option" where
  "tty_dequeue_waiter k =
    (case t_wait (default_tty k) of
       [] \<Rightarrow> Some (None, k)
     | (node, proc) # ws \<Rightarrow> do {
         k1 \<leftarrow> kfree node (k\<lparr>default_tty := (default_tty k)\<lparr>t_wait := ws\<rparr>\<rparr>);
         Some (Some proc, k1)
       })"

section \<open>Reading and writing\<close>

text \<open>The first half of an iteration of \<^verbatim>\<open>tty_read\<close>: \<open>Inr w\<close> is a fresh waiter node.\<close>

definition tty_read_try :: "int \<Rightarrow> kernel \<Rightarrow> ((char io + nat) \<times> kernel) option" where
  "tty_read_try n k =
    (let t = default_tty k in
     if t_size t > 0 then
       let to_read = (if t_size t < nat n then t_size t else nat n);
           (cs, t') = tty_take to_read t
       in Some (Inl (Ret (int to_read) cs), k\<lparr>default_tty := t'\<rparr>)
     else if t_eof t then Some (Inl (Ret 0 []), k\<lparr>default_tty := t\<lparr>t_eof := False\<rparr>\<rparr>)
     else if cur k = None then Some (Inl (Ret (-1) []), k)
     else do {
       (waiter, k1) \<leftarrow> kmalloc sizeof_waiter k;
       Some (if waiter = 0 then Inl (Ret (-1) []) else Inr waiter, k1)
     })"

text \<open>
  The second half, in a new critical section: the condition is tested again before sleeping. An
  interrupt may have run in between, so the state is whatever it is then; \<open>me\<close> is the process,
  \<open>sp\<close> the stack pointer the yield saves.
\<close>

definition tty_read_sleep :: "nat \<Rightarrow> nat \<Rightarrow> nat \<Rightarrow> kernel \<Rightarrow> (char io \<times> kernel) option" where
  "tty_read_sleep me waiter sp k =
    (let t = default_tty k in
     if t_size t > 0 \<or> t_eof t then do { k1 \<leftarrow> kfree waiter k; Some (Again, k1) }
     else
       let k1 = k\<lparr>default_tty := tty_enqueue_waiter me waiter t\<rparr>;
           k2 = upd me (\<lambda>p. p\<lparr>state := BLOCKED, ticks_left := 0\<rparr>) k1
       in do { (r, k3) \<leftarrow> sched_force_yield sp k2; Some (Suspend r, k3) })"

definition tty_read :: "bool \<Rightarrow> int \<Rightarrow> nat \<Rightarrow> kernel \<Rightarrow> (char io \<times> kernel) option" where
  "tty_read buf_ok n sp k =
    (if \<not> buf_ok \<or> n \<le> 0 then Some (Ret (-1) [], k)
     else do {
       (r, k1) \<leftarrow> tty_read_try n k;
       case r of Inl v \<Rightarrow> Some (v, k1)
       | Inr waiter \<Rightarrow> (case cur k1 of None \<Rightarrow> None | Some me \<Rightarrow> tty_read_sleep me waiter sp k1)
     })"

text \<open>\<^verbatim>\<open>tty_write\<close>: \<open>screen\<close> is what was handed to \<^verbatim>\<open>vDriver_print\<close>, in order.\<close>

definition tty_write :: "string option \<Rightarrow> int \<Rightarrow> kernel \<Rightarrow> int \<times> kernel" where
  "tty_write buf n k =
    (case buf of None \<Rightarrow> (-1, k)
     | Some src \<Rightarrow> if n \<le> 0 then (-1, k) else (n, k\<lparr>screen := screen k @ take (nat n) src\<rparr>))"

definition tty_close :: "kernel \<Rightarrow> int \<times> kernel" where
  "tty_close k = (0, k)"

section \<open>Foreground\<close>

definition tty_set_foreground :: "int \<Rightarrow> kernel \<Rightarrow> kernel" where
  "tty_set_foreground pd k =
    (let k1 = tty_default k in k1\<lparr>default_tty := (default_tty k1)\<lparr>t_fg_pid := pd\<rparr>\<rparr>)"

definition tty_can_read :: "int \<Rightarrow> kernel \<Rightarrow> bool \<times> kernel" where
  "tty_can_read pd k = (let k1 = tty_default k in (t_fg_pid (default_tty k1) = pd, k1))"

definition tty_get_foreground :: "kernel \<Rightarrow> int \<times> kernel" where
  "tty_get_foreground k = (let k1 = tty_default k in (t_fg_pid (default_tty k1), k1))"

section \<open>The buffer is a bounded FIFO that drops its oldest character\<close>

interpretation tring: ring TTY_BUFFER_CAP
  by unfold_locales (simp add: TTY_BUFFER_CAP_def)

definition tty_wf :: "tty \<Rightarrow> bool" where
  "tty_wf t \<longleftrightarrow> t_head t < TTY_BUFFER_CAP \<and> t_size t \<le> TTY_BUFFER_CAP
     \<and> t_tail t = (t_head t + t_size t) mod TTY_BUFFER_CAP"

definition tty_chars :: "tty \<Rightarrow> string" where
  "tty_chars t = tring.contents (t_buffer t) (t_head t) (t_size t)"

lemma tty_chars_length [simp]: "length (tty_chars t) = t_size t"
  by (simp add: tty_chars_def)

lemma tty_drop_head:
  assumes "tty_wf t" "0 < t_size t"
  defines "t' \<equiv> t\<lparr>t_head := (t_head t + 1) mod TTY_BUFFER_CAP, t_size := t_size t - 1\<rparr>"
  shows "tty_wf t'" "tty_chars t = t_buffer t (t_head t) # tty_chars t'"
proof -
  obtain m where m: "t_size t = Suc m" using assms(2) by (cases "t_size t") auto
  show "tty_wf t'"
    using assms(1) tring.head_step [OF assms(2), of "t_head t"]
    by (auto simp: tty_wf_def t'_def TTY_BUFFER_CAP_def)
  show "tty_chars t = t_buffer t (t_head t) # tty_chars t'"
    using assms(1) by (simp add: tty_wf_def tty_chars_def t'_def m tring.contents_head)
qed

lemma tty_store_spec:
  assumes wf: "tty_wf t"
  shows "tty_wf (tty_store c t)
    \<and> tty_chars (tty_store c t) = (if t_size t = TTY_BUFFER_CAP then tl (tty_chars t) else tty_chars t) @ [c]"
proof -
  have push: "tty_wf (t\<lparr>t_buffer := (t_buffer t)(t_tail t := c),
           t_tail := (t_tail t + 1) mod TTY_BUFFER_CAP, t_size := t_size t + 1\<rparr>)
    \<and> tty_chars (t\<lparr>t_buffer := (t_buffer t)(t_tail t := c),
           t_tail := (t_tail t + 1) mod TTY_BUFFER_CAP, t_size := t_size t + 1\<rparr>) = tty_chars t @ [c]"
    if "tty_wf t" "t_size t < TTY_BUFFER_CAP" for t
    using that tring.contents_snoc [OF that(2)] tring.tail_step
    by (simp add: tty_wf_def tty_chars_def)
  show ?thesis
  proof (cases "t_size t = TTY_BUFFER_CAP")
    case True
    then have "0 < t_size t" by (simp add: TTY_BUFFER_CAP_def)
    note d = tty_drop_head [OF wf this]
    have "t_size t - 1 < TTY_BUFFER_CAP" using True by (simp add: TTY_BUFFER_CAP_def)
    with push [OF d(1)] d(2) True show ?thesis by (simp add: tty_store_def Let_def)
  next
    case False
    with wf have "t_size t < TTY_BUFFER_CAP" by (simp add: tty_wf_def)
    with push [OF wf] False show ?thesis by (simp add: tty_store_def)
  qed
qed

lemma tty_take_spec:
  "tty_wf t \<Longrightarrow> n \<le> t_size t \<Longrightarrow> tty_take n t = (cs, t') \<Longrightarrow>
   cs = take n (tty_chars t) \<and> tty_wf t' \<and> tty_chars t' = drop n (tty_chars t)
   \<and> t_eof t' = t_eof t \<and> t_wait t' = t_wait t \<and> t_fg_pid t' = t_fg_pid t"
proof (induction n t arbitrary: cs t' rule: tty_take.induct)
  case (2 n t)
  let ?t = "t\<lparr>t_head := (t_head t + 1) mod TTY_BUFFER_CAP, t_size := t_size t - 1\<rparr>"
  obtain ds u where rec: "tty_take n ?t = (ds, u)" by fastforce
  have out: "cs = t_buffer t (t_head t) # ds" "t' = u"
    using 2(4) rec by (auto simp: Let_def)
  have pos: "0 < t_size t" using 2(3) by simp
  from 2(1) [OF refl tty_drop_head(1) [OF 2(2) pos] _ rec] 2(3) out tty_drop_head(2) [OF 2(2) pos]
  show ?case by simp
qed simp

end
