(* ===== verification/Proc_Base.thy ===== *)
theory Proc_Base
  imports Kernel_State Tty
begin

text \<open>
  \<^verbatim>\<open>Kernel/process/proc.c\<close>, the functions that wake nobody: the process table and its lists, the
  initial stack frame, children, wait results, the foreground process and the release of the
  children of a dying process.
\<close>

section \<open>The process table\<close>

definition find_slot :: "(pcb \<Rightarrow> bool) \<Rightarrow> kernel \<Rightarrow> nat option" where
  "find_slot P k = find (\<lambda>i. P (procs k i)) [0 ..< MAX_PROCS]"

definition proc_by_pid :: "int \<Rightarrow> kernel \<Rightarrow> nat option" where
  "proc_by_pid pd k = (if pd \<le> 0 then None else find_slot (\<lambda>p. used p \<and> pid p = pd) k)"

definition allocate_slot :: "kernel \<Rightarrow> nat option \<times> kernel" where
  "allocate_slot k =
    (case find_slot (\<lambda>p. \<not> used p) k of
       None \<Rightarrow> (None, k)
     | Some i \<Rightarrow> (Some i, upd i (\<lambda>_. pcb_zero\<lparr>used := True\<rparr>) k))"

definition setup_stack :: "nat \<Rightarrow> kernel \<Rightarrow> kernel" where
  "setup_stack proc k =
    (let aligned_top = (kstack_base (procs k proc) + KSTACK_SIZE) div 16 * 16;
         frame = aligned_top - 160;
         rs = \<lparr>r_rip = Trampoline, r_cs = 0x08, r_rflags = 0x202, r_rsp = aligned_top - 8, r_ss = 0,
               r_rdi = proc, r_rbp = aligned_top - 8, r_others = 0\<rparr>
     in upd proc (kframe_update (\<lambda>_. frame)) (k\<lparr>frames := (frames k)(frame := rs)\<rparr>))"

definition insert_proc :: "nat \<Rightarrow> kernel \<Rightarrow> kernel" where
  "insert_proc proc k =
    (let k1 = upd proc (\<lambda>p. p\<lparr>next_proc := None, prev_proc := proc_tail k\<rparr>) k;
         k2 = (case proc_head k1 of
                 None \<Rightarrow> k1\<lparr>proc_head := Some proc\<rparr>
               | Some _ \<Rightarrow> (case proc_tail k1 of
                   None \<Rightarrow> k1
                 | Some t \<Rightarrow> upd t (next_proc_update (\<lambda>_. Some proc)) k1))
     in k2\<lparr>proc_tail := Some proc\<rparr>)"

definition remove_proc :: "nat \<Rightarrow> kernel \<Rightarrow> kernel" where
  "remove_proc proc k =
    (let k1 = (case prev_proc (procs k proc) of
                 Some p \<Rightarrow> upd p (next_proc_update (\<lambda>_. next_proc (procs k proc))) k
               | None \<Rightarrow> k\<lparr>proc_head := next_proc (procs k proc)\<rparr>);
         k2 = (case next_proc (procs k1 proc) of
                 Some n \<Rightarrow> upd n (prev_proc_update (\<lambda>_. prev_proc (procs k1 proc))) k1
               | None \<Rightarrow> k1\<lparr>proc_tail := prev_proc (procs k1 proc)\<rparr>)
     in upd proc (\<lambda>p. p\<lparr>next_proc := None, prev_proc := None\<rparr>) k2)"

definition enqueue_zombie :: "nat \<Rightarrow> kernel \<Rightarrow> kernel" where
  "enqueue_zombie proc k =
    (upd proc (cleanup_next_update (\<lambda>_. zombie_head k)) k)\<lparr>zombie_head := Some proc\<rparr>"

section \<open>Foreground\<close>

definition proc_get_foreground_pid :: "kernel \<Rightarrow> int \<times> kernel" where
  "proc_get_foreground_pid k =
    (let (tty_fg, k1) = tty_get_foreground k in
     if tty_fg > 0 then (tty_fg, k1)
     else (case find_slot (\<lambda>p. used p \<and> fg p \<and> state p \<noteq> EXITED) k1 of
             Some i \<Rightarrow> (pid (procs k1 i), k1)
           | None \<Rightarrow> (-1, k1)))"

text \<open>The \<^verbatim>\<open>for\<close> loop over the slots, as one update of the table.\<close>

definition clear_other_fg :: "int \<Rightarrow> kernel \<Rightarrow> kernel" where
  "clear_other_fg pd k = k\<lparr>procs := (\<lambda>i. if i < MAX_PROCS \<and> used (procs k i) \<and> pid (procs k i) \<noteq> pd
                                          then (procs k i)\<lparr>fg := False\<rparr> else procs k i)\<rparr>"

definition proc_set_foreground :: "int \<Rightarrow> kernel \<Rightarrow> kernel" where
  "proc_set_foreground pd k =
    (let k1 = (if pd > 0 then (case proc_by_pid pd k of
                 Some i \<Rightarrow> upd i (fg_update (\<lambda>_. True)) k | None \<Rightarrow> k) else k)
     in clear_other_fg pd (tty_set_foreground pd k1))"

section \<open>Wait results\<close>

definition push_wait_result :: "nat \<Rightarrow> int \<Rightarrow> int \<Rightarrow> kernel \<Rightarrow> kernel option" where
  "push_wait_result parent child_pid code k = do {
     (node, k1) \<leftarrow> kmalloc sizeof_wait_result k;
     Some (if node = 0
           then upd parent (\<lambda>p. p\<lparr>pending_exit_pid := child_pid, pending_exit_code := code,
                                  pending_exit_valid := True\<rparr>) k1
           else upd parent (wait_res_update (\<lambda>ws. ws @ [(node, child_pid, code)])) k1)
   }"

text \<open>The result is the pid returned and the status stored, if one was.\<close>

definition consume_pending :: "nat \<Rightarrow> int \<Rightarrow> kernel \<Rightarrow> int \<times> int option \<times> kernel" where
  "consume_pending parent target_pid k =
    (let p = procs k parent in
     if pending_exit_valid p \<and> (target_pid \<le> 0 \<or> pending_exit_pid p = target_pid)
     then (pending_exit_pid p, Some (pending_exit_code p), upd parent (pending_exit_valid_update (\<lambda>_. False)) k)
     else (-1, None, k))"

definition consume_wait_result :: "nat \<Rightarrow> int \<Rightarrow> kernel \<Rightarrow> (int \<times> int option \<times> kernel) option" where
  "consume_wait_result parent target_pid k =
    (let ws = wait_res (procs k parent);
         hit = (if target_pid \<le> 0 then (case ws of [] \<Rightarrow> None | w # _ \<Rightarrow> Some w)
                else find (\<lambda>(node, cp, code). cp = target_pid) ws)
     in case hit of
          Some (node, cp, code) \<Rightarrow> do {
            k1 \<leftarrow> kfree node (upd parent (wait_res_update (\<lambda>_. remove1 (node, cp, code) ws)) k);
            Some (cp, Some code, k1)
          }
        | None \<Rightarrow> Some (consume_pending parent target_pid k))"

definition cleanup_wait_results :: "nat \<Rightarrow> kernel \<Rightarrow> kernel option" where
  "cleanup_wait_results proc k = do {
     k1 \<leftarrow> kfree_all (map fst (wait_res (procs k proc))) k;
     Some (upd proc (\<lambda>p. p\<lparr>wait_res := [], pending_exit_valid := False, pending_exit_pid := -1,
                          pending_exit_code := 0\<rparr>) k1)
   }"

section \<open>Children\<close>

definition link_child :: "nat \<Rightarrow> nat \<Rightarrow> kernel \<Rightarrow> kernel" where
  "link_child parent child k =
    upd parent (child_head_update (\<lambda>_. Some child))
      (upd child (sibling_next_update (\<lambda>_. child_head (procs k parent))) k)"

partial_function (option) unlink_child_loop ::
  "nat \<Rightarrow> nat \<Rightarrow> nat option \<Rightarrow> nat option \<Rightarrow> kernel \<Rightarrow> kernel option" where
  "unlink_child_loop parent child prev cursor k =
    (case cursor of
       None \<Rightarrow> Some k
     | Some c \<Rightarrow>
         if c = child then
           let k1 = (case prev of
                       None \<Rightarrow> upd parent (child_head_update (\<lambda>_. sibling_next (procs k c))) k
                     | Some p \<Rightarrow> upd p (sibling_next_update (\<lambda>_. sibling_next (procs k c))) k)
           in Some (upd child (sibling_next_update (\<lambda>_. None)) k1)
         else unlink_child_loop parent child (Some c) (sibling_next (procs k c)) k)"

definition unlink_child :: "nat \<Rightarrow> nat \<Rightarrow> kernel \<Rightarrow> kernel option" where
  "unlink_child parent child k = unlink_child_loop parent child None (child_head (procs k parent)) k"

partial_function (option) find_child_loop :: "int \<Rightarrow> nat option \<Rightarrow> kernel \<Rightarrow> nat option option" where
  "find_child_loop child_pid cursor k =
    (case cursor of
       None \<Rightarrow> Some None
     | Some c \<Rightarrow> if pid (procs k c) = child_pid then Some (Some c)
                else find_child_loop child_pid (sibling_next (procs k c)) k)"

definition find_child :: "nat \<Rightarrow> int \<Rightarrow> kernel \<Rightarrow> nat option option" where
  "find_child parent child_pid k =
    (if child_pid \<le> 0 then Some None else find_child_loop child_pid (child_head (procs k parent)) k)"

definition parent_has_children :: "nat \<Rightarrow> kernel \<Rightarrow> bool" where
  "parent_has_children parent k \<longleftrightarrow> child_head (procs k parent) \<noteq> None"

section \<open>detach_children\<close>

partial_function (option) orphan_loop :: "nat \<Rightarrow> nat option \<Rightarrow> kernel \<Rightarrow> kernel option" where
  "orphan_loop child grandchild k =
    (case grandchild of
       None \<Rightarrow> Some k
     | Some g \<Rightarrow>
         orphan_loop child (sibling_next (procs k g))
           (upd g (\<lambda>p. p\<lparr>sibling_next := None, parent_pid := -1,
                         waiter_head := (if waiter_head p = Some child then None else waiter_head p)\<rparr>) k))"

text \<open>A child that is still alive is terminated on the spot; a dead one is only unlinked.\<close>

definition detach_child :: "nat \<Rightarrow> nat \<Rightarrow> kernel \<Rightarrow> kernel option" where
  "detach_child parent child k =
    (if state (procs k child) \<noteq> EXITED then do {
       k1 \<leftarrow> (if state (procs k child) = READY then sched_remove child k else Some k);
       let k2 = upd child (\<lambda>p. p\<lparr>exit_code := 0, state := EXITED, ticks_left := 0, exited := True,
                               waiting_for := 0, waiter_head := None, pending_exit_valid := False,
                               parent_pid := -1\<rparr>) k1;
       k3 \<leftarrow> orphan_loop child (child_head (procs k2 child)) (upd child (child_head_update (\<lambda>_. None)) k2);
       k4 \<leftarrow> cleanup_wait_results child (remove_proc child k3);
       Some (enqueue_zombie child k4)
     } else
       Some (upd child (\<lambda>p. p\<lparr>parent_pid := (if parent_pid p = pid (procs k parent) then -1 else parent_pid p),
                             waiter_head := (if waiter_head p = Some parent then None else waiter_head p)\<rparr>) k))"

partial_function (option) detach_loop :: "nat \<Rightarrow> nat option \<Rightarrow> kernel \<Rightarrow> kernel option" where
  "detach_loop parent child k =
    (case child of
       None \<Rightarrow> Some k
     | Some c \<Rightarrow> do {
         k1 \<leftarrow> detach_child parent c (upd c (sibling_next_update (\<lambda>_. None)) k);
         detach_loop parent (sibling_next (procs k c)) k1
       })"

definition detach_children :: "nat \<Rightarrow> kernel \<Rightarrow> kernel option" where
  "detach_children parent k =
    detach_loop parent (child_head (procs k parent)) (upd parent (child_head_update (\<lambda>_. None)) k)"

declare unlink_child_loop.simps [code] find_child_loop.simps [code] orphan_loop.simps [code]
  detach_loop.simps [code]

end
