(* ===== verification/Pipe.thy ===== *)
theory Pipe
  imports Kernel_State Ring
begin

text \<open>
  \<^verbatim>\<open>Kernel/ipc/pipe.c\<close>, the operations that wake nobody: the name table, opening, unlinking and
  freeing a pipe, its waiter queues and its circular buffer. A hash chain is the list of the
  addresses on it. (\<open>Wake\<close> has \<^verbatim>\<open>kpipe_close\<close>, \<open>Pipe_IO\<close> reading and writing.)
\<close>

section \<open>Waiter queues\<close>

definition set_pipe :: "nat \<Rightarrow> kpipe \<Rightarrow> kernel \<Rightarrow> kernel" where
  "set_pipe a p k = k\<lparr>pipes := (pipes k)(a := Some p)\<rparr>"

definition enqueue_reader :: "nat \<Rightarrow> nat \<Rightarrow> kpipe \<Rightarrow> kpipe" where
  "enqueue_reader proc w p = (if w = 0 then p else p\<lparr>p_rwait := p_rwait p @ [(w, proc)]\<rparr>)"

definition enqueue_writer :: "nat \<Rightarrow> nat \<Rightarrow> kpipe \<Rightarrow> kpipe" where
  "enqueue_writer proc w p = (if w = 0 then p else p\<lparr>p_wwait := p_wwait p @ [(w, proc)]\<rparr>)"

definition dequeue_reader :: "nat \<Rightarrow> kernel \<Rightarrow> (nat option \<times> kernel) option" where
  "dequeue_reader a k = do {
     p \<leftarrow> pipes k a;
     case p_rwait p of
       [] \<Rightarrow> Some (None, k)
     | (w, proc) # ws \<Rightarrow> do {
         k1 \<leftarrow> kfree w (set_pipe a (p\<lparr>p_rwait := ws\<rparr>) k);
         Some (Some proc, k1)
       }
   }"

definition dequeue_writer :: "nat \<Rightarrow> kernel \<Rightarrow> (nat option \<times> kernel) option" where
  "dequeue_writer a k = do {
     p \<leftarrow> pipes k a;
     case p_wwait p of
       [] \<Rightarrow> Some (None, k)
     | (w, proc) # ws \<Rightarrow> do {
         k1 \<leftarrow> kfree w (set_pipe a (p\<lparr>p_wwait := ws\<rparr>) k);
         Some (Some proc, k1)
       }
   }"

definition pipe_free :: "nat \<Rightarrow> kernel \<Rightarrow> kernel option" where
  "pipe_free a k =
    (if a = 0 then Some k
     else do {
       p \<leftarrow> pipes k a;
       k1 \<leftarrow> kfree_all (map fst (p_rwait p)) k;
       k2 \<leftarrow> kfree_all (map fst (p_wwait p)) k1;
       kfree a (k2\<lparr>pipes := (pipes k2)(a := None)\<rparr>)
     })"

section \<open>Names\<close>

text \<open>Walking a hash chain: the first pipe with the name that is still linked, 0 if there is none.\<close>

fun pipe_find :: "(nat \<Rightarrow> kpipe option) \<Rightarrow> string \<Rightarrow> nat list \<Rightarrow> nat option" where
  "pipe_find ps nm [] = Some 0"
| "pipe_find ps nm (a # as) = do {
     p \<leftarrow> ps a;
     if \<not> p_unlinked p \<and> pipe_name_cmp (p_name p) nm = 0 then Some a else pipe_find ps nm as
   }"

definition pipe_add_ends :: "nat \<Rightarrow> bool \<Rightarrow> bool \<Rightarrow> kernel \<Rightarrow> kernel option" where
  "pipe_add_ends a for_read for_write k = do {
     p \<leftarrow> pipes k a;
     Some (set_pipe a (p\<lparr>p_readers := (if for_read then p_readers p + 1 else p_readers p),
                        p_writers := (if for_write then p_writers p + 1 else p_writers p)\<rparr>) k)
   }"

text \<open>The result is the return value and the pointer stored in \<^verbatim>\<open>*out\<close> (0 when none is).\<close>

definition kpipe_open ::
  "string option \<Rightarrow> bool \<Rightarrow> bool \<Rightarrow> bool \<Rightarrow> kernel \<Rightarrow> (int \<times> nat \<times> kernel) option" where
  "kpipe_open nm for_read for_write out_ok k =
    (case nm of None \<Rightarrow> Some (-1, 0, k)
     | Some s \<Rightarrow>
       if \<not> out_ok then Some (-1, 0, k)
       else do {
         let bucket = pipe_hash s;
         found \<leftarrow> pipe_find (pipes k) s (pipe_buckets k bucket);
         if found \<noteq> 0 then do {
           k1 \<leftarrow> pipe_add_ends found for_read for_write k;
           Some (0, found, k1)
         } else do {
           (a, k1) \<leftarrow> kmalloc sizeof_kpipe k;
           if a = 0 then Some (-1, 0, k1)
           else do {
             let new_pipe = \<lparr>p_name = pipe_name_copy s, p_buf = (\<lambda>_. 0), p_r = 0, p_w = 0, p_size = 0,
                             p_readers = (if for_read then 1 else 0),
                             p_writers = (if for_write then 1 else 0),
                             p_unlinked = False, p_rwait = [], p_wwait = []\<rparr>;
             let k2 = set_pipe a new_pipe k1;
             found2 \<leftarrow> pipe_find (pipes k2) s (pipe_buckets k2 bucket);
             if found2 \<noteq> 0 then do {
               k3 \<leftarrow> pipe_add_ends found2 for_read for_write k2;
               k4 \<leftarrow> pipe_free a k3;
               Some (0, found2, k4)
             } else
               Some (0, a, k2\<lparr>pipe_buckets := (pipe_buckets k2)(bucket := a # pipe_buckets k2 bucket)\<rparr>)
           }
         }
       })"

definition kpipe_unlink :: "string option \<Rightarrow> kernel \<Rightarrow> (int \<times> kernel) option" where
  "kpipe_unlink nm k =
    (case nm of None \<Rightarrow> Some (-1, k)
     | Some s \<Rightarrow> do {
         let bucket = pipe_hash s;
         a \<leftarrow> pipe_find (pipes k) s (pipe_buckets k bucket);
         if a = 0 then Some (-1, k)
         else do {
           p \<leftarrow> pipes k a;
           let k1 = set_pipe a (p\<lparr>p_unlinked := True\<rparr>)
                      (k\<lparr>pipe_buckets := (pipe_buckets k)(bucket := remove1 a (pipe_buckets k bucket))\<rparr>);
           k2 \<leftarrow> (if p_readers p = 0 \<and> p_writers p = 0 then pipe_free a k1 else Some k1);
           Some (0, k2)
         }
       })"

section \<open>The circular buffer\<close>

text \<open>The copy loops of \<^verbatim>\<open>kpipe_read\<close> and \<^verbatim>\<open>kpipe_write\<close>.\<close>

fun pipe_take :: "nat \<Rightarrow> kpipe \<Rightarrow> nat list \<times> kpipe" where
  "pipe_take 0 p = ([], p)"
| "pipe_take (Suc n) p =
    (let b = p_buf p (p_r p);
         (bs, p') = pipe_take n (p\<lparr>p_r := (p_r p + 1) mod PIPE_CAP, p_size := p_size p - 1\<rparr>)
     in (b # bs, p'))"

fun pipe_put :: "nat list \<Rightarrow> kpipe \<Rightarrow> kpipe" where
  "pipe_put [] p = p"
| "pipe_put (b # bs) p =
    pipe_put bs (p\<lparr>p_buf := (p_buf p)(p_w p := b), p_w := (p_w p + 1) mod PIPE_CAP,
                  p_size := p_size p + 1\<rparr>)"

interpretation pring: ring PIPE_CAP
  by unfold_locales (simp add: PIPE_CAP_def)

definition pipe_wf :: "kpipe \<Rightarrow> bool" where
  "pipe_wf p \<longleftrightarrow> p_r p < PIPE_CAP \<and> p_size p \<le> PIPE_CAP \<and> p_w p = (p_r p + p_size p) mod PIPE_CAP
     \<and> 0 \<le> p_readers p \<and> 0 \<le> p_writers p"

text \<open>The abstract pipe: the bytes written and not yet read, oldest first.\<close>

definition pipe_bytes :: "kpipe \<Rightarrow> nat list" where
  "pipe_bytes p = pring.contents (p_buf p) (p_r p) (p_size p)"

lemma pipe_bytes_length [simp]: "length (pipe_bytes p) = p_size p"
  by (simp add: pipe_bytes_def)

text \<open>The fields outside the ring, which the copy loops leave alone.\<close>

definition pipe_ends :: "kpipe \<Rightarrow> string \<times> int \<times> int \<times> bool \<times> (nat \<times> nat) list \<times> (nat \<times> nat) list" where
  "pipe_ends p = (p_name p, p_readers p, p_writers p, p_unlinked p, p_rwait p, p_wwait p)"

lemma pipe_drop_head:
  assumes "pipe_wf p" "0 < p_size p"
  defines "p' \<equiv> p\<lparr>p_r := (p_r p + 1) mod PIPE_CAP, p_size := p_size p - 1\<rparr>"
  shows "pipe_wf p'" "pipe_bytes p = p_buf p (p_r p) # pipe_bytes p'" "pipe_ends p' = pipe_ends p"
proof -
  obtain m where m: "p_size p = Suc m" using assms(2) by (cases "p_size p") auto
  show "pipe_wf p'"
    using assms(1) pring.head_step [OF assms(2), of "p_r p"]
    by (auto simp: pipe_wf_def p'_def PIPE_CAP_def)
  show "pipe_bytes p = p_buf p (p_r p) # pipe_bytes p'"
    using assms(1) by (simp add: pipe_wf_def pipe_bytes_def p'_def m pring.contents_head)
  show "pipe_ends p' = pipe_ends p" by (simp add: pipe_ends_def p'_def)
qed

lemma pipe_take_spec:
  "pipe_wf p \<Longrightarrow> n \<le> p_size p \<Longrightarrow> pipe_take n p = (bs, p') \<Longrightarrow>
   bs = take n (pipe_bytes p) \<and> pipe_wf p' \<and> pipe_bytes p' = drop n (pipe_bytes p)
   \<and> pipe_ends p' = pipe_ends p"
proof (induction n p arbitrary: bs p' rule: pipe_take.induct)
  case (2 n p)
  let ?p = "p\<lparr>p_r := (p_r p + 1) mod PIPE_CAP, p_size := p_size p - 1\<rparr>"
  obtain cs q where rec: "pipe_take n ?p = (cs, q)" by fastforce
  have out: "bs = p_buf p (p_r p) # cs" "p' = q" using 2(4) rec by (auto simp: Let_def)
  have pos: "0 < p_size p" using 2(3) by simp
  from 2(1) [OF refl pipe_drop_head(1) [OF 2(2) pos] _ rec] 2(3) out pipe_drop_head(2,3) [OF 2(2) pos]
  show ?case by simp
qed simp

lemma pipe_put_spec:
  "pipe_wf p \<Longrightarrow> p_size p + length bs \<le> PIPE_CAP \<Longrightarrow>
   pipe_wf (pipe_put bs p) \<and> pipe_bytes (pipe_put bs p) = pipe_bytes p @ bs
   \<and> pipe_ends (pipe_put bs p) = pipe_ends p"
proof (induction bs p rule: pipe_put.induct)
  case (2 b bs p)
  let ?p = "p\<lparr>p_buf := (p_buf p)(p_w p := b), p_w := (p_w p + 1) mod PIPE_CAP, p_size := p_size p + 1\<rparr>"
  have lt: "p_size p < PIPE_CAP" using 2(3) by simp
  have "pipe_wf ?p" "pipe_bytes ?p = pipe_bytes p @ [b]" "pipe_ends ?p = pipe_ends p"
    using 2(2) lt pring.contents_snoc [OF lt] pring.tail_step
    by (auto simp: pipe_wf_def pipe_bytes_def pipe_ends_def)
  with 2(1) 2(3) show ?case by simp
qed simp

end
