(* ===== verification/Wake.thy ===== *)
theory Wake
  imports Proc_Base Pipe
begin

text \<open>
  Waking a process, and everything that can happen on the way. \<^verbatim>\<open>proc_unblock\<close> first collects
  zombies; freeing a zombie's slot destroys its descriptor table, which closes its files, and closing
  the last end of a pipe wakes the processes waiting on it through \<^verbatim>\<open>proc_unblock\<close> again
  (\<^verbatim>\<open>proc.c\<close>, \<^verbatim>\<open>fd.c\<close>, \<^verbatim>\<open>pipe_fd.c\<close>, \<^verbatim>\<open>pipe.c\<close>). The functions take the waking function as
  an argument \<open>U\<close>; \<open>proc_unblock\<close> ties the knot as a least fixed point, so a call chain that
  never ends has no result.
\<close>

type_synonym unblock = "int \<Rightarrow> kernel \<Rightarrow> (int \<times> kernel) option"

section \<open>Closing a pipe end\<close>

text \<open>
  The \<^verbatim>\<open>while ((proc = dequeue_reader(p)) != NULL)\<close> loops; \<open>n\<close> bounds the iterations and is one
  more than the length of the queue, from which waking only removes.
\<close>

fun wake_readers :: "unblock \<Rightarrow> nat \<Rightarrow> nat \<Rightarrow> kernel \<Rightarrow> kernel option" where
  "wake_readers U 0 a k = None"
| "wake_readers U (Suc n) a k = do {
     (pr, k1) \<leftarrow> dequeue_reader a k;
     case pr of None \<Rightarrow> Some k1
     | Some i \<Rightarrow> do { (_, k2) \<leftarrow> U (pid (procs k1 i)) k1; wake_readers U n a k2 }
   }"

fun wake_writers :: "unblock \<Rightarrow> nat \<Rightarrow> nat \<Rightarrow> kernel \<Rightarrow> kernel option" where
  "wake_writers U 0 a k = None"
| "wake_writers U (Suc n) a k = do {
     (pr, k1) \<leftarrow> dequeue_writer a k;
     case pr of None \<Rightarrow> Some k1
     | Some i \<Rightarrow> do { (_, k2) \<leftarrow> U (pid (procs k1 i)) k1; wake_writers U n a k2 }
   }"

text \<open>The counters of \<^verbatim>\<open>kpipe_close\<close>, before anybody is woken.\<close>

definition drop_ends :: "bool \<Rightarrow> bool \<Rightarrow> kpipe \<Rightarrow> kpipe" where
  "drop_ends was_read was_write p =
    p\<lparr>p_readers := (if was_read \<and> p_readers p > 0 then p_readers p - 1 else p_readers p),
      p_writers := (if was_write \<and> p_writers p > 0 then p_writers p - 1 else p_writers p)\<rparr>"

definition kpipe_close_with :: "unblock \<Rightarrow> nat \<Rightarrow> bool \<Rightarrow> bool \<Rightarrow> kernel \<Rightarrow> (int \<times> kernel) option" where
  "kpipe_close_with U a was_read was_write k =
    (if a = 0 then Some (-1, k)
     else do {
       p0 \<leftarrow> pipes k a;
       let p = drop_ends was_read was_write p0;
       let k1 = set_pipe a p k;
       let should_wake_readers = (p_writers p = 0 \<and> p_rwait p \<noteq> []);
       let should_wake_writers = (p_readers p = 0 \<and> p_wwait p \<noteq> []);
       let should_free = (p_unlinked p \<and> p_readers p = 0 \<and> p_writers p = 0);
       k2 \<leftarrow> (if should_wake_readers then wake_readers U (Suc (length (p_rwait p))) a k1 else Some k1);
       k3 \<leftarrow> (if should_wake_writers then wake_writers U (Suc (length (p_wwait p))) a k2 else Some k2);
       k4 \<leftarrow> (if should_free then pipe_free a k3 else Some k3);
       Some (0, k4)
     })"

section \<open>Releasing files and descriptor tables\<close>

definition fd_tty_close :: "kfile \<Rightarrow> kernel \<Rightarrow> int \<times> kernel" where
  "fd_tty_close fl k = (if fptr fl = 0 then (-1, k) else tty_close k)"

definition fd_pipe_close_with :: "unblock \<Rightarrow> kfile \<Rightarrow> kernel \<Rightarrow> (int \<times> kernel) option" where
  "fd_pipe_close_with U fl k =
    (if fptr fl = 0 then Some (-1, k)
     else kpipe_close_with U (fptr fl) (can_read fl) (can_write fl) k)"

definition set_file :: "nat \<Rightarrow> kfile \<Rightarrow> kernel \<Rightarrow> kernel" where
  "set_file f fl k = k\<lparr>files := (files k)(f := Some fl)\<rparr>"

definition file_release_with :: "unblock \<Rightarrow> nat \<Rightarrow> kernel \<Rightarrow> kernel option" where
  "file_release_with U f k =
    (if f = 0 then Some k
     else do {
       fl0 \<leftarrow> files k f;
       let fl = fl0\<lparr>refcount := refcount fl0 - 1\<rparr>;
       let k1 = set_file f fl k;
       if refcount fl > 0 then Some k1
       else do {
         (_, k2) \<leftarrow> (case fops fl of TTY_OPS \<Rightarrow> Some (fd_tty_close fl k1)
                               | PIPE_OPS \<Rightarrow> fd_pipe_close_with U fl k1);
         kfree f (k2\<lparr>files := (files k2)(f := None)\<rparr>)
       }
     })"

definition set_entry :: "nat \<Rightarrow> nat \<Rightarrow> nat \<Rightarrow> kernel \<Rightarrow> kernel option" where
  "set_entry t i f k = do {
     es \<leftarrow> fd_tables k t;
     Some (k\<lparr>fd_tables := (fd_tables k)(t := Some (es[i := f]))\<rparr>)
   }"

fun fd_destroy_loop :: "unblock \<Rightarrow> nat \<Rightarrow> nat list \<Rightarrow> kernel \<Rightarrow> kernel option" where
  "fd_destroy_loop U t [] k = Some k"
| "fd_destroy_loop U t (i # is) k = do {
     es \<leftarrow> fd_tables k t;
     k1 \<leftarrow> (if es ! i \<noteq> 0 then do { k' \<leftarrow> file_release_with U (es ! i) k; set_entry t i 0 k' } else Some k);
     fd_destroy_loop U t is k1
   }"

definition fd_table_destroy_with :: "unblock \<Rightarrow> nat \<Rightarrow> kernel \<Rightarrow> kernel option" where
  "fd_table_destroy_with U t k =
    (if t = 0 then Some k
     else do {
       k1 \<leftarrow> fd_destroy_loop U t [0 ..< FD_MAX] k;
       kfree t (k1\<lparr>fd_tables := (fd_tables k1)(t := None)\<rparr>)
     })"

section \<open>Zombies\<close>

definition release_slot_with :: "unblock \<Rightarrow> nat \<Rightarrow> kernel \<Rightarrow> kernel option" where
  "release_slot_with U proc k = do {
     k1 \<leftarrow> (if fd_table (procs k proc) \<noteq> 0 then do {
              k' \<leftarrow> fd_table_destroy_with U (fd_table (procs k proc)) k;
              Some (upd proc (fd_table_update (\<lambda>_. 0)) k')
            } else Some k);
     k2 \<leftarrow> cleanup_wait_results proc k1;
     Some (upd proc (\<lambda>p. p\<lparr>wait_res := [], pending_exit_valid := False, child_head := None,
                          sibling_next := None, waiter_head := None, used := False\<rparr>) k2)
   }"

text \<open>The loop of \<^verbatim>\<open>collect_zombies\<close>; \<open>n\<close> bounds the length of the list by the number of slots.\<close>

fun zombie_loop :: "unblock \<Rightarrow> nat \<Rightarrow> nat option \<Rightarrow> nat option \<Rightarrow> kernel \<Rightarrow> kernel option" where
  "zombie_loop U 0 cursor pending k = None"
| "zombie_loop U (Suc n) cursor pending k =
    (case cursor of
       None \<Rightarrow> Some (k\<lparr>zombie_head := pending\<rparr>)
     | Some c \<Rightarrow>
         let nx = cleanup_next (procs k c);
             k1 = upd c (cleanup_next_update (\<lambda>_. None)) k
         in if zombie_reapable (procs k1 c) \<or> parent_pid (procs k1 c) < 0 then do {
              k2 \<leftarrow> (if kstack_base (procs k1 c) \<noteq> 0 then do {
                       k' \<leftarrow> kfree (kstack_base (procs k1 c)) k1;
                       Some (upd c (kstack_base_update (\<lambda>_. 0)) k')
                     } else Some k1);
              k3 \<leftarrow> cleanup_wait_results c k2;
              k4 \<leftarrow> release_slot_with U c k3;
              zombie_loop U n nx pending k4
            } else zombie_loop U n nx (Some c) (upd c (cleanup_next_update (\<lambda>_. pending)) k1))"

definition collect_zombies_with :: "unblock \<Rightarrow> kernel \<Rightarrow> kernel option" where
  "collect_zombies_with U k = zombie_loop U (Suc MAX_PROCS) (zombie_head k) None k"

section \<open>proc_unblock\<close>

definition proc_unblock_with :: "unblock \<Rightarrow> int \<Rightarrow> kernel \<Rightarrow> (int \<times> kernel) option" where
  "proc_unblock_with U pd k = do {
     k1 \<leftarrow> collect_zombies_with U k;
     case proc_by_pid pd k1 of
       None \<Rightarrow> Some (-1, k1)
     | Some i \<Rightarrow>
         if state (procs k1 i) = BLOCKED then do {
           k2 \<leftarrow> sched_enqueue i (upd i (\<lambda>p. p\<lparr>state := READY, ticks_left := TIME_SLICE_TICKS,
                                             aging_ticks := 0\<rparr>) k1);
           Some (0, k2)
         } else Some (-1, k1)
   }"

text \<open>Every function above is monotone in the waking function, so the fixed point exists.\<close>

lemma mono_let: "(\<And>y. mono_option (\<lambda>f. B y f)) \<Longrightarrow> mono_option (\<lambda>f. Let x (\<lambda>y. B y f))"
  by (simp add: Let_def)

lemma mono_if: "mono_option (\<lambda>f. A f) \<Longrightarrow> mono_option (\<lambda>f. B f) \<Longrightarrow> mono_option (\<lambda>f. if c then A f else B f)"
  by (cases c) simp_all

lemma mono_prod: "(\<And>x y. mono_option (\<lambda>f. B x y f)) \<Longrightarrow> mono_option (\<lambda>f. case p of (x, y) \<Rightarrow> B x y f)"
  by (cases p) simp

lemma mono_optcase:
  "mono_option (\<lambda>f. A f) \<Longrightarrow> (\<And>x. mono_option (\<lambda>f. B x f)) \<Longrightarrow>
   mono_option (\<lambda>f. case x of None \<Rightarrow> A f | Some y \<Rightarrow> B y f)"
  by (cases x) simp_all

lemma mono_opscase:
  "mono_option (\<lambda>f. A f) \<Longrightarrow> mono_option (\<lambda>f. B f) \<Longrightarrow>
   mono_option (\<lambda>f. case x of TTY_OPS \<Rightarrow> A f | PIPE_OPS \<Rightarrow> B f)"
  by (cases x) simp_all

lemma mono_const: "mono_option (\<lambda>f. c)"
  by (rule option.const_mono)

lemmas mono_steps = bind_mono mono_let mono_if mono_prod mono_optcase mono_opscase mono_const

lemma wake_readers_mono:
  assumes U: "\<And>pd k. mono_option (\<lambda>f. U f pd k)"
  shows "mono_option (\<lambda>f. wake_readers (U f) n a k)"
proof (induction n arbitrary: k)
  case 0
  show ?case unfolding wake_readers.simps by (rule mono_const)
next
  case (Suc n)
  show ?case unfolding wake_readers.simps by (intro mono_steps U Suc)
qed

lemma wake_writers_mono:
  assumes U: "\<And>pd k. mono_option (\<lambda>f. U f pd k)"
  shows "mono_option (\<lambda>f. wake_writers (U f) n a k)"
proof (induction n arbitrary: k)
  case 0
  show ?case unfolding wake_writers.simps by (rule mono_const)
next
  case (Suc n)
  show ?case unfolding wake_writers.simps by (intro mono_steps U Suc)
qed

lemma file_release_mono:
  assumes U: "\<And>pd k. mono_option (\<lambda>f. U f pd k)"
  shows "mono_option (\<lambda>f. file_release_with (U f) x k)"
  unfolding file_release_with_def fd_pipe_close_with_def kpipe_close_with_def
  by (intro mono_steps wake_readers_mono wake_writers_mono U)

lemma fd_destroy_loop_mono:
  assumes U: "\<And>pd k. mono_option (\<lambda>f. U f pd k)"
  shows "mono_option (\<lambda>f. fd_destroy_loop (U f) t is k)"
proof (induction "is" arbitrary: k)
  case Nil
  show ?case unfolding fd_destroy_loop.simps by (rule mono_const)
next
  case (Cons i js)
  show ?case unfolding fd_destroy_loop.simps by (intro mono_steps file_release_mono U Cons)
qed

lemma release_slot_mono:
  assumes U: "\<And>pd k. mono_option (\<lambda>f. U f pd k)"
  shows "mono_option (\<lambda>f. release_slot_with (U f) proc k)"
  unfolding release_slot_with_def fd_table_destroy_with_def
  by (intro mono_steps fd_destroy_loop_mono U)

lemma zombie_loop_mono:
  assumes U: "\<And>pd k. mono_option (\<lambda>f. U f pd k)"
  shows "mono_option (\<lambda>f. zombie_loop (U f) n cursor pending k)"
proof (induction n arbitrary: cursor pending k)
  case 0
  show ?case unfolding zombie_loop.simps by (rule mono_const)
next
  case (Suc n)
  show ?case unfolding zombie_loop.simps by (intro mono_steps release_slot_mono U Suc)
qed

lemma proc_unblock_with_mono [partial_function_mono]:
  assumes U: "\<And>pd k. mono_option (\<lambda>f. U f pd k)"
  shows "mono_option (\<lambda>f. proc_unblock_with (U f) pd k)"
  unfolding proc_unblock_with_def collect_zombies_with_def
  by (intro mono_steps zombie_loop_mono U)

partial_function (option) proc_unblock :: "int \<Rightarrow> kernel \<Rightarrow> (int \<times> kernel) option" where
  "proc_unblock pd k = proc_unblock_with proc_unblock pd k"

declare proc_unblock.simps [code]

section \<open>The functions with the knot tied\<close>

definition collect_zombies :: "kernel \<Rightarrow> kernel option" where
  "collect_zombies k = collect_zombies_with proc_unblock k"

definition release_slot :: "nat \<Rightarrow> kernel \<Rightarrow> kernel option" where
  "release_slot proc k = release_slot_with proc_unblock proc k"

definition file_release :: "nat \<Rightarrow> kernel \<Rightarrow> kernel option" where
  "file_release f k = file_release_with proc_unblock f k"

definition fd_table_destroy :: "nat \<Rightarrow> kernel \<Rightarrow> kernel option" where
  "fd_table_destroy t k = fd_table_destroy_with proc_unblock t k"

definition kpipe_close :: "nat \<Rightarrow> bool \<Rightarrow> bool \<Rightarrow> kernel \<Rightarrow> (int \<times> kernel) option" where
  "kpipe_close a was_read was_write k = kpipe_close_with proc_unblock a was_read was_write k"

section \<open>Waking when no zombie is pending\<close>

lemma collect_zombies_none: "zombie_head k = None \<Longrightarrow> collect_zombies_with U k = Some k"
  by (simp add: collect_zombies_with_def)

text \<open>
  Waking a blocked process puts it in the ready queue; in every other state it is refused. This is
  the contract the blocking operations rely on.
\<close>

lemma proc_unblock_blocked:
  assumes "zombie_head k = None" "proc_by_pid pd k = Some i" "state (procs k i) = BLOCKED"
  shows "proc_unblock pd k = Option.bind (sched_enqueue i (upd i (\<lambda>p. p\<lparr>state := READY,
     ticks_left := TIME_SLICE_TICKS, aging_ticks := 0\<rparr>) k)) (\<lambda>k2. Some (0, k2))"
  using assms by (subst proc_unblock.simps) (simp add: proc_unblock_with_def collect_zombies_none)

lemma proc_unblock_refused:
  assumes "zombie_head k = None" "proc_by_pid pd k = None \<or>
     (\<exists>i. proc_by_pid pd k = Some i \<and> state (procs k i) \<noteq> BLOCKED)"
  shows "proc_unblock pd k = Some (-1, k)"
  using assms by (subst proc_unblock.simps) (auto simp: proc_unblock_with_def collect_zombies_none)

end
