(* ===== verification/Kernel_Inv.thy ===== *)
theory Kernel_Inv
  imports Wake Sched_Run
begin

text \<open>
  What the operations of the kernel rely on between two events: a consistent scheduler, a well-formed
  heap, no zombie waiting to be collected, and a process table with one process per pid. On top of it
  the contract of \<^verbatim>\<open>proc_unblock\<close> that every waiter queue is built on, and the queues themselves.
\<close>

section \<open>The invariant\<close>

definition table_ok :: "kernel \<Rightarrow> bool" where
  "table_ok k \<longleftrightarrow> (\<forall>i < MAX_PROCS. used (procs k i) \<longrightarrow> 0 < pid (procs k i))
     \<and> (\<forall>i < MAX_PROCS. \<forall>j < MAX_PROCS. used (procs k i) \<and> used (procs k j) \<and> pid (procs k i) = pid (procs k j) \<longrightarrow> i = j)"

definition kernel_ok :: "kernel \<Rightarrow> bool" where
  "kernel_ok k \<longleftrightarrow> (\<exists>Q. sched_ok Q k) \<and> kheap_ok k \<and> zombie_head k = None \<and> table_ok k"

lemma sched_ok_cong:
  assumes "procs s' = procs s" "ready_head s' = ready_head s" "ready_tail s' = ready_tail s" "cur s' = cur s"
    "idle_proc s' = idle_proc s" "scheduler_enabled s' = scheduler_enabled s"
  shows "sched_ok Q s' = sched_ok Q s"
  using assms by (simp only: sched_ok_def sched_pre_def sched_inv_def queues_def in_prio_def)

lemma kernel_ok_cong:
  assumes "procs k' = procs k" "ready_head k' = ready_head k" "ready_tail k' = ready_tail k" "cur k' = cur k"
    "idle_proc k' = idle_proc k" "scheduler_enabled k' = scheduler_enabled k" "zombie_head k' = zombie_head k"
    "mm_inv (heap k') = mm_inv (heap k)"
  shows "kernel_ok k' = kernel_ok k"
  using assms sched_ok_cong [OF assms(1-6)] by (simp add: kernel_ok_def kheap_ok_def table_ok_def)

lemma kernel_ok_objects [simp]:
  "kernel_ok (k\<lparr>pipes := x1\<rparr>) = kernel_ok k" "kernel_ok (k\<lparr>sems := x2\<rparr>) = kernel_ok k"
  "kernel_ok (k\<lparr>default_tty := x3\<rparr>) = kernel_ok k" "kernel_ok (set_pipe a p k) = kernel_ok k"
  "kernel_ok (k\<lparr>sem_buckets := x4\<rparr>) = kernel_ok k" "kernel_ok (k\<lparr>files := x5\<rparr>) = kernel_ok k"
  "kernel_ok (k\<lparr>default_tty_initialized := x6\<rparr>) = kernel_ok k"
  by (intro kernel_ok_cong; simp add: set_pipe_def)+

lemma kernel_ok_heap: "kernel_ok k \<Longrightarrow> mm_inv h \<Longrightarrow> kernel_ok (k\<lparr>heap := h\<rparr>)"
proof -
  assume ok: "kernel_ok k" and h: "mm_inv h"
  then have "mm_inv (heap k)" by (simp add: kernel_ok_def kheap_ok_def)
  with h have "kernel_ok (k\<lparr>heap := h\<rparr>) = kernel_ok k" by (intro kernel_ok_cong) simp_all
  with ok show ?thesis by simp
qed

lemma kernel_ok_cur: "kernel_ok k \<Longrightarrow> \<exists>c. cur k = Some c \<and> state (procs k c) = RUNNING \<and> c < MAX_PROCS"
proof -
  assume "kernel_ok k"
  then obtain Q where Q: "sched_ok Q k" by (auto simp: kernel_ok_def)
  then have pre: "sched_pre Q k" by (simp add: sched_ok_def)
  then obtain c where c: "cur k = Some c" "c < MAX_PROCS" by (auto elim!: sched_preD)
  with Q have "state (procs k c) = RUNNING" by (simp add: sched_ok_def)
  with c show ?thesis by blast
qed

lemma find_slot_unique:
  assumes "i < MAX_PROCS" "P (procs k i)" "\<And>j. j < MAX_PROCS \<Longrightarrow> P (procs k j) \<Longrightarrow> j = i"
  shows "find_slot P k = Some i"
  unfolding find_slot_def find_Some_iff
proof (intro exI [of _ i] conjI allI impI)
  fix j assume "j < i"
  with assms(1) assms(3) [of j] show "\<not> P (procs k ([0..<MAX_PROCS] ! j))" by auto
qed (use assms(1,2) in auto)

lemma proc_by_pid_found:
  assumes "table_ok k" "i < MAX_PROCS" "used (procs k i)"
  shows "proc_by_pid (pid (procs k i)) k = Some i"
proof -
  from assms have "0 < pid (procs k i)" by (simp add: table_ok_def)
  moreover have "find_slot (\<lambda>p. used p \<and> pid p = pid (procs k i)) k = Some i"
    by (rule find_slot_unique) (use assms in \<open>auto simp: table_ok_def\<close>)
  ultimately show ?thesis by (simp add: proc_by_pid_def)
qed

lemma table_ok_core: "\<forall>i. core (procs k' i) = core (procs k i) \<Longrightarrow> table_ok k' = table_ok k"
proof -
  assume "\<forall>i. core (procs k' i) = core (procs k i)"
  then have "pid (procs k' i) = pid (procs k i)" "used (procs k' i) = used (procs k i)" for i
    using core_eqD(1,2) by blast+
  then show ?thesis by (simp add: table_ok_def)
qed

text \<open>The part of the state that is not the scheduler's.\<close>

lemma more_eqD:
  assumes "sched_st.more k' = sched_st.more (k :: kernel)"
  shows "pipes k' = pipes k" "sems k' = sems k" "heap k' = heap k" "default_tty k' = default_tty k"
    "zombie_head k' = zombie_head k" "files k' = files k" "fd_tables k' = fd_tables k"
    "sem_buckets k' = sem_buckets k" "pipe_buckets k' = pipe_buckets k" "sem_handles k' = sem_handles k"
    "default_tty_initialized k' = default_tty_initialized k" "screen k' = screen k"
  using assms by (cases k; cases k'; simp)+

section \<open>Sleeping and waking\<close>

definition sleeper :: "kernel \<Rightarrow> nat \<Rightarrow> bool" where
  "sleeper k i \<longleftrightarrow> i < MAX_PROCS \<and> state (procs k i) = BLOCKED \<and> prio_ok (procs k i) \<and> kframe (procs k i) \<noteq> 0
     \<and> idle_proc k \<noteq> Some i"

definition woken :: "nat set \<Rightarrow> kernel \<Rightarrow> kernel \<Rightarrow> bool" where
  "woken I k k' \<longleftrightarrow> cur k' = cur k \<and> idle_proc k' = idle_proc k \<and> sched_st.more k' = sched_st.more k
     \<and> (\<forall>j. strip (procs k' j) = strip (if j \<in> I then enqueued_pcb (procs k j) else procs k j))"

lemma strip_enqueued: "strip p = strip q \<Longrightarrow> strip (enqueued_pcb p) = strip (enqueued_pcb q)"
  by (cases p; cases q) (simp add: strip_def enqueued_pcb_def)

lemma woken_fields:
  assumes "woken I k k'"
  shows "state (procs k' j) = (if j \<in> I then READY else state (procs k j))"
    "pid (procs k' j) = pid (procs k j)" "used (procs k' j) = used (procs k j)"
    "kframe (procs k' j) = kframe (procs k j)" "prio_ok (procs k' j) = prio_ok (procs k j)"
    "core (procs k' j) = core (procs k j)"
proof -
  have eq: "strip (procs k' j) = strip (if j \<in> I then enqueued_pcb (procs k j) else procs k j)"
    using assms by (simp add: woken_def)
  have "state (procs k' j) = state (if j \<in> I then enqueued_pcb (procs k j) else procs k j)"
    using eq by (rule strip_eqD)
  then show "state (procs k' j) = (if j \<in> I then READY else state (procs k j))" by (simp split: if_splits)
  have "kframe (procs k' j) = kframe (if j \<in> I then enqueued_pcb (procs k j) else procs k j)"
    using eq by (rule strip_eqD)
  then show "kframe (procs k' j) = kframe (procs k j)" by (simp add: enqueued_pcb_def split: if_splits)
  show c: "core (procs k' j) = core (procs k j)" using core_strip [OF eq] by (simp split: if_splits)
  from core_eqD [OF c] show "pid (procs k' j) = pid (procs k j)" "used (procs k' j) = used (procs k j)"
    "prio_ok (procs k' j) = prio_ok (procs k j)" by simp_all
qed

lemma woken_sleeper: "woken I k k' \<Longrightarrow> j \<notin> I \<Longrightarrow> sleeper k' j = sleeper k j"
proof -
  assume w: "woken I k k'" and j: "j \<notin> I"
  from w have "idle_proc k' = idle_proc k" by (simp add: woken_def)
  with j woken_fields [OF w, of j] show ?thesis by (simp add: sleeper_def)
qed

text \<open>A process that marks itself blocked and yields sleeps, and the others keep sleeping.\<close>

lemma block_and_yield:
  assumes ok: "kernel_ok k" and c: "cur k = Some me" "idle_proc k \<noteq> Some me" and sp: "sp \<noteq> 0"
  defines "kb \<equiv> upd me (\<lambda>p. p\<lparr>state := BLOCKED, ticks_left := 0\<rparr>) k"
  shows "\<exists>r k'. sched_force_yield sp kb = Some (r, k') \<and> kernel_ok k' \<and> sleeper k' me
    \<and> sched_st.more k' = sched_st.more k \<and> (\<forall>i. core (procs k' i) = core (procs k i))
    \<and> (\<forall>i. sleeper k i \<longrightarrow> sleeper k' i) \<and> cur k' \<noteq> Some me"
proof -
  let ?f = "\<lambda>p. p\<lparr>state := BLOCKED, ticks_left := 0\<rparr>"
  from ok obtain Q where Q: "sched_ok Q k" "kheap_ok k" "zombie_head k = None" "table_ok k"
    by (auto simp: kernel_ok_def)
  from Q(1) have pre: "sched_pre Q k" by (simp add: sched_ok_def)
  have "sched_pre Q kb" unfolding kb_def using sched_pre_upd_cur [OF pre c(1), of ?f] by (simp add: const_defs)
  from yield_ok [OF this _ sp, of me] c(1) obtain r k' Q' where
    k': "sched_force_yield sp kb = Some (r, k')" "sched_ok Q' k'" "ctx_frame kb k'" by (auto simp: kb_def)
  note fr = ctx_frameD [OF k'(3)]
  have more: "sched_st.more k' = sched_st.more k" and idle: "idle_proc k' = idle_proc k"
    using fr(1,2) by (simp_all add: kb_def)
  have cores: "core (procs k' i) = core (procs k i)" for i using fr(3) [of i] by (simp add: kb_def)
  have st: "state (procs k' i) = BLOCKED" if "state (procs kb i) = BLOCKED" "idle_proc k \<noteq> Some i" for i
    using fr(4) [of i] that by (simp add: kb_def)
  have kf: "kframe (procs k' i) \<noteq> 0" if "kframe (procs k i) \<noteq> 0 \<or> i = me" for i
    using fr(5) [of i] that c(1) by (auto simp: kb_def)
  have me: "prio_ok (procs k me)" "me < MAX_PROCS"
    using pre c(1) by (auto simp: sched_inv_alt elim!: sched_preD)
  have sl: "sleeper k' i" if "sleeper k i \<or> i = me" for i
  proof -
    have "state (procs kb i) = BLOCKED" "idle_proc k \<noteq> Some i" "i < MAX_PROCS" "prio_ok (procs k i)"
      "kframe (procs k i) \<noteq> 0 \<or> i = me" using that c(2) me by (auto simp: sleeper_def kb_def)
    then show ?thesis using st [of i] kf [of i] idle core_eqD(9) [OF cores [of i]] by (simp add: sleeper_def)
  qed
  have "kernel_ok k'"
    using Q k'(2) more_eqD(3,5) [OF more] table_ok_core [of k' k] cores by (auto simp: kernel_ok_def kheap_ok_def)
  moreover from this have "cur k' \<noteq> Some me" using kernel_ok_cur [of k'] sl [of me] by (auto simp: sleeper_def)
  ultimately show ?thesis using k'(1) sl more cores by blast
qed

text \<open>The contract: waking a sleeping process makes it ready and changes nothing else.\<close>

locale waker =
  fixes U :: unblock
  assumes wake_law: "kernel_ok k \<Longrightarrow> sleeper k i \<Longrightarrow>
    \<exists>k'. U (pid (procs k i)) k = Some (0, k') \<and> kernel_ok k' \<and> woken {i} k k'"

lemma proc_unblock_wakes:
  assumes ok: "kernel_ok k" and i: "sleeper k i"
  shows "\<exists>k'. proc_unblock (pid (procs k i)) k = Some (0, k') \<and> kernel_ok k' \<and> woken {i} k k'"
proof -
  from ok obtain Q where Q: "sched_ok Q k" "kheap_ok k" "zombie_head k = None" "table_ok k"
    by (auto simp: kernel_ok_def)
  from i have il: "i < MAX_PROCS" "state (procs k i) = BLOCKED" "used (procs k i)"
    by (auto simp: sleeper_def prio_ok_def)
  from kernel_ok_cur [OF ok] obtain c where c: "cur k = Some c" "state (procs k c) = RUNNING" by blast
  with i have "fresh_ok k i" by (auto simp: fresh_ok_def sleeper_def)
  from enqueue_ok [OF Q(1) this] obtain k' Q' where
    k': "sched_enqueue i k = Some k'" "sched_ok Q' k'" "qframe (upd i enqueued_pcb k) k'" by blast
  have "proc_unblock (pid (procs k i)) k = Some (0, k')"
    using proc_unblock_blocked [OF Q(3) proc_by_pid_found [OF Q(4) il(1,3)] il(2)] enqueue_woken [of k i] c k'(1)
    by simp
  moreover have w: "woken {i} k k'"
    using k'(3) by (simp add: woken_def qframe_def)
  moreover have "kernel_ok k'"
  proof -
    have "sched_st.more k' = sched_st.more k" using w by (simp add: woken_def)
    note m = more_eqD [OF this]
    have "table_ok k' = table_ok k" by (rule table_ok_core) (simp add: woken_fields [OF w])
    with Q k'(2) show ?thesis by (auto simp: kernel_ok_def kheap_ok_def m)
  qed
  ultimately show ?thesis by blast
qed

interpretation unblocking: waker proc_unblock
  by unfold_locales (rule proc_unblock_wakes)

end
