(* ===== verification/Waiters.thy ===== *)
theory Waiters
  imports Kernel_Inv
begin

text \<open>
  Waiter queues: lists of heap nodes with the processes that sleep on them. Taking the first node
  off, waking its process, and draining a whole queue, once for any queue of a pipe and any waking
  function that keeps the contract of \<open>waker\<close>.
\<close>

section \<open>Queues of sleepers\<close>

definition queue_ok :: "kernel \<Rightarrow> (nat \<times> nat) list \<Rightarrow> bool" where
  "queue_ok k ws \<longleftrightarrow> distinct (map fst ws) \<and> distinct (map snd ws)
     \<and> (\<forall>(w, i) \<in> set ws. sleeper k i \<and> w \<in> fst ` mm_live (heap k))"

lemma queue_okD: "queue_ok k ws \<Longrightarrow> (w, i) \<in> set ws \<Longrightarrow> sleeper k i \<and> w \<in> fst ` mm_live (heap k)"
  unfolding queue_ok_def by blast

lemma queue_ok_mono:
  assumes "queue_ok k ws" "\<And>i. sleeper k i \<Longrightarrow> sleeper k' i" "mm_live (heap k) \<subseteq> mm_live (heap k')"
  shows "queue_ok k' ws"
proof -
  have "\<forall>(w, i) \<in> set ws. sleeper k' i \<and> w \<in> fst ` mm_live (heap k')"
    using queue_okD [OF assms(1)] assms(2,3) by blast
  with assms(1) show ?thesis by (simp add: queue_ok_def)
qed

lemma queue_ok_insert:
  assumes "queue_ok k (ws @ vs)" "w \<notin> fst ` set (ws @ vs)" "i \<notin> snd ` set (ws @ vs)" "sleeper k i"
    "w \<in> fst ` mm_live (heap k)"
  shows "queue_ok k (ws @ (w, i) # vs)"
  using assms by (auto simp: queue_ok_def)

text \<open>The nodes \<open>ns\<close> have been given back.\<close>

definition released :: "nat set \<Rightarrow> mm \<Rightarrow> mm \<Rightarrow> bool" where
  "released ns h h' \<longleftrightarrow> mm_inv h' \<and> (\<exists>X \<subseteq> mm_live h. fst ` X = ns \<and> mm_live h' = mm_live h - X)"

lemma released_none: "mm_inv h \<Longrightarrow> released {} h h"
  by (auto simp: released_def)

lemma released_trans: "released ns h h' \<Longrightarrow> released ms h' h'' \<Longrightarrow> released (ns \<union> ms) h h''"
proof -
  assume "released ns h h'" "released ms h' h''"
  then obtain X Y where "X \<subseteq> mm_live h" "fst ` X = ns" "mm_live h' = mm_live h - X" "mm_inv h''"
    "Y \<subseteq> mm_live h'" "fst ` Y = ms" "mm_live h'' = mm_live h' - Y" by (auto simp: released_def)
  then show ?thesis unfolding released_def by (intro conjI exI [of _ "X \<union> Y"]) auto
qed

lemma released_inv: "released ns h h' \<Longrightarrow> mm_inv h'"
  by (simp add: released_def)

lemma released_live: "released ns h h' \<Longrightarrow> x \<in> mm_live h \<Longrightarrow> fst x \<notin> ns \<Longrightarrow> x \<in> mm_live h'"
  by (auto simp: released_def)

lemma kfree_node:
  assumes "kernel_ok k" "w \<in> fst ` mm_live (heap k)"
  shows "\<exists>h. (\<forall>k'. heap k' = heap k \<longrightarrow> kfree w k' = Some (k'\<lparr>heap := h\<rparr>)) \<and> released {w} (heap k) h"
proof -
  from assms(1) have inv: "mm_inv (heap k)" by (simp add: kernel_ok_def kheap_ok_def)
  from assms(2) obtain sz where sz: "(w, sz) \<in> mm_live (heap k)" by auto
  from mmheap.release_law [OF inv sz] obtain h where
    h: "mm_free w (heap k) = Some h" "mm_inv h" "mm_live h = mm_live (heap k) - {(w, sz)}" by blast
  have "released {w} (heap k) h"
    unfolding released_def using h(2,3) sz by (intro conjI exI [of _ "{(w, sz)}"]) auto
  with h(1) show ?thesis by (auto simp: kfree_def)
qed

lemma sleeper_objects [simp]:
  "sleeper (k\<lparr>heap := h\<rparr>) i = sleeper k i" "sleeper (k\<lparr>pipes := x1\<rparr>) i = sleeper k i"
  "sleeper (k\<lparr>sems := x2\<rparr>) i = sleeper k i" "sleeper (k\<lparr>default_tty := x3\<rparr>) i = sleeper k i"
  "sleeper (set_pipe a p k) i = sleeper k i"
  by (simp_all add: sleeper_def set_pipe_def)

text \<open>A queue survives when its sleepers still sleep and its nodes are still allocated.\<close>

lemma queue_ok_keep:
  assumes q: "queue_ok k ws" and s: "\<And>i. i \<in> snd ` set ws \<Longrightarrow> sleeper k i \<Longrightarrow> sleeper k' i"
    and r: "released ns (heap k) (heap k')" "ns \<inter> fst ` set ws = {}"
  shows "queue_ok k' ws"
proof -
  have "sleeper k' i \<and> w \<in> fst ` mm_live (heap k')" if wi: "(w, i) \<in> set ws" for w i
  proof -
    from wi q have "sleeper k i" and "w \<in> fst ` mm_live (heap k)" by (auto simp: queue_ok_def)
    moreover from wi have "w \<in> fst ` set ws" "i \<in> snd ` set ws" by force+
    ultimately show ?thesis using s [of i] r released_live [OF r(1)] by fastforce
  qed
  with q show ?thesis by (auto simp: queue_ok_def)
qed

lemma queue_ok_ConsD:
  assumes "queue_ok k ((w, i) # ws)"
  shows "sleeper k i" "w \<in> fst ` mm_live (heap k)" "w \<notin> fst ` set ws" "i \<notin> snd ` set ws" "queue_ok k ws"
  using assms by (auto simp: queue_ok_def)

lemma queue_ok_append: "queue_ok k (ws @ vs) = queue_ok k (vs @ ws)"
proof -
  have "set (ws @ vs) = set (vs @ ws)" by auto
  moreover have "distinct (map f (ws @ vs)) = distinct (map f (vs @ ws))" for f :: "nat \<times> nat \<Rightarrow> nat" by auto
  ultimately show ?thesis unfolding queue_ok_def by simp
qed

lemma set_pipe_simps [simp]:
  "procs (set_pipe a p k) = procs k" "heap (set_pipe a p k) = heap k" "cur (set_pipe a p k) = cur k"
  "pipes (set_pipe a p k) = (pipes k)(a := Some p)" "sems (set_pipe a p k) = sems k"
  "idle_proc (set_pipe a p k) = idle_proc k" "zombie_head (set_pipe a p k) = zombie_head k"
  by (simp_all add: set_pipe_def)

section \<open>Sets of woken processes\<close>

lemma woken_more: "woken I k k' \<Longrightarrow> sched_st.more k' = sched_st.more k"
  by (simp add: woken_def)

lemma woken_none: "woken {} k k"
  by (simp add: woken_def)

lemma woken_trans:
  assumes a: "woken I k k1" and b: "woken J k1 k2" and d: "I \<inter> J = {}"
  shows "woken (I \<union> J) k k2"
proof -
  have "strip (procs k2 j) = strip (if j \<in> I \<union> J then enqueued_pcb (procs k j) else procs k j)" for j
  proof (cases "j \<in> J")
    case True
    with d a have "strip (procs k1 j) = strip (procs k j)" by (auto simp: woken_def)
    from b True have "strip (procs k2 j) = strip (enqueued_pcb (procs k1 j))" by (simp add: woken_def)
    also have "\<dots> = strip (enqueued_pcb (procs k j))"
      using \<open>strip (procs k1 j) = strip (procs k j)\<close> by (rule strip_enqueued)
    finally show ?thesis using True by simp
  next
    case False
    with a b show ?thesis by (simp add: woken_def)
  qed
  with a b show ?thesis by (simp add: woken_def)
qed

text \<open>The objects on the heap can be exchanged on both sides.\<close>

lemma woken_objects:
  "woken I k k' \<Longrightarrow> woken I (k\<lparr>pipes := x, heap := h\<rparr>) (k'\<lparr>pipes := x, heap := h\<rparr>)"
  by (cases k; cases k') (simp add: woken_def)

section \<open>Going to sleep on a queue\<close>

text \<open>
  The common end of the blocking calls: a node was allocated, some object was changed (\<open>k2\<close>), the
  process marks itself blocked and yields. Any queue can then take the node in at any place.
\<close>

lemma sleep_on:
  assumes ok: "kernel_ok k" and c: "cur k = Some me" "idle_proc k \<noteq> Some me" and sp: "sp \<noteq> 0"
    and w: "mm_malloc n (heap k) = Some (w, h)" "w \<noteq> 0"
    and k2: "kernel_ok (k\<lparr>heap := h\<rparr>) \<Longrightarrow> kernel_ok k2" "procs k2 = procs k" "idle_proc k2 = idle_proc k"
      "cur k2 = cur k" "heap k2 = h"
  shows "\<exists>r k'. sched_force_yield sp (upd me (\<lambda>p. p\<lparr>state := BLOCKED, ticks_left := 0\<rparr>) k2) = Some (r, k')
    \<and> kernel_ok k' \<and> sched_st.more k' = sched_st.more k2 \<and> sleeper k' me \<and> cur k' \<noteq> Some me
    \<and> (\<forall>ws vs. queue_ok k (ws @ vs) \<longrightarrow> queue_ok k' (ws @ (w, me) # vs))"
proof -
  from ok have inv: "mm_inv (heap k)" by (simp add: kernel_ok_def kheap_ok_def)
  note al = mmheap.alloc_keeps [OF inv w(1)]
  from al(3) [OF w(2)] obtain sz where sz: "w \<notin> fst ` mm_live (heap k)" "mm_live h = insert (w, sz) (mm_live (heap k))" by blast
  have k2ok: "kernel_ok k2" by (rule k2(1)) (rule kernel_ok_heap [OF ok al(1)])
  have c2: "cur k2 = Some me" "idle_proc k2 \<noteq> Some me" using c k2 by simp_all
  from block_and_yield [OF k2ok c2 sp] obtain r k' where
    k': "sched_force_yield sp (upd me (\<lambda>p. p\<lparr>state := BLOCKED, ticks_left := 0\<rparr>) k2) = Some (r, k')" "kernel_ok k'"
      "sleeper k' me" "sched_st.more k' = sched_st.more k2" "\<forall>i. sleeper k2 i \<longrightarrow> sleeper k' i" "cur k' \<noteq> Some me" by blast
  have run: "state (procs k me) = RUNNING" using kernel_ok_cur [OF ok] c(1) by auto
  have heap': "heap k' = h" using more_eqD(3) [OF k'(4)] k2(5) by simp
  have "queue_ok k' (ws @ (w, me) # vs)" if q: "queue_ok k (ws @ vs)" for ws vs
  proof -
    have "sleeper k i \<Longrightarrow> sleeper k' i" for i using k'(5) k2(2,3) by (simp add: sleeper_def)
    with q have q': "queue_ok k' (ws @ vs)" by (rule queue_ok_mono) (use heap' sz(2) in auto)
    have "w \<notin> fst ` set (ws @ vs)" using queue_okD [OF q] sz(1) by force
    moreover have "\<not> sleeper k me" using run by (simp add: sleeper_def)
    then have "me \<notin> snd ` set (ws @ vs)" using queue_okD [OF q] by force
    moreover have "w \<in> fst ` mm_live (heap k')" by (simp add: heap' sz(2))
    ultimately show ?thesis using queue_ok_insert [OF q'] k'(3) by blast
  qed
  with k' show ?thesis by blast
qed

section \<open>Freeing a node and waking its process\<close>

context waker
begin

lemma free_and_wake:
  assumes ok: "kernel_ok k" and q: "queue_ok k ((w, i) # vs)"
  shows "\<exists>k1 k2. kfree w k = Some k1 \<and> U (pid (procs k1 i)) k1 = Some (0, k2) \<and> kernel_ok k2 \<and> queue_ok k2 vs
    \<and> released {w} (heap k) (heap k2) \<and> woken {i} (k\<lparr>heap := heap k2\<rparr>) k2"
proof -
  note q = queue_ok_ConsD [OF q]
  from kfree_node [OF ok q(2)] obtain h where
    h: "kfree w k = Some (k\<lparr>heap := h\<rparr>)" "released {w} (heap k) h" by blast
  have k1: "kernel_ok (k\<lparr>heap := h\<rparr>)" by (rule kernel_ok_heap [OF ok released_inv [OF h(2)]])
  from wake_law [OF k1, of i] q(1) obtain k2 where
    k2: "U (pid (procs (k\<lparr>heap := h\<rparr>) i)) (k\<lparr>heap := h\<rparr>) = Some (0, k2)" "kernel_ok k2" "woken {i} (k\<lparr>heap := h\<rparr>) k2" by auto
  have m: "heap k2 = h" using more_eqD(3) [OF woken_more [OF k2(3)]] by simp
  have "queue_ok k2 vs"
  proof (rule queue_ok_keep [OF q(5)])
    show "released {w} (heap k) (heap k2)" using h(2) by (simp add: m)
    show "{w} \<inter> fst ` set vs = {}" using q(3) by simp
    fix j assume j: "j \<in> snd ` set vs" "sleeper k j"
    with q(4) have "j \<notin> {i}" by auto
    from woken_sleeper [OF k2(3) this] j(2) show "sleeper k2 j" by simp
  qed
  with h k2 show ?thesis by (intro exI [of _ "k\<lparr>heap := h\<rparr>"] exI [of _ k2]) (simp add: m)
qed

end

section \<open>Draining a queue of a pipe\<close>

locale drain = waker U for U +
  fixes waits :: "kpipe \<Rightarrow> (nat \<times> nat) list" and set_waits :: "(nat \<times> nat) list \<Rightarrow> kpipe \<Rightarrow> kpipe"
    and loop :: "nat \<Rightarrow> nat \<Rightarrow> kernel \<Rightarrow> kernel option"
  assumes waits_set [simp]: "waits (set_waits ws p) = ws"
    and set_set [simp]: "set_waits vs (set_waits ws p) = set_waits vs p"
    and set_waits_same: "set_waits (waits p) p = p"
    and loop_step: "loop (Suc n) a k = do {
       p \<leftarrow> pipes k a;
       case waits p of [] \<Rightarrow> Some k
       | (w, i) # ws \<Rightarrow> do {
           k1 \<leftarrow> kfree w (set_pipe a (set_waits ws p) k);
           (_, k2) \<leftarrow> U (pid (procs k1 i)) k1;
           loop n a k2
         }
     }"
begin

text \<open>The first node is freed and its process woken; the rest of the queue, and any other queue, stays.\<close>

lemma wake_first:
  assumes ok: "kernel_ok k" and p: "pipes k a = Some p" "waits p = (w, i) # ws" and q: "queue_ok k ((w, i) # ws @ vs)"
  shows "\<exists>k1 k2. kfree w (set_pipe a (set_waits ws p) k) = Some k1 \<and> U (pid (procs k1 i)) k1 = Some (0, k2)
    \<and> kernel_ok k2 \<and> pipes k2 = (pipes k)(a \<mapsto> set_waits ws p) \<and> queue_ok k2 (ws @ vs)
    \<and> released {w} (heap k) (heap k2) \<and> woken {i} (k\<lparr>pipes := pipes k2, heap := heap k2\<rparr>) k2"
proof -
  let ?k = "set_pipe a (set_waits ws p) k"
  from free_and_wake [of ?k w i "ws @ vs"] ok q obtain k1 k2 where
    k2: "kfree w ?k = Some k1" "U (pid (procs k1 i)) k1 = Some (0, k2)" "kernel_ok k2" "queue_ok k2 (ws @ vs)"
      "released {w} (heap k) (heap k2)" "woken {i} (?k\<lparr>heap := heap k2\<rparr>) k2"
    by (auto simp: queue_ok_def)
  have pk: "pipes k2 = (pipes k)(a \<mapsto> set_waits ws p)"
    using more_eqD(1) [OF woken_more [OF k2(6)]] by simp
  have "?k\<lparr>heap := heap k2\<rparr> = k\<lparr>pipes := pipes k2, heap := heap k2\<rparr>" by (simp add: pk set_pipe_def)
  with k2 pk show ?thesis by auto
qed

lemma drain_all:
  assumes "kernel_ok k" "pipes k a = Some p" "queue_ok k (waits p @ vs)" "length (waits p) < n"
  shows "\<exists>k'. loop n a k = Some k' \<and> kernel_ok k' \<and> pipes k' = (pipes k)(a \<mapsto> set_waits [] p) \<and> queue_ok k' vs
    \<and> released (fst ` set (waits p)) (heap k) (heap k')
    \<and> woken (snd ` set (waits p)) (k\<lparr>pipes := pipes k', heap := heap k'\<rparr>) k'"
  using assms
proof (induction n arbitrary: k p)
  case (Suc n)
  show ?case
  proof (cases "waits p")
    case Nil
    with set_waits_same [of p] have same: "(pipes k)(a \<mapsto> set_waits [] p) = pipes k"
      using Suc.prems(2) by (simp add: fun_upd_idem)
    have "released {} (heap k) (heap k)" using Suc.prems(1) by (simp add: kernel_ok_def kheap_ok_def released_none)
    moreover have "woken {} (k\<lparr>pipes := pipes k, heap := heap k\<rparr>) k" by (simp add: woken_none)
    moreover have "loop (Suc n) a k = Some k" using Suc.prems(2) Nil by (simp add: loop_step)
    ultimately show ?thesis using Suc.prems(1,3) Nil same by (intro exI [of _ k]) simp
  next
    case (Cons wi ws)
    obtain w i where wi: "wi = (w, i)" by (cases wi)
    have q0: "queue_ok k ((w, i) # ws @ vs)" using Suc.prems(3) Cons wi by simp
    from wake_first [OF Suc.prems(1,2) Cons [unfolded wi] q0] obtain k1 k2 where
      k2: "kfree w (set_pipe a (set_waits ws p) k) = Some k1" "U (pid (procs k1 i)) k1 = Some (0, k2)"
        "kernel_ok k2" "pipes k2 = (pipes k)(a \<mapsto> set_waits ws p)" "queue_ok k2 (ws @ vs)"
        "released {w} (heap k) (heap k2)" "woken {i} (k\<lparr>pipes := pipes k2, heap := heap k2\<rparr>) k2"
      by (elim exE conjE) (rule that)
    have p2: "pipes k2 a = Some (set_waits ws p)" by (simp add: k2(4))
    have "length ws < n" using Suc.prems(4) Cons by simp
    with k2(5) obtain k3 where
      k3: "loop n a k2 = Some k3" "kernel_ok k3" "pipes k3 = (pipes k2)(a \<mapsto> set_waits [] p)" "queue_ok k3 vs"
        "released (fst ` set ws) (heap k2) (heap k3)"
        "woken (snd ` set ws) (k2\<lparr>pipes := pipes k3, heap := heap k3\<rparr>) k3"
      using Suc.IH [OF k2(3) p2, unfolded waits_set set_set] by blast
    have "loop (Suc n) a k = Some k3"
      using Suc.prems(2) Cons wi k2(1,2) k3(1) by (simp add: loop_step)
    moreover have "pipes k3 = (pipes k)(a \<mapsto> set_waits [] p)" by (simp add: k3(3) k2(4))
    moreover have "released ({w} \<union> fst ` set ws) (heap k) (heap k3)" by (rule released_trans [OF k2(6) k3(5)])
    moreover have "woken ({i} \<union> snd ` set ws) (k\<lparr>pipes := pipes k3, heap := heap k3\<rparr>) k3"
    proof (rule woken_trans [OF _ k3(6)])
      show "woken {i} (k\<lparr>pipes := pipes k3, heap := heap k3\<rparr>) (k2\<lparr>pipes := pipes k3, heap := heap k3\<rparr>)"
        using woken_objects [OF k2(7), where x = "pipes k3" and h = "heap k3"] by simp
      show "{i} \<inter> snd ` set ws = {}" using queue_ok_ConsD(4) [OF q0] by auto
    qed
    ultimately show ?thesis using k3(2,4) Cons wi by auto
  qed
qed simp

end

text \<open>Both queues of a pipe are drained by the loops of \<^verbatim>\<open>kpipe_close\<close>.\<close>

interpretation readers: drain proc_unblock p_rwait "\<lambda>ws p. p\<lparr>p_rwait := ws\<rparr>" "wake_readers proc_unblock"
proof unfold_locales
  fix n a k
  show "wake_readers proc_unblock (Suc n) a k = do {
       p \<leftarrow> pipes k a;
       case p_rwait p of [] \<Rightarrow> Some k
       | (w, i) # ws \<Rightarrow> do {
           k1 \<leftarrow> kfree w (set_pipe a (p\<lparr>p_rwait := ws\<rparr>) k);
           (_, k2) \<leftarrow> proc_unblock (pid (procs k1 i)) k1;
           wake_readers proc_unblock n a k2
         }
     }"
    by (cases "pipes k a") (auto simp: dequeue_reader_def bind_assoc split: list.split intro!: Option.bind_cong)
qed simp_all

interpretation writers: drain proc_unblock p_wwait "\<lambda>ws p. p\<lparr>p_wwait := ws\<rparr>" "wake_writers proc_unblock"
proof unfold_locales
  fix n a k
  show "wake_writers proc_unblock (Suc n) a k = do {
       p \<leftarrow> pipes k a;
       case p_wwait p of [] \<Rightarrow> Some k
       | (w, i) # ws \<Rightarrow> do {
           k1 \<leftarrow> kfree w (set_pipe a (p\<lparr>p_wwait := ws\<rparr>) k);
           (_, k2) \<leftarrow> proc_unblock (pid (procs k1 i)) k1;
           wake_writers proc_unblock n a k2
         }
     }"
    by (cases "pipes k a") (auto simp: dequeue_writer_def bind_assoc split: list.split intro!: Option.bind_cong)
qed simp_all

end
