(* ===== verification/Demo_Kernel.thy ===== *)
theory Demo_Kernel
  imports Waiters Memory_Theorems
begin

text \<open>
  A concrete kernel the properties of its components are applied to: the idle process in slot 0, a
  running process in slot 1, sleeping processes in slots 2 and 3, and a heap with two waiter nodes.
\<close>

definition demo_proc :: "int \<Rightarrow> proc_state \<Rightarrow> int \<Rightarrow> pcb" where
  "demo_proc pd st prio = pcb_zero\<lparr>pid := pd, used := True, state := st, priority := prio,
     base_priority := prio, kframe := 4096, ticks_left := TIME_SLICE_TICKS\<rparr>"

definition ff_one :: "nat \<times> ff" where "ff_one = the (first_fit_malloc 16 ff_small)"
definition ff_two :: "nat \<times> ff" where "ff_two = the (first_fit_malloc 16 (snd ff_one))"

lemma ff_two_wf: "ff_wf [4096, 4144, 4192] (snd ff_two)"
  by code_simp

lemma ff_two_allocs: "ff_allocs (mem (snd ff_two)) [4096, 4144, 4192] = [(4128, 16), (4176, 16)]"
  by code_simp

lemma ff_two_live: "ff_live (snd ff_two) = {(4128, 16), (4176, 16)}"
  by (simp add: ff_live_eq [OF ff_two_wf] ff_two_allocs del: ff_allocs_simps)

definition demo_heap :: mm where "demo_heap = First_Fit (snd ff_two)"

lemma demo_heap_inv: "mm_inv demo_heap" and demo_heap_live: "mm_live demo_heap = {(4128, 16), (4176, 16)}"
  using ff_two_wf ff_two_live by (auto simp: demo_heap_def ff_inv_def)

text \<open>The next node a blocking call takes.\<close>

lemma demo_heap_malloc: "map_option fst (first_fit_malloc 16 (snd ff_two)) = Some 4224"
  by code_simp

definition demo_kernel :: kernel where
  "demo_kernel =
    \<lparr>procs = (\<lambda>_. pcb_zero)(0 := demo_proc 1 RUNNING 0, 1 := demo_proc 2 RUNNING 1,
       2 := demo_proc 3 BLOCKED 1, 3 := demo_proc 4 BLOCKED 2),
     ready_head = (\<lambda>_. None), ready_tail = (\<lambda>_. None),
     scheduler_enabled = True, cur = Some 1, idle_proc = Some 0, ticks = 7, ellapsed = 0, debug_timer_count = 0,
     proc_head = Some 0, proc_tail = Some 3, zombie_head = None, next_pid = 5, heap = demo_heap,
     frames = (\<lambda>_. \<lparr>r_rip = Trampoline, r_cs = 8, r_rflags = 0x202, r_rsp = 0, r_ss = 0, r_rdi = 0, r_rbp = 0, r_others = 0\<rparr>),
     files = (\<lambda>_. None), fd_tables = (\<lambda>_. None), stdin_file = 0, stdout_file = 0, stderr_file = 0,
     sems = (\<lambda>_. None), sem_buckets = (\<lambda>_. []), sem_handles = (\<lambda>_. (0, 0)),
     pipes = (\<lambda>_. None), pipe_buckets = (\<lambda>_. []), default_tty = tty_zero, default_tty_initialized = True, screen = []\<rparr>"

lemma demo_kernel_procs [simp]:
  "procs demo_kernel 0 = demo_proc 1 RUNNING 0" "procs demo_kernel (Suc 0) = demo_proc 2 RUNNING 1"
  "procs demo_kernel 2 = demo_proc 3 BLOCKED 1" "procs demo_kernel 3 = demo_proc 4 BLOCKED 2"
  "cur demo_kernel = Some 1" "idle_proc demo_kernel = Some 0" "scheduler_enabled demo_kernel"
  "zombie_head demo_kernel = None" "heap demo_kernel = demo_heap" "default_tty demo_kernel = tty_zero"
  "default_tty_initialized demo_kernel"
  by (simp_all add: demo_kernel_def)

lemma demo_proc_fields [simp]:
  "used (demo_proc pd st pr)" "state (demo_proc pd st pr) = st" "priority (demo_proc pd st pr) = pr"
  "base_priority (demo_proc pd st pr) = pr" "kframe (demo_proc pd st pr) = 4096"
  "ticks_left (demo_proc pd st pr) = 5" "queue_next (demo_proc pd st pr) = None"
  "aging_ticks (demo_proc pd st pr) = 0" "pid (demo_proc pd st pr) = pd" "fg (demo_proc pd st pr) = False"
  by (simp_all add: demo_proc_def pcb_zero_def const_defs)

lemma demo_kernel_used: "used (procs demo_kernel i) \<longleftrightarrow> i \<in> {0, 1, 2, 3}"
  by (auto simp: demo_kernel_def pcb_zero_def)

lemma demo_kernel_ok: "kernel_ok demo_kernel"
proof -
  have Q: "queues (\<lambda>_. []) demo_kernel" "in_prio (\<lambda>_. []) demo_kernel" "queued (\<lambda>_. []) = {}"
    by (auto simp: queues_def demo_kernel_def last_opt_def in_prio_def queued_def)
  have "state (procs demo_kernel i) \<noteq> READY" if "used (procs demo_kernel i)" for i
    using that demo_kernel_used [of i] by auto
  then have inv: "sched_inv (\<lambda>_. []) demo_kernel" unfolding sched_inv_def Q(3) using Q(1,2) by auto
  have "sched_ok (\<lambda>_. []) demo_kernel"
    unfolding sched_ok_def sched_pre_def using inv Q(3) by (simp add: const_defs)
  moreover have "table_ok demo_kernel"
    unfolding table_ok_def using demo_kernel_used by auto
  ultimately show ?thesis using demo_heap_inv by (auto simp: kernel_ok_def kheap_ok_def)
qed

lemma demo_sleepers: "sleeper demo_kernel 2" "sleeper demo_kernel 3"
  by (simp_all add: sleeper_def prio_ok_def const_defs)

lemma demo_queue: "queue_ok demo_kernel [(4128, 2), (4176, 3)]" "queue_ok demo_kernel [(4128, 2)]"
  "queue_ok demo_kernel [(4128, 3)]" "queue_ok demo_kernel []"
  using demo_sleepers by (simp_all add: queue_ok_def demo_heap_live)

end
