(* ===== verification/Fd.thy ===== *)
theory Fd
  imports Wake
begin

text \<open>
  \<^verbatim>\<open>Kernel/fs/fd.c\<close>: open files with reference counts and the descriptor tables of the processes.
  (\<open>Wake\<close> has the release of a file and of a table.) A table is the list of its 64 entries; 0 is
  an empty entry.
\<close>

section \<open>Files\<close>

definition file_create ::
  "fd_type \<Rightarrow> nat \<Rightarrow> bool \<Rightarrow> bool \<Rightarrow> fd_ops \<Rightarrow> kernel \<Rightarrow> (nat \<times> kernel) option" where
  "file_create ty ptr rd wr ops k =
    (if ptr = 0 then Some (0, k)
     else do {
       (f, k1) \<leftarrow> kmalloc sizeof_file k;
       Some (if f = 0 then (0, k1)
             else (f, set_file f \<lparr>ftype = ty, fops = ops, fptr = ptr, can_read = rd, can_write = wr,
                                   fg_read_guard = False, refcount = 1\<rparr> k1))
     })"

definition file_ref :: "nat \<Rightarrow> kernel \<Rightarrow> kernel option" where
  "file_ref f k =
    (if f = 0 then Some k
     else do { fl \<leftarrow> files k f; Some (set_file f (fl\<lparr>refcount := refcount fl + 1\<rparr>) k) })"

definition fd_init :: "kernel \<Rightarrow> kernel" where
  "fd_init k = k\<lparr>stdin_file := 0, stdout_file := 0, stderr_file := 0\<rparr>"

definition fd_init_std :: "kernel \<Rightarrow> kernel option" where
  "fd_init_std k0 = do {
     let k = tty_default k0;
     k1 \<leftarrow> (if stdin_file k = 0 then do {
              (f, k') \<leftarrow> file_create FD_TTY TTY_ADDR True False TTY_OPS k;
              let k'' = k'\<lparr>stdin_file := f\<rparr>;
              if f \<noteq> 0 then do { fl \<leftarrow> files k'' f; Some (set_file f (fl\<lparr>fg_read_guard := True\<rparr>) k'') }
              else Some k''
            } else Some k);
     k2 \<leftarrow> (if stdout_file k1 = 0 then do {
              (f, k') \<leftarrow> file_create FD_TTY TTY_ADDR False True TTY_OPS k1;
              Some (k'\<lparr>stdout_file := f\<rparr>)
            } else Some k1);
     (if stderr_file k2 = 0 then do {
        (f, k') \<leftarrow> file_create FD_TTY TTY_ADDR False True TTY_OPS k2;
        Some (k'\<lparr>stderr_file := f\<rparr>)
      } else Some k2)
   }"

section \<open>Tables\<close>

definition set_table :: "nat \<Rightarrow> nat list \<Rightarrow> kernel \<Rightarrow> kernel" where
  "set_table t es k = k\<lparr>fd_tables := (fd_tables k)(t := Some es)\<rparr>"

definition fd_table_create :: "kernel \<Rightarrow> (nat \<times> kernel) option" where
  "fd_table_create k = do {
     (t, k1) \<leftarrow> kmalloc sizeof_fd_table k;
     Some (if t = 0 then (0, k1) else (t, set_table t (replicate FD_MAX 0) k1))
   }"

definition attach_one :: "nat \<Rightarrow> nat \<Rightarrow> nat \<Rightarrow> kernel \<Rightarrow> kernel option" where
  "attach_one t i f k = (if f \<noteq> 0 then do { k1 \<leftarrow> file_ref f k; set_entry t i f k1 } else Some k)"

definition fd_table_attach_std :: "nat \<Rightarrow> kernel \<Rightarrow> kernel option" where
  "fd_table_attach_std t k =
    (if t = 0 then Some k
     else do {
       k1 \<leftarrow> attach_one t 0 (stdin_file k) k;
       k2 \<leftarrow> attach_one t 1 (stdout_file k1) k1;
       attach_one t 2 (stderr_file k2) k2
     })"

fun clone_loop :: "nat \<Rightarrow> nat \<Rightarrow> nat list \<Rightarrow> kernel \<Rightarrow> kernel option" where
  "clone_loop dst src [] k = Some k"
| "clone_loop dst src (i # is) k = do {
     es \<leftarrow> fd_tables k src;
     k1 \<leftarrow> (if es ! i \<noteq> 0 then do { k' \<leftarrow> file_ref (es ! i) k; set_entry dst i (es ! i) k' } else Some k);
     clone_loop dst src is k1
   }"

definition fd_table_clone :: "nat \<Rightarrow> nat \<Rightarrow> kernel \<Rightarrow> (int \<times> kernel) option" where
  "fd_table_clone dst src k =
    (if dst = 0 then Some (-1, k)
     else do {
       _ \<leftarrow> fd_tables k dst;
       let k1 = set_table dst (replicate FD_MAX 0) k;
       if src = 0 then do { k2 \<leftarrow> fd_table_attach_std dst k1; Some (0, k2) }
       else do { k2 \<leftarrow> clone_loop dst src [0 ..< FD_MAX] k1; Some (0, k2) }
     })"

definition bad_fd :: "int \<Rightarrow> bool" where
  "bad_fd fd \<longleftrightarrow> fd < 0 \<or> fd \<ge> int FD_MAX"

definition fd_table_get :: "nat \<Rightarrow> int \<Rightarrow> kernel \<Rightarrow> nat option" where
  "fd_table_get t fd k =
    (if t = 0 \<or> bad_fd fd then Some 0 else do { es \<leftarrow> fd_tables k t; Some (es ! nat fd) })"

definition fd_table_can_read :: "nat \<Rightarrow> int \<Rightarrow> kernel \<Rightarrow> bool option" where
  "fd_table_can_read t fd k = do {
     f \<leftarrow> fd_table_get t fd k;
     if f = 0 then Some False else do { fl \<leftarrow> files k f; Some (can_read fl) }
   }"

definition fd_table_can_write :: "nat \<Rightarrow> int \<Rightarrow> kernel \<Rightarrow> bool option" where
  "fd_table_can_write t fd k = do {
     f \<leftarrow> fd_table_get t fd k;
     if f = 0 then Some False else do { fl \<leftarrow> files k f; Some (can_write fl) }
   }"

definition fd_table_close :: "nat \<Rightarrow> int \<Rightarrow> kernel \<Rightarrow> (int \<times> kernel) option" where
  "fd_table_close t fd k =
    (if t = 0 \<or> bad_fd fd then Some (-1, k)
     else do {
       es \<leftarrow> fd_tables k t;
       let f = es ! nat fd;
       if f = 0 then Some (-1, k)
       else do { k1 \<leftarrow> file_release f (set_table t (es[nat fd := 0]) k); Some (0, k1) }
     })"

definition fd_table_install :: "nat \<Rightarrow> int \<Rightarrow> nat \<Rightarrow> kernel \<Rightarrow> (int \<times> kernel) option" where
  "fd_table_install t fd f k =
    (if t = 0 \<or> f = 0 \<or> bad_fd fd then Some (-1, k)
     else do {
       es \<leftarrow> fd_tables k t;
       k1 \<leftarrow> (if es ! nat fd \<noteq> 0 then file_release (es ! nat fd) k else Some k);
       k2 \<leftarrow> set_entry t (nat fd) f k1;
       Some (fd, k2)
     })"

definition fd_table_allocate :: "nat \<Rightarrow> nat \<Rightarrow> kernel \<Rightarrow> (int \<times> kernel) option" where
  "fd_table_allocate t f k =
    (if t = 0 \<or> f = 0 then Some (-1, k)
     else do {
       es \<leftarrow> fd_tables k t;
       case find (\<lambda>i. es ! i = 0) [0 ..< FD_MAX] of
         None \<Rightarrow> Some (-1, k)
       | Some i \<Rightarrow> Some (int i, set_table t (es[i := f]) k)
     })"

definition fd_table_dup2 :: "nat \<Rightarrow> int \<Rightarrow> int \<Rightarrow> kernel \<Rightarrow> (int \<times> kernel) option" where
  "fd_table_dup2 t oldfd newfd k =
    (if t = 0 \<or> bad_fd oldfd \<or> bad_fd newfd then Some (-1, k)
     else do {
       es \<leftarrow> fd_tables k t;
       let src = es ! nat oldfd;
       if src = 0 then Some (-1, k)
       else if oldfd = newfd then Some (newfd, k)
       else do {
         k1 \<leftarrow> (if es ! nat newfd \<noteq> 0 then file_release (es ! nat newfd) k else Some k);
         k2 \<leftarrow> file_ref src k1;
         k3 \<leftarrow> set_entry t (nat newfd) src k2;
         Some (newfd, k3)
       }
     })"

end
