(* ===== verification/Pipe_IO.thy ===== *)
theory Pipe_IO
  imports Fd
begin

text \<open>
  Reading and writing: \<^verbatim>\<open>kpipe_read\<close> and \<^verbatim>\<open>kpipe_write\<close> of \<^verbatim>\<open>Kernel/ipc/pipe.c\<close>, the adapters of
  \<^verbatim>\<open>Kernel/ipc/pipe_fd.c\<close> and \<^verbatim>\<open>Kernel/fs/fd.c\<close>, and the dispatch through \<^verbatim>\<open>file->ops\<close>.
  As in \<open>Tty\<close>, one iteration of a blocking loop is split at the point where the code leaves its
  critical section to allocate a waiter, and the second half takes whatever state it finds.
\<close>

section \<open>kpipe_read\<close>

text \<open>Waking at most one process of the other end.\<close>

definition wake_one :: "nat option \<Rightarrow> kernel \<Rightarrow> kernel option" where
  "wake_one pr k =
    (case pr of None \<Rightarrow> Some k
     | Some i \<Rightarrow> do { (_, k1) \<leftarrow> proc_unblock (pid (procs k i)) k; Some k1 })"

definition kpipe_read_try :: "nat \<Rightarrow> int \<Rightarrow> kernel \<Rightarrow> ((nat io + nat) \<times> kernel) option" where
  "kpipe_read_try a n k = do {
     p \<leftarrow> pipes k a;
     if p_size p > 0 then do {
       let to_read = (if p_size p < nat n then p_size p else nat n);
       let (bs, p') = pipe_take to_read p;
       let k1 = set_pipe a p' k;
       (writer, k2) \<leftarrow> (if p_wwait p' \<noteq> [] then dequeue_writer a k1 else Some (None, k1));
       k3 \<leftarrow> wake_one writer k2;
       Some (Inl (Ret (int to_read) bs), k3)
     }
     else if p_writers p = 0 then Some (Inl (Ret 0 []), k)
     else if cur k = None then Some (Inl (Ret (-1) []), k)
     else do {
       (waiter, k1) \<leftarrow> kmalloc sizeof_waiter k;
       Some (if waiter = 0 then Inl (Ret (-1) []) else Inr waiter, k1)
     }
   }"

definition go_to_sleep :: "nat \<Rightarrow> nat \<Rightarrow> kernel \<Rightarrow> ('a io \<times> kernel) option" where
  "go_to_sleep me sp k = do {
     (r, k1) \<leftarrow> sched_force_yield sp (upd me (\<lambda>p. p\<lparr>state := BLOCKED, ticks_left := 0\<rparr>) k);
     Some (Suspend r, k1)
   }"

definition kpipe_read_sleep :: "nat \<Rightarrow> nat \<Rightarrow> nat \<Rightarrow> nat \<Rightarrow> kernel \<Rightarrow> (nat io \<times> kernel) option" where
  "kpipe_read_sleep a me waiter sp k = do {
     p \<leftarrow> pipes k a;
     if p_size p > 0 then do { k1 \<leftarrow> kfree waiter k; Some (Again, k1) }
     else if p_writers p = 0 then do { k1 \<leftarrow> kfree waiter k; Some (Ret 0 [], k1) }
     else go_to_sleep me sp (set_pipe a (enqueue_reader me waiter p) k)
   }"

definition kpipe_read :: "nat \<Rightarrow> bool \<Rightarrow> int \<Rightarrow> nat \<Rightarrow> kernel \<Rightarrow> (nat io \<times> kernel) option" where
  "kpipe_read a buf_ok n sp k =
    (if a = 0 \<or> \<not> buf_ok \<or> n \<le> 0 then Some (Ret (-1) [], k)
     else do {
       (r, k1) \<leftarrow> kpipe_read_try a n k;
       case r of Inl v \<Rightarrow> Some (v, k1)
       | Inr waiter \<Rightarrow> (case cur k1 of None \<Rightarrow> None | Some me \<Rightarrow> kpipe_read_sleep a me waiter sp k1)
     })"

section \<open>kpipe_write\<close>

definition kpipe_write_try :: "nat \<Rightarrow> nat list \<Rightarrow> int \<Rightarrow> kernel \<Rightarrow> ((nat io + nat) \<times> kernel) option" where
  "kpipe_write_try a src n k = do {
     p \<leftarrow> pipes k a;
     if p_readers p = 0 then Some (Inl (Ret (-1) []), k)
     else if p_size p < PIPE_CAP then do {
       let space = PIPE_CAP - p_size p;
       let to_write = (if space < nat n then space else nat n);
       let p' = pipe_put (take to_write src) p;
       let k1 = set_pipe a p' k;
       (reader, k2) \<leftarrow> (if p_rwait p' \<noteq> [] then dequeue_reader a k1 else Some (None, k1));
       k3 \<leftarrow> wake_one reader k2;
       Some (Inl (Ret (int to_write) []), k3)
     }
     else if cur k = None then Some (Inl (Ret (-1) []), k)
     else do {
       (waiter, k1) \<leftarrow> kmalloc sizeof_waiter k;
       Some (if waiter = 0 then Inl (Ret (-1) []) else Inr waiter, k1)
     }
   }"

definition kpipe_write_sleep :: "nat \<Rightarrow> nat \<Rightarrow> nat \<Rightarrow> nat \<Rightarrow> kernel \<Rightarrow> (nat io \<times> kernel) option" where
  "kpipe_write_sleep a me waiter sp k = do {
     p \<leftarrow> pipes k a;
     if p_size p < PIPE_CAP then do { k1 \<leftarrow> kfree waiter k; Some (Again, k1) }
     else go_to_sleep me sp (set_pipe a (enqueue_writer me waiter p) k)
   }"

definition kpipe_write :: "nat \<Rightarrow> nat list option \<Rightarrow> int \<Rightarrow> nat \<Rightarrow> kernel \<Rightarrow> (nat io \<times> kernel) option" where
  "kpipe_write a buf n sp k =
    (case buf of None \<Rightarrow> Some (Ret (-1) [], k)
     | Some src \<Rightarrow>
       if a = 0 \<or> n \<le> 0 then Some (Ret (-1) [], k)
       else do {
         (r, k1) \<leftarrow> kpipe_write_try a src n k;
         case r of Inl v \<Rightarrow> Some (v, k1)
         | Inr waiter \<Rightarrow> (case cur k1 of None \<Rightarrow> None | Some me \<Rightarrow> kpipe_write_sleep a me waiter sp k1)
       })"

section \<open>The file operations\<close>

text \<open>Characters cross the descriptor layer as byte values.\<close>

fun bytes_of_io :: "char io \<Rightarrow> nat io" where
  "bytes_of_io (Ret n cs) = Ret n (map of_char cs)"
| "bytes_of_io (Suspend r) = Suspend r"
| "bytes_of_io Again = Again"

definition fd_tty_read :: "kfile \<Rightarrow> bool \<Rightarrow> int \<Rightarrow> nat \<Rightarrow> kernel \<Rightarrow> (nat io \<times> kernel) option" where
  "fd_tty_read fl buf_ok n sp k =
    (if \<not> can_read fl \<or> fptr fl = 0 \<or> \<not> buf_ok \<or> n \<le> 0 then Some (Ret (-1) [], k)
     else (case cur k of
        None \<Rightarrow> Some (Ret (-1) [], k)
      | Some c \<Rightarrow>
          let (allowed, k1) = (if fg_read_guard fl then tty_can_read (pid (procs k c)) k else (True, k))
          in if \<not> allowed then Some (Ret E_BG_INPUT [], k1)
             else do { (r, k2) \<leftarrow> tty_read buf_ok n sp k1; Some (bytes_of_io r, k2) }))"

definition fd_tty_write :: "kfile \<Rightarrow> nat list option \<Rightarrow> int \<Rightarrow> kernel \<Rightarrow> int \<times> kernel" where
  "fd_tty_write fl buf n k =
    (if \<not> can_write fl \<or> fptr fl = 0 \<or> buf = None \<or> n \<le> 0 then (-1, k)
     else tty_write (map_option (map (\<lambda>b. char_of b)) buf) n k)"

definition fd_pipe_read :: "kfile \<Rightarrow> bool \<Rightarrow> int \<Rightarrow> nat \<Rightarrow> kernel \<Rightarrow> (nat io \<times> kernel) option" where
  "fd_pipe_read fl buf_ok n sp k =
    (if \<not> can_read fl \<or> fptr fl = 0 \<or> \<not> buf_ok \<or> n \<le> 0 then Some (Ret (-1) [], k)
     else kpipe_read (fptr fl) buf_ok n sp k)"

definition fd_pipe_write :: "kfile \<Rightarrow> nat list option \<Rightarrow> int \<Rightarrow> nat \<Rightarrow> kernel \<Rightarrow> (nat io \<times> kernel) option" where
  "fd_pipe_write fl buf n sp k =
    (if \<not> can_write fl \<or> fptr fl = 0 \<or> buf = None \<or> n \<le> 0 then Some (Ret (-1) [], k)
     else kpipe_write (fptr fl) buf n sp k)"

definition ops_read :: "kfile \<Rightarrow> bool \<Rightarrow> int \<Rightarrow> nat \<Rightarrow> kernel \<Rightarrow> (nat io \<times> kernel) option" where
  "ops_read fl buf_ok n sp k =
    (case fops fl of TTY_OPS \<Rightarrow> fd_tty_read fl buf_ok n sp k | PIPE_OPS \<Rightarrow> fd_pipe_read fl buf_ok n sp k)"

definition ops_write :: "kfile \<Rightarrow> nat list option \<Rightarrow> int \<Rightarrow> nat \<Rightarrow> kernel \<Rightarrow> (nat io \<times> kernel) option" where
  "ops_write fl buf n sp k =
    (case fops fl of
       TTY_OPS \<Rightarrow> (let (r, k1) = fd_tty_write fl buf n k in Some (Ret r [], k1))
     | PIPE_OPS \<Rightarrow> fd_pipe_write fl buf n sp k)"

section \<open>Data through the pipe\<close>

definition pipe_of :: "nat \<Rightarrow> kernel \<Rightarrow> nat list" where
  "pipe_of a k = (case pipes k a of None \<Rightarrow> [] | Some p \<Rightarrow> pipe_bytes p)"

lemma kpipe_write_no_reader:
  assumes "pipes k a = Some p" "p_readers p = 0" "a \<noteq> 0" "0 < n"
  shows "kpipe_write a (Some src) n sp k = Some (Ret (-1) [], k)"
  using assms by (simp add: kpipe_write_def kpipe_write_try_def)

lemma kpipe_read_eof:
  assumes "pipes k a = Some p" "p_size p = 0" "p_writers p = 0" "a \<noteq> 0" "0 < n"
  shows "kpipe_read a True n sp k = Some (Ret 0 [], k)"
  using assms by (simp add: kpipe_read_def kpipe_read_try_def)

text \<open>Reading with nobody waiting to write: the oldest bytes come out, in order.\<close>

lemma kpipe_read_data:
  assumes p: "pipes k a = Some p" and wf: "pipe_wf p" and data: "0 < p_size p" and nw: "p_wwait p = []"
    and a: "a \<noteq> 0" and n: "0 < n"
  shows "\<exists>p'. kpipe_read a True n sp k =
      Some (Ret (int (min (p_size p) (nat n))) (take (nat n) (pipe_bytes p)), set_pipe a p' k)
    \<and> pipe_wf p' \<and> pipe_bytes p' = drop (nat n) (pipe_bytes p) \<and> pipe_ends p' = pipe_ends p"
proof -
  let ?m = "if p_size p < nat n then p_size p else nat n"
  obtain bs p' where tk: "pipe_take ?m p = (bs, p')" by fastforce
  have sp: "bs = take ?m (pipe_bytes p) \<and> pipe_wf p' \<and> pipe_bytes p' = drop ?m (pipe_bytes p)
      \<and> pipe_ends p' = pipe_ends p"
    using pipe_take_spec [OF wf _ tk] by auto
  then have "p_wwait p' = []" using nw by (simp add: pipe_ends_def)
  then have "kpipe_read a True n sp k = Some (Ret (int ?m) bs, set_pipe a p' k)"
    using p data a n tk by (simp add: kpipe_read_def kpipe_read_try_def Let_def wake_one_def)
  moreover have "int ?m = int (min (p_size p) (nat n))" by simp
  moreover have "take ?m (pipe_bytes p) = take (nat n) (pipe_bytes p)"
    "drop ?m (pipe_bytes p) = drop (nat n) (pipe_bytes p)" by simp_all
  ultimately show ?thesis using sp by (intro exI [of _ p']) simp
qed

text \<open>Writing with nobody waiting to read: as much as fits is appended.\<close>

lemma kpipe_write_data:
  assumes p: "pipes k a = Some p" and wf: "pipe_wf p" and room: "p_size p < PIPE_CAP"
    and nr: "p_rwait p = []" and rd: "p_readers p \<noteq> 0" and a: "a \<noteq> 0" and n: "0 < n"
    and src: "nat n \<le> length src"
  defines "m \<equiv> min (PIPE_CAP - p_size p) (nat n)"
  shows "\<exists>p'. kpipe_write a (Some src) n sp k = Some (Ret (int m) [], set_pipe a p' k)
    \<and> pipe_wf p' \<and> pipe_bytes p' = pipe_bytes p @ take m src \<and> pipe_ends p' = pipe_ends p"
proof -
  let ?m = "if PIPE_CAP - p_size p < nat n then PIPE_CAP - p_size p else nat n"
  have m: "?m = m" by (simp add: m_def)
  let ?p = "pipe_put (take m src) p"
  have "p_size p + length (take m src) \<le> PIPE_CAP" using room by (simp add: m_def)
  note sp = pipe_put_spec [OF wf this]
  then have "p_rwait ?p = []" using nr by (simp add: pipe_ends_def)
  then have "kpipe_write a (Some src) n sp k = Some (Ret (int m) [], set_pipe a ?p k)"
    using p room rd a n by (simp add: kpipe_write_def kpipe_write_try_def Let_def wake_one_def m)
  with sp show ?thesis by blast
qed

end
