(* ===== verification/Pipe_Theorems.thy ===== *)
theory Pipe_Theorems
  imports Demo_Kernel Pipe_IO
begin

text \<open>
  The properties of the pipes. Between two calls every pipe is a well-formed ring whose sleepers are
  queued once (\<open>pipe_inv\<close>); its abstract value is the list of bytes in it (\<open>pipe_of\<close>).
\<close>

section \<open>The invariant\<close>

definition pipe_inv :: "nat \<Rightarrow> kernel \<Rightarrow> bool" where
  "pipe_inv a k \<longleftrightarrow> kernel_ok k \<and> a \<noteq> 0
     \<and> (\<exists>p. pipes k a = Some p \<and> pipe_wf p \<and> queue_ok k (p_rwait p @ p_wwait p))"

lemma pipe_invI:
  "kernel_ok k \<Longrightarrow> a \<noteq> 0 \<Longrightarrow> pipes k a = Some p \<Longrightarrow> pipe_wf p \<Longrightarrow> queue_ok k (p_rwait p @ p_wwait p) \<Longrightarrow> pipe_inv a k"
  by (auto simp: pipe_inv_def)

lemma pipe_invE:
  assumes "pipe_inv a k" "pipes k a = Some p"
  shows "kernel_ok k" "a \<noteq> 0" "pipe_wf p" "queue_ok k (p_rwait p @ p_wwait p)"
  using assms by (auto simp: pipe_inv_def)

lemma queue_ok_set_pipe [simp]: "queue_ok (set_pipe a p k) ws = queue_ok k ws"
  by (simp add: queue_ok_def)

lemma pipe_wf_waiters [simp]:
  "pipe_wf (p\<lparr>p_rwait := ws\<rparr>) = pipe_wf p" "pipe_wf (p\<lparr>p_wwait := vs\<rparr>) = pipe_wf p"
  "pipe_bytes (p\<lparr>p_rwait := ws\<rparr>) = pipe_bytes p" "pipe_bytes (p\<lparr>p_wwait := vs\<rparr>) = pipe_bytes p"
  by (simp_all add: pipe_wf_def pipe_bytes_def)

section \<open>One wake-up\<close>

text \<open>\<open>first_woken\<close>: the process of the first node of \<open>ws\<close> was woken and the node given back.\<close>

definition first_woken :: "(nat \<times> nat) list \<Rightarrow> kernel \<Rightarrow> kernel \<Rightarrow> bool" where
  "first_woken ws k k' \<longleftrightarrow> released (fst ` set (take 1 ws)) (heap k) (heap k')
     \<and> woken (snd ` set (take 1 ws)) (k\<lparr>pipes := pipes k', heap := heap k'\<rparr>) k'"

lemma first_woken_none: "kernel_ok k \<Longrightarrow> first_woken [] k k"
  by (simp add: first_woken_def woken_none released_none kernel_ok_def kheap_ok_def)

lemma first_woken_set_pipe: "first_woken ws (set_pipe a p k) k' = first_woken ws k k'"
  by (simp add: first_woken_def set_pipe_def)

lemma first_wokenD:
  assumes "first_woken ws k k'"
  shows "\<forall>i \<in> snd ` set (take 1 ws). state (procs k' i) = READY"
    "\<forall>i. i \<notin> snd ` set (take 1 ws) \<longrightarrow> strip (procs k' i) = strip (procs k i)"
proof -
  from assms have w: "woken (snd ` set (take 1 ws)) (k\<lparr>pipes := pipes k', heap := heap k'\<rparr>) k'"
    by (simp add: first_woken_def)
  from woken_fields(1) [OF w] show "\<forall>i \<in> snd ` set (take 1 ws). state (procs k' i) = READY" by simp
  from w show "\<forall>i. i \<notin> snd ` set (take 1 ws) \<longrightarrow> strip (procs k' i) = strip (procs k i)"
    by (simp add: woken_def)
qed

lemma wake_reader:
  assumes ok: "kernel_ok k" and p: "pipes k a = Some p" and q: "queue_ok k (p_rwait p @ p_wwait p)"
  shows "\<exists>r k1 k2. (if p_rwait p \<noteq> [] then dequeue_reader a k else Some (None, k)) = Some (r, k1)
    \<and> wake_one r k1 = Some k2 \<and> kernel_ok k2 \<and> pipes k2 = (pipes k)(a \<mapsto> p\<lparr>p_rwait := tl (p_rwait p)\<rparr>)
    \<and> queue_ok k2 (tl (p_rwait p) @ p_wwait p) \<and> first_woken (p_rwait p) k k2"
proof (cases "p_rwait p")
  case Nil
  then have "p\<lparr>p_rwait := tl (p_rwait p)\<rparr> = p" by simp
  with Nil ok p q first_woken_none [OF ok] show ?thesis by (simp add: wake_one_def fun_upd_idem)
next
  case (Cons wi ws)
  then obtain w i where wi: "p_rwait p = (w, i) # ws" by (cases wi) simp
  with q have "queue_ok k ((w, i) # ws @ p_wwait p)" by simp
  from readers.wake_first [OF ok p wi this] obtain k1 k2 where
    "kfree w (set_pipe a (p\<lparr>p_rwait := ws\<rparr>) k) = Some k1" "proc_unblock (pid (procs k1 i)) k1 = Some (0, k2)"
    "kernel_ok k2" "pipes k2 = (pipes k)(a \<mapsto> p\<lparr>p_rwait := ws\<rparr>)" "queue_ok k2 (ws @ p_wwait p)"
    "released {w} (heap k) (heap k2)" "woken {i} (k\<lparr>pipes := pipes k2, heap := heap k2\<rparr>) k2"
    by (elim exE conjE) (rule that)
  then show ?thesis
    using p wi by (intro exI [of _ "Some i"] exI [of _ k1] exI [of _ k2])
      (simp add: dequeue_reader_def wake_one_def first_woken_def)
qed

lemma wake_writer:
  assumes ok: "kernel_ok k" and p: "pipes k a = Some p" and q: "queue_ok k (p_rwait p @ p_wwait p)"
  shows "\<exists>r k1 k2. (if p_wwait p \<noteq> [] then dequeue_writer a k else Some (None, k)) = Some (r, k1)
    \<and> wake_one r k1 = Some k2 \<and> kernel_ok k2 \<and> pipes k2 = (pipes k)(a \<mapsto> p\<lparr>p_wwait := tl (p_wwait p)\<rparr>)
    \<and> queue_ok k2 (p_rwait p @ tl (p_wwait p)) \<and> first_woken (p_wwait p) k k2"
proof (cases "p_wwait p")
  case Nil
  then have "p\<lparr>p_wwait := tl (p_wwait p)\<rparr> = p" by simp
  with Nil ok p q first_woken_none [OF ok] show ?thesis by (simp add: wake_one_def fun_upd_idem)
next
  case (Cons wi ws)
  then obtain w i where wi: "p_wwait p = (w, i) # ws" by (cases wi) simp
  with q have "queue_ok k ((w, i) # ws @ p_rwait p)"
    using queue_ok_append [of k "p_rwait p" "(w, i) # ws"] by simp
  from writers.wake_first [OF ok p wi this] obtain k1 k2 where
    "kfree w (set_pipe a (p\<lparr>p_wwait := ws\<rparr>) k) = Some k1" "proc_unblock (pid (procs k1 i)) k1 = Some (0, k2)"
    "kernel_ok k2" "pipes k2 = (pipes k)(a \<mapsto> p\<lparr>p_wwait := ws\<rparr>)" "queue_ok k2 (ws @ p_rwait p)"
    "released {w} (heap k) (heap k2)" "woken {i} (k\<lparr>pipes := pipes k2, heap := heap k2\<rparr>) k2"
    by (elim exE conjE) (rule that)
  then show ?thesis
    using p wi queue_ok_append [of k2 ws] by (intro exI [of _ "Some i"] exI [of _ k1] exI [of _ k2])
      (simp add: dequeue_writer_def wake_one_def first_woken_def)
qed

section \<open>Transfers\<close>

lemma kpipe_write_spec:
  assumes inv: "pipe_inv a k" and p: "pipes k a = Some p" and rd: "p_readers p \<noteq> 0" and room: "p_size p < PIPE_CAP"
    and n: "0 < n" "nat n \<le> length src"
  defines "m \<equiv> min (PIPE_CAP - p_size p) (nat n)"
  shows "\<exists>k'. kpipe_write a (Some src) n sp k = Some (Ret (int m) [], k') \<and> pipe_inv a k'
    \<and> pipe_of a k' = pipe_of a k @ take m src \<and> first_woken (p_rwait p) k k'"
proof -
  note pi = pipe_invE [OF inv p]
  let ?m = "if PIPE_CAP - p_size p < nat n then PIPE_CAP - p_size p else nat n"
  have m: "?m = m" by (simp add: m_def)
  define p1 where "p1 = pipe_put (take m src) p"
  have "p_size p + length (take m src) \<le> PIPE_CAP" using room by (simp add: m_def)
  from pipe_put_spec [OF pi(3) this] have p1: "pipe_wf p1" "pipe_bytes p1 = pipe_bytes p @ take m src"
    "p_rwait p1 = p_rwait p" "p_wwait p1 = p_wwait p" by (auto simp: p1_def pipe_ends_def)
  define k1 where "k1 = set_pipe a p1 k"
  have k1: "kernel_ok k1" "pipes k1 a = Some p1" "queue_ok k1 (p_rwait p1 @ p_wwait p1)"
    using pi(1,4) by (simp_all add: k1_def p1)
  from wake_reader [OF k1] obtain r k2 k3 where
    w: "(if p_rwait p1 \<noteq> [] then dequeue_reader a k1 else Some (None, k1)) = Some (r, k2)" "wake_one r k2 = Some k3"
      "kernel_ok k3" "pipes k3 = (pipes k1)(a \<mapsto> p1\<lparr>p_rwait := tl (p_rwait p1)\<rparr>)"
      "queue_ok k3 (tl (p_rwait p1) @ p_wwait p1)" "first_woken (p_rwait p1) k1 k3"
    by (elim exE conjE) (rule that)
  have "kpipe_write a (Some src) n sp k = Some (Ret (int m) [], k3)"
    using p rd room n(1) pi(2) w(1,2)
    by (cases "p_rwait p1 = []") (simp_all add: kpipe_write_def kpipe_write_try_def Let_def m flip: p1_def k1_def)
  moreover have "pipe_inv a k3" using w(3,4,5) pi(2) p1(1) by (simp add: pipe_inv_def)
  moreover have "pipe_of a k3 = pipe_of a k @ take m src" by (simp add: pipe_of_def w(4) p p1(2))
  moreover have "first_woken (p_rwait p) k k3" using w(6) by (simp add: p1 k1_def first_woken_set_pipe)
  ultimately show ?thesis by blast
qed

lemma kpipe_read_spec:
  assumes inv: "pipe_inv a k" and p: "pipes k a = Some p" and data: "0 < p_size p" and n: "0 < n"
  defines "m \<equiv> min (p_size p) (nat n)"
  shows "\<exists>k'. kpipe_read a True n sp k = Some (Ret (int m) (take m (pipe_of a k)), k') \<and> pipe_inv a k'
    \<and> pipe_of a k' = drop m (pipe_of a k) \<and> first_woken (p_wwait p) k k'"
proof -
  note pi = pipe_invE [OF inv p]
  let ?m = "if p_size p < nat n then p_size p else nat n"
  have m: "?m = m" by (simp add: m_def)
  obtain bs p1 where tk: "pipe_take m p = (bs, p1)" by fastforce
  have p1: "bs = take m (pipe_bytes p)" "pipe_wf p1" "pipe_bytes p1 = drop m (pipe_bytes p)"
    "p_rwait p1 = p_rwait p" "p_wwait p1 = p_wwait p"
    using pipe_take_spec [OF pi(3) _ tk] by (auto simp: m_def pipe_ends_def)
  define k1 where "k1 = set_pipe a p1 k"
  have k1: "kernel_ok k1" "pipes k1 a = Some p1" "queue_ok k1 (p_rwait p1 @ p_wwait p1)"
    using pi(1,4) by (simp_all add: k1_def p1)
  from wake_writer [OF k1] obtain r k2 k3 where
    w: "(if p_wwait p1 \<noteq> [] then dequeue_writer a k1 else Some (None, k1)) = Some (r, k2)" "wake_one r k2 = Some k3"
      "kernel_ok k3" "pipes k3 = (pipes k1)(a \<mapsto> p1\<lparr>p_wwait := tl (p_wwait p1)\<rparr>)"
      "queue_ok k3 (p_rwait p1 @ tl (p_wwait p1))" "first_woken (p_wwait p1) k1 k3"
    by (elim exE conjE) (rule that)
  have "kpipe_read a True n sp k = Some (Ret (int m) bs, k3)"
    using p data n pi(2) w(1,2)
    by (cases "p_wwait p1 = []") (simp_all add: kpipe_read_def kpipe_read_try_def Let_def m tk flip: k1_def)
  moreover have "pipe_inv a k3" using w(3,4,5) pi(2) p1(2) by (simp add: pipe_inv_def)
  moreover have "pipe_of a k3 = drop m (pipe_of a k)" "bs = take m (pipe_of a k)"
    by (simp_all add: pipe_of_def w(4) p p1)
  moreover have "first_woken (p_wwait p) k k3" using w(6) by (simp add: p1 k1_def first_woken_set_pipe)
  ultimately show ?thesis by blast
qed

section \<open>Blocking\<close>

text \<open>What a reader that finds the pipe empty and a writer that finds it full do.\<close>

lemma pipe_sleep:
  assumes inv: "pipe_inv a k" and p: "pipes k a = Some p" and c: "cur k = Some me" "idle_proc k \<noteq> Some me"
    and sp: "sp \<noteq> 0" and w: "mm_malloc sizeof_waiter (heap k) = Some (w, h)" "w \<noteq> 0"
    and p': "pipe_wf p'" "p' = enqueue_reader me w p \<or> p' = enqueue_writer me w p"
  shows "\<exists>r k'. go_to_sleep me sp (set_pipe a p' (k\<lparr>heap := h\<rparr>)) = Some (Suspend r :: 'a io, k') \<and> pipe_inv a k'
    \<and> pipes k' = (pipes k)(a \<mapsto> p') \<and> sleeper k' me \<and> cur k' \<noteq> Some me"
proof -
  note pi = pipe_invE [OF inv p]
  let ?k2 = "set_pipe a p' (k\<lparr>heap := h\<rparr>)"
  from sleep_on [OF pi(1) c sp w, of ?k2] obtain r k' where
    k': "sched_force_yield sp (upd me (\<lambda>p. p\<lparr>state := BLOCKED, ticks_left := 0\<rparr>) ?k2) = Some (r, k')" "kernel_ok k'"
      "sched_st.more k' = sched_st.more ?k2" "sleeper k' me" "cur k' \<noteq> Some me"
      "\<forall>ws vs. queue_ok k (ws @ vs) \<longrightarrow> queue_ok k' (ws @ (w, me) # vs)"
    by (auto simp: set_pipe_def)
  have pk: "pipes k' = (pipes k)(a \<mapsto> p')" using more_eqD(1) [OF k'(3)] by simp
  have q: "queue_ok k' (p_rwait p @ (w, me) # p_wwait p)" using pi(4) k'(6) by blast
  have q2: "queue_ok k' ((p_rwait p @ p_wwait p) @ (w, me) # [])"
    using pi(4) k'(6) by (metis append_Nil2)
  have "queue_ok k' (p_rwait p' @ p_wwait p')"
    using p'(2) q q2 w(2) by (auto simp: enqueue_reader_def enqueue_writer_def)
  with k'(2) pi(2) pk p'(1) have "pipe_inv a k'" by (simp add: pipe_inv_def)
  with k'(1,4,5) pk show ?thesis by (auto simp: go_to_sleep_def)
qed

lemma kpipe_read_blocks:
  assumes inv: "pipe_inv a k" and p: "pipes k a = Some p" and empty: "p_size p = 0" "p_writers p \<noteq> 0"
    and c: "cur k = Some me" "idle_proc k \<noteq> Some me" and sp: "sp \<noteq> 0" and n: "0 < n"
    and w: "mm_malloc sizeof_waiter (heap k) = Some (w, h)" "w \<noteq> 0"
  shows "\<exists>r k'. kpipe_read a True n sp k = Some (Suspend r, k') \<and> pipe_inv a k' \<and> sleeper k' me \<and> cur k' \<noteq> Some me
    \<and> pipes k' = (pipes k)(a \<mapsto> p\<lparr>p_rwait := p_rwait p @ [(w, me)]\<rparr>)"
proof -
  note pi = pipe_invE [OF inv p]
  have "pipe_wf (enqueue_reader me w p)" using pi(3) w(2) by (simp add: enqueue_reader_def)
  from pipe_sleep [OF inv p c sp w this] obtain r k' where
    "go_to_sleep me sp (set_pipe a (enqueue_reader me w p) (k\<lparr>heap := h\<rparr>)) = Some (Suspend r :: nat io, k')" "pipe_inv a k'"
    "pipes k' = (pipes k)(a \<mapsto> enqueue_reader me w p)" "sleeper k' me" "cur k' \<noteq> Some me" by blast
  with p empty c(1) n w pi(2) show ?thesis
    by (intro exI [of _ r] exI [of _ k'])
      (simp add: kpipe_read_def kpipe_read_try_def kpipe_read_sleep_def kmalloc_def enqueue_reader_def)
qed

lemma kpipe_write_blocks:
  assumes inv: "pipe_inv a k" and p: "pipes k a = Some p" and full: "p_size p = PIPE_CAP" "p_readers p \<noteq> 0"
    and c: "cur k = Some me" "idle_proc k \<noteq> Some me" and sp: "sp \<noteq> 0" and n: "0 < n"
    and w: "mm_malloc sizeof_waiter (heap k) = Some (w, h)" "w \<noteq> 0"
  shows "\<exists>r k'. kpipe_write a (Some src) n sp k = Some (Suspend r, k') \<and> pipe_inv a k' \<and> sleeper k' me \<and> cur k' \<noteq> Some me
    \<and> pipes k' = (pipes k)(a \<mapsto> p\<lparr>p_wwait := p_wwait p @ [(w, me)]\<rparr>)"
proof -
  note pi = pipe_invE [OF inv p]
  have "pipe_wf (enqueue_writer me w p)" using pi(3) w(2) by (simp add: enqueue_writer_def)
  from pipe_sleep [OF inv p c sp w this] obtain r k' where
    "go_to_sleep me sp (set_pipe a (enqueue_writer me w p) (k\<lparr>heap := h\<rparr>)) = Some (Suspend r :: nat io, k')" "pipe_inv a k'"
    "pipes k' = (pipes k)(a \<mapsto> enqueue_writer me w p)" "sleeper k' me" "cur k' \<noteq> Some me" by blast
  with p full c(1) n w pi(2) show ?thesis
    by (intro exI [of _ r] exI [of _ k'])
      (simp add: kpipe_write_def kpipe_write_try_def kpipe_write_sleep_def kmalloc_def enqueue_writer_def)
qed

section \<open>Every call\<close>

text \<open>Whatever a call to \<^verbatim>\<open>kpipe_write\<close> or \<^verbatim>\<open>kpipe_read\<close> does, it returns or sleeps, keeps the invariant,
  and moves exactly the bytes its result says.\<close>

definition wrote :: "nat \<Rightarrow> nat list \<Rightarrow> nat io \<Rightarrow> kernel \<Rightarrow> kernel \<Rightarrow> bool" where
  "wrote a src r k k' \<longleftrightarrow> (case r of Ret m bs \<Rightarrow> bs = [] \<and> nat m \<le> length src \<and> pipe_of a k' = pipe_of a k @ take (nat m) src
     | Suspend sp \<Rightarrow> pipe_of a k' = pipe_of a k | Again \<Rightarrow> False)"

definition delivered :: "nat \<Rightarrow> nat io \<Rightarrow> kernel \<Rightarrow> kernel \<Rightarrow> bool" where
  "delivered a r k k' \<longleftrightarrow> (case r of Ret m bs \<Rightarrow> length bs = nat m \<and> pipe_of a k = bs @ pipe_of a k'
     | Suspend sp \<Rightarrow> pipe_of a k' = pipe_of a k | Again \<Rightarrow> False)"

lemma pipe_inv_cur: "pipe_inv a k \<Longrightarrow> \<exists>me. cur k = Some me"
  using kernel_ok_cur by (auto simp: pipe_inv_def)

lemma pipe_inv_malloc:
  assumes "pipe_inv a k"
  shows "\<exists>w h. mm_malloc n (heap k) = Some (w, h) \<and> (w = 0 \<longrightarrow> h = heap k)"
proof -
  from assms have "mm_inv (heap k)" by (auto simp: pipe_inv_def kernel_ok_def kheap_ok_def)
  from mmheap.alloc_total [OF this] mmheap.alloc_keeps(2) [OF this] show ?thesis by blast
qed

lemma kpipe_write_total:
  assumes inv: "pipe_inv a k" and sp: "sp \<noteq> 0" and c: "idle_proc k \<noteq> cur k" and n: "nat n \<le> length src"
  shows "\<exists>r k'. kpipe_write a (Some src) n sp k = Some (r, k') \<and> pipe_inv a k' \<and> wrote a src r k k'"
proof (cases "0 < n")
  case False
  then show ?thesis using inv by (simp add: kpipe_write_def wrote_def)
next
  case n0: True
  from inv obtain p where p: "pipes k a = Some p" by (auto simp: pipe_inv_def)
  note pi = pipe_invE [OF inv p]
  from pipe_inv_cur [OF inv] c obtain me where me: "cur k = Some me" "idle_proc k \<noteq> Some me" by auto
  consider "p_readers p = 0" | "p_readers p \<noteq> 0" "p_size p < PIPE_CAP" | "p_readers p \<noteq> 0" "p_size p = PIPE_CAP"
    using pi(3) order_le_less by (auto simp only: pipe_wf_def)
  then show ?thesis
  proof cases
    case 1
    with kpipe_write_no_reader [OF p 1 pi(2) n0] inv show ?thesis by (simp add: wrote_def)
  next
    case 2
    from kpipe_write_spec [OF inv p 2 n0 n, of sp] n show ?thesis by (fastforce simp: wrote_def)
  next
    case 3
    from pipe_inv_malloc [OF inv] obtain w h where w: "mm_malloc sizeof_waiter (heap k) = Some (w, h)" "w = 0 \<longrightarrow> h = heap k" by blast
    show ?thesis
    proof (cases "w = 0")
      case True
      with w p 3 me n0 pi(2) inv show ?thesis
        by (simp add: kpipe_write_def kpipe_write_try_def kmalloc_def wrote_def)
    next
      case False
      from kpipe_write_blocks [OF inv p 3(2,1) me sp n0 w(1) False, of src] p show ?thesis
        by (fastforce simp: wrote_def pipe_of_def)
    qed
  qed
qed

lemma kpipe_read_total:
  assumes inv: "pipe_inv a k" and sp: "sp \<noteq> 0" and c: "idle_proc k \<noteq> cur k"
  shows "\<exists>r k'. kpipe_read a True n sp k = Some (r, k') \<and> pipe_inv a k' \<and> delivered a r k k'"
proof (cases "0 < n")
  case False
  then show ?thesis using inv by (simp add: kpipe_read_def delivered_def)
next
  case n0: True
  from inv obtain p where p: "pipes k a = Some p" by (auto simp: pipe_inv_def)
  note pi = pipe_invE [OF inv p]
  from pipe_inv_cur [OF inv] c obtain me where me: "cur k = Some me" "idle_proc k \<noteq> Some me" by auto
  consider "0 < p_size p" | "p_size p = 0" "p_writers p = 0" | "p_size p = 0" "p_writers p \<noteq> 0" by auto
  then show ?thesis
  proof cases
    case 1
    from kpipe_read_spec [OF inv p 1 n0, of sp] p show ?thesis by (fastforce simp: delivered_def pipe_of_def)
  next
    case 2
    from kpipe_read_eof [OF p 2 pi(2) n0] inv show ?thesis by (simp add: delivered_def)
  next
    case 3
    from pipe_inv_malloc [OF inv] obtain w h where w: "mm_malloc sizeof_waiter (heap k) = Some (w, h)" "w = 0 \<longrightarrow> h = heap k" by blast
    show ?thesis
    proof (cases "w = 0")
      case True
      with w p 3 me n0 pi(2) inv show ?thesis
        by (simp add: kpipe_read_def kpipe_read_try_def kmalloc_def delivered_def)
    next
      case False
      from kpipe_read_blocks [OF inv p 3 me sp n0 w(1) False] p show ?thesis
        by (fastforce simp: delivered_def pipe_of_def pipe_bytes_def)
    qed
  qed
qed

section \<open>Any interleaving of readers and writers\<close>

text \<open>
  \<open>pipe_run a k xs ys k'\<close>: a run in which writes had the bytes \<open>xs\<close> accepted and reads returned \<open>ys\<close>,
  by any processes, with anything in between that leaves the pipe alone.
\<close>

inductive pipe_run :: "nat \<Rightarrow> kernel \<Rightarrow> nat list \<Rightarrow> nat list \<Rightarrow> kernel \<Rightarrow> bool" for a k where
  start: "pipe_run a k [] [] k"
| put: "pipe_run a k xs ys k1 \<Longrightarrow> sp \<noteq> 0 \<Longrightarrow> idle_proc k1 \<noteq> cur k1 \<Longrightarrow> nat n \<le> length src \<Longrightarrow>
    kpipe_write a (Some src) n sp k1 = Some (r, k2) \<Longrightarrow>
    pipe_run a k (xs @ (case r of Ret m _ \<Rightarrow> take (nat m) src | _ \<Rightarrow> [])) ys k2"
| get: "pipe_run a k xs ys k1 \<Longrightarrow> sp \<noteq> 0 \<Longrightarrow> idle_proc k1 \<noteq> cur k1 \<Longrightarrow>
    kpipe_read a True n sp k1 = Some (r, k2) \<Longrightarrow>
    pipe_run a k xs (ys @ (case r of Ret _ bs \<Rightarrow> bs | _ \<Rightarrow> [])) k2"
| other: "pipe_run a k xs ys k1 \<Longrightarrow> pipe_inv a k2 \<Longrightarrow> pipe_of a k2 = pipe_of a k1 \<Longrightarrow> pipe_run a k xs ys k2"

lemma pipe_run_fifo:
  assumes "pipe_run a k xs ys k'" "pipe_inv a k"
  shows "pipe_inv a k' \<and> ys @ pipe_of a k' = pipe_of a k @ xs"
  using assms
proof (induction rule: pipe_run.induct)
  case (put xs ys k1 sp n src r k2)
  then have inv: "pipe_inv a k1" "ys @ pipe_of a k1 = pipe_of a k @ xs" by auto
  from kpipe_write_total [OF inv(1) put(2,3,4)] put(5) have "pipe_inv a k2" "wrote a src r k1 k2" by auto
  with inv(2) show ?case by (cases r) (auto simp: wrote_def simp flip: append_assoc)
next
  case (get xs ys k1 sp n r k2)
  then have inv: "pipe_inv a k1" "ys @ pipe_of a k1 = pipe_of a k @ xs" by auto
  from kpipe_read_total [OF inv(1) get(2,3), of n] get(4) have "pipe_inv a k2" "delivered a r k1 k2" by auto
  with inv(2) show ?case by (cases r) (auto simp: delivered_def)
qed simp_all

section \<open>Closing an end\<close>

lemma pipe_wf_drop_ends: "pipe_wf p \<Longrightarrow> pipe_wf (drop_ends r w p)"
  by (auto simp: pipe_wf_def drop_ends_def)

lemma drop_ends_waits [simp]: "p_rwait (drop_ends r w p) = p_rwait p" "p_wwait (drop_ends r w p) = p_wwait p"
  "pipe_bytes (drop_ends r w p) = pipe_bytes p" "p_unlinked (drop_ends r w p) = p_unlinked p"
  by (simp_all add: drop_ends_def pipe_bytes_def)

text \<open>The last writer closes while readers are left: all sleeping readers are woken, in one go.\<close>

lemma kpipe_close_last_writer:
  assumes inv: "pipe_inv a k" and p: "pipes k a = Some p" and ends: "p_writers p = 1" "0 < p_readers p"
  shows "\<exists>k'. kpipe_close a False True k = Some (0, k') \<and> pipe_inv a k' \<and> pipe_of a k' = pipe_of a k
    \<and> pipes k' = (pipes k)(a \<mapsto> p\<lparr>p_writers := 0, p_rwait := []\<rparr>)
    \<and> (\<forall>i \<in> snd ` set (p_rwait p). state (procs k' i) = READY)
    \<and> (\<forall>i. i \<notin> snd ` set (p_rwait p) \<longrightarrow> strip (procs k' i) = strip (procs k i))"
proof -
  note pi = pipe_invE [OF inv p]
  define p1 where "p1 = drop_ends False True p"
  define k1 where "k1 = set_pipe a p1 k"
  have p1: "p_writers p1 = 0" "p_readers p1 = p_readers p" "p_rwait p1 = p_rwait p" "p_wwait p1 = p_wwait p"
    "pipe_wf p1" "pipe_bytes p1 = pipe_bytes p" "p1 = p\<lparr>p_writers := 0\<rparr>"
    using ends pipe_wf_drop_ends [OF pi(3)] by (simp_all add: p1_def) (simp_all add: drop_ends_def)
  have k1: "kernel_ok k1" "pipes k1 a = Some p1" "queue_ok k1 (p_rwait p1 @ p_wwait p1)"
    using pi(1,4) by (simp_all add: k1_def p1)
  from readers.drain_all [OF k1, of "Suc (length (p_rwait p1))"] obtain k2 where
    k2: "wake_readers proc_unblock (Suc (length (p_rwait p1))) a k1 = Some k2" "kernel_ok k2"
      "pipes k2 = (pipes k1)(a \<mapsto> p1\<lparr>p_rwait := []\<rparr>)" "queue_ok k2 (p_wwait p1)"
      "woken (snd ` set (p_rwait p1)) (k1\<lparr>pipes := pipes k2, heap := heap k2\<rparr>) k2" by blast
  have "(if p_rwait p \<noteq> [] then wake_readers proc_unblock (Suc (length (p_rwait p))) a k1 else Some k1) = Some k2"
  proof (cases "p_rwait p = []")
    case True
    with k1(2) k2(1) show ?thesis by (simp add: dequeue_reader_def p1(3))
  qed (use k2(1) in \<open>simp add: p1(3)\<close>)
  then have "kpipe_close a False True k = Some (0, k2)"
    using p pi(2) p1(1-3) ends(2)
    by (cases "p_rwait p = []")
      (simp_all add: kpipe_close_def kpipe_close_with_def Let_def flip: p1_def k1_def del: wake_readers.simps)
  moreover have "pipe_inv a k2" using k2(2-4) p1(5) pi(2) by (simp add: pipe_inv_def)
  moreover have "pipes k2 = (pipes k)(a \<mapsto> p\<lparr>p_writers := 0, p_rwait := []\<rparr>)" by (simp add: k2(3) k1_def p1(7))
  moreover from this have "pipe_of a k2 = pipe_of a k" by (simp add: pipe_of_def p pipe_bytes_def)
  moreover have "\<forall>i \<in> snd ` set (p_rwait p). state (procs k2 i) = READY"
    using woken_fields(1) [OF k2(5)] by (simp add: p1(3))
  moreover have "strip (procs k2 i) = strip (procs k i)" if "i \<notin> snd ` set (p_rwait p)" for i
    using k2(5) that by (simp add: woken_def p1(3) k1_def)
  ultimately show ?thesis by blast
qed

section \<open>A concrete pipe\<close>

text \<open>Two bytes in the pipe; \<open>ws\<close> and \<open>vs\<close> are its queues.\<close>

definition demo_pipe :: "nat \<Rightarrow> (nat \<times> nat) list \<Rightarrow> (nat \<times> nat) list \<Rightarrow> kpipe" where
  "demo_pipe n ws vs = \<lparr>p_name = ''p'', p_buf = (\<lambda>i. i), p_r = 5, p_w = (5 + n) mod PIPE_CAP, p_size = n,
     p_readers = 1, p_writers = 1, p_unlinked = False, p_rwait = ws, p_wwait = vs\<rparr>"

definition demo_piped :: "nat \<Rightarrow> (nat \<times> nat) list \<Rightarrow> (nat \<times> nat) list \<Rightarrow> kernel" where
  "demo_piped n ws vs = demo_kernel\<lparr>pipes := [9000 \<mapsto> demo_pipe n ws vs]\<rparr>"

lemma demo_piped_simps [simp]:
  "pipes (demo_piped n ws vs) 9000 = Some (demo_pipe n ws vs)" "cur (demo_piped n ws vs) = Some 1"
  "idle_proc (demo_piped n ws vs) = Some 0" "heap (demo_piped n ws vs) = demo_heap"
  by (simp_all add: demo_piped_def)

lemma demo_pipe_simps [simp]:
  "p_size (demo_pipe n ws vs) = n" "p_readers (demo_pipe n ws vs) = 1" "p_writers (demo_pipe n ws vs) = 1"
  "p_rwait (demo_pipe n ws vs) = ws" "p_wwait (demo_pipe n ws vs) = vs"
  by (simp_all add: demo_pipe_def)

lemma demo_piped_inv:
  assumes "n \<le> PIPE_CAP" "queue_ok demo_kernel (ws @ vs)"
  shows "pipe_inv 9000 (demo_piped n ws vs)"
proof (rule pipe_invI)
  show "kernel_ok (demo_piped n ws vs)" using demo_kernel_ok by (simp add: demo_piped_def)
  show "pipes (demo_piped n ws vs) 9000 = Some (demo_pipe n ws vs)" by simp
  show "pipe_wf (demo_pipe n ws vs)" using assms(1) by (simp add: demo_pipe_def pipe_wf_def PIPE_CAP_def)
  show "queue_ok (demo_piped n ws vs) (p_rwait (demo_pipe n ws vs) @ p_wwait (demo_pipe n ws vs))"
    using assms(2) by (simp add: queue_ok_def demo_piped_def)
qed simp

lemma demo_waiter: "\<exists>h. mm_malloc sizeof_waiter (heap demo_kernel) = Some (4224, h)"
  using demo_heap_malloc by (auto simp: demo_heap_def sizeof_waiter_def)

section \<open>Properties\<close>

text \<open>C14. A pipe is a queue of bytes: after any interleaving of reads and writes, by any processes,
  sleeping and waking included, the bytes read so far followed by the bytes still in the pipe are
  the bytes that were in it at the start followed by the bytes accepted, in order; none is lost or
  duplicated, and the pipe stays well formed.\<close>

theorem pipe_preserves_byte_order:
  assumes "pipe_inv a k" "pipe_run a k xs ys k'"
  shows "pipe_inv a k' \<and> ys @ pipe_of a k' = pipe_of a k @ xs"
  using pipe_run_fifo [OF assms(2,1)] .

theorem pipe_preserves_byte_order_witness:
  "\<exists>k'. pipe_run 9000 (demo_piped 2 [(4128, 2)] []) [7, 8] [] k'
     \<and> pipe_inv 9000 k' \<and> [] @ pipe_of 9000 k' = pipe_of 9000 (demo_piped 2 [(4128, 2)] []) @ [7, 8]"
proof -
  let ?k = "demo_piped 2 [(4128, 2)] []"
  have inv: "pipe_inv 9000 ?k" by (rule demo_piped_inv) (simp_all add: PIPE_CAP_def demo_queue)
  from kpipe_write_spec [OF inv, of "demo_pipe 2 [(4128, 2)] []" 2 "[7, 8]" 4096] obtain k' where
    k': "kpipe_write 9000 (Some [7, 8]) 2 4096 ?k = Some (Ret 2 [], k')"
    by (auto simp: PIPE_CAP_def)
  have "pipe_run 9000 ?k ([] @ (case Ret 2 [] :: nat io of Ret m bs \<Rightarrow> take (nat m) [7, 8] | _ \<Rightarrow> [])) [] k'"
    by (rule pipe_run.put [OF pipe_run.start _ _ _ k']) simp_all
  then have run: "pipe_run 9000 ?k [7, 8] [] k'" by simp
  from pipe_preserves_byte_order [OF inv run] run show ?thesis by blast
qed

text \<open>C15. Writing to a pipe that has a reader and room: as much as fits is appended, the number of
  bytes is returned, and the reader that has slept longest, if any, becomes ready; nobody else is
  touched.\<close>

theorem pipe_write_accepts_and_wakes:
  assumes "pipe_inv a k" "pipes k a = Some p" "p_readers p \<noteq> 0" "p_size p < PIPE_CAP" "0 < n" "nat n \<le> length src"
  shows "\<exists>k'. kpipe_write a (Some src) n sp k = Some (Ret (int (min (PIPE_CAP - p_size p) (nat n))) [], k')
    \<and> pipe_inv a k' \<and> pipe_of a k' = pipe_of a k @ take (min (PIPE_CAP - p_size p) (nat n)) src
    \<and> (\<forall>i \<in> snd ` set (take 1 (p_rwait p)). state (procs k' i) = READY)
    \<and> (\<forall>i. i \<notin> snd ` set (take 1 (p_rwait p)) \<longrightarrow> strip (procs k' i) = strip (procs k i))"
proof -
  from kpipe_write_spec [OF assms, of sp] obtain k' where
    k': "kpipe_write a (Some src) n sp k = Some (Ret (int (min (PIPE_CAP - p_size p) (nat n))) [], k')"
      "pipe_inv a k'" "pipe_of a k' = pipe_of a k @ take (min (PIPE_CAP - p_size p) (nat n)) src"
      "first_woken (p_rwait p) k k'" by blast
  from k'(1-3) first_wokenD [OF k'(4)] show ?thesis by blast
qed

theorem pipe_write_accepts_and_wakes_witness:
  "\<exists>k'. kpipe_write 9000 (Some [7, 8, 9]) 3 4096 (demo_piped 4094 [(4128, 2), (4176, 3)] []) = Some (Ret 2 [], k')
    \<and> pipe_of 9000 k' = pipe_of 9000 (demo_piped 4094 [(4128, 2), (4176, 3)] []) @ [7, 8]
    \<and> state (procs k' 2) = READY \<and> state (procs k' 3) = BLOCKED"
proof -
  let ?k = "demo_piped 4094 [(4128, 2), (4176, 3)] []"
  have inv: "pipe_inv 9000 ?k" by (rule demo_piped_inv) (simp_all add: PIPE_CAP_def demo_queue)
  from pipe_write_accepts_and_wakes [OF inv, of "demo_pipe 4094 [(4128, 2), (4176, 3)] []" 3 "[7, 8, 9]" 4096]
  obtain k' where k': "kpipe_write 9000 (Some [7, 8, 9]) 3 4096 ?k = Some (Ret 2 [], k')"
    "pipe_of 9000 k' = pipe_of 9000 ?k @ [7, 8]" "state (procs k' 2) = READY"
    "strip (procs k' 3) = strip (procs ?k 3)" by (auto simp: PIPE_CAP_def)
  have "state (procs k' 3) = state (procs ?k 3)" using k'(4) by (rule strip_eqD)
  also have "\<dots> = BLOCKED" by (simp add: demo_piped_def)
  finally show ?thesis using k' by blast
qed

text \<open>C16. Reading from a pipe that is not empty: the oldest bytes are returned and removed, and the
  writer that has slept longest, if any, becomes ready.\<close>

theorem pipe_read_delivers_and_wakes:
  assumes "pipe_inv a k" "pipes k a = Some p" "0 < p_size p" "0 < n"
  shows "\<exists>k'. kpipe_read a True n sp k
      = Some (Ret (int (min (p_size p) (nat n))) (take (min (p_size p) (nat n)) (pipe_of a k)), k')
    \<and> pipe_inv a k' \<and> pipe_of a k' = drop (min (p_size p) (nat n)) (pipe_of a k)
    \<and> (\<forall>i \<in> snd ` set (take 1 (p_wwait p)). state (procs k' i) = READY)
    \<and> (\<forall>i. i \<notin> snd ` set (take 1 (p_wwait p)) \<longrightarrow> strip (procs k' i) = strip (procs k i))"
proof -
  from kpipe_read_spec [OF assms, of sp] obtain k' where
    k': "kpipe_read a True n sp k
        = Some (Ret (int (min (p_size p) (nat n))) (take (min (p_size p) (nat n)) (pipe_of a k)), k')"
      "pipe_inv a k'" "pipe_of a k' = drop (min (p_size p) (nat n)) (pipe_of a k)"
      "first_woken (p_wwait p) k k'" by blast
  from k'(1-3) first_wokenD [OF k'(4)] show ?thesis by blast
qed

theorem pipe_read_delivers_and_wakes_witness:
  "\<exists>k'. kpipe_read 9000 True 1 4096 (demo_piped 2 [] [(4176, 3)]) = Some (Ret 1 [5], k')
    \<and> pipe_of 9000 k' = [6] \<and> state (procs k' 3) = READY"
proof -
  let ?k = "demo_piped 2 [] [(4176, 3)]"
  have inv: "pipe_inv 9000 ?k" by (rule demo_piped_inv) (simp_all add: PIPE_CAP_def demo_queue queue_ok_def demo_heap_live demo_sleepers)
  have "pipe_of 9000 ?k = [5, 6]"
    by (simp add: pipe_of_def pipe_bytes_def pring.contents_def demo_pipe_def upt_rec) (simp add: PIPE_CAP_def)
  with pipe_read_delivers_and_wakes [OF inv, of "demo_pipe 2 [] [(4176, 3)]" 1 4096] show ?thesis by auto
qed

text \<open>Reading from an empty pipe that has a writer: when a node can be allocated the process
  goes to sleep at the end of the queue of readers and the CPU goes to another one.\<close>

theorem pipe_read_sleeps_when_empty:
  assumes "pipe_inv a k" "pipes k a = Some p" "p_size p = 0" "p_writers p \<noteq> 0"
    "cur k = Some me" "idle_proc k \<noteq> Some me" "sp \<noteq> 0" "0 < n"
    "mm_malloc sizeof_waiter (heap k) = Some (w, h)" "w \<noteq> 0"
  shows "\<exists>r k'. kpipe_read a True n sp k = Some (Suspend r, k') \<and> pipe_inv a k' \<and> sleeper k' me \<and> cur k' \<noteq> Some me
    \<and> pipes k' = (pipes k)(a \<mapsto> p\<lparr>p_rwait := p_rwait p @ [(w, me)]\<rparr>)"
  by (rule kpipe_read_blocks [OF assms])

theorem pipe_read_sleeps_when_empty_witness:
  "\<exists>r k'. kpipe_read 9000 True 1 4096 (demo_piped 0 [(4128, 2)] []) = Some (Suspend r, k') \<and> pipe_inv 9000 k'
    \<and> sleeper k' 1 \<and> cur k' \<noteq> Some 1 \<and> pipes k' 9000 = Some (demo_pipe 0 [(4128, 2), (4224, 1)] [])"
proof -
  let ?k = "demo_piped 0 [(4128, 2)] []"
  have inv: "pipe_inv 9000 ?k" by (rule demo_piped_inv) (simp_all add: PIPE_CAP_def demo_queue)
  from demo_waiter obtain h where "mm_malloc sizeof_waiter (heap ?k) = Some (4224, h)" by auto
  from pipe_read_sleeps_when_empty [OF inv _ _ _ _ _ _ _ this, of "demo_pipe 0 [(4128, 2)] []" 1 4096 1]
  show ?thesis by (fastforce simp: demo_pipe_def)
qed

text \<open>C17. When the last writer closes its end, every sleeping reader becomes ready at once and the
  data stays; a reader of an empty pipe without writers gets end of file, and a writer to a pipe
  without readers gets an error, with nothing changed.\<close>

theorem pipe_last_writer_wakes_all:
  assumes "pipe_inv a k" "pipes k a = Some p" "p_writers p = 1" "0 < p_readers p"
  shows "\<exists>k'. kpipe_close a False True k = Some (0, k') \<and> pipe_inv a k' \<and> pipe_of a k' = pipe_of a k
    \<and> (\<forall>i \<in> snd ` set (p_rwait p). state (procs k' i) = READY)
    \<and> (\<forall>n. 0 < n \<and> pipe_of a k = [] \<longrightarrow> kpipe_read a True n sp k' = Some (Ret 0 [], k'))"
proof -
  from kpipe_close_last_writer [OF assms] obtain k' where
    k': "kpipe_close a False True k = Some (0, k')" "pipe_inv a k'" "pipe_of a k' = pipe_of a k"
      "pipes k' = (pipes k)(a \<mapsto> p\<lparr>p_writers := 0, p_rwait := []\<rparr>)"
      "\<forall>i \<in> snd ` set (p_rwait p). state (procs k' i) = READY" by blast
  have "kpipe_read a True n sp k' = Some (Ret 0 [], k')" if "0 < n" "pipe_of a k = []" for n
  proof (rule kpipe_read_eof)
    show "pipes k' a = Some (p\<lparr>p_writers := 0, p_rwait := []\<rparr>)" by (simp add: k'(4))
    have "length (pipe_of a k) = p_size p" by (simp add: pipe_of_def assms(2))
    with that(2) show "p_size (p\<lparr>p_writers := 0, p_rwait := []\<rparr>) = 0" by simp
  qed (use that assms(1) in \<open>auto simp: pipe_inv_def\<close>)
  with k' show ?thesis by blast
qed

theorem pipe_last_writer_wakes_all_witness:
  "\<exists>k'. kpipe_close 9000 False True (demo_piped 0 [(4128, 2), (4176, 3)] []) = Some (0, k')
    \<and> state (procs k' 2) = READY \<and> state (procs k' 3) = READY \<and> kpipe_read 9000 True 1 4096 k' = Some (Ret 0 [], k')"
proof -
  let ?k = "demo_piped 0 [(4128, 2), (4176, 3)] []"
  have inv: "pipe_inv 9000 ?k" by (rule demo_piped_inv) (simp_all add: PIPE_CAP_def demo_queue)
  have "pipe_of 9000 ?k = []" by (simp add: pipe_of_def pipe_bytes_def)
  with pipe_last_writer_wakes_all [OF inv, of "demo_pipe 0 [(4128, 2), (4176, 3)] []" 4096] show ?thesis by auto
qed

end
