(* ===== verification/Semaphore.thy ===== *)
theory Semaphore
  imports Wake
begin

text \<open>
  \<^verbatim>\<open>Kernel/ipc/semaphore.c\<close>: named counting semaphores. A hash chain is the list of the addresses
  on it; a wait queue is the list of its nodes (address, process).
\<close>

definition set_sem :: "nat \<Rightarrow> ksem \<Rightarrow> kernel \<Rightarrow> kernel" where
  "set_sem a s k = k\<lparr>sems := (sems k)(a := Some s)\<rparr>"

section \<open>Wait queues\<close>

definition wait_queue_push :: "nat \<times> nat \<Rightarrow> ksem \<Rightarrow> ksem" where
  "wait_queue_push node s = s\<lparr>s_waiters := s_waiters s @ [node]\<rparr>"

definition wait_queue_pop :: "ksem \<Rightarrow> (nat \<times> nat) option \<times> ksem" where
  "wait_queue_pop s = (case s_waiters s of [] \<Rightarrow> (None, s) | w # ws \<Rightarrow> (Some w, s\<lparr>s_waiters := ws\<rparr>))"

text \<open>The nodes of one process are taken out; the result lists them in queue order.\<close>

definition wait_queue_remove_proc :: "nat \<Rightarrow> ksem \<Rightarrow> (nat \<times> nat) list \<times> ksem" where
  "wait_queue_remove_proc proc s =
    (filter (\<lambda>w. snd w = proc) (s_waiters s), s\<lparr>s_waiters := filter (\<lambda>w. snd w \<noteq> proc) (s_waiters s)\<rparr>)"

section \<open>Destruction\<close>

definition sem_ready_to_destroy :: "ksem \<Rightarrow> bool \<times> ksem" where
  "sem_ready_to_destroy s =
    (if s_destroying s then (False, s)
     else if s_unlinked s \<and> s_refcount s = 0 \<and> s_waiters s = [] then (True, s\<lparr>s_destroying := True\<rparr>)
     else (False, s))"

definition sem_free :: "nat \<Rightarrow> kernel \<Rightarrow> kernel option" where
  "sem_free a k =
    (if a = 0 then Some k
     else do {
       s \<leftarrow> sems k a;
       k1 \<leftarrow> kfree_all (map fst (s_waiters s)) k;
       kfree a (k1\<lparr>sems := (sems k1)(a := None)\<rparr>)
     })"

section \<open>ksem_open\<close>

fun sem_find :: "(nat \<Rightarrow> ksem option) \<Rightarrow> string \<Rightarrow> nat list \<Rightarrow> nat option" where
  "sem_find ss nm [] = Some 0"
| "sem_find ss nm (a # as) = do {
     s \<leftarrow> ss a;
     if \<not> s_unlinked s \<and> sem_name_cmp (s_name s) nm = 0 then Some a else sem_find ss nm as
   }"

definition inc32 :: "nat \<Rightarrow> nat" where
  "inc32 n = (n + 1) mod 2 ^ 32"

definition sem_add_ref :: "nat \<Rightarrow> kernel \<Rightarrow> kernel option" where
  "sem_add_ref a k = do { s \<leftarrow> sems k a; Some (set_sem a (s\<lparr>s_refcount := inc32 (s_refcount s)\<rparr>) k) }"

definition bad_sem_name :: "string \<Rightarrow> bool" where
  "bad_sem_name s \<longleftrightarrow> sem_name_len s = 0 \<or> sem_name_len s \<ge> KSEM_NAME_MAX"

text \<open>
  The result is the return value and the pointer stored in \<^verbatim>\<open>*out\<close>. The second search, after the
  allocation, is made under \<^verbatim>\<open>sem_creation_lock\<close>.
\<close>

definition ksem_open :: "string option \<Rightarrow> nat \<Rightarrow> bool \<Rightarrow> kernel \<Rightarrow> (int \<times> nat \<times> kernel) option" where
  "ksem_open nm init out_ok k =
    (case nm of None \<Rightarrow> Some (-1, 0, k)
     | Some n \<Rightarrow>
       if \<not> out_ok \<or> bad_sem_name n then Some (-1, 0, k)
       else do {
         let bucket = sem_hash n;
         a \<leftarrow> sem_find (sems k) n (sem_buckets k bucket);
         if a \<noteq> 0 then do { k1 \<leftarrow> sem_add_ref a k; Some (0, a, k1) }
         else do {
           (new_sem, k1) \<leftarrow> kmalloc sizeof_ksem k;
           if new_sem = 0 then Some (-1, 0, k1)
           else do {
             let k2 = set_sem new_sem \<lparr>s_name = sem_name_copy n, s_count = init, s_refcount = 1,
                        s_unlinked = False, s_destroying = False, s_waiters = []\<rparr> k1;
             b \<leftarrow> sem_find (sems k2) n (sem_buckets k2 bucket);
             if b \<noteq> 0 then do {
               k3 \<leftarrow> sem_add_ref b k2;
               k4 \<leftarrow> sem_free new_sem k3;
               Some (0, b, k4)
             } else
               Some (0, new_sem, k2\<lparr>sem_buckets := (sem_buckets k2)(bucket := new_sem # sem_buckets k2 bucket)\<rparr>)
           }
         }
       })"

section \<open>ksem_wait and ksem_post\<close>

text \<open>
  \<open>Returns v\<close>: the call is over. \<open>Sleeps r\<close>: the process gave up the CPU; the call returns 0 when
  the process is resumed, whoever woke it.
\<close>

datatype sem_io = Returns int | Sleeps nat

definition ksem_wait :: "nat \<Rightarrow> nat \<Rightarrow> kernel \<Rightarrow> (sem_io \<times> kernel) option" where
  "ksem_wait a sp k =
    (if a = 0 then Some (Returns (-1), k)
     else (case cur k of
        None \<Rightarrow> Some (Returns (-1), k)
      | Some me \<Rightarrow> do {
          (waiter, k1) \<leftarrow> kmalloc sizeof_waiter k;
          if waiter = 0 then Some (Returns (-1), k1)
          else do {
            s \<leftarrow> sems k1 a;
            if s_count s > 0 then do {
              k2 \<leftarrow> kfree waiter (set_sem a (s\<lparr>s_count := s_count s - 1\<rparr>) k1);
              Some (Returns 0, k2)
            } else do {
              let k2 = set_sem a (wait_queue_push (waiter, me) s) k1;
              (r, k3) \<leftarrow> sched_force_yield sp (upd me (\<lambda>p. p\<lparr>state := BLOCKED, ticks_left := 0\<rparr>) k2);
              Some (Sleeps r, k3)
            }
          }
        }))"

definition sem_count_up :: "ksem \<Rightarrow> ksem" where
  "sem_count_up s = (if s_count s < UINT32_MAX then s\<lparr>s_count := s_count s + 1\<rparr> else s)"

definition ksem_post :: "nat \<Rightarrow> kernel \<Rightarrow> (int \<times> kernel) option" where
  "ksem_post a k =
    (if a = 0 then Some (-1, k)
     else do {
       s \<leftarrow> sems k a;
       case wait_queue_pop s of
         (None, _) \<Rightarrow> Some (0, set_sem a (sem_count_up s) k)
       | (Some (waiter, target), s') \<Rightarrow> do {
           let k1 = set_sem a s' k;
           (r, k2) \<leftarrow> proc_unblock (pid (procs k1 target)) k1;
           k3 \<leftarrow> (if r = 0 then Some k2
                 else do { s2 \<leftarrow> sems k2 a; Some (set_sem a (sem_count_up s2) k2) });
           k4 \<leftarrow> kfree waiter k3;
           Some (0, k4)
         }
     })"

section \<open>ksem_close and ksem_unlink\<close>

definition ksem_close :: "nat \<Rightarrow> kernel \<Rightarrow> (int \<times> kernel) option" where
  "ksem_close a k =
    (if a = 0 then Some (-1, k)
     else do {
       s \<leftarrow> sems k a;
       if s_refcount s = 0 then Some (-1, k)
       else do {
         let (should_free, s') = sem_ready_to_destroy (s\<lparr>s_refcount := s_refcount s - 1\<rparr>);
         let k1 = set_sem a s' k;
         k2 \<leftarrow> (if should_free then sem_free a k1 else Some k1);
         Some (0, k2)
       }
     })"

definition ksem_unlink :: "string option \<Rightarrow> kernel \<Rightarrow> (int \<times> kernel) option" where
  "ksem_unlink nm k =
    (case nm of None \<Rightarrow> Some (-1, k)
     | Some n \<Rightarrow>
       if bad_sem_name n then Some (-1, k)
       else do {
         let bucket = sem_hash n;
         a \<leftarrow> sem_find (sems k) n (sem_buckets k bucket);
         if a = 0 then Some (-1, k)
         else do {
           s \<leftarrow> sems k a;
           let k1 = k\<lparr>sem_buckets := (sem_buckets k)(bucket := remove1 a (sem_buckets k bucket))\<rparr>;
           let (should_free, s') = sem_ready_to_destroy (s\<lparr>s_unlinked := True\<rparr>);
           let k2 = set_sem a s' k1;
           k3 \<leftarrow> (if should_free then sem_free a k2 else Some k2);
           Some (0, k3)
         }
       })"

section \<open>ksem_remove_waiters_for\<close>

fun remove_waiters_chain :: "nat \<Rightarrow> nat list \<Rightarrow> kernel \<Rightarrow> ((nat \<times> nat) list \<times> kernel) option" where
  "remove_waiters_chain proc [] k = Some ([], k)"
| "remove_waiters_chain proc (a # as) k = do {
     s \<leftarrow> sems k a;
     let (removed, s') = wait_queue_remove_proc proc s;
     (rest, k1) \<leftarrow> remove_waiters_chain proc as (set_sem a s' k);
     Some (removed @ rest, k1)
   }"

fun remove_waiters_buckets :: "nat \<Rightarrow> nat list \<Rightarrow> kernel \<Rightarrow> ((nat \<times> nat) list \<times> kernel) option" where
  "remove_waiters_buckets proc [] k = Some ([], k)"
| "remove_waiters_buckets proc (b # bs) k = do {
     (g1, k1) \<leftarrow> remove_waiters_chain proc (sem_buckets k b) k;
     (g2, k2) \<leftarrow> remove_waiters_buckets proc bs k1;
     Some (g1 @ g2, k2)
   }"

definition ksem_remove_waiters_for :: "nat \<Rightarrow> kernel \<Rightarrow> kernel option" where
  "ksem_remove_waiters_for proc k = do {
     (garbage, k1) \<leftarrow> remove_waiters_buckets proc [0 ..< KSEM_HASH_BUCKETS] k;
     kfree_all (map fst garbage) k1
   }"

end
