(* ===== verification/Proc.thy ===== *)
theory Proc
  imports Fd Semaphore
begin

text \<open>
  \<^verbatim>\<open>Kernel/process/proc.c\<close>: creating, ending, blocking, waiting for and listing processes, and
  the semaphore handle table of \<^verbatim>\<open>Kernel/sys/syscalls.c\<close> that \<^verbatim>\<open>proc_exit\<close> cleans up.
\<close>

section \<open>Semaphore handles\<close>

definition sem_handle_allocate :: "nat \<Rightarrow> int \<Rightarrow> kernel \<Rightarrow> int \<times> kernel" where
  "sem_handle_allocate sem owner k =
    (case find (\<lambda>i. fst (sem_handles k i) = 0) [0 ..< KSEM_HANDLE_MAX] of
       None \<Rightarrow> (-1, k)
     | Some i \<Rightarrow> (int i + 1, k\<lparr>sem_handles := (sem_handles k)(i := (sem, owner))\<rparr>))"

definition bad_handle :: "int \<Rightarrow> bool" where
  "bad_handle h \<longleftrightarrow> h \<le> 0 \<or> h > int KSEM_HANDLE_MAX"

definition sem_handle_peek :: "int \<Rightarrow> kernel \<Rightarrow> nat" where
  "sem_handle_peek h k = (if bad_handle h then 0 else fst (sem_handles k (nat h - 1)))"

definition sem_handle_detach :: "int \<Rightarrow> kernel \<Rightarrow> nat \<times> kernel" where
  "sem_handle_detach h k =
    (if bad_handle h then (0, k)
     else
       let sem = fst (sem_handles k (nat h - 1)) in
       if sem \<noteq> 0 then (sem, k\<lparr>sem_handles := (sem_handles k)(nat h - 1 := (0, 0))\<rparr>) else (sem, k))"

fun cleanup_handles :: "int \<Rightarrow> nat list \<Rightarrow> kernel \<Rightarrow> kernel option" where
  "cleanup_handles pd [] k = Some k"
| "cleanup_handles pd (i # is) k =
    (let (sem, owner) = sem_handles k i in
     if sem \<noteq> 0 \<and> owner = pd then do {
       (_, k1) \<leftarrow> ksem_close sem (k\<lparr>sem_handles := (sem_handles k)(i := (0, 0))\<rparr>);
       cleanup_handles pd is k1
     } else cleanup_handles pd is k)"

definition sem_cleanup_process_handles :: "int \<Rightarrow> kernel \<Rightarrow> kernel option" where
  "sem_cleanup_process_handles pd k = cleanup_handles pd [0 ..< KSEM_HANDLE_MAX] k"

section \<open>proc_create\<close>

definition clamp_prio :: "int \<Rightarrow> int" where
  "clamp_prio p = (if p < MIN_PRIO then MIN_PRIO else if p > HIGHEST_PRIO then HIGHEST_PRIO else p)"

text \<open>The fields set from the arguments; \<open>next_pid\<close> wraps to 1 when it leaves the positive ints.\<close>

definition init_pcb ::
  "nat \<Rightarrow> int \<Rightarrow> nat \<Rightarrow> int \<Rightarrow> bool \<Rightarrow> string \<Rightarrow> int \<Rightarrow> int \<Rightarrow> pcb \<Rightarrow> pcb" where
  "init_pcb ent ac av prio is_fg nm pd ppid p =
    p\<lparr>name := copy_name (Some nm) PROC_NAME_MAX, pid := pd, priority := prio, base_priority := prio,
      aging_ticks := 0, state := NEW, fg := is_fg, ticks_left := TIME_SLICE_TICKS,
      parent_pid := ppid, entry := ent, argc := ac, argv := av, exit_code := 0, waiting_for := 0,
      child_head := None, sibling_next := None, waiter_head := None, wait_res := [],
      pending_exit_pid := -1, pending_exit_code := 0, pending_exit_valid := False,
      exited := False, zombie_reapable := False, fd_table := 0\<rparr>"

text \<open>From the descriptor table to the end, once the stack is allocated.\<close>

definition proc_create_tail :: "nat \<Rightarrow> bool \<Rightarrow> kernel \<Rightarrow> (int \<times> kernel) option" where
  "proc_create_tail proc is_fg k = do {
     (t, k1) \<leftarrow> fd_table_create k;
     if t = 0 then do {
       k2 \<leftarrow> kfree (kstack_base (procs k1 proc)) k1;
       k3 \<leftarrow> release_slot proc (upd proc (\<lambda>p. p\<lparr>fd_table := 0, kstack_base := 0\<rparr>) k2);
       Some (-1, k3)
     } else do {
       let k2 = upd proc (fd_table_update (\<lambda>_. t)) k1;
       (ok, k3) \<leftarrow> (case cur k2 of
           None \<Rightarrow> do { k' \<leftarrow> fd_table_attach_std t k2; Some (0, k') }
         | Some parent \<Rightarrow>
             if fd_table (procs k2 parent) \<noteq> 0 then fd_table_clone t (fd_table (procs k2 parent)) k2
             else do { k' \<leftarrow> fd_table_attach_std t k2; Some (0, k') });
       if ok < 0 then do {
         k4 \<leftarrow> fd_table_destroy t k3;
         k5 \<leftarrow> kfree (kstack_base (procs k4 proc)) (upd proc (fd_table_update (\<lambda>_. 0)) k4);
         k6 \<leftarrow> release_slot proc (upd proc (kstack_base_update (\<lambda>_. 0)) k5);
         Some (-1, k6)
       } else do {
         let k4 = (case cur k3 of None \<Rightarrow> k3 | Some parent \<Rightarrow> link_child parent proc k3);
         k5 \<leftarrow> sched_enqueue proc (insert_proc proc k4);
         Some (pid (procs k5 proc), if is_fg then tty_set_foreground (pid (procs k5 proc)) k5 else k5)
       }
     }
   }"

definition proc_create ::
  "nat \<Rightarrow> int \<Rightarrow> nat \<Rightarrow> int \<Rightarrow> bool \<Rightarrow> string option \<Rightarrow> kernel \<Rightarrow> (int \<times> kernel) option" where
  "proc_create ent ac av prio0 is_fg nm k =
    (case nm of None \<Rightarrow> Some (-1, k)
     | Some s \<Rightarrow>
       if ent = 0 then Some (-1, k)
       else do {
         k1 \<leftarrow> collect_zombies k;
         case allocate_slot k1 of
           (None, k2) \<Rightarrow> Some (-1, k2)
         | (Some proc, k2) \<Rightarrow> do {
             let pd = next_pid k2;
             let np = swrap32 (pd + 1);
             let ppid = (case cur k2 of None \<Rightarrow> -1 | Some parent \<Rightarrow> pid (procs k2 parent));
             let k3 = upd proc (init_pcb ent ac av (clamp_prio prio0) is_fg s pd ppid)
                        (k2\<lparr>next_pid := (if np \<le> 0 then 1 else np)\<rparr>);
             (stk, k4) \<leftarrow> kmalloc KSTACK_SIZE k3;
             let k5 = upd proc (kstack_base_update (\<lambda>_. stk)) k4;
             if stk = 0 then do { k6 \<leftarrow> release_slot proc k5; Some (-1, k6) }
             else proc_create_tail proc is_fg (setup_stack proc k5)
           }
       })"

text \<open>\<^verbatim>\<open>sched_init\<close> creates the idle process; \<open>idle_entry\<close> is the address of \<^verbatim>\<open>idle_loop\<close>.\<close>

definition sched_init :: "nat \<Rightarrow> kernel \<Rightarrow> kernel option" where
  "sched_init idle_entry k = do {
     let k0 = k\<lparr>ready_head := (\<lambda>i. if i < MAX_PRIOS then None else ready_head k i),
               ready_tail := (\<lambda>i. if i < MAX_PRIOS then None else ready_tail k i),
               scheduler_enabled := False, cur := None, idle_proc := None\<rparr>;
     (idle_pid, k1) \<leftarrow> proc_create idle_entry 0 0 MIN_PRIO False (Some ''idle'') k0;
     if idle_pid \<ge> 0 then (case proc_by_pid idle_pid k1 of
         None \<Rightarrow> Some k1
       | Some i \<Rightarrow> do {
           k2 \<leftarrow> sched_remove i (upd i (fg_update (\<lambda>_. False)) (k1\<lparr>idle_proc := Some i\<rparr>));
           Some ((upd i (\<lambda>p. p\<lparr>state := RUNNING, ticks_left := TIME_SLICE_TICKS\<rparr>) k2)\<lparr>cur := Some i\<rparr>)
         })
     else Some k1
   }"

text \<open>
  \<^verbatim>\<open>trampoline\<close>, where a new process starts: what it does with the CPU. The kernel log is left out.
\<close>

datatype tramp = ExitsAtOnce int | CallsThenExits nat int nat int

definition trampoline :: "nat option \<Rightarrow> kernel \<Rightarrow> tramp" where
  "trampoline proc k =
    (case proc of None \<Rightarrow> ExitsAtOnce (-1)
     | Some i \<Rightarrow> if entry (procs k i) = 0 then ExitsAtOnce (-1)
                else CallsThenExits (entry (procs k i)) (argc (procs k i)) (argv (procs k i)) 0)"

section \<open>Ending a process\<close>

definition notify_parent_exit :: "nat \<Rightarrow> kernel \<Rightarrow> kernel option" where
  "notify_parent_exit proc k0 = do {
     let k = upd proc (\<lambda>p. p\<lparr>zombie_reapable := True, waiter_head := None\<rparr>) k0;
     if parent_pid (procs k proc) < 0 then Some k
     else (case proc_by_pid (parent_pid (procs k proc)) k of
         None \<Rightarrow> Some k
       | Some parent \<Rightarrow> do {
           k1 \<leftarrow> unlink_child parent proc k;
           k2 \<leftarrow> push_wait_result parent (pid (procs k1 proc)) (exit_code (procs k1 proc)) k1;
           let k3 = upd proc (parent_pid_update (\<lambda>_. -1)) k2;
           let pp = procs k3 parent;
           if state pp = BLOCKED \<and> (waiting_for pp = pid (procs k3 proc) \<or> waiting_for pp = -1) then do {
             (_, k4) \<leftarrow> proc_unblock (pid pp) (upd parent (waiting_for_update (\<lambda>_. 0)) k3);
             Some k4
           } else Some k3
         })
   }"

definition drop_fd_table :: "nat \<Rightarrow> kernel \<Rightarrow> kernel option" where
  "drop_fd_table proc k =
    (if fd_table (procs k proc) \<noteq> 0 then do {
       k1 \<leftarrow> fd_table_destroy (fd_table (procs k proc)) k;
       Some (upd proc (fd_table_update (\<lambda>_. 0)) k1)
     } else Some k)"

text \<open>The foreground goes back to a living parent; \<^verbatim>\<open>proc_kill\<close> also tries the shell.\<close>

definition parent_slot :: "nat \<Rightarrow> kernel \<Rightarrow> nat option" where
  "parent_slot proc k =
    (let pp = parent_pid (procs k proc) in if pp > 0 then proc_by_pid pp k else None)"

definition exit_foreground :: "nat \<Rightarrow> kernel \<Rightarrow> kernel" where
  "exit_foreground proc k =
    (if \<not> fg (procs k proc) then k
     else (case parent_slot proc k of
         Some parent \<Rightarrow> if state (procs k parent) \<noteq> EXITED
                       then proc_set_foreground (parent_pid (procs k proc)) k else tty_set_foreground (-1) k
       | None \<Rightarrow> tty_set_foreground (-1) k))"

definition find_shell :: "kernel \<Rightarrow> nat option" where
  "find_shell k = find_slot (\<lambda>p. used p \<and> state p \<noteq> EXITED \<and> strcmp (name p) ''shell'' = 0) k"

definition foreground_to_shell :: "kernel \<Rightarrow> kernel" where
  "foreground_to_shell k =
    (case find_shell k of Some i \<Rightarrow> proc_set_foreground (pid (procs k i)) k | None \<Rightarrow> tty_set_foreground (-1) k)"

definition kill_foreground :: "nat \<Rightarrow> kernel \<Rightarrow> kernel" where
  "kill_foreground proc k =
    (if \<not> fg (procs k proc) then k
     else (case parent_slot proc k of
         Some parent \<Rightarrow> if state (procs k parent) \<noteq> EXITED
                       then proc_set_foreground (parent_pid (procs k proc)) k else foreground_to_shell k
       | None \<Rightarrow> foreground_to_shell k))"

text \<open>
  \<^verbatim>\<open>proc_exit\<close> up to the final yield, whose stack pointer is the result; the process is never
  resumed. \<open>None\<close> inside the pair: it returned without doing anything.
\<close>

definition proc_exit :: "int \<Rightarrow> nat \<Rightarrow> kernel \<Rightarrow> (nat option \<times> kernel) option" where
  "proc_exit code sp k = do {
     k1 \<leftarrow> collect_zombies k;
     case cur k1 of
       None \<Rightarrow> Some (None, k1)
     | Some proc \<Rightarrow>
       if idle_proc k1 = Some proc then Some (None, k1)
       else do {
         k2 \<leftarrow> ksem_remove_waiters_for proc k1;
         k3 \<leftarrow> sem_cleanup_process_handles (pid (procs k2 proc)) k2;
         let k4 = exit_foreground proc k3;
         let k5 = upd proc (\<lambda>p. p\<lparr>exit_code := code, state := EXITED, ticks_left := 0, exited := True,
                                 waiting_for := 0, waiter_head := None\<rparr>) k4;
         k6 \<leftarrow> detach_children proc k5;
         k7 \<leftarrow> notify_parent_exit proc (remove_proc proc k6);
         k8 \<leftarrow> drop_fd_table proc k7;
         k9 \<leftarrow> cleanup_wait_results proc k8;
         (r, k10) \<leftarrow> sched_force_yield sp (enqueue_zombie proc k9);
         Some (Some r, k10)
       }
   }"

definition proc_kill :: "int \<Rightarrow> nat \<Rightarrow> kernel \<Rightarrow> (int \<times> kernel) option" where
  "proc_kill pd sp k = do {
     k1 \<leftarrow> collect_zombies k;
     case proc_by_pid pd k1 of
       None \<Rightarrow> Some (-1, k1)
     | Some target \<Rightarrow>
       if idle_proc k1 = Some target then Some (-1, k1)
       else do {
         k2 \<leftarrow> ksem_remove_waiters_for target k1;
         let k3 = kill_foreground target k2;
         if state (procs k3 target) \<noteq> READY \<and> cur k3 = Some target then do {
           (_, k4) \<leftarrow> proc_exit 0 sp k3;
           Some (0, k4)
         } else do {
           k4 \<leftarrow> (if state (procs k3 target) = READY then sched_remove target k3 else Some k3);
           let k5 = upd target (\<lambda>p. p\<lparr>exit_code := 0, state := EXITED, ticks_left := 0, exited := True,
                                     waiting_for := 0, waiter_head := None, pending_exit_valid := False\<rparr>) k4;
           k6 \<leftarrow> detach_children target k5;
           k7 \<leftarrow> notify_parent_exit target (remove_proc target k6);
           k8 \<leftarrow> drop_fd_table target k7;
           k9 \<leftarrow> cleanup_wait_results target k8;
           k10 \<leftarrow> collect_zombies (enqueue_zombie target k9);
           Some (0, k10)
         }
       }
   }"

section \<open>Blocking, priorities, waiting\<close>

text \<open>The second component is the stack pointer of the yield, if there was one.\<close>

definition proc_block :: "int \<Rightarrow> nat \<Rightarrow> kernel \<Rightarrow> (int \<times> nat option \<times> kernel) option" where
  "proc_block pd sp k = do {
     k1 \<leftarrow> collect_zombies k;
     case (if pd > 0 then proc_by_pid pd k1 else cur k1) of
       None \<Rightarrow> Some (-1, None, k1)
     | Some target \<Rightarrow>
       if idle_proc k1 = Some target \<or> state (procs k1 target) = EXITED then Some (-1, None, k1)
       else if state (procs k1 target) = BLOCKED then Some (0, None, k1)
       else if cur k1 \<noteq> Some target then do {
         k2 \<leftarrow> (if state (procs k1 target) = READY then sched_remove target k1 else Some k1);
         Some (0, None, upd target (\<lambda>p. p\<lparr>state := BLOCKED, ticks_left := 0\<rparr>) k2)
       } else do {
         (r, k2) \<leftarrow> sched_force_yield sp (upd target (\<lambda>p. p\<lparr>state := BLOCKED, ticks_left := 0\<rparr>) k1);
         Some (0, Some r, k2)
       }
   }"

definition proc_nice :: "int \<Rightarrow> int \<Rightarrow> nat \<Rightarrow> kernel \<Rightarrow> (nat option \<times> kernel) option" where
  "proc_nice pd prio0 sp k = do {
     k1 \<leftarrow> collect_zombies k;
     let new_prio = clamp_prio prio0;
     case proc_by_pid pd k1 of
       None \<Rightarrow> Some (None, k1)
     | Some proc \<Rightarrow>
       if priority (procs k1 proc) = new_prio then Some (None, k1)
       else do {
         let k2 = upd proc (\<lambda>p. p\<lparr>base_priority := new_prio, aging_ticks := 0\<rparr>) k1;
         let was_running = (state (procs k2 proc) = RUNNING \<and> cur k2 = Some proc);
         let was_ready = (state (procs k2 proc) = READY);
         k3 \<leftarrow> (if was_ready then sched_remove proc k2
               else if was_running then sched_remove proc (upd proc (state_update (\<lambda>_. READY)) k2)
               else Some k2);
         let k4 = upd proc (priority_update (\<lambda>_. new_prio)) k3;
         if was_ready \<or> was_running then do {
           k5 \<leftarrow> sched_enqueue proc k4;
           if was_running then do { (r, k6) \<leftarrow> sched_force_yield sp k5; Some (Some r, k6) }
           else Some (None, k5)
         } else Some (None, k4)
       }
   }"

text \<open>
  \<^verbatim>\<open>proc_wait\<close> before and after its yield. \<open>WaitRet p st\<close>: the pid returned and the status stored;
  \<open>WaitSleep r t c\<close>: suspended with target \<open>t\<close> and target child \<open>c\<close>, to go on with \<open>proc_wait_resume\<close>.
\<close>

datatype wait_io = WaitRet int "int option" | WaitSleep nat int "nat option"

definition take_pending :: "nat \<Rightarrow> kernel \<Rightarrow> wait_io \<times> kernel" where
  "take_pending parent k =
    (let p = procs k parent in
     (WaitRet (pending_exit_pid p) (Some (pending_exit_code p)),
      upd parent (pending_exit_valid_update (\<lambda>_. False)) k))"

definition proc_wait :: "int \<Rightarrow> nat \<Rightarrow> kernel \<Rightarrow> (wait_io \<times> kernel) option" where
  "proc_wait target0 sp k = do {
     k1 \<leftarrow> collect_zombies k;
     case cur k1 of
       None \<Rightarrow> Some (WaitRet (-1) None, k1)
     | Some parent \<Rightarrow> do {
         let target_pid = (if target0 = 0 then -1 else target0);
         (waited, st, k2) \<leftarrow> consume_wait_result parent target_pid k1;
         if waited > 0 then Some (WaitRet waited st, k2)
         else do {
           child \<leftarrow> (if target_pid > 0 then find_child parent target_pid k2 else Some None);
           let p = procs k2 parent;
           if target_pid > 0 \<and> child = None then
             Some (if pending_exit_valid p \<and> pending_exit_pid p = target_pid
                   then take_pending parent k2 else (WaitRet (-1) None, k2))
           else if target_pid \<le> 0 \<and> \<not> parent_has_children parent k2 then
             Some (if pending_exit_valid p then take_pending parent k2 else (WaitRet (-1) None, k2))
           else do {
             let k3 = (case child of None \<Rightarrow> k2 | Some c \<Rightarrow> upd c (waiter_head_update (\<lambda>_. Some parent)) k2);
             let k4 = upd parent (\<lambda>p. p\<lparr>waiting_for := target_pid, state := BLOCKED, ticks_left := 0\<rparr>) k3;
             (r, k5) \<leftarrow> sched_force_yield sp k4;
             Some (WaitSleep r target_pid child, k5)
           }
         }
       }
   }"

definition proc_wait_resume :: "nat \<Rightarrow> int \<Rightarrow> nat option \<Rightarrow> kernel \<Rightarrow> (wait_io \<times> kernel) option" where
  "proc_wait_resume parent target_pid child k = do {
     k1 \<leftarrow> collect_zombies k;
     (waited, st, k2) \<leftarrow> consume_wait_result parent target_pid k1;
     let k3 = upd parent (waiting_for_update (\<lambda>_. 0)) k2;
     let k4 = (case child of None \<Rightarrow> k3 | Some c \<Rightarrow> upd c (waiter_head_update (\<lambda>_. None)) k3);
     let p = procs k4 parent;
     Some (if waited > 0 then (WaitRet waited st, k4)
           else if pending_exit_valid p \<and> (target_pid \<le> 0 \<or> pending_exit_pid p = target_pid)
           then take_pending parent k4 else (WaitRet (-1) None, k4))
   }"

section \<open>proc_snapshot\<close>

record proc_info =
  pi_pid :: int
  pi_priority :: int
  pi_state :: proc_state
  pi_ticks_left :: int
  pi_fg :: bool
  pi_name :: string
  pi_sp :: nat
  pi_bp :: nat

definition info_of :: "kernel \<Rightarrow> nat \<Rightarrow> proc_info" where
  "info_of k i =
    (let p = procs k i in
     \<lparr>pi_pid = pid p, pi_priority = priority p, pi_state = state p, pi_ticks_left = ticks_left p,
      pi_fg = fg p, pi_name = copy_name (Some (name p)) PROC_NAME_MAX,
      pi_sp = (if kframe p \<noteq> 0 then r_rsp (frames k (kframe p)) else 0),
      pi_bp = (if kframe p \<noteq> 0 then r_rbp (frames k (kframe p)) else 0)\<rparr>)"

fun snapshot_loop :: "kernel \<Rightarrow> int \<Rightarrow> nat list \<Rightarrow> proc_info list \<Rightarrow> proc_info list" where
  "snapshot_loop k max_items [] out = out"
| "snapshot_loop k max_items (i # is) out =
    (if \<not> int (length out) < max_items then out
     else if \<not> used (procs k i) then snapshot_loop k max_items is out
     else snapshot_loop k max_items is (out @ [info_of k i]))"

text \<open>The entries written to the caller's array, whose number is the return value.\<close>

definition proc_snapshot :: "bool \<Rightarrow> int \<Rightarrow> kernel \<Rightarrow> (proc_info list \<times> kernel) option" where
  "proc_snapshot out_ok max_items k =
    (if \<not> out_ok \<or> max_items \<le> 0 then Some ([], k)
     else do {
       k1 \<leftarrow> collect_zombies k;
       Some (snapshot_loop k1 max_items [0 ..< MAX_PROCS] [], k1)
     })"

end
