(* ===== verification/Sem_Theorems.thy ===== *)
theory Sem_Theorems
  imports Demo_Kernel Proc
begin

text \<open>
  The properties of the semaphores. The abstract semaphore is a count and a list of sleeping
  processes; \<open>sem_value\<close> is the number of posts minus the number of waits it stands for.
\<close>

section \<open>The invariant\<close>

definition sem_inv :: "nat \<Rightarrow> kernel \<Rightarrow> bool" where
  "sem_inv a k \<longleftrightarrow> kernel_ok k \<and> a \<noteq> 0 \<and> (\<exists>s. sems k a = Some s \<and> queue_ok k (s_waiters s))"

text \<open>Nobody sleeps while the count is positive.\<close>

definition sem_fair :: "ksem \<Rightarrow> bool" where
  "sem_fair s \<longleftrightarrow> s_waiters s = [] \<or> s_count s = 0"

definition sem_value :: "ksem \<Rightarrow> int" where
  "sem_value s = int (s_count s) - int (length (s_waiters s))"

lemma set_sem_simps [simp]:
  "procs (set_sem a s k) = procs k" "heap (set_sem a s k) = heap k" "cur (set_sem a s k) = cur k"
  "sems (set_sem a s k) = (sems k)(a := Some s)" "idle_proc (set_sem a s k) = idle_proc k"
  "kernel_ok (set_sem a s k) = kernel_ok k" "sleeper (set_sem a s k) i = sleeper k i"
  "queue_ok (set_sem a s k) ws = queue_ok k ws" "strip (procs (set_sem a s k) i) = strip (procs k i)"
  by (simp_all add: set_sem_def queue_ok_def)

lemma sem_invE:
  assumes "sem_inv a k" "sems k a = Some s"
  shows "kernel_ok k" "a \<noteq> 0" "queue_ok k (s_waiters s)"
  using assms by (auto simp: sem_inv_def)

section \<open>ksem_post\<close>

definition posted :: "ksem \<Rightarrow> ksem" where
  "posted s = (case s_waiters s of [] \<Rightarrow> sem_count_up s | w # ws \<Rightarrow> s\<lparr>s_waiters := ws\<rparr>)"

lemma ksem_post_spec:
  assumes inv: "sem_inv a k" and s: "sems k a = Some s"
  shows "\<exists>k'. ksem_post a k = Some (0, k') \<and> sem_inv a k' \<and> sems k' = (sems k)(a \<mapsto> posted s)
    \<and> (\<forall>i \<in> snd ` set (take 1 (s_waiters s)). state (procs k' i) = READY)
    \<and> (\<forall>i. i \<notin> snd ` set (take 1 (s_waiters s)) \<longrightarrow> strip (procs k' i) = strip (procs k i))"
proof (cases "s_waiters s")
  case Nil
  note si = sem_invE [OF inv s]
  let ?k = "set_sem a (sem_count_up s) k"
  have "ksem_post a k = Some (0, ?k)" using s Nil si(2) by (simp add: ksem_post_def wait_queue_pop_def)
  moreover have "s_waiters (sem_count_up s) = []" using Nil by (simp add: sem_count_up_def)
  then have "sem_inv a ?k" using si(1,2) by (simp add: sem_inv_def) (simp add: queue_ok_def)
  ultimately show ?thesis using Nil by (simp add: posted_def)
next
  case (Cons wi ws)
  then obtain w i where wi: "s_waiters s = (w, i) # ws" by (cases wi) simp
  note si = sem_invE [OF inv s]
  note q = queue_ok_ConsD [OF si(3) [unfolded wi]]
  define k1 where "k1 = set_sem a (s\<lparr>s_waiters := ws\<rparr>) k"
  have k1: "kernel_ok k1" "sleeper k1 i" "procs k1 = procs k" using si(1) q(1) by (simp_all add: k1_def)
  from unblocking.wake_law [OF k1(1,2)] obtain k2 where
    k2: "proc_unblock (pid (procs k1 i)) k1 = Some (0, k2)" "kernel_ok k2" "woken {i} k1 k2" by blast
  note m = more_eqD(2,3) [OF woken_more [OF k2(3)]]
  have "w \<in> fst ` mm_live (heap k2)" using q(2) by (simp add: m k1_def)
  from kfree_node [OF k2(2) this] obtain h where
    h: "kfree w k2 = Some (k2\<lparr>heap := h\<rparr>)" "released {w} (heap k2) h" by blast
  let ?k3 = "k2\<lparr>heap := h\<rparr>"
  have "ksem_post a k = Some (0, ?k3)"
    using s wi si(2) k2(1) h(1) k1(3) by (simp add: ksem_post_def wait_queue_pop_def flip: k1_def)
  moreover have sm: "sems ?k3 = (sems k)(a \<mapsto> posted s)" by (simp add: m k1_def posted_def wi)
  moreover have "sem_inv a ?k3"
  proof -
    have "queue_ok ?k3 ws"
    proof (rule queue_ok_keep [OF q(5)])
      show "released {w} (heap k) (heap ?k3)" using h(2) by (simp add: m k1_def)
      show "{w} \<inter> fst ` set ws = {}" using q(3) by simp
      fix j assume j: "j \<in> snd ` set ws" "sleeper k j"
      with q(4) have "j \<notin> {i}" by auto
      from woken_sleeper [OF k2(3) this] j(2) show "sleeper ?k3 j" by (simp add: k1_def)
    qed
    moreover have "kernel_ok ?k3" by (rule kernel_ok_heap [OF k2(2) released_inv [OF h(2)]])
    ultimately show ?thesis using si(2) sm by (simp add: sem_inv_def posted_def wi)
  qed
  moreover have "state (procs ?k3 i) = READY" using woken_fields(1) [OF k2(3), of i] by simp
  moreover have "strip (procs ?k3 j) = strip (procs k j)" if "j \<noteq> i" for j
    using k2(3) that by (simp add: woken_def k1_def)
  ultimately show ?thesis using wi by auto
qed

section \<open>ksem_wait\<close>

lemma ksem_wait_spec:
  assumes inv: "sem_inv a k" and s: "sems k a = Some s" and c: "cur k = Some me" "idle_proc k \<noteq> Some me" and sp: "sp \<noteq> 0"
  shows "\<exists>r k'. ksem_wait a sp k = Some (r, k') \<and> sem_inv a k'
    \<and> (r = Returns (-1) \<and> sems k' = sems k
       \<or> r = Returns 0 \<and> 0 < s_count s \<and> sems k' = (sems k)(a \<mapsto> s\<lparr>s_count := s_count s - 1\<rparr>) \<and> procs k' = procs k
       \<or> (\<exists>rsp w. r = Sleeps rsp \<and> s_count s = 0 \<and> sleeper k' me \<and> cur k' \<noteq> Some me
            \<and> sems k' = (sems k)(a \<mapsto> s\<lparr>s_waiters := s_waiters s @ [(w, me)]\<rparr>)))"
proof -
  note si = sem_invE [OF inv s]
  have hi: "mm_inv (heap k)" using si(1) by (simp add: kernel_ok_def kheap_ok_def)
  from mmheap.alloc_total [OF hi] obtain w h where w: "mm_malloc sizeof_waiter (heap k) = Some (w, h)" by blast
  note al = mmheap.alloc_keeps [OF hi w]
  consider "w = 0" | "w \<noteq> 0" "0 < s_count s" | "w \<noteq> 0" "s_count s = 0" by auto
  then show ?thesis
  proof cases
    case 1
    with al(2) have "h = heap k" by simp
    with 1 w c si(2) inv show ?thesis by (simp add: ksem_wait_def kmalloc_def)
  next
    case 2
    from al(3) [OF 2(1)] obtain sz where sz: "w \<notin> fst ` mm_live (heap k)" "mm_live h = insert (w, sz) (mm_live (heap k))" by blast
    let ?k1 = "k\<lparr>heap := h\<rparr>"
    have k1: "kernel_ok ?k1" by (rule kernel_ok_heap [OF si(1) al(1)])
    have "w \<in> fst ` mm_live (heap ?k1)" using sz(2) by simp
    from kfree_node [OF k1 this] obtain h' where
      h': "\<And>k'. heap k' = heap ?k1 \<Longrightarrow> kfree w k' = Some (k'\<lparr>heap := h'\<rparr>)" "released {w} (heap ?k1) h'" by blast
    let ?k2 = "set_sem a (s\<lparr>s_count := s_count s - 1\<rparr>) ?k1"
    have "ksem_wait a sp k = Some (Returns 0, ?k2\<lparr>heap := h'\<rparr>)"
      using 2 w c si(2) s h'(1) [of ?k2] by (simp add: ksem_wait_def kmalloc_def)
    moreover have "kernel_ok (?k2\<lparr>heap := h'\<rparr>)"
      by (rule kernel_ok_heap) (use k1 released_inv [OF h'(2)] in simp_all)
    moreover have "queue_ok (?k2\<lparr>heap := h'\<rparr>) (s_waiters s)"
    proof -
      have "queue_ok ?k1 (s_waiters s)" by (rule queue_ok_mono [OF si(3)]) (use sz(2) in auto)
      then show ?thesis
      proof (rule queue_ok_keep)
        show "released {w} (heap ?k1) (heap (?k2\<lparr>heap := h'\<rparr>))" using h'(2) by simp
        show "{w} \<inter> fst ` set (s_waiters s) = {}" using queue_okD [OF si(3)] sz(1) by force
      qed simp
    qed
    ultimately show ?thesis using 2(2) si(2) by (simp add: sem_inv_def)
  next
    case 3
    let ?s = "wait_queue_push (w, me) s"
    let ?k2 = "set_sem a ?s (k\<lparr>heap := h\<rparr>)"
    from sleep_on [OF si(1) c sp w 3(1), of ?k2] obtain r k' where
      k': "sched_force_yield sp (upd me (\<lambda>p. p\<lparr>state := BLOCKED, ticks_left := 0\<rparr>) ?k2) = Some (r, k')" "kernel_ok k'"
        "sched_st.more k' = sched_st.more ?k2" "sleeper k' me" "cur k' \<noteq> Some me"
        "\<forall>ws vs. queue_ok k (ws @ vs) \<longrightarrow> queue_ok k' (ws @ (w, me) # vs)" by auto
    have sm: "sems k' = (sems k)(a \<mapsto> ?s)" using more_eqD(2) [OF k'(3)] by simp
    have "queue_ok k' (s_waiters s @ (w, me) # [])" using k'(6) si(3) by (metis append_Nil2)
    then have "sem_inv a k'" using k'(2) si(2) sm by (simp add: sem_inv_def wait_queue_push_def)
    moreover have "ksem_wait a sp k = Some (Sleeps r, k')"
      using 3 w c si(2) s k'(1) by (simp add: ksem_wait_def kmalloc_def)
    ultimately show ?thesis using k'(4,5) 3(2) sm
      by (intro exI [of _ "Sleeps r"] exI [of _ k']) (auto simp: wait_queue_push_def)
  qed
qed

section \<open>Runs\<close>

text \<open>
  \<open>sem_run a k v k'\<close>: any interleaving of posts and waits on the semaphore, with anything in between
  that leaves it alone; \<open>v\<close> is the number of posts minus the number of waits that did not fail.
\<close>

inductive sem_run :: "nat \<Rightarrow> kernel \<Rightarrow> int \<Rightarrow> kernel \<Rightarrow> bool" for a k where
  start: "sem_run a k 0 k"
| post: "sem_run a k v k1 \<Longrightarrow> (\<And>s. sems k1 a = Some s \<Longrightarrow> s_count s < UINT32_MAX) \<Longrightarrow>
    ksem_post a k1 = Some (r, k2) \<Longrightarrow> sem_run a k (v + 1) k2"
| wait: "sem_run a k v k1 \<Longrightarrow> sp \<noteq> 0 \<Longrightarrow> cur k1 \<noteq> idle_proc k1 \<Longrightarrow> ksem_wait a sp k1 = Some (r, k2) \<Longrightarrow>
    sem_run a k (v - (if r = Returns (-1) then 0 else 1)) k2"
| other: "sem_run a k v k1 \<Longrightarrow> sem_inv a k2 \<Longrightarrow> sems k2 a = sems k1 a \<Longrightarrow> sem_run a k v k2"

lemma sem_run_fair:
  assumes "sem_run a k v k'" "sem_inv a k" "sems k a = Some s0" "sem_fair s0"
  shows "sem_inv a k' \<and> (\<exists>s. sems k' a = Some s \<and> sem_fair s \<and> sem_value s = sem_value s0 + v)"
  using assms
proof (induction rule: sem_run.induct)
  case (post v k1 r k2)
  then obtain s where s: "sem_inv a k1" "sems k1 a = Some s" "sem_fair s" "sem_value s = sem_value s0 + v" by auto
  from ksem_post_spec [OF s(1,2)] post(3) have k2: "sem_inv a k2" "sems k2 = (sems k1)(a \<mapsto> posted s)" by auto
  have "sem_fair (posted s) \<and> sem_value (posted s) = sem_value s + 1"
    using s(3) post(2) [OF s(2)]
    by (auto simp: sem_fair_def sem_value_def posted_def sem_count_up_def split: list.split)
  with k2 s(4) show ?case by auto
next
  case (wait v k1 sp r k2)
  then obtain s where s: "sem_inv a k1" "sems k1 a = Some s" "sem_fair s" "sem_value s = sem_value s0 + v" by auto
  from s(1) kernel_ok_cur obtain me where me: "cur k1 = Some me" by (auto simp: sem_inv_def)
  with wait(3) have "idle_proc k1 \<noteq> Some me" by auto
  from ksem_wait_spec [OF s(1,2) me this wait(2)] wait(4) s show ?case
    by (elim exE conjE disjE) (auto simp: sem_fair_def sem_value_def)
qed auto

text \<open>Several posts in a row.\<close>

fun post_all :: "nat \<Rightarrow> nat \<Rightarrow> kernel \<Rightarrow> kernel option" where
  "post_all 0 a k = Some k"
| "post_all (Suc n) a k = do { (r, k1) \<leftarrow> ksem_post a k; post_all n a k1 }"

lemma post_all_fifo:
  assumes "sem_inv a k" "sems k a = Some s" "n \<le> length (s_waiters s)"
  shows "\<exists>k'. post_all n a k = Some k' \<and> sem_inv a k' \<and> sems k' = (sems k)(a \<mapsto> s\<lparr>s_waiters := drop n (s_waiters s)\<rparr>)
    \<and> (\<forall>i \<in> snd ` set (take n (s_waiters s)). state (procs k' i) = READY)
    \<and> (\<forall>i. i \<notin> snd ` set (take n (s_waiters s)) \<longrightarrow> strip (procs k' i) = strip (procs k i))"
  using assms
proof (induction n arbitrary: k s)
  case (Suc n)
  then obtain w i ws where ws: "s_waiters s = (w, i) # ws" by (cases "s_waiters s") auto
  from ksem_post_spec [OF Suc.prems(1,2)] ws obtain k1 where
    k1: "ksem_post a k = Some (0, k1)" "sem_inv a k1" "sems k1 = (sems k)(a \<mapsto> s\<lparr>s_waiters := ws\<rparr>)"
      "state (procs k1 i) = READY" "\<forall>j. j \<noteq> i \<longrightarrow> strip (procs k1 j) = strip (procs k j)" by (auto simp: posted_def)
  have s1: "sems k1 a = Some (s\<lparr>s_waiters := ws\<rparr>)" by (simp add: k1(3))
  have sel: "s_waiters (s\<lparr>s_waiters := vs\<rparr>) = vs" "s\<lparr>s_waiters := vs, s_waiters := us\<rparr> = s\<lparr>s_waiters := us\<rparr>" for vs us
    by simp_all
  have "n \<le> length ws" using Suc.prems(3) ws by simp
  with Suc.IH [OF k1(2) s1, unfolded sel] obtain k' where
    k': "post_all n a k1 = Some k'" "sem_inv a k'" "sems k' = (sems k1)(a \<mapsto> s\<lparr>s_waiters := drop n ws\<rparr>)"
      "\<forall>i \<in> snd ` set (take n ws). state (procs k' i) = READY"
      "\<forall>i. i \<notin> snd ` set (take n ws) \<longrightarrow> strip (procs k' i) = strip (procs k1 i)" by blast
  have "i \<notin> snd ` set ws" using sem_invE(3) [OF Suc.prems(1,2)] ws by (auto dest: queue_ok_ConsD(4))
  then have "i \<notin> snd ` set (take n ws)" using set_take_subset [of n ws] by blast
  with k'(5) have "strip (procs k' i) = strip (procs k1 i)" by blast
  then have "state (procs k' i) = READY" using k1(4) strip_eqD(2) by metis
  moreover have "sems k' = (sems k)(a \<mapsto> s\<lparr>s_waiters := drop n ws\<rparr>)" by (simp add: k'(3) k1(3))
  ultimately show ?case using k1(1,5) k'(1,2,4,5) ws by (intro exI [of _ k']) simp
qed (simp add: fun_upd_idem)

section \<open>Opening and closing\<close>

lemma sem_find_other: "a \<notin> set as \<Longrightarrow> sem_find (ss(a := x)) nm as = sem_find ss nm as"
proof (induction as)
  case (Cons b as)
  then show ?case by (cases "ss b") auto
qed simp

text \<open>A new name gets a new semaphore at the front of its chain.\<close>

lemma ksem_open_new:
  fixes init :: nat
  assumes ok: "kernel_ok k" and nm: "\<not> bad_sem_name nm"
    and none: "sem_find (sems k) nm (sem_buckets k (sem_hash nm)) = Some 0"
    and chain: "set (sem_buckets k (sem_hash nm)) \<subseteq> fst ` mm_live (heap k)"
    and a: "mm_malloc sizeof_ksem (heap k) = Some (a, h)" "a \<noteq> 0"
  defines "s \<equiv> \<lparr>s_name = sem_name_copy nm, s_count = init, s_refcount = 1, s_unlinked = False,
    s_destroying = False, s_waiters = []\<rparr>"
  shows "\<exists>k'. ksem_open (Some nm) init True k = Some (0, a, k') \<and> kernel_ok k'
    \<and> sems k' = (sems k)(a \<mapsto> s) \<and> heap k' = h
    \<and> sem_buckets k' (sem_hash nm) = a # sem_buckets k (sem_hash nm)"
proof -
  have hi: "mm_inv (heap k)" using ok by (simp add: kernel_ok_def kheap_ok_def)
  note al = mmheap.alloc_keeps [OF hi a(1)]
  have "a \<notin> fst ` mm_live (heap k)" using al(3) [OF a(2)] by blast
  with chain have "a \<notin> set (sem_buckets k (sem_hash nm))" by blast
  note f2 = sem_find_other [OF this, of "sems k" "Some s" nm, unfolded none]
  let ?k2 = "set_sem a s (k\<lparr>heap := h\<rparr>)"
  let ?k' = "?k2\<lparr>sem_buckets := (sem_buckets ?k2)(sem_hash nm := a # sem_buckets ?k2 (sem_hash nm))\<rparr>"
  have sb: "sem_buckets ?k2 = sem_buckets k" by (simp add: set_sem_def)
  have "ksem_open (Some nm) init True k = Some (0, a, ?k')"
    using nm none a f2 by (simp add: ksem_open_def Let_def kmalloc_def sb del: One_nat_def flip: s_def)
  moreover have "kernel_ok ?k'" using kernel_ok_heap [OF ok al(1)] by simp
  ultimately show ?thesis by (simp add: sb)
qed

text \<open>A name that is open is found again; the initial value of the second call is ignored.\<close>

lemma ksem_open_again:
  assumes nm: "\<not> bad_sem_name nm" and a: "sem_buckets k (sem_hash nm) = a # as" "a \<noteq> 0"
    and s: "sems k a = Some s" "s_name s = sem_name_copy nm" "\<not> s_unlinked s"
  shows "ksem_open (Some nm) init True k = Some (0, a, set_sem a (s\<lparr>s_refcount := inc32 (s_refcount s)\<rparr>) k)"
proof -
  have "sem_name_cmp (sem_name_copy nm) nm = 0"
    using nm by (intro sem_name_stored) (simp add: bad_sem_name_def)
  then have "sem_find (sems k) nm (sem_buckets k (sem_hash nm)) = Some a" using a s by simp
  with nm a s show ?thesis by (simp add: ksem_open_def Let_def sem_add_ref_def)
qed


section \<open>A concrete semaphore\<close>

definition demo_sem :: "nat \<Rightarrow> (nat \<times> nat) list \<Rightarrow> ksem" where
  "demo_sem n ws = \<lparr>s_name = ''s'', s_count = n, s_refcount = 1, s_unlinked = False, s_destroying = False, s_waiters = ws\<rparr>"

definition demo_semed :: "nat \<Rightarrow> (nat \<times> nat) list \<Rightarrow> kernel" where
  "demo_semed n ws = demo_kernel\<lparr>sems := [9000 \<mapsto> demo_sem n ws]\<rparr>"

lemma demo_semed_simps [simp]:
  "sems (demo_semed n ws) = [9000 \<mapsto> demo_sem n ws]" "cur (demo_semed n ws) = Some 1"
  "idle_proc (demo_semed n ws) = Some 0" "heap (demo_semed n ws) = demo_heap"
  "procs (demo_semed n ws) = procs demo_kernel" "zombie_head (demo_semed n ws) = None"
  "s_waiters (demo_sem n ws) = ws" "s_count (demo_sem n ws) = n"
  by (simp_all add: demo_semed_def demo_sem_def)

lemma demo_semed_inv: "queue_ok demo_kernel ws \<Longrightarrow> sem_inv 9000 (demo_semed n ws)"
  using demo_kernel_ok by (simp add: sem_inv_def) (simp add: demo_semed_def queue_ok_def)

section \<open>Properties\<close>

text \<open>C18. As long as the sleepers of a semaphore are woken by posts only, any interleaving of posts
  and waits keeps two facts: no process sleeps while the count is positive, and the count minus the
  number of sleepers is the initial value plus the posts minus the waits.\<close>

theorem sem_never_strands_sleepers:
  assumes "sem_inv a k" "sems k a = Some s0" "sem_fair s0" "sem_run a k v k'"
  shows "sem_inv a k' \<and> (\<exists>s. sems k' a = Some s \<and> (s_waiters s = [] \<or> s_count s = 0)
    \<and> int (s_count s) - int (length (s_waiters s)) = int (s_count s0) - int (length (s_waiters s0)) + v)"
  using sem_run_fair [OF assms(4,1,2,3)] by (auto simp: sem_fair_def sem_value_def)

theorem sem_never_strands_sleepers_witness:
  "\<exists>k'. sem_run 9000 (demo_semed 0 [(4128, 2), (4176, 3)]) 1 k' \<and> sem_inv 9000 k'
    \<and> (\<exists>s. sems k' 9000 = Some s \<and> (s_waiters s = [] \<or> s_count s = 0)
        \<and> int (s_count s) - int (length (s_waiters s)) = - 2 + 1)"
proof -
  let ?k = "demo_semed 0 [(4128, 2), (4176, 3)]"
  have inv: "sem_inv 9000 ?k" by (rule demo_semed_inv) (rule demo_queue)
  have s: "sems ?k 9000 = Some (demo_sem 0 [(4128, 2), (4176, 3)])" by simp
  from ksem_post_spec [OF inv s] obtain k' where k': "ksem_post 9000 ?k = Some (0, k')" by blast
  have "sem_run 9000 ?k (0 + 1) k'"
    by (rule sem_run.post [OF sem_run.start _ k']) (auto simp: UINT32_MAX_def)
  then have run: "sem_run 9000 ?k 1 k'" by simp
  from sem_never_strands_sleepers [OF inv s _ run] run show ?thesis by (auto simp: sem_fair_def)
qed

text \<open>C19. Posts wake the sleepers of a semaphore first come, first served: \<open>n\<close> posts make exactly the
  first \<open>n\<close> ready, leave the others queued in order and do not change the count.\<close>

theorem sem_posts_wake_in_order:
  assumes "sem_inv a k" "sems k a = Some s" "n \<le> length (s_waiters s)"
  shows "\<exists>k'. post_all n a k = Some k' \<and> sem_inv a k' \<and> sems k' = (sems k)(a \<mapsto> s\<lparr>s_waiters := drop n (s_waiters s)\<rparr>)
    \<and> (\<forall>i \<in> snd ` set (take n (s_waiters s)). state (procs k' i) = READY)
    \<and> (\<forall>i. i \<notin> snd ` set (take n (s_waiters s)) \<longrightarrow> strip (procs k' i) = strip (procs k i))"
  by (rule post_all_fifo [OF assms])

theorem sem_posts_wake_in_order_witness:
  "\<exists>k'. post_all 1 9000 (demo_semed 0 [(4128, 2), (4176, 3)]) = Some k' \<and> sem_inv 9000 k'
    \<and> sems k' = [9000 \<mapsto> demo_sem 0 [(4176, 3)]] \<and> state (procs k' 2) = READY
    \<and> strip (procs k' 3) = strip (procs demo_kernel 3)"
proof -
  let ?k = "demo_semed 0 [(4128, 2), (4176, 3)]"
  have inv: "sem_inv 9000 ?k" by (rule demo_semed_inv) (rule demo_queue)
  from sem_posts_wake_in_order [OF inv, of "demo_sem 0 [(4128, 2), (4176, 3)]" 1] show ?thesis
    by (auto simp: demo_sem_def)
qed



text \<open>C21. A defect: when the first node of the queue belongs to a process that no longer sleeps (it was
  unblocked by \<^verbatim>\<open>sys_unblock\<close>, which leaves the node), a post drops the node and raises the count
  instead of waking the next sleeper, who goes on sleeping although the count is positive.\<close>

theorem sem_stale_node_strands_next:
  assumes ok: "kernel_ok k" "a \<noteq> 0" and s: "sems k a = Some s" "s_waiters s = (w, i) # (v, j) # ws" "s_count s < UINT32_MAX"
    and i: "i < MAX_PROCS" "used (procs k i)" "state (procs k i) \<noteq> BLOCKED" "w \<in> fst ` mm_live (heap k)"
    and j: "sleeper k j"
  shows "\<exists>k'. ksem_post a k = Some (0, k') \<and> kernel_ok k' \<and> sleeper k' j
    \<and> sems k' a = Some (s\<lparr>s_count := s_count s + 1, s_waiters := (v, j) # ws\<rparr>)"
proof -
  define k1 where "k1 = set_sem a (s\<lparr>s_waiters := (v, j) # ws\<rparr>) k"
  have k1: "zombie_head k1 = None" "table_ok k1" "procs k1 = procs k"
    using ok by (simp_all add: kernel_ok_def k1_def table_ok_def set_sem_def)
  have "proc_by_pid (pid (procs k1 i)) k1 = Some i"
    by (rule proc_by_pid_found [OF k1(2) i(1)]) (simp add: k1(3) i(2))
  then have un: "proc_unblock (pid (procs k i)) k1 = Some (-1, k1)"
    using proc_unblock_refused [OF k1(1), of "pid (procs k i)"] i(3) by (simp add: k1(3))
  from kfree_node [OF ok(1) i(4)] obtain h where
    h: "\<And>k'. heap k' = heap k \<Longrightarrow> kfree w k' = Some (k'\<lparr>heap := h\<rparr>)" "released {w} (heap k) h" by blast
  let ?s = "s\<lparr>s_count := s_count s + 1, s_waiters := (v, j) # ws\<rparr>"
  let ?k2 = "set_sem a ?s k1"
  have "sem_count_up (s\<lparr>s_waiters := (v, j) # ws\<rparr>) = ?s" using s(3) by (simp add: sem_count_up_def)
  moreover have "sems k1 a = Some (s\<lparr>s_waiters := (v, j) # ws\<rparr>)" by (simp add: k1_def)
  ultimately have "ksem_post a k = Some (0, ?k2\<lparr>heap := h\<rparr>)"
    using s ok(2) un k1(3) h(1) [of ?k2] by (simp add: ksem_post_def wait_queue_pop_def k1_def)
  moreover have "kernel_ok (?k2\<lparr>heap := h\<rparr>)"
    by (rule kernel_ok_heap) (use ok(1) released_inv [OF h(2)] in \<open>simp_all add: k1_def\<close>)
  moreover have "sleeper (?k2\<lparr>heap := h\<rparr>) j" using j by (simp add: k1_def)
  ultimately show ?thesis by (intro exI [of _ "?k2\<lparr>heap := h\<rparr>"]) simp
qed

theorem sem_stale_node_strands_next_witness:
  "\<exists>k'. ksem_post 9000 (demo_semed 0 [(4128, 1), (4176, 3)]) = Some (0, k') \<and> kernel_ok k' \<and> sleeper k' 3
    \<and> sems k' 9000 = Some (demo_sem 1 [(4176, 3)])"
proof -
  let ?k = "demo_semed 0 [(4128, 1), (4176, 3)]"
  have "kernel_ok ?k" using demo_kernel_ok by (simp add: demo_semed_def)
  moreover have "sleeper ?k 3" using demo_sleepers(2) by (simp add: demo_semed_def)
  ultimately show ?thesis
    using sem_stale_node_strands_next [of ?k 9000 "demo_sem 0 [(4128, 1), (4176, 3)]" 4128 1 4176 3 "[]"]
    by (auto simp: demo_heap_live UINT32_MAX_def MAX_PROCS_def demo_sem_def)
qed

text \<open>C22. Opening a name that is not open creates a semaphore with the initial count given; opening it
  again returns the same semaphore with one more reference, whatever initial count is given.\<close>

theorem sem_open_shares_by_name:
  assumes "kernel_ok k" "\<not> bad_sem_name nm" "sem_find (sems k) nm (sem_buckets k (sem_hash nm)) = Some 0"
    "set (sem_buckets k (sem_hash nm)) \<subseteq> fst ` mm_live (heap k)"
    "mm_malloc sizeof_ksem (heap k) = Some (a, h)" "a \<noteq> 0"
  shows "\<exists>k1 k2 s. ksem_open (Some nm) init True k = Some (0, a, k1) \<and> sems k1 a = Some s \<and> s_count s = init
    \<and> s_refcount s = 1 \<and> s_waiters s = []
    \<and> ksem_open (Some nm) init' True k1 = Some (0, a, k2) \<and> sems k2 a = Some (s\<lparr>s_refcount := 2\<rparr>)"
proof -
  define s where "s = \<lparr>s_name = sem_name_copy nm, s_count = init, s_refcount = 1, s_unlinked = False,
    s_destroying = False, s_waiters = []\<rparr>"
  from ksem_open_new [OF assms, of init] obtain k1 where
    k1: "ksem_open (Some nm) init True k = Some (0, a, k1)" "sems k1 = (sems k)(a \<mapsto> s)"
      "sem_buckets k1 (sem_hash nm) = a # sem_buckets k (sem_hash nm)" by (auto simp: s_def)
  have "ksem_open (Some nm) init' True k1 = Some (0, a, set_sem a (s\<lparr>s_refcount := inc32 (s_refcount s)\<rparr>) k1)"
    by (rule ksem_open_again [OF assms(2) k1(3) assms(6)]) (simp_all add: k1(2) s_def)
  with k1 show ?thesis by (auto simp: s_def inc32_def)
qed

lemma demo_ksem_malloc: "\<exists>h. mm_malloc sizeof_ksem demo_heap = Some (4224, h)"
proof -
  have "map_option fst (first_fit_malloc sizeof_ksem (snd ff_two)) = Some 4224" by code_simp
  then show ?thesis by (auto simp: demo_heap_def)
qed

theorem sem_open_shares_by_name_witness:
  "\<exists>k1 k2 s. ksem_open (Some ''mutex'') 3 True demo_kernel = Some (0, 4224, k1) \<and> sems k1 4224 = Some s \<and> s_count s = 3
    \<and> s_refcount s = 1 \<and> s_waiters s = []
    \<and> ksem_open (Some ''mutex'') 8 True k1 = Some (0, 4224, k2) \<and> sems k2 4224 = Some (s\<lparr>s_refcount := 2\<rparr>)"
proof -
  from demo_ksem_malloc obtain h where h: "mm_malloc sizeof_ksem (heap demo_kernel) = Some (4224, h)" by auto
  have "sem_buckets demo_kernel b = []" for b by (simp add: demo_kernel_def)
  then show ?thesis using sem_open_shares_by_name [OF demo_kernel_ok _ _ _ h, of "''mutex''" 3 8]
    by (simp add: bad_sem_name_def sem_name_len_def KSEM_NAME_MAX_def)
qed



end
