(* ===== verification/Tty_Input.thy ===== *)
theory Tty_Input
  imports Proc Pipe_IO
begin

text \<open>
  The keyboard side of the terminal: \<^verbatim>\<open>tty_push_char\<close> and \<^verbatim>\<open>tty_handle_input\<close> of
  \<^verbatim>\<open>Kernel/fs/tty.c\<close>, and \<^verbatim>\<open>Kernel/drivers/keyboard.c\<close>, which turns scancodes into characters.
\<close>

section \<open>Characters arriving at the terminal\<close>

text \<open>Control-C ends the foreground process, control-D marks end of input, anything else is stored.\<close>

definition tty_push_char :: "char \<Rightarrow> nat \<Rightarrow> kernel \<Rightarrow> kernel option" where
  "tty_push_char c sp k =
    (if c = CHR 0x03 then
       (let (_, k1) = tty_write (Some [CHR ''^'', CHR ''C'', CHR 0x0A]) 3 k;
            (fg_pid, k2) = proc_get_foreground_pid k1
        in if fg_pid > 0 then do { (_, k3) \<leftarrow> proc_kill fg_pid sp k2; Some k3 } else Some k2)
     else if c = CHR 0x04 then do {
       (pr, k1) \<leftarrow> tty_dequeue_waiter (k\<lparr>default_tty := (default_tty k)\<lparr>t_eof := True\<rparr>\<rparr>);
       wake_one pr k1
     } else do {
       (pr, k1) \<leftarrow> tty_dequeue_waiter (k\<lparr>default_tty := tty_store c (default_tty k)\<rparr>);
       wake_one pr k1
     })"

definition tty_handle_input :: "nat \<Rightarrow> char \<Rightarrow> nat \<Rightarrow> kernel \<Rightarrow> kernel option" where
  "tty_handle_input scancode ascii sp k =
    (if ascii = NUL then Some k else tty_push_char ascii sp (tty_default k))"

section \<open>The keyboard driver\<close>

record keyboard =
  notChar :: nat
  retChar :: char
  shift :: bool
  capsLock :: bool
  ctrl :: bool

text \<open>The two tables; entry \<open>i\<close> is the character of scancode \<open>i\<close>, NUL for none.\<close>

definition keyMapL :: string where
  "keyMapL = [NUL, CHR 27] @ ''1234567890-='' @ [CHR 8, CHR 9] @ ''qwertyuiop[]'' @ [CHR 10, NUL]
     @ ''asdfghjkl;'' @ [CHR 39, CHR 96, NUL, CHR 92] @ ''zxcvbnm,./'' @ [NUL, CHR ''*'', NUL, CHR '' '']
     @ replicate 14 NUL @ [CHR 38, NUL, CHR ''-'', CHR 37, NUL, CHR 39, CHR ''+'', NUL, CHR 40]
     @ replicate 17 NUL"

definition keyMapU :: string where
  "keyMapU = [NUL, CHR 27] @ ''!@#$%^&*()_+'' @ [CHR 8, CHR 9] @ ''QWERTYUIOP{}'' @ [CHR 10, NUL]
     @ ''ASDFGHJKL:'' @ [CHR 34, CHR ''~'', NUL, CHR ''|''] @ ''ZXCVBNM<>?'' @ [NUL, CHR ''*'', NUL, CHR '' '']
     @ replicate 16 NUL @ [CHR ''-'', NUL, NUL, NUL, CHR ''+''] @ replicate 11 NUL"

text \<open>A read past the end of the table has no result.\<close>

definition key_lookup :: "bool \<Rightarrow> nat \<Rightarrow> char option" where
  "key_lookup sh code =
    (let tbl = (if sh then keyMapU else keyMapL) in if code < length tbl then Some (tbl ! code) else None)"

definition key_modifiers :: "nat \<Rightarrow> keyboard \<Rightarrow> keyboard" where
  "key_modifiers code kb0 =
    (let kb1 = kb0\<lparr>notChar := code\<rparr>;
         kb2 = (if code = 0x2A \<or> code = 0x36 then kb1\<lparr>shift := True\<rparr> else kb1);
         kb3 = (if code = 0xAA \<or> code = 0xB6 then kb2\<lparr>shift := False\<rparr> else kb2);
         kb4 = (if code = 0x3A then kb3\<lparr>capsLock := \<not> capsLock kb3\<rparr> else kb3);
         kb5 = (if code = 0x1D then kb4\<lparr>ctrl := True\<rparr> else kb4)
     in if code = 0x9D then kb5\<lparr>ctrl := False\<rparr> else kb5)"

definition is_lower :: "char \<Rightarrow> bool" where "is_lower c \<longleftrightarrow> 97 \<le> uchar c \<and> uchar c \<le> 122"
definition is_upper :: "char \<Rightarrow> bool" where "is_upper c \<longleftrightarrow> 65 \<le> uchar c \<and> uchar c \<le> 90"

definition ctrl_char :: "char \<Rightarrow> char" where
  "ctrl_char c =
    (if is_lower c then char_of (nat (uchar c - 97 + 1))
     else if is_upper c then char_of (nat (uchar c - 65 + 1)) else c)"

definition getCharFromKeyboard :: "keyboard \<Rightarrow> (char \<times> keyboard) option" where
  "getCharFromKeyboard kb = do {
     c \<leftarrow> (if notChar kb > 0x80 \<or> notChar kb = 0x0F then Some NUL
          else if notChar kb = 0x48 \<or> notChar kb = 0x50 then Some (char_of (notChar kb))
          else key_lookup (shift kb) (notChar kb));
     let c' = (if ctrl kb \<and> c \<noteq> NUL then ctrl_char c else c);
     Some (c', kb\<lparr>retChar := c'\<rparr>)
   }"

definition setCeroChar :: "keyboard \<Rightarrow> keyboard" where
  "setCeroChar kb = kb\<lparr>notChar := 0\<rparr>"

definition getNotChar :: "keyboard \<Rightarrow> nat" where
  "getNotChar kb = notChar kb"

definition keyboard_handler :: "nat \<Rightarrow> nat \<Rightarrow> keyboard \<Rightarrow> kernel \<Rightarrow> (keyboard \<times> kernel) option" where
  "keyboard_handler code sp kb k = do {
     (ascii, kb1) \<leftarrow> getCharFromKeyboard (key_modifiers code kb);
     k1 \<leftarrow> (if ascii \<noteq> NUL then tty_handle_input (notChar kb1) ascii sp k else Some k);
     Some (kb1, k1)
   }"

end
