(* ===== verification/Tty_Theorems.thy ===== *)
theory Tty_Theorems
  imports Demo_Kernel Tty_Input
begin

text \<open>
  The properties of the terminal: a line of characters that drops its oldest when it is full, read in
  order by processes that sleep on it first come, first served.
\<close>

section \<open>The invariant\<close>

definition tty_inv :: "kernel \<Rightarrow> bool" where
  "tty_inv k \<longleftrightarrow> kernel_ok k \<and> default_tty_initialized k \<and> tty_wf (default_tty k)
     \<and> queue_ok k (t_wait (default_tty k))"

text \<open>The last 256 of a list.\<close>

definition newest :: "string \<Rightarrow> string" where
  "newest cs = drop (length cs - TTY_BUFFER_CAP) cs"

lemma newest_push: "length cs \<le> TTY_BUFFER_CAP \<Longrightarrow> newest (cs @ [c]) = (if length cs = TTY_BUFFER_CAP then tl cs else cs) @ [c]"
  by (auto simp: newest_def drop_Suc Suc_diff_le TTY_BUFFER_CAP_def)

lemma newest_newest: "newest (newest xs @ ys) = newest (xs @ ys)"
proof (cases "length xs \<le> TTY_BUFFER_CAP")
  case False
  then obtain d where "length xs = TTY_BUFFER_CAP + d" using le_Suc_ex nat_le_linear by blast
  then show ?thesis by (simp add: newest_def add.commute)
qed (simp add: newest_def)

lemma tty_inv_size: "tty_inv k \<Longrightarrow> length (tty_chars (default_tty k)) \<le> TTY_BUFFER_CAP"
  by (simp add: tty_inv_def tty_wf_def)

lemma tty_wf_fields [simp]:
  "tty_wf (t\<lparr>t_wait := ws\<rparr>) = tty_wf t" "tty_wf (t\<lparr>t_eof := b\<rparr>) = tty_wf t" "tty_wf (t\<lparr>t_fg_pid := f\<rparr>) = tty_wf t"
  "tty_chars (t\<lparr>t_wait := ws\<rparr>) = tty_chars t" "tty_chars (t\<lparr>t_eof := b\<rparr>) = tty_chars t"
  by (simp_all add: tty_wf_def tty_chars_def)

lemma tty_store_fields [simp]: "t_wait (tty_store c t) = t_wait t" "t_eof (tty_store c t) = t_eof t"
  by (simp_all add: tty_store_def Let_def)

section \<open>Waking the first reader\<close>

lemma tty_wake:
  assumes ok: "kernel_ok k" and q: "queue_ok k (t_wait (default_tty k))"
  shows "\<exists>r k1 k2. tty_dequeue_waiter k = Some (r, k1) \<and> wake_one r k1 = Some k2 \<and> kernel_ok k2
    \<and> default_tty k2 = (default_tty k)\<lparr>t_wait := tl (t_wait (default_tty k))\<rparr>
    \<and> default_tty_initialized k2 = default_tty_initialized k \<and> queue_ok k2 (tl (t_wait (default_tty k)))
    \<and> (\<forall>i \<in> snd ` set (take 1 (t_wait (default_tty k))). state (procs k2 i) = READY)
    \<and> (\<forall>i. i \<notin> snd ` set (take 1 (t_wait (default_tty k))) \<longrightarrow> strip (procs k2 i) = strip (procs k i))"
proof (cases "t_wait (default_tty k)")
  case Nil
  then have "(default_tty k)\<lparr>t_wait := []\<rparr> = default_tty k" by (cases "default_tty k") simp
  with Nil ok q show ?thesis by (simp add: tty_dequeue_waiter_def wake_one_def)
next
  case (Cons wi ws)
  then obtain w i where wi: "t_wait (default_tty k) = (w, i) # ws" by (cases wi) simp
  let ?k = "k\<lparr>default_tty := (default_tty k)\<lparr>t_wait := ws\<rparr>\<rparr>"
  from unblocking.free_and_wake [of ?k w i ws] ok q wi obtain k1 k2 where
    k2: "kfree w ?k = Some k1" "proc_unblock (pid (procs k1 i)) k1 = Some (0, k2)" "kernel_ok k2" "queue_ok k2 ws"
      "woken {i} (?k\<lparr>heap := heap k2\<rparr>) k2" by (auto simp: queue_ok_def)
  note m = more_eqD(4,11) [OF woken_more [OF k2(5)]]
  have "strip (procs k2 j) = strip (procs k j)" if "j \<noteq> i" for j using k2(5) that by (simp add: woken_def)
  with k2 wi m woken_fields(1) [OF k2(5), of i] show ?thesis
    by (intro exI [of _ "Some i"] exI [of _ k1] exI [of _ k2]) (simp add: tty_dequeue_waiter_def wake_one_def)
qed

section \<open>Typing\<close>

definition ordinary :: "char \<Rightarrow> bool" where
  "ordinary c \<longleftrightarrow> c \<noteq> NUL \<and> c \<noteq> CHR 0x03 \<and> c \<noteq> CHR 0x04"

lemma tty_handle_ordinary:
  assumes inv: "tty_inv k" and c: "ordinary c"
  shows "\<exists>k'. tty_handle_input code c sp k = Some k' \<and> tty_inv k'
    \<and> tty_chars (default_tty k') = newest (tty_chars (default_tty k) @ [c]) \<and> t_eof (default_tty k') = t_eof (default_tty k)
    \<and> t_wait (default_tty k') = tl (t_wait (default_tty k))
    \<and> (\<forall>i \<in> snd ` set (take 1 (t_wait (default_tty k))). state (procs k' i) = READY)
    \<and> (\<forall>i. i \<notin> snd ` set (take 1 (t_wait (default_tty k))) \<longrightarrow> strip (procs k' i) = strip (procs k i))"
proof -
  from inv have k: "kernel_ok k" "default_tty_initialized k" "tty_wf (default_tty k)" "queue_ok k (t_wait (default_tty k))"
    by (simp_all add: tty_inv_def)
  let ?k = "k\<lparr>default_tty := tty_store c (default_tty k)\<rparr>"
  note st = tty_store_spec [OF k(3), of c]
  have "tty_chars (tty_store c (default_tty k)) = newest (tty_chars (default_tty k) @ [c])"
    using st newest_push [OF tty_inv_size [OF inv]] by simp
  moreover from tty_wake [of ?k] k obtain r k1 k2 where
    k2: "tty_dequeue_waiter ?k = Some (r, k1)" "wake_one r k1 = Some k2" "kernel_ok k2"
      "default_tty k2 = (default_tty ?k)\<lparr>t_wait := tl (t_wait (default_tty k))\<rparr>" "default_tty_initialized k2"
      "queue_ok k2 (tl (t_wait (default_tty k)))"
      "\<forall>i \<in> snd ` set (take 1 (t_wait (default_tty k))). state (procs k2 i) = READY"
      "\<forall>i. i \<notin> snd ` set (take 1 (t_wait (default_tty k))) \<longrightarrow> strip (procs k2 i) = strip (procs k i)"
    by (auto simp: queue_ok_def)
  moreover have "tty_handle_input code c sp k = Some k2"
    using c k(2) k2(1,2) by (simp add: tty_handle_input_def tty_push_char_def tty_default_def ordinary_def)
  ultimately show ?thesis using st by (intro exI [of _ k2]) (simp add: tty_inv_def)
qed

fun type_all :: "string \<Rightarrow> kernel \<Rightarrow> kernel option" where
  "type_all [] k = Some k"
| "type_all (c # cs) k = do { k1 \<leftarrow> tty_handle_input 0 c 0 k; type_all cs k1 }"

lemma type_all_spec:
  assumes "tty_inv k" "\<forall>c \<in> set cs. ordinary c"
  shows "\<exists>k'. type_all cs k = Some k' \<and> tty_inv k' \<and> tty_chars (default_tty k') = newest (tty_chars (default_tty k) @ cs)
    \<and> t_eof (default_tty k') = t_eof (default_tty k)
    \<and> t_wait (default_tty k') = drop (length cs) (t_wait (default_tty k))
    \<and> (\<forall>i \<in> snd ` set (take (length cs) (t_wait (default_tty k))). state (procs k' i) = READY)
    \<and> (\<forall>i. i \<notin> snd ` set (take (length cs) (t_wait (default_tty k))) \<longrightarrow> strip (procs k' i) = strip (procs k i))"
  using assms
proof (induction cs arbitrary: k)
  case Nil
  then have "newest (tty_chars (default_tty k)) = tty_chars (default_tty k)" using tty_inv_size by (simp add: newest_def)
  with Nil show ?case by simp
next
  case (Cons c cs)
  let ?ws = "t_wait (default_tty k)"
  from tty_handle_ordinary [OF Cons.prems(1), of c 0 0] Cons.prems(2) obtain k1 where
    k1: "tty_handle_input 0 c 0 k = Some k1" "tty_inv k1" "tty_chars (default_tty k1) = newest (tty_chars (default_tty k) @ [c])"
      "t_eof (default_tty k1) = t_eof (default_tty k)" "t_wait (default_tty k1) = tl ?ws"
      "\<forall>i \<in> snd ` set (take 1 ?ws). state (procs k1 i) = READY"
      "\<forall>i. i \<notin> snd ` set (take 1 ?ws) \<longrightarrow> strip (procs k1 i) = strip (procs k i)" by auto
  from Cons.IH [OF k1(2)] Cons.prems(2) obtain k' where
    k': "type_all cs k1 = Some k'" "tty_inv k'" "tty_chars (default_tty k') = newest (tty_chars (default_tty k1) @ cs)"
      "t_eof (default_tty k') = t_eof (default_tty k1)" "t_wait (default_tty k') = drop (length cs) (tl ?ws)"
      "\<forall>i \<in> snd ` set (take (length cs) (tl ?ws)). state (procs k' i) = READY"
      "\<forall>i. i \<notin> snd ` set (take (length cs) (tl ?ws)) \<longrightarrow> strip (procs k' i) = strip (procs k1 i)"
    unfolding k1(5) by auto
  have split: "set (take (length (c # cs)) ?ws) = set (take 1 ?ws) \<union> set (take (length cs) (tl ?ws))"
    by (cases ?ws) auto
  have disj: "i \<notin> snd ` set (take (length cs) (tl ?ws))" if "i \<in> snd ` set (take 1 ?ws)" for i
  proof (cases ?ws)
    case (Cons wi ws)
    obtain w j where wi: "wi = (w, j)" by (cases wi)
    have "queue_ok k ((w, j) # ws)" using Cons.prems(1) Cons wi by (simp add: tty_inv_def)
    then have "j \<notin> snd ` set ws" by (rule queue_ok_ConsD(4))
    moreover have "set (take (length cs) ws) \<subseteq> set ws" by (rule set_take_subset)
    ultimately show ?thesis using that Cons wi by auto
  qed (use that in simp)
  have "state (procs k' i) = READY" if i: "i \<in> snd ` set (take 1 ?ws)" for i
    using k'(7) disj [OF i] k1(6) i strip_eqD(2) by metis
  with k'(6) have "\<forall>i \<in> snd ` set (take (length (c # cs)) ?ws). state (procs k' i) = READY"
    unfolding split by auto
  moreover have "\<forall>i. i \<notin> snd ` set (take (length (c # cs)) ?ws) \<longrightarrow> strip (procs k' i) = strip (procs k i)"
    using k1(7) k'(7) unfolding split by (simp add: image_Un)
  moreover have "tty_chars (default_tty k') = newest (tty_chars (default_tty k) @ c # cs)"
    using newest_newest [of "tty_chars (default_tty k) @ [c]" cs] by (simp add: k'(3) k1(3))
  ultimately show ?case using k1(1,4) k'(1,2,4,5) by (intro exI [of _ k']) (simp add: drop_Suc)
qed

section \<open>Reading\<close>

lemma tty_read_data:
  assumes inv: "tty_inv k" and data: "tty_chars (default_tty k) \<noteq> []" and n: "0 < n"
  shows "\<exists>k'. tty_read True n sp k = Some (Ret (int (min (length (tty_chars (default_tty k))) (nat n)))
      (take (nat n) (tty_chars (default_tty k))), k')
    \<and> tty_inv k' \<and> tty_chars (default_tty k') = drop (nat n) (tty_chars (default_tty k)) \<and> procs k' = procs k"
proof -
  let ?t = "default_tty k"
  have wf: "tty_wf ?t" using inv by (simp add: tty_inv_def)
  have size: "0 < t_size ?t" using data by (metis length_greater_0_conv tty_chars_length)
  let ?m = "if t_size ?t < nat n then t_size ?t else nat n"
  obtain cs t' where tk: "tty_take ?m ?t = (cs, t')" by fastforce
  have sp: "cs = take ?m (tty_chars ?t) \<and> tty_wf t' \<and> tty_chars t' = drop ?m (tty_chars ?t) \<and> t_wait t' = t_wait ?t"
    using tty_take_spec [OF wf _ tk] by auto
  have "tty_read True n sp k = Some (Ret (int ?m) cs, k\<lparr>default_tty := t'\<rparr>)"
    using size n tk by (simp add: tty_read_def tty_read_try_def Let_def)
  moreover have "take ?m (tty_chars ?t) = take (nat n) (tty_chars ?t)" "drop ?m (tty_chars ?t) = drop (nat n) (tty_chars ?t)"
    by simp_all
  moreover have "int ?m = int (min (length (tty_chars ?t)) (nat n))" by simp
  moreover have "queue_ok (k\<lparr>default_tty := t'\<rparr>) ws = queue_ok k ws" for ws by (simp add: queue_ok_def)
  ultimately show ?thesis using sp inv by (intro exI [of _ "k\<lparr>default_tty := t'\<rparr>"]) (simp add: tty_inv_def)
qed

section \<open>End of input\<close>

lemma tty_handle_ctrl_d:
  assumes inv: "tty_inv k"
  shows "\<exists>k'. tty_handle_input code (CHR 0x04) sp k = Some k' \<and> tty_inv k'
    \<and> tty_chars (default_tty k') = tty_chars (default_tty k) \<and> t_eof (default_tty k')
    \<and> (\<forall>i \<in> snd ` set (take 1 (t_wait (default_tty k))). state (procs k' i) = READY)"
proof -
  from inv have k: "kernel_ok k" "default_tty_initialized k" "tty_wf (default_tty k)" "queue_ok k (t_wait (default_tty k))"
    by (simp_all add: tty_inv_def)
  let ?k = "k\<lparr>default_tty := (default_tty k)\<lparr>t_eof := True\<rparr>\<rparr>"
  from tty_wake [of ?k] k obtain r k1 k2 where
    k2: "tty_dequeue_waiter ?k = Some (r, k1)" "wake_one r k1 = Some k2" "kernel_ok k2"
      "default_tty k2 = (default_tty ?k)\<lparr>t_wait := tl (t_wait (default_tty k))\<rparr>" "default_tty_initialized k2"
      "queue_ok k2 (tl (t_wait (default_tty k)))"
      "\<forall>i \<in> snd ` set (take 1 (t_wait (default_tty k))). state (procs k2 i) = READY" by (auto simp: queue_ok_def)
  have "tty_handle_input code (CHR 0x04) sp k = Some k2"
    using k(2) k2(1,2) by (simp add: tty_handle_input_def tty_push_char_def tty_default_def)
  with k2 k(3) show ?thesis by (intro exI [of _ k2]) (simp add: tty_inv_def)
qed

section \<open>A concrete terminal\<close>

text \<open>Nothing typed yet; \<open>ws\<close> sleep on the terminal.\<close>

definition demo_terminal :: "(nat \<times> nat) list \<Rightarrow> kernel" where
  "demo_terminal ws = demo_kernel\<lparr>default_tty := tty_zero\<lparr>t_wait := ws\<rparr>\<rparr>"

lemma demo_terminal_simps [simp]:
  "default_tty (demo_terminal ws) = tty_zero\<lparr>t_wait := ws\<rparr>" "procs (demo_terminal ws) = procs demo_kernel"
  "tty_chars tty_zero = []" "t_eof tty_zero = False"
  by (simp_all add: demo_terminal_def tty_zero_def tty_chars_def)

lemma demo_terminal_inv: "queue_ok demo_kernel ws \<Longrightarrow> tty_inv (demo_terminal ws)"
  using demo_kernel_ok by (simp add: tty_inv_def demo_terminal_def queue_ok_def) (simp add: tty_wf_def tty_zero_def TTY_BUFFER_CAP_def)

section \<open>Properties\<close>

text \<open>C24. Typing ordinary characters keeps the newest 256 characters that are not read yet, wakes one
  sleeping reader per key in the order in which they went to sleep and nobody else; a reader then
  gets the oldest characters kept, in order, and removes exactly those.\<close>

theorem tty_typed_text_is_read:
  assumes "tty_inv k" "\<forall>c \<in> set cs. ordinary c" "newest (tty_chars (default_tty k) @ cs) \<noteq> []" "0 < n"
  shows "\<exists>k' k''. type_all cs k = Some k' \<and> tty_inv k'
    \<and> (\<forall>i \<in> snd ` set (take (length cs) (t_wait (default_tty k))). state (procs k' i) = READY)
    \<and> (\<forall>i. i \<notin> snd ` set (take (length cs) (t_wait (default_tty k))) \<longrightarrow> strip (procs k' i) = strip (procs k i))
    \<and> tty_read True n sp k' = Some (Ret (int (min (length (newest (tty_chars (default_tty k) @ cs))) (nat n)))
         (take (nat n) (newest (tty_chars (default_tty k) @ cs))), k'')
    \<and> tty_inv k'' \<and> tty_chars (default_tty k'') = drop (nat n) (newest (tty_chars (default_tty k) @ cs))"
proof -
  from type_all_spec [OF assms(1,2)] obtain k' where
    k': "type_all cs k = Some k'" "tty_inv k'" "tty_chars (default_tty k') = newest (tty_chars (default_tty k) @ cs)"
      "\<forall>i \<in> snd ` set (take (length cs) (t_wait (default_tty k))). state (procs k' i) = READY"
      "\<forall>i. i \<notin> snd ` set (take (length cs) (t_wait (default_tty k))) \<longrightarrow> strip (procs k' i) = strip (procs k i)"
    by blast
  from tty_read_data [OF k'(2) _ assms(4), of sp, unfolded k'(3)] assms(3) obtain k'' where
    "tty_read True n sp k' = Some (Ret (int (min (length (newest (tty_chars (default_tty k) @ cs))) (nat n)))
         (take (nat n) (newest (tty_chars (default_tty k) @ cs))), k'')"
    "tty_inv k''" "tty_chars (default_tty k'') = drop (nat n) (newest (tty_chars (default_tty k) @ cs))" by blast
  with k'(1,2,4,5) show ?thesis by blast
qed

theorem tty_typed_text_is_read_witness:
  "\<exists>k' k''. type_all ''ls -l'' (demo_terminal [(4128, 2)]) = Some k' \<and> state (procs k' 2) = READY
    \<and> tty_read True 2 4096 k' = Some (Ret 2 ''ls'', k'') \<and> tty_chars (default_tty k'') = '' -l''"
proof -
  have inv: "tty_inv (demo_terminal [(4128, 2)])" by (rule demo_terminal_inv) (rule demo_queue)
  from tty_typed_text_is_read [OF inv, of "''ls -l''" 2 4096] show ?thesis
    by (auto simp: ordinary_def newest_def TTY_BUFFER_CAP_def)
qed

text \<open>Control-D wakes the first sleeping reader and makes the next read of an empty terminal return
  0 once: the mark is consumed by that read.\<close>

theorem tty_end_of_input_once:
  assumes "tty_inv k" "tty_chars (default_tty k) = []" "0 < n"
  shows "\<exists>k' k''. tty_handle_input code (CHR 0x04) sp k = Some k' \<and> tty_inv k'
    \<and> (\<forall>i \<in> snd ` set (take 1 (t_wait (default_tty k))). state (procs k' i) = READY)
    \<and> tty_read True n sp k' = Some (Ret 0 [], k'') \<and> tty_inv k'' \<and> \<not> t_eof (default_tty k'')"
proof -
  from tty_handle_ctrl_d [OF assms(1), of code sp, unfolded assms(2)] obtain k' where
    k': "tty_handle_input code (CHR 0x04) sp k = Some k'" "tty_inv k'" "tty_chars (default_tty k') = []" "t_eof (default_tty k')"
      "\<forall>i \<in> snd ` set (take 1 (t_wait (default_tty k))). state (procs k' i) = READY" by blast
  let ?k = "k'\<lparr>default_tty := (default_tty k')\<lparr>t_eof := False\<rparr>\<rparr>"
  have "t_size (default_tty k') = 0" using k'(3) tty_chars_length [of "default_tty k'"] by simp
  then have "tty_read True n sp k' = Some (Ret 0 [], ?k)"
    using k'(4) assms(3) by (simp add: tty_read_def tty_read_try_def)
  moreover have "tty_inv ?k" using k'(2) by (simp add: tty_inv_def queue_ok_def)
  ultimately show ?thesis using k'(1,2,5) by (intro exI [of _ k'] exI [of _ ?k]) simp
qed

theorem tty_end_of_input_once_witness:
  "\<exists>k' k''. tty_handle_input 0x20 (CHR 0x04) 4096 (demo_terminal [(4176, 3)]) = Some k' \<and> state (procs k' 3) = READY
    \<and> tty_read True 8 4096 k' = Some (Ret 0 [], k'') \<and> \<not> t_eof (default_tty k'')"
proof -
  have "queue_ok demo_kernel [(4176, 3)]" using demo_sleepers by (simp add: queue_ok_def demo_heap_live)
  then have inv: "tty_inv (demo_terminal [(4176, 3)])" by (rule demo_terminal_inv)
  from tty_end_of_input_once [OF inv, where n = 8 and code = "0x20" and sp = 4096] show ?thesis by auto
qed

end
