(* ===== verification/Syscalls.thy ===== *)
theory Syscalls
  imports Tty_Input
begin

text \<open>
  The system calls: \<^verbatim>\<open>Kernel/sys/syscalls.c\<close> and the dispatcher
  \<^verbatim>\<open>Kernel/interrupt/sysCallDispatcher.c\<close>. The memory of the caller is a parameter: \<open>m_str\<close> reads
  a C string, \<open>m_bytes\<close> a number of bytes and \<open>m_info\<close> a \<^verbatim>\<open>memory_info_t\<close> at an address; what a call stores there is part of its
  result. \<open>sp\<close> is the stack pointer a yield inside the call saves.
\<close>

record user_mem =
  m_str :: "nat \<Rightarrow> string"
  m_bytes :: "nat \<Rightarrow> nat \<Rightarrow> nat list"
  m_info :: "nat \<Rightarrow> memory_info"

definition user_str :: "user_mem \<Rightarrow> nat \<Rightarrow> string option" where
  "user_str M a = (if a = 0 then None else Some (m_str M a))"

definition user_buf :: "user_mem \<Rightarrow> nat \<Rightarrow> int \<Rightarrow> nat list option" where
  "user_buf M a n = (if a = 0 then None else Some (m_bytes M a (nat n)))"

section \<open>Processes\<close>

definition sys_getpid :: "kernel \<Rightarrow> int" where
  "sys_getpid k = (case sched_current k of None \<Rightarrow> -1 | Some c \<Rightarrow> pid (procs k c))"

definition sys_yield :: "nat \<Rightarrow> kernel \<Rightarrow> (nat \<times> kernel) option" where
  "sys_yield sp k = sched_force_yield sp k"

definition sys_exit :: "int \<Rightarrow> nat \<Rightarrow> kernel \<Rightarrow> (nat option \<times> kernel) option" where
  "sys_exit code sp k = proc_exit code sp k"

definition sys_nice :: "int \<Rightarrow> int \<Rightarrow> nat \<Rightarrow> kernel \<Rightarrow> (nat option \<times> kernel) option" where
  "sys_nice pd new_prio sp k = proc_nice pd new_prio sp k"

definition sys_block :: "int \<Rightarrow> nat \<Rightarrow> kernel \<Rightarrow> (int \<times> nat option \<times> kernel) option" where
  "sys_block pd sp k = proc_block pd sp k"

definition sys_unblock :: "int \<Rightarrow> kernel \<Rightarrow> (int \<times> kernel) option" where
  "sys_unblock pd k = proc_unblock pd k"

text \<open>What \<^verbatim>\<open>sys_wait_pid\<close> stores in \<^verbatim>\<open>*status\<close>, if anything.\<close>

definition wait_status :: "bool \<Rightarrow> int \<Rightarrow> int option \<Rightarrow> int option" where
  "wait_status status_ok waited st =
    (if waited \<ge> 0 \<and> status_ok then Some (case st of None \<Rightarrow> 0 | Some c \<Rightarrow> c) else None)"

definition sys_wait_pid :: "int \<Rightarrow> bool \<Rightarrow> nat \<Rightarrow> kernel \<Rightarrow> (wait_io \<times> kernel) option" where
  "sys_wait_pid pd0 status_ok sp k = do {
     let pd = (if pd0 = 0 then -1 else pd0);
     (w, k1) \<leftarrow> proc_wait pd sp k;
     Some (case w of WaitRet p st \<Rightarrow> WaitRet p (wait_status status_ok p st) | WaitSleep r t c \<Rightarrow> w, k1)
   }"

definition sys_wait_children :: "bool \<Rightarrow> nat \<Rightarrow> kernel \<Rightarrow> (wait_io \<times> kernel) option" where
  "sys_wait_children status_ok sp k = do {
     (w, k1) \<leftarrow> proc_wait (-1) sp k;
     Some (case w of WaitRet p st \<Rightarrow> WaitRet p (wait_status status_ok p st) | WaitSleep r t c \<Rightarrow> w, k1)
   }"

definition sys_proc_snapshot :: "bool \<Rightarrow> nat \<Rightarrow> kernel \<Rightarrow> (proc_info list \<times> kernel) option" where
  "sys_proc_snapshot buf_ok max_count k =
    (if \<not> buf_ok \<or> max_count = 0 then Some ([], k)
     else proc_snapshot buf_ok (int (if max_count > MAX_PROCS then MAX_PROCS else max_count)) k)"

definition sys_mm_get_stats :: "bool \<Rightarrow> kernel \<Rightarrow> (int \<times> mm_stats option) option" where
  "sys_mm_get_stats out_ok k =
    (if \<not> out_ok then Some (-22, None)
     else do { st \<leftarrow> mm_collect_stats (heap k); Some (0, Some st) })"

section \<open>Semaphores\<close>

definition sys_sem_open :: "string option \<Rightarrow> nat \<Rightarrow> kernel \<Rightarrow> (int \<times> kernel) option" where
  "sys_sem_open nm init k =
    (case sched_current k of None \<Rightarrow> Some (-1, k)
     | Some c \<Rightarrow> do {
         (r, sem, k1) \<leftarrow> ksem_open nm init True k;
         if r \<noteq> 0 then Some (-1, k1)
         else do {
           let (handle, k2) = sem_handle_allocate sem (pid (procs k1 c)) k1;
           if handle < 0 then do { (_, k3) \<leftarrow> ksem_close sem k2; Some (-1, k3) }
           else Some (handle, k2)
         }
       })"

definition sys_sem_wait :: "int \<Rightarrow> nat \<Rightarrow> kernel \<Rightarrow> (sem_io \<times> kernel) option" where
  "sys_sem_wait h sp k =
    (let sem = sem_handle_peek h k in if sem = 0 then Some (Returns (-1), k) else ksem_wait sem sp k)"

definition sys_sem_post :: "int \<Rightarrow> kernel \<Rightarrow> (int \<times> kernel) option" where
  "sys_sem_post h k =
    (let sem = sem_handle_peek h k in if sem = 0 then Some (-1, k) else ksem_post sem k)"

definition sys_sem_close :: "int \<Rightarrow> kernel \<Rightarrow> (int \<times> kernel) option" where
  "sys_sem_close h k =
    (let (sem, k1) = sem_handle_detach h k in if sem = 0 then Some (-1, k1) else ksem_close sem k1)"

definition sys_sem_unlink :: "string option \<Rightarrow> kernel \<Rightarrow> (int \<times> kernel) option" where
  "sys_sem_unlink nm k = ksem_unlink nm k"

section \<open>Pipes and descriptors\<close>

text \<open>\<^verbatim>\<open>cur->fd_table\<close> when there is a current process, 0 otherwise: 0 is the error in every caller.\<close>

definition cur_table :: "kernel \<Rightarrow> nat" where
  "cur_table k = (case sched_current k of None \<Rightarrow> 0 | Some c \<Rightarrow> fd_table (procs k c))"

definition sys_pipe_open :: "string option \<Rightarrow> int \<Rightarrow> kernel \<Rightarrow> (int \<times> kernel) option" where
  "sys_pipe_open nm flags k =
    (if nm = None \<or> cur_table k = 0 then Some (-1, k)
     else do {
       let for_read = bit flags 0;
       let for_write = bit flags 1;
       if \<not> for_read \<and> \<not> for_write then Some (-1, k)
       else do {
         (r, p, k1) \<leftarrow> kpipe_open nm for_read for_write True k;
         if r < 0 then Some (-1, k1)
         else do {
           (f, k2) \<leftarrow> file_create FD_PIPE p for_read for_write PIPE_OPS k1;
           if f = 0 then do { (_, k3) \<leftarrow> kpipe_close p for_read for_write k2; Some (-1, k3) }
           else do {
             (fd, k3) \<leftarrow> fd_table_allocate (cur_table k2) f k2;
             k4 \<leftarrow> (if fd < 0 then file_release f k3 else Some k3);
             Some (fd, k4)
           }
         }
       }
     })"

definition sys_pipe_close :: "int \<Rightarrow> kernel \<Rightarrow> (int \<times> kernel) option" where
  "sys_pipe_close fd k =
    (if cur_table k = 0 then Some (-1, k) else fd_table_close (cur_table k) fd k)"

text \<open>
  Reading and writing return the file with the outcome, so that a suspended call can go on with it.
\<close>

definition sys_pipe_read :: "int \<Rightarrow> bool \<Rightarrow> int \<Rightarrow> nat \<Rightarrow> kernel \<Rightarrow> (nat \<times> nat io \<times> kernel) option" where
  "sys_pipe_read fd buf_ok n sp k =
    (if cur_table k = 0 then Some (0, Ret (-1) [], k)
     else do {
       f \<leftarrow> fd_table_get (cur_table k) fd k;
       if f = 0 then Some (0, Ret (-1) [], k)
       else do {
         fl \<leftarrow> files k f;
         if ftype fl \<noteq> FD_PIPE \<or> \<not> can_read fl then Some (0, Ret (-1) [], k)
         else do { (r, k1) \<leftarrow> ops_read fl buf_ok n sp k; Some (f, r, k1) }
       }
     })"

definition sys_pipe_write :: "int \<Rightarrow> nat list option \<Rightarrow> int \<Rightarrow> nat \<Rightarrow> kernel \<Rightarrow> (nat \<times> nat io \<times> kernel) option" where
  "sys_pipe_write fd buf n sp k =
    (if cur_table k = 0 then Some (0, Ret (-1) [], k)
     else do {
       f \<leftarrow> fd_table_get (cur_table k) fd k;
       if f = 0 then Some (0, Ret (-1) [], k)
       else do {
         fl \<leftarrow> files k f;
         if ftype fl \<noteq> FD_PIPE \<or> \<not> can_write fl then Some (0, Ret (-1) [], k)
         else do { (r, k1) \<leftarrow> ops_write fl buf n sp k; Some (f, r, k1) }
       }
     })"

definition sys_pipe_unlink :: "string option \<Rightarrow> kernel \<Rightarrow> (int \<times> kernel) option" where
  "sys_pipe_unlink nm k = kpipe_unlink nm k"

definition sys_read :: "int \<Rightarrow> bool \<Rightarrow> int \<Rightarrow> nat \<Rightarrow> kernel \<Rightarrow> (nat \<times> nat io \<times> kernel) option" where
  "sys_read fd buf_ok n sp k =
    (if cur_table k = 0 then Some (0, Ret (-1) [], k)
     else do {
       f \<leftarrow> fd_table_get (cur_table k) fd k;
       if f = 0 then Some (0, Ret (-1) [], k)
       else do { fl \<leftarrow> files k f; (r, k1) \<leftarrow> ops_read fl buf_ok n sp k; Some (f, r, k1) }
     })"

definition sys_write :: "int \<Rightarrow> nat list option \<Rightarrow> int \<Rightarrow> nat \<Rightarrow> kernel \<Rightarrow> (nat \<times> nat io \<times> kernel) option" where
  "sys_write fd buf n sp k =
    (if cur_table k = 0 then Some (0, Ret (-1) [], k)
     else do {
       f \<leftarrow> fd_table_get (cur_table k) fd k;
       if f = 0 then Some (0, Ret (-1) [], k)
       else do { fl \<leftarrow> files k f; (r, k1) \<leftarrow> ops_write fl buf n sp k; Some (f, r, k1) }
     })"

definition sys_close :: "int \<Rightarrow> kernel \<Rightarrow> (int \<times> kernel) option" where
  "sys_close fd k =
    (if cur_table k = 0 then Some (-1, k) else fd_table_close (cur_table k) fd k)"

definition sys_dup2 :: "int \<Rightarrow> int \<Rightarrow> kernel \<Rightarrow> (int \<times> kernel) option" where
  "sys_dup2 oldfd newfd k =
    (if cur_table k = 0 then Some (-1, k) else fd_table_dup2 (cur_table k) oldfd newfd k)"

end
