(* ===== verification/Proc_Theorems.thy ===== *)
theory Proc_Theorems
  imports Demo_Kernel Syscalls
begin

text \<open>
  The properties of the process table: wait results, the foreground process, priorities and listing.
\<close>

section \<open>Changing the priority of the running process\<close>

text \<open>Any number of timer interrupts.\<close>

fun timers :: "nat list \<Rightarrow> kernel \<Rightarrow> (nat list \<times> kernel) option" where
  "timers [] k = Some ([], k)"
| "timers (sp # sps) k = do { (r, k1) \<leftarrow> irq_timer sp k; (rs, k2) \<leftarrow> timers sps k1; Some (r # rs, k2) }"

lemma irq_timer_no_current: "cur s = None \<Longrightarrow> irq_timer sp s = Some (0, timer_handler s)"
  by (simp add: irq_timer_def schedule_def)

lemma timers_no_current:
  "cur k = None \<Longrightarrow> \<exists>k'. timers sps k = Some (replicate (length sps) 0, k') \<and> cur k' = None \<and> procs k' = procs k"
proof (induction sps arbitrary: k)
  case (Cons sp sps)
  then have "cur (timer_handler k) = None" by simp
  from Cons.IH [OF this] irq_timer_no_current [OF Cons.prems] show ?case by auto
qed simp

lemma collect_zombies_id: "kernel_ok k \<Longrightarrow> collect_zombies k = Some k"
  by (simp add: collect_zombies_def collect_zombies_none kernel_ok_def)

lemma kernel_ok_cur_used: "kernel_ok k \<Longrightarrow> cur k = Some c \<Longrightarrow> used (procs k c) \<and> c < MAX_PROCS \<and> state (procs k c) = RUNNING"
proof -
  assume ok: "kernel_ok k" and c: "cur k = Some c"
  then obtain Q where Q: "sched_ok Q k" by (auto simp: kernel_ok_def)
  then have "sched_inv Q k" by (simp add: sched_ok_def sched_pre_def)
  with c have "used (procs k c)" by (auto simp: sched_inv_alt prio_ok_def)
  with kernel_ok_cur [OF ok] c show ?thesis by auto
qed

lemma nice_running:
  assumes ok: "kernel_ok k" and c: "cur k = Some c" and pr: "0 \<le> priority (procs k c)" "priority (procs k c) \<le> 3"
    and new: "priority (procs k c) \<noteq> clamp_prio new"
  shows "\<exists>k'. proc_nice (pid (procs k c)) new sp k = Some (Some 0, k') \<and> cur k' = None"
proof -
  from ok obtain Q where Q: "sched_ok Q k" "table_ok k" by (auto simp: kernel_ok_def)
  from Q(1) have inv: "sched_inv Q k" "scheduler_enabled k" by (simp_all add: sched_ok_def sched_pre_def)
  then have qs: "queues Q k" "c \<notin> queued Q" using c by (simp_all add: sched_inv_def)
  note cu = kernel_ok_cur_used [OF ok c]
  let ?n = "clamp_prio new"
  let ?k2 = "upd c (\<lambda>p. p\<lparr>base_priority := ?n, aging_ticks := 0\<rparr>) k"
  let ?k3 = "(upd c (state_update (\<lambda>_. READY)) ?k2)\<lparr>cur := None\<rparr>"
  have q3: "queues Q (upd c (\<lambda>p. p\<lparr>base_priority := ?n, aging_ticks := 0, state := READY\<rparr>) k)"
    using queues_upd_free [OF qs(2)] qs(1) by blast
  have "queues Q ?k3"
    using q3 by (simp add: queues_def upd_def)
  from q_remove_queues [OF this, of c "nat (priority (procs k c))"] pr obtain k4 Q4 where
    k4: "q_remove c ?k3 = Some k4" "queues Q4 k4" "qframe ?k3 k4" "c \<notin> queued Q4"
    using qs(2) by (auto simp: queued_iff remove1_idem)
  have rm: "sched_remove c (upd c (state_update (\<lambda>_. READY)) ?k2) = Some k4"
    using c k4(1) by (simp add: sched_remove_def)
  let ?k5 = "upd c (priority_update (\<lambda>_. ?n)) k4"
  have f4: "cur k4 = None" "scheduler_enabled k4" using qframe_fields(1,3) [OF k4(3)] inv(2) by simp_all
  have n: "0 \<le> ?n" "?n \<le> 3" by (simp_all add: clamp_prio_def const_defs)
  let ?e = "\<lambda>p. p\<lparr>priority := ?n, queue_next := None, state := READY, ticks_left := TIME_SLICE_TICKS, aging_ticks := 0\<rparr>"
  have q6: "queues Q4 (upd c ?e ?k5)" using k4(2) by (simp only: queues_upd_free [OF k4(4)])
  from q_push_queues [OF q6 k4(4), of "nat ?n"] n obtain k6 where
    k6: "q_push c (upd c ?e ?k5) = Some k6" "qframe (upd c ?e ?k5) k6" by (auto simp: prio_index_def const_defs)
  have "sched_enqueue c ?k5 = Some k6"
    using f4 n k6(1) by (simp add: sched_enqueue_def const_defs)
  moreover have c6: "cur k6 = None" using qframe_fields(1) [OF k6(2)] f4(1) by simp
  ultimately have "proc_nice (pid (procs k c)) new sp k = Some (Some 0, timer_handler k6)"
    using collect_zombies_id [OF ok] proc_by_pid_found [OF Q(2)] cu new c rm irq_timer_no_current [OF c6]
    by (simp add: proc_nice_def sched_force_yield_def)
  with c6 show ?thesis by simp
qed

section \<open>Wait results\<close>

lemma find_append_new: "find P xs = None \<Longrightarrow> find P (xs @ ys) = find P ys"
  by (induction xs) (auto split: if_splits)

lemma wait_result_roundtrip:
  assumes heap: "kheap_ok k" and pd: "0 < pd"
    and new: "target = pd \<and> (\<forall>(node, p, c) \<in> set (wait_res (procs k parent)). p \<noteq> pd)
      \<or> target \<le> 0 \<and> wait_res (procs k parent) = []"
  shows "\<exists>k1 k2. push_wait_result parent pd code k = Some k1 \<and> consume_wait_result parent target k1 = Some (pd, Some code, k2)
    \<and> kheap_ok k2 \<and> mm_live (heap k2) = mm_live (heap k) \<and> wait_res (procs k2 parent) = wait_res (procs k parent)"
proof -
  let ?ws = "wait_res (procs k parent)"
  from kmalloc_total [OF heap, of sizeof_wait_result] obtain node h where
    a: "kmalloc sizeof_wait_result k = Some (node, k\<lparr>heap := h\<rparr>)" "kheap_ok (k\<lparr>heap := h\<rparr>)"
      "node = 0 \<Longrightarrow> h = heap k" "node \<noteq> 0 \<Longrightarrow> node \<notin> fst ` mm_live (heap k)"
      "node \<noteq> 0 \<Longrightarrow> \<exists>sz. alloc_size sizeof_wait_result \<le> sz \<and> mm_live h = insert (node, sz) (mm_live (heap k))" by blast
  have none: "find (\<lambda>(node, cp, code). cp = pd) ?ws = None" if "target = pd"
    using new that pd by (auto simp: find_None_iff)
  show ?thesis
  proof (cases "node = 0")
    case True
    let ?f = "\<lambda>p. p\<lparr>pending_exit_pid := pd, pending_exit_code := code, pending_exit_valid := True\<rparr>"
    let ?k1 = "upd parent ?f (k\<lparr>heap := h\<rparr>)"
    have "push_wait_result parent pd code k = Some ?k1" using a(1) True by (simp add: push_wait_result_def)
    moreover have "consume_wait_result parent target ?k1
        = Some (pd, Some code, upd parent (pending_exit_valid_update (\<lambda>_. False)) ?k1)"
      using new none pd by (auto simp: consume_wait_result_def consume_pending_def Let_def)
    ultimately show ?thesis using a(2,3) True by (auto simp: kheap_ok_def upd_def)
  next
    case False
    let ?r = "(node, pd, code)"
    let ?k1 = "upd parent (wait_res_update (\<lambda>ws. ws @ [?r])) (k\<lparr>heap := h\<rparr>)"
    from a(5) [OF False] obtain sz where sz: "mm_live h = insert (node, sz) (mm_live (heap k))" by blast
    let ?k2 = "upd parent (wait_res_update (\<lambda>_. ?ws)) ?k1"
    have "kheap_ok ?k2" "(node, sz) \<in> mm_live (heap ?k2)" using a(2) sz by (simp_all add: kheap_ok_def upd_def)
    from kfree_live [OF this] obtain h' where
      h': "kfree node ?k2 = Some (?k2\<lparr>heap := h'\<rparr>)" "kheap_ok (?k2\<lparr>heap := h'\<rparr>)"
        "mm_live h' = mm_live (heap ?k2) - {(node, sz)}" by blast
    have push: "push_wait_result parent pd code k = Some ?k1" using a(1) False by (simp add: push_wait_result_def)
    have ws1: "wait_res (procs ?k1 parent) = ?ws @ [?r]" by simp
    have hit: "(if target \<le> 0 then (case ?ws @ [?r] of [] \<Rightarrow> None | w # _ \<Rightarrow> Some w)
                else find (\<lambda>(node, cp, code). cp = target) (?ws @ [?r])) = Some ?r"
      using new none pd by (auto simp: find_append_new)
    have "?r \<notin> set ?ws" using new by auto
    then have "remove1 ?r (?ws @ [?r]) = ?ws" by (simp add: remove1_append)
    then have "consume_wait_result parent target ?k1 = Some (pd, Some code, ?k2\<lparr>heap := h'\<rparr>)"
      unfolding consume_wait_result_def Let_def ws1 hit using h'(1) by simp
    moreover have "mm_live h' = mm_live (heap k)" using h'(3) sz a(4) [OF False] by (force simp: upd_def)
    ultimately show ?thesis using push h'(2) by (auto simp: upd_def)
  qed
qed

section \<open>The foreground process\<close>

lemma set_foreground_spec:
  assumes t: "table_ok k" and j: "j < MAX_PROCS" "used (procs k j)" "pid (procs k j) = pd"
  shows "\<forall>i < MAX_PROCS. used (procs k i) \<longrightarrow> fg (procs (proc_set_foreground pd k) i) = (i = j)"
    "proc_get_foreground_pid (proc_set_foreground pd k) = (pd, proc_set_foreground pd k)"
    "\<forall>i. procs (proc_set_foreground pd k) i = (procs k i)\<lparr>fg := fg (procs (proc_set_foreground pd k) i)\<rparr>"
proof -
  from t j have pd: "0 < pd" by (auto simp: table_ok_def)
  have "proc_by_pid pd k = Some j" using proc_by_pid_found [OF t j(1,2)] j(3) by simp
  then have eq: "proc_set_foreground pd k = clear_other_fg pd (tty_set_foreground pd (upd j (fg_update (\<lambda>_. True)) k))"
    using pd by (simp add: proc_set_foreground_def)
  have ps: "procs (proc_set_foreground pd k) i = (if i = j then (procs k j)\<lparr>fg := True\<rparr>
      else if i < MAX_PROCS \<and> used (procs k i) \<and> pid (procs k i) \<noteq> pd then (procs k i)\<lparr>fg := False\<rparr> else procs k i)" for i
    using j(3) by (simp add: eq clear_other_fg_def tty_set_foreground_def tty_default_def Let_def)
  have "pid (procs k i) \<noteq> pd" if "i \<noteq> j" "i < MAX_PROCS" "used (procs k i)" for i
    using t j that unfolding table_ok_def by blast
  then show "\<forall>i < MAX_PROCS. used (procs k i) \<longrightarrow> fg (procs (proc_set_foreground pd k) i) = (i = j)"
    by (simp add: ps)
  show "\<forall>i. procs (proc_set_foreground pd k) i = (procs k i)\<lparr>fg := fg (procs (proc_set_foreground pd k) i)\<rparr>"
    by (simp add: ps)
  show "proc_get_foreground_pid (proc_set_foreground pd k) = (pd, proc_set_foreground pd k)"
    using pd by (simp add: proc_get_foreground_pid_def tty_get_foreground_def tty_default_def tty_set_foreground_def
      eq clear_other_fg_def Let_def)
qed

section \<open>Listing\<close>

lemma snapshot_loop_spec:
  "int (length out) \<le> m \<Longrightarrow>
   snapshot_loop k m is out = take (nat m) (out @ map (info_of k) (filter (\<lambda>i. used (procs k i)) is))"
proof (induction k m "is" out rule: snapshot_loop.induct)
  case (2 k m i js out)
  show ?case
  proof (cases "int (length out) < m")
    case False
    with 2(3) have "nat m = length out" by simp
    then show ?thesis using False by simp
  next
    case True
    then show ?thesis using 2 by (cases "used (procs k i)") simp_all
  qed
qed simp

section \<open>Properties\<close>

text \<open>C25. A defect: a process that changes its own priority stops all scheduling. \<^verbatim>\<open>proc_nice\<close> clears
  \<^verbatim>\<open>current\<close> before it yields, so the yield switches to nobody, and since \<^verbatim>\<open>schedule\<close> does nothing
  without a current process, no later timer interrupt switches either.\<close>

theorem nice_on_self_stops_scheduling:
  assumes "kernel_ok k" "cur k = Some c" "0 \<le> priority (procs k c)" "priority (procs k c) \<le> 3"
    "priority (procs k c) \<noteq> clamp_prio new"
  shows "\<exists>k'. proc_nice (pid (procs k c)) new sp k = Some (Some 0, k')
    \<and> (\<forall>sps. \<exists>k''. timers sps k' = Some (replicate (length sps) 0, k'') \<and> cur k'' = None \<and> procs k'' = procs k')"
  using nice_running [OF assms] timers_no_current by blast

theorem nice_on_self_stops_scheduling_witness:
  "\<exists>k'. proc_nice 2 3 4096 demo_kernel = Some (Some 0, k')
    \<and> (\<exists>k''. timers [4096, 4096] k' = Some ([0, 0], k'') \<and> cur k'' = None)"
proof -
  have "priority (procs demo_kernel 1) \<noteq> clamp_prio 3" by (simp add: clamp_prio_def const_defs)
  with nice_on_self_stops_scheduling [OF demo_kernel_ok, of 1 3 4096] obtain k' where
    k': "proc_nice 2 3 4096 demo_kernel = Some (Some 0, k')"
      "\<forall>sps. \<exists>k''. timers sps k' = Some (replicate (length sps) 0, k'') \<and> cur k'' = None \<and> procs k'' = procs k'" by auto
  from k'(2) [rule_format, of "[4096, 4096]"] k'(1) show ?thesis by (auto simp: numeral_2_eq_2)
qed

text \<open>C26. An exit result pushed for a parent is what its wait for that child, or for any child when no
  other result is queued, returns, whether or not a node could be allocated for it; the heap and the
  other results are as before.\<close>

theorem wait_result_comes_back:
  assumes "kheap_ok k" "0 < pd"
    "target = pd \<and> (\<forall>(node, p, c) \<in> set (wait_res (procs k parent)). p \<noteq> pd)
      \<or> target \<le> 0 \<and> wait_res (procs k parent) = []"
  shows "\<exists>k1 k2. push_wait_result parent pd code k = Some k1 \<and> consume_wait_result parent target k1 = Some (pd, Some code, k2)
    \<and> kheap_ok k2 \<and> mm_live (heap k2) = mm_live (heap k) \<and> wait_res (procs k2 parent) = wait_res (procs k parent)"
  by (rule wait_result_roundtrip [OF assms])

theorem wait_result_comes_back_witness:
  "\<exists>k1 k2. push_wait_result 1 7 42 demo_kernel = Some k1 \<and> consume_wait_result 1 (-1) k1 = Some (7, Some 42, k2)
    \<and> mm_live (heap k2) = {(4128, 16), (4176, 16)}"
proof -
  have "kheap_ok demo_kernel" using demo_kernel_ok by (simp add: kernel_ok_def)
  moreover have "wait_res (procs demo_kernel 1) = []" by (simp add: demo_proc_def pcb_zero_def)
  ultimately show ?thesis using wait_result_comes_back [of demo_kernel 7 "-1" 1 42] by (auto simp: demo_heap_live)
qed

text \<open>C27. After a process is put in the foreground it is the only one with the foreground flag, the
  terminal names it as the foreground process, and nothing else in the process table changes.\<close>

theorem foreground_is_unique:
  assumes "table_ok k" "j < MAX_PROCS" "used (procs k j)" "pid (procs k j) = pd"
  shows "(\<forall>i < MAX_PROCS. used (procs k i) \<longrightarrow> fg (procs (proc_set_foreground pd k) i) = (i = j))
    \<and> proc_get_foreground_pid (proc_set_foreground pd k) = (pd, proc_set_foreground pd k)
    \<and> (\<forall>i. procs (proc_set_foreground pd k) i = (procs k i)\<lparr>fg := fg (procs (proc_set_foreground pd k) i)\<rparr>)"
  using set_foreground_spec [OF assms] by blast

theorem foreground_is_unique_witness:
  "fg (procs (proc_set_foreground 3 demo_kernel) 2) \<and> \<not> fg (procs (proc_set_foreground 3 demo_kernel) 1)
    \<and> proc_get_foreground_pid (proc_set_foreground 3 demo_kernel) = (3, proc_set_foreground 3 demo_kernel)"
proof -
  have "table_ok demo_kernel" using demo_kernel_ok by (simp add: kernel_ok_def)
  from foreground_is_unique [OF this, of 2 3] show ?thesis by (auto simp: MAX_PROCS_def)
qed

text \<open>A snapshot lists the used slots in order, cut off at the number of entries asked for.\<close>

theorem snapshot_lists_used_slots:
  assumes "kernel_ok k" "0 < m"
  shows "proc_snapshot True m k
    = Some (take (nat m) (map (info_of k) (filter (\<lambda>i. used (procs k i)) [0 ..< MAX_PROCS])), k)"
  using assms collect_zombies_id [OF assms(1)] snapshot_loop_spec [of "[]" m k]
  by (simp add: proc_snapshot_def)

theorem snapshot_lists_used_slots_witness:
  "map_option (\<lambda>(ps, k). map pi_pid ps) (proc_snapshot True 3 demo_kernel) = Some [1, 2, 3]"
proof -
  have "[0 ..< MAX_PROCS] = [0, 1, 2, 3] @ [4 ..< MAX_PROCS]" by (simp add: MAX_PROCS_def upt_rec)
  moreover have "filter (\<lambda>i. used (procs demo_kernel i)) [4 ..< MAX_PROCS] = []"
    by (auto simp: filter_empty_conv demo_kernel_used)
  ultimately show ?thesis using snapshot_lists_used_slots [OF demo_kernel_ok, of 3]
    by (simp add: info_of_def Let_def)
qed

end
