(* ===== verification/Dispatcher.thy ===== *)
theory Dispatcher
  imports Syscalls
begin

text \<open>
  \<^verbatim>\<open>Kernel/interrupt/sysCallDispatcher.c\<close>: the local system calls and \<^verbatim>\<open>syscall_dispatcher\<close>, which
  selects a call by \<^verbatim>\<open>rax\<close> and converts the registers to its argument types. The drivers are in
  theories of their own: a call that ends in one is a \<open>Device\<close> outcome with the decoded arguments, and with
  the value returned when the dispatcher fixes it.
\<close>

section \<open>Outcomes\<close>

record color =
  c_r :: nat
  c_g :: nat
  c_b :: nat

datatype device_call =
    Clear | GetHours | GetMinutes | GetSeconds | GetHeight | GetWidth
  | DrawRectangle int int int int color
  | Halt int int
  | RegisterInfo nat | PrintMem nat | PlusScale | MinusScale | Beep nat nat | StopSpeaker | DrawCursor
  | PrintColor char color

datatype user_out =
    OutBytes nat "nat list" | OutInt nat int | OutInfo nat memory_info | OutStats nat mm_stats
  | OutProcs nat "proc_info list"

text \<open>How a suspended call goes on: it returns 0, never, or takes up its loop again.\<close>

datatype cont =
    KZero | KNever | KWait nat int "nat option"
  | KRead nat nat int | KWrite nat nat int | KReadTty nat

datatype sysres =
    Rax nat "user_out list"
  | Blocked nat cont
  | Retry cont
  | Device device_call "nat option"

definition to_u64 :: "int \<Rightarrow> nat" where
  "to_u64 v = nat (v mod 18446744073709551616)"

text \<open>The casts of a register to \<^verbatim>\<open>int\<close>, \<^verbatim>\<open>unsigned int\<close>, \<^verbatim>\<open>uint8_t\<close>.\<close>

definition as_int :: "nat \<Rightarrow> int" where "as_int r = swrap32 (int r)"
definition as_uint :: "nat \<Rightarrow> nat" where "as_uint r = r mod 4294967296"
definition as_byte :: "nat \<Rightarrow> nat" where "as_byte r = r mod 256"

definition rgb :: "nat \<Rightarrow> color" where
  "rgb v = \<lparr>c_r = as_byte (v div 65536), c_g = as_byte (v div 256), c_b = as_byte v\<rparr>"

definition rax :: "int \<Rightarrow> sysres" where
  "rax v = Rax (to_u64 v) []"

section \<open>The calls of this file\<close>

definition sys_read_tty :: "nat \<Rightarrow> nat \<Rightarrow> nat \<Rightarrow> kernel \<Rightarrow> (sysres \<times> kernel) option" where
  "sys_read_tty fd buff sp k =
    (if fd \<noteq> 0 \<or> buff = 0 then Some (rax (-1), k)
     else do {
       (r, k1) \<leftarrow> tty_read True 1 sp (tty_default k);
       Some (case r of
               Ret n cs \<Rightarrow> Rax (to_u64 n) [OutBytes buff (if n \<le> 0 then [0] else map of_char cs)]
             | Suspend r \<Rightarrow> Blocked r (KReadTty buff)
             | Again \<Rightarrow> Retry (KReadTty buff), k1)
     })"

definition sys_write_tty :: "nat \<Rightarrow> char \<Rightarrow> kernel \<Rightarrow> sysres \<times> kernel" where
  "sys_write_tty fd c k =
    (if fd \<noteq> 1 then (rax (-1), k)
     else (let (r, k1) = tty_write (Some [c]) 1 (tty_default k) in (rax r, k1)))"

definition sys_writeColor :: "nat \<Rightarrow> char \<Rightarrow> color \<Rightarrow> sysres" where
  "sys_writeColor fd c col = (if fd \<noteq> 1 then rax (-1) else Device (PrintColor c col) (Some 1))"

text \<open>\<^verbatim>\<open>sys_sleep\<close>: the condition of its loop at a later moment, and the call.\<close>

definition sleep_goes_on :: "int \<Rightarrow> int \<Rightarrow> 'a sched_st_scheme \<Rightarrow> bool" where
  "sleep_goes_on start_ms ms s \<longleftrightarrow> swrap32 (ms_elapsed s - start_ms) < ms"

definition sys_sleep :: "int \<Rightarrow> kernel \<Rightarrow> sysres" where
  "sys_sleep ms k = (if ms > 0 then Device (Halt (ms_elapsed k) ms) (Some 1) else Rax 1 [])"

definition sys_printmem :: "nat \<Rightarrow> sysres" where
  "sys_printmem address = (if address > 0x20000000 - 32 then rax (-1) else Device (PrintMem address) (Some 0))"

definition sys_malloc :: "nat \<Rightarrow> kernel \<Rightarrow> (nat \<times> kernel) option" where
  "sys_malloc sz k = kmalloc sz k"

definition sys_free :: "nat \<Rightarrow> kernel \<Rightarrow> kernel option" where
  "sys_free p k = kfree p k"

definition sys_mem_info :: "nat \<Rightarrow> memory_info \<Rightarrow> kernel \<Rightarrow> sysres option" where
  "sys_mem_info a info k =
    (if a = 0 then Some (rax (-1))
     else do { i \<leftarrow> mm_get_info info (heap k); Some (Rax 0 [OutInfo a i]) })"

definition sys_create_process ::
  "nat \<Rightarrow> int \<Rightarrow> nat \<Rightarrow> string option \<Rightarrow> nat \<Rightarrow> kernel \<Rightarrow> (int \<times> kernel) option" where
  "sys_create_process ent ac av nm prio k = proc_create ent ac av (int prio) False nm k"

definition sys_create_process_ex ::
  "nat \<Rightarrow> int \<Rightarrow> nat \<Rightarrow> string option \<Rightarrow> nat \<Rightarrow> int \<Rightarrow> kernel \<Rightarrow> (int \<times> kernel) option" where
  "sys_create_process_ex ent ac av nm prio is_fg k = proc_create ent ac av (int prio) (is_fg \<noteq> 0) nm k"

definition sys_kill :: "int \<Rightarrow> nat \<Rightarrow> kernel \<Rightarrow> (int \<times> kernel) option" where
  "sys_kill pd sp k = proc_kill pd sp k"

section \<open>From the results of the calls to outcomes\<close>

definition ret_int :: "(int \<times> kernel) option \<Rightarrow> (sysres \<times> kernel) option" where
  "ret_int m = do { (v, k) \<leftarrow> m; Some (rax v, k) }"

definition ret_read :: "nat \<Rightarrow> int \<Rightarrow> (nat \<times> nat io \<times> kernel) option \<Rightarrow> (sysres \<times> kernel) option" where
  "ret_read buf n m = do {
     (f, r, k) \<leftarrow> m;
     Some (case r of Ret v bs \<Rightarrow> Rax (to_u64 v) (if bs = [] then [] else [OutBytes buf bs])
           | Suspend sp \<Rightarrow> Blocked sp (KRead f buf n) | Again \<Rightarrow> Retry (KRead f buf n), k)
   }"

definition ret_write :: "nat \<Rightarrow> int \<Rightarrow> (nat \<times> nat io \<times> kernel) option \<Rightarrow> (sysres \<times> kernel) option" where
  "ret_write buf n m = do {
     (f, r, k) \<leftarrow> m;
     Some (case r of Ret v bs \<Rightarrow> rax v
           | Suspend sp \<Rightarrow> Blocked sp (KWrite f buf n) | Again \<Rightarrow> Retry (KWrite f buf n), k)
   }"

definition ret_wait :: "nat \<Rightarrow> (wait_io \<times> kernel) option \<Rightarrow> (sysres \<times> kernel) option" where
  "ret_wait status m = do {
     (w, k) \<leftarrow> m;
     Some (case w of
             WaitRet p st \<Rightarrow> Rax (to_u64 p) (case st of None \<Rightarrow> [] | Some c \<Rightarrow> [OutInt status c])
           | WaitSleep r t c \<Rightarrow> Blocked r (KWait status t c), k)
   }"

section \<open>The dispatcher\<close>

definition syscall_dispatcher ::
  "user_mem \<Rightarrow> nat \<Rightarrow> nat \<Rightarrow> nat \<Rightarrow> nat \<Rightarrow> nat \<Rightarrow> nat \<Rightarrow> nat \<Rightarrow> nat \<Rightarrow> kernel \<Rightarrow> (sysres \<times> kernel) option" where
  "syscall_dispatcher M sp rdi rsi rdx rcx r8 r9 rax_no k =
    (let r10 = rcx in
     if rax_no = 0 then sys_read_tty rdi rsi sp k
     else if rax_no = 1 then Some (sys_write_tty rdi (char_of (as_byte rsi)) k)
     else if rax_no = 2 then Some (Device Clear (Some 1), k)
     else if rax_no = 3 then Some (Device GetHours None, k)
     else if rax_no = 4 then Some (Device GetMinutes None, k)
     else if rax_no = 5 then Some (Device GetSeconds None, k)
     else if rax_no = 6 then Some (Device GetHeight None, k)
     else if rax_no = 7 then Some (Device GetWidth None, k)
     else if rax_no = 8 then
       Some (Device (DrawRectangle (as_int rdi) (as_int rsi) (as_int rdx) (as_int r10) (rgb r8)) (Some 1), k)
     else if rax_no = 9 then Some (sys_sleep (as_int rdi) k, k)
     else if rax_no = 10 then Some (Device (RegisterInfo rdi) None, k)
     else if rax_no = 11 then Some (sys_printmem rdi, k)
     else if rax_no = 12 then Some (Device PlusScale (Some 1), k)
     else if rax_no = 13 then Some (Device MinusScale (Some 1), k)
     else if rax_no = 14 then Some (Device (Beep (as_uint rdi) rsi) (Some 1), k)
     else if rax_no = 15 then Some (Device StopSpeaker (Some 1), k)
     else if rax_no = 16 then Some (Device DrawCursor (Some 1), k)
     else if rax_no = 17 then Some (sys_writeColor rdi (char_of (as_byte rsi)) (rgb rdx), k)
     else if rax_no = 18 then do { (p, k1) \<leftarrow> sys_malloc rdi k; Some (Rax p [], k1) }
     else if rax_no = 19 then do { k1 \<leftarrow> sys_free rdi k; Some (Rax 0 [], k1) }
     else if rax_no = 20 then do { r \<leftarrow> sys_mem_info rdi (m_info M rdi) k; Some (r, k) }
     else if rax_no = 21 then Some (rax (sys_getpid k), k)
     else if rax_no = 22 then ret_int (sys_create_process rdi (as_int rsi) rdx (user_str M r10) (as_byte r8) k)
     else if rax_no = 23 then ret_int (sys_kill (as_int rdi) sp k)
     else if rax_no = 24 then do {
       (v, y, k1) \<leftarrow> sys_block (as_int rdi) sp k;
       Some (case y of None \<Rightarrow> rax v | Some r \<Rightarrow> Blocked r KZero, k1)
     }
     else if rax_no = 25 then ret_int (sys_unblock (as_int rdi) k)
     else if rax_no = 26 then do {
       (y, k1) \<leftarrow> sys_nice (as_int rdi) (int (as_byte rsi)) sp k;
       Some (case y of None \<Rightarrow> rax 0 | Some r \<Rightarrow> Blocked r KZero, k1)
     }
     else if rax_no = 27 then do { (r, k1) \<leftarrow> sys_yield sp k; Some (Blocked r KZero, k1) }
     else if rax_no = 28 then ret_wait rsi (sys_wait_pid (as_int rdi) (rsi \<noteq> 0) sp k)
     else if rax_no = 29 then do {
       (y, k1) \<leftarrow> sys_exit (as_int rdi) sp k;
       Some (case y of None \<Rightarrow> rax 0 | Some r \<Rightarrow> Blocked r KNever, k1)
     }
     else if rax_no = 30 then do {
       (ps, k1) \<leftarrow> sys_proc_snapshot (rdi \<noteq> 0) rsi k;
       Some (Rax (length ps) (if ps = [] then [] else [OutProcs rdi ps]), k1)
     }
     else if rax_no = 31 then ret_int (sys_sem_open (user_str M rdi) (as_uint rsi) k)
     else if rax_no = 32 then do {
       (r, k1) \<leftarrow> sys_sem_wait (as_int rdi) sp k;
       Some (case r of Returns v \<Rightarrow> rax v | Sleeps r \<Rightarrow> Blocked r KZero, k1)
     }
     else if rax_no = 33 then ret_int (sys_sem_post (as_int rdi) k)
     else if rax_no = 34 then ret_int (sys_sem_close (as_int rdi) k)
     else if rax_no = 35 then ret_int (sys_sem_unlink (user_str M rdi) k)
     else if rax_no = 36 then ret_int (sys_pipe_open (user_str M rdi) (as_int rsi) k)
     else if rax_no = 37 then ret_int (sys_pipe_close (as_int rdi) k)
     else if rax_no = 38 then ret_read rsi (as_int rdx) (sys_pipe_read (as_int rdi) (rsi \<noteq> 0) (as_int rdx) sp k)
     else if rax_no = 39 then
       ret_write rsi (as_int rdx) (sys_pipe_write (as_int rdi) (user_buf M rsi (as_int rdx)) (as_int rdx) sp k)
     else if rax_no = 40 then ret_int (sys_pipe_unlink (user_str M rdi) k)
     else if rax_no = 41 then ret_read rsi (as_int rdx) (sys_read (as_int rdi) (rsi \<noteq> 0) (as_int rdx) sp k)
     else if rax_no = 42 then
       ret_write rsi (as_int rdx) (sys_write (as_int rdi) (user_buf M rsi (as_int rdx)) (as_int rdx) sp k)
     else if rax_no = 43 then ret_int (sys_close (as_int rdi) k)
     else if rax_no = 44 then ret_int (sys_dup2 (as_int rdi) (as_int rsi) k)
     else if rax_no = 45 then
       ret_int (sys_create_process_ex rdi (as_int rsi) rdx (user_str M r10) (as_byte r8) (as_int r9) k)
     else if rax_no = 46 then do {
       (v, st) \<leftarrow> sys_mm_get_stats (rdi \<noteq> 0) k;
       Some (Rax (to_u64 v) (case st of None \<Rightarrow> [] | Some s \<Rightarrow> [OutStats rdi s]), k)
     }
     else if rax_no = 47 then ret_wait rdi (sys_wait_children (rdi \<noteq> 0) sp k)
     else Some (rax 0, k))"

end
