(* ===== verification/Kernel_Lib.thy ===== *)
theory Kernel_Lib
  imports Strings
begin

unbundle bit_operations_syntax

text \<open>
  \<^verbatim>\<open>Kernel/lib/lib.c\<close> (filling and copying memory), \<^verbatim>\<open>Kernel/sys/moduleLoader.c\<close> and the image
  packer \<^verbatim>\<open>Toolchain/ModulePacker/main.c\<close> whose output the loader takes apart. Memory is a function
  from addresses to bytes; addresses do not wrap around.
\<close>

type_synonym byte = "8 word"
type_synonym ram = "nat \<Rightarrow> byte"

section \<open>Filling and copying\<close>

text \<open>\<^verbatim>\<open>memset\<close> fills from the last byte to the first.\<close>

fun memset_loop :: "nat \<Rightarrow> byte \<Rightarrow> nat \<Rightarrow> ram \<Rightarrow> ram" where
  "memset_loop dst chr 0 m = m"
| "memset_loop dst chr (Suc len) m = memset_loop dst chr len (m(dst + len := chr))"

definition memset :: "nat \<Rightarrow> int \<Rightarrow> nat \<Rightarrow> ram \<Rightarrow> ram" where
  "memset destination c len m = memset_loop destination (word_of_int c) len m"

text \<open>Little-endian 32-bit accesses.\<close>

definition load32 :: "ram \<Rightarrow> nat \<Rightarrow> 32 word" where
  "load32 m a = ucast (m a) OR push_bit 8 (ucast (m (a + 1)))
     OR push_bit 16 (ucast (m (a + 2))) OR push_bit 24 (ucast (m (a + 3)))"

definition store32 :: "nat \<Rightarrow> 32 word \<Rightarrow> ram \<Rightarrow> ram" where
  "store32 a w m = m(a := ucast w, a + 1 := ucast (drop_bit 8 w),
     a + 2 := ucast (drop_bit 16 w), a + 3 := ucast (drop_bit 24 w))"

text \<open>The two loops of \<^verbatim>\<open>memcpy\<close>: whole words when everything is aligned, bytes otherwise.\<close>

fun copy_words :: "nat \<Rightarrow> nat \<Rightarrow> nat \<Rightarrow> ram \<Rightarrow> ram" where
  "copy_words d s 0 m = m"
| "copy_words d s (Suc n) m = copy_words (d + 4) (s + 4) n (store32 d (load32 m s) m)"

fun copy_bytes :: "nat \<Rightarrow> nat \<Rightarrow> nat \<Rightarrow> ram \<Rightarrow> ram" where
  "copy_bytes d s 0 m = m"
| "copy_bytes d s (Suc n) m = copy_bytes (d + 1) (s + 1) n (m(d := m s))"

definition memcpy :: "nat \<Rightarrow> nat \<Rightarrow> nat \<Rightarrow> ram \<Rightarrow> ram" where
  "memcpy destination source len m =
    (if destination mod 4 = 0 \<and> source mod 4 = 0 \<and> len mod 4 = 0
     then copy_words destination source (len div 4) m
     else copy_bytes destination source len m)"

section \<open>The module loader\<close>

text \<open>The moving pointer \<^verbatim>\<open>*address\<close> is an argument and part of the result.\<close>

definition readUint32 :: "ram \<Rightarrow> nat \<Rightarrow> nat \<times> nat" where
  "readUint32 m address = (unat (load32 m address), address + 4)"

definition loadModule :: "nat \<Rightarrow> nat \<Rightarrow> ram \<Rightarrow> nat \<times> ram" where
  "loadModule module target m =
    (let (moduleSize, p) = readUint32 m module
     in (p + moduleSize, memcpy target p moduleSize m))"

text \<open>The loop of \<^verbatim>\<open>loadModules\<close>; the array of targets must have an entry for every module.\<close>

fun load_loop :: "nat \<Rightarrow> nat list \<Rightarrow> nat \<Rightarrow> ram \<Rightarrow> ram option" where
  "load_loop 0 targets p m = Some m"
| "load_loop (Suc n) [] p m = None"
| "load_loop (Suc n) (t # targets) p m =
    (let (p', m') = loadModule p t m in load_loop n targets p' m')"

definition loadModules :: "nat \<Rightarrow> nat list \<Rightarrow> ram \<Rightarrow> ram option" where
  "loadModules payloadStart targets m =
    (let (moduleCount, p) = readUint32 m payloadStart in load_loop moduleCount targets p m)"

section \<open>The image packer\<close>

text \<open>
  \<^verbatim>\<open>write_file\<close>: chunks of 128 bytes until a read meets the end of the file. Files are lists of
  bytes; the target is the list written so far.
\<close>

definition BUFFER_SIZE :: nat where [const_defs]: "BUFFER_SIZE = 128"

function write_file :: "byte list \<Rightarrow> byte list \<Rightarrow> byte list" where
  "write_file target source =
    (let chunk = take BUFFER_SIZE source
     in if length chunk < BUFFER_SIZE then target @ chunk
        else write_file (target @ chunk) (drop BUFFER_SIZE source))"
  by pat_completeness auto
termination by (relation "measure (\<lambda>(t, s). length s)") (auto simp: const_defs)

declare write_file.simps [simp del]

definition le32 :: "nat \<Rightarrow> byte list" where
  "le32 n = (let w = of_nat n :: 32 word
             in [ucast w, ucast (drop_bit 8 w), ucast (drop_bit 16 w), ucast (drop_bit 24 w)])"

definition write_size :: "byte list \<Rightarrow> byte list \<Rightarrow> byte list" where
  "write_size target contents = target @ le32 (length contents)"

text \<open>\<^verbatim>\<open>checkFiles\<close>: every name must be readable in the file system \<open>fs\<close>.\<close>

fun checkFiles :: "(string \<Rightarrow> byte list option) \<Rightarrow> string list \<Rightarrow> bool" where
  "checkFiles fs [] \<longleftrightarrow> True"
| "checkFiles fs (f # names) \<longleftrightarrow> (case fs f of None \<Rightarrow> False | Some _ \<Rightarrow> checkFiles fs names)"

fun pack_loop :: "(string \<Rightarrow> byte list option) \<Rightarrow> string list \<Rightarrow> byte list \<Rightarrow> byte list option" where
  "pack_loop fs [] target = Some target"
| "pack_loop fs (f # names) target = do {
     source \<leftarrow> fs f;
     pack_loop fs names (write_file (write_size target source) source)
   }"

definition buildImage :: "(string \<Rightarrow> byte list option) \<Rightarrow> string list \<Rightarrow> byte list option" where
  "buildImage fs names =
    (case names of [] \<Rightarrow> None
     | kern # mods \<Rightarrow> do {
         source \<leftarrow> fs kern;
         pack_loop fs mods (write_file [] source @ le32 (length mods))
       })"

text \<open>\<^verbatim>\<open>main\<close> of the packer after the command line is parsed: the exit code and the image.\<close>

definition packer_main :: "(string \<Rightarrow> byte list option) \<Rightarrow> string list \<Rightarrow> int \<times> byte list option" where
  "packer_main fs names =
    (if \<not> checkFiles fs names then (1, None)
     else (0, buildImage fs names))"

section \<open>Lemmas\<close>

lemma memset_loop_apply: "memset_loop d c n m a = (if d \<le> a \<and> a < d + n then c else m a)"
  by (induction n arbitrary: m) auto

lemma store_load32_bytes:
  "ucast (load32 m a) = m a" "ucast (drop_bit 8 (load32 m a)) = m (a + 1)"
  "ucast (drop_bit 16 (load32 m a)) = m (a + 2)" "ucast (drop_bit 24 (load32 m a)) = m (a + 3)"
  by (rule bit_word_eqI; auto simp: load32_def bit_simps dest: bit_imp_le_length)+

lemma load32_cong: "(\<And>i. i < 4 \<Longrightarrow> m (a + i) = m' (a + i)) \<Longrightarrow> load32 m a = load32 m' a"
proof -
  assume eq: "\<And>i. i < 4 \<Longrightarrow> m (a + i) = m' (a + i)"
  show ?thesis using eq [of 0] eq [of 1] eq [of 2] eq [of 3] by (simp add: load32_def)
qed

end
