(* ===== verification/Digits.thy ===== *)
theory Digits
  imports Strings "HOL-Library.Signed_Division"
begin

text \<open>
  Numbers as text. The kernel console, the video driver and the user library each have their own
  copy of \<^verbatim>\<open>uintToBase\<close>; \<^verbatim>\<open>stdio.c\<close> has \<^verbatim>\<open>itoa\<close> and \<^verbatim>\<open>utoa\<close>. This theory has the loops they share
  and what the loops compute; the copies are in the theories of their components.
\<close>

section \<open>The loops\<close>

text \<open>The character of one digit, and the loop that stores the digits, least significant first.\<close>

definition base_digit :: "nat \<Rightarrow> char" where
  "base_digit remainder = char_of (if remainder < 10 then remainder + 48 else remainder + 55)"

partial_function (option) digit_loop :: "nat \<Rightarrow> nat \<Rightarrow> string \<Rightarrow> string option" where
  "digit_loop base value buf =
    (if base = 0 then None
     else
       let buf' = buf @ [base_digit (value mod base)]
       in if value div base = 0 then Some buf' else digit_loop base (value div base) buf')"

text \<open>The swap of the characters at \<^verbatim>\<open>p1\<close> and \<^verbatim>\<open>p2\<close> while \<^verbatim>\<open>p1 < p2\<close>.\<close>

function reverse_loop :: "nat \<Rightarrow> nat \<Rightarrow> string \<Rightarrow> string" where
  "reverse_loop p1 p2 buf =
    (if p1 < p2 then reverse_loop (p1 + 1) (p2 - 1) (buf[p1 := buf ! p2, p2 := buf ! p1]) else buf)"
  by pat_completeness auto
termination by (relation "measure (\<lambda>(p1, p2, b). p2 - p1)") auto

declare reverse_loop.simps [simp del, code]
declare digit_loop.simps [code]

section \<open>What they compute\<close>

text \<open>The digits of a number, most significant first, by structural arithmetic.\<close>

fun digits_of :: "nat \<Rightarrow> nat \<Rightarrow> nat list" where
  "digits_of base num =
    (if base \<le> 1 \<or> num < base then [num] else digits_of base (num div base) @ [num mod base])"

declare digits_of.simps [simp del]

lemma digits_of_small: "num < base \<Longrightarrow> digits_of base num = [num]"
  by (simp add: digits_of.simps)

lemma digits_of_big: "1 < base \<Longrightarrow> base \<le> num \<Longrightarrow>
  digits_of base num = digits_of base (num div base) @ [num mod base]"
  by (simp add: digits_of.simps)

lemma digits_of_not_Nil [simp]: "digits_of base num \<noteq> []"
  by (subst digits_of.simps) simp

lemma digit_loop_eq:
  "1 < base \<Longrightarrow> digit_loop base num buf = Some (buf @ map base_digit (rev (digits_of base num)))"
proof (induction num arbitrary: buf rule: less_induct)
  case (less v)
  show ?case
  proof (cases "v < base")
    case True
    then show ?thesis using less.prems by (simp add: digit_loop.simps digits_of_small)
  next
    case False
    then have "v div base < v" and "v div base \<noteq> 0" using less.prems by (auto simp: div_eq_0_iff)
    with less False show ?thesis by (simp add: digit_loop.simps [of base v] digits_of_big)
  qed
qed

lemma reverse_loop_middle:
  "length a = n \<Longrightarrow> length c = n \<Longrightarrow>
   reverse_loop n (n + length b - 1) (a @ b @ c) = a @ rev b @ c"
proof (induction b arbitrary: n a c rule: length_induct)
  case (1 b)
  show ?case
  proof (cases "length b < 2")
    case True
    then have "\<not> n < n + length b - 1" "rev b = b" by (auto simp: less_Suc_eq numeral_2_eq_2 length_Suc_conv)
    then show ?thesis by (simp add: reverse_loop.simps)
  next
    case False
    then obtain x y b' where b: "b = x # b' @ [y]"
      by (metis One_nat_def append_Nil list.size(3) list.size(4) add.left_neutral less_2_cases_iff neq_Nil_conv rev_exhaust append_Cons length_append_singleton)
    have step: "(a @ b @ c)[n := (a @ b @ c) ! (n + length b - 1), n + length b - 1 := (a @ b @ c) ! n]
        = (a @ [y]) @ b' @ (x # c)"
      using "1.prems" b by (simp add: list_update_append nth_append)
    have "length b' < length b" "length (a @ [y]) = n + 1" "length (x # c) = n + 1" using "1.prems" b by auto
    then have "reverse_loop (n + 1) (n + 1 + length b' - 1) ((a @ [y]) @ b' @ (x # c)) = (a @ [y]) @ rev b' @ (x # c)"
      using "1.IH" by blast
    moreover have "n < n + length b - 1" "n + length b - 1 - 1 = n + 1 + length b' - 1" using b by auto
    ultimately have "reverse_loop n (n + length b - 1) (a @ b @ c) = (a @ [y]) @ rev b' @ (x # c)"
      by (subst reverse_loop.simps) (simp only: step if_True)
    with b show ?thesis by simp
  qed
qed

lemma reverse_loop_rev: "reverse_loop 0 (length b - 1) b = rev b"
  using reverse_loop_middle [of "[]" 0 "[]" b] by simp

section \<open>Reading digits back\<close>

definition value_of :: "nat \<Rightarrow> nat list \<Rightarrow> nat" where
  "value_of base ds = foldl (\<lambda>acc d. acc * base + d) 0 ds"

lemma value_of_snoc [simp]: "value_of base (ds @ [d]) = value_of base ds * base + d"
  by (simp add: value_of_def)

lemma value_of_digits: "1 < base \<Longrightarrow> value_of base (digits_of base num) = num"
proof (induction num rule: less_induct)
  case (less v)
  show ?case
  proof (cases "v < base")
    case True
    then show ?thesis by (simp add: digits_of_small value_of_def)
  next
    case False
    with less show ?thesis by (simp add: digits_of_big)
  qed
qed

lemma digits_of_less: "1 < base \<Longrightarrow> d \<in> set (digits_of base num) \<Longrightarrow> d < base"
proof (induction num rule: less_induct)
  case (less v)
  show ?case
  proof (cases "v < base")
    case True
    with less.prems show ?thesis by (simp add: digits_of_small)
  next
    case False
    then have "v div base < v" using less.prems by simp
    from less.IH [OF this less.prems(1)] less.prems False show ?thesis by (auto simp: digits_of_big)
  qed
qed

lemma digits_of_length: "1 < base \<Longrightarrow> 0 < n \<Longrightarrow> length (digits_of base num) \<le> n \<longleftrightarrow> num < base ^ n"
proof (induction n arbitrary: num)
  case (Suc n)
  show ?case
  proof (cases "num < base")
    case True
    have "base ^ 1 \<le> base ^ Suc n" using Suc.prems by (intro power_increasing) auto
    with True have "num < base ^ Suc n" by (metis less_le_trans power_one_right)
    with True show ?thesis by (simp add: digits_of_small)
  next
    case False
    then have len: "length (digits_of base num) = Suc (length (digits_of base (num div base)))"
      using Suc.prems by (simp add: digits_of_big)
    show ?thesis
    proof (cases "n = 0")
      case True
      with False len show ?thesis by simp
    next
      case n: False
      have "length (digits_of base (num div base)) \<le> n \<longleftrightarrow> num div base < base ^ n"
        using Suc.IH Suc.prems n by simp
      also have "\<dots> \<longleftrightarrow> num < base ^ Suc n"
        using Suc.prems by (simp add: less_mult_imp_div_less div_less_iff_less_mult mult.commute)
      finally show ?thesis using len by simp
    qed
  qed
qed simp

lemma base_digit_eq: "d < 10 \<Longrightarrow> of_char (base_digit d) = d + 48"
  by (simp add: base_digit_def)

lemma base_digit_no_NUL: "d < 36 \<Longrightarrow> base_digit d \<noteq> NUL"
  by (auto simp: base_digit_def dest: arg_cong [where f = "of_char :: char \<Rightarrow> nat"])

end
