(* ===== verification/Video.thy ===== *)
theory Video
  imports Font Digits
begin

text \<open>
  \<^verbatim>\<open>Kernel/drivers/videoDriver.c\<close>: text and rectangles in a linear frame buffer. The state has the
  fields of the VBE mode structure the driver reads, the bytes of memory, the cursor (16-bit
  coordinates) and the scale. A pixel is three bytes, blue first. Offsets inside the frame buffer are
  natural numbers: \<^verbatim>\<open>y * pitch\<close> does not overflow an \<^verbatim>\<open>int\<close> on any screen below 32768 lines.
\<close>

record pixel_color =
  col_b :: byte
  col_g :: byte
  col_r :: byte

definition WHITE :: pixel_color where "WHITE = \<lparr>col_b = 255, col_g = 255, col_r = 255\<rparr>"
definition BLACK :: pixel_color where "BLACK = \<lparr>col_b = 0, col_g = 0, col_r = 0\<rparr>"

definition WIDTH_FONT :: nat where [const_defs]: "WIDTH_FONT = 9"
definition HEIGHT_FONT :: nat where [const_defs]: "HEIGHT_FONT = 16"

record video_st =
  scr_pitch :: nat
  scr_width :: nat
  scr_height :: nat
  scr_bpp :: nat
  framebuffer :: nat
  vram :: ram
  cursorOn :: bool
  pixelScale :: nat
  cursorX :: nat
  cursorY :: nat

definition u16 :: "nat \<Rightarrow> nat" where "u16 n = n mod 65536"
definition u16_sub :: "nat \<Rightarrow> nat \<Rightarrow> nat" where "u16_sub a b = u16 (a + 65536 - b)"

definition plusScale :: "video_st \<Rightarrow> video_st" where
  "plusScale v = (if pixelScale v < 5 then v\<lparr>pixelScale := pixelScale v + 1\<rparr> else v)"

definition minusScale :: "video_st \<Rightarrow> video_st" where
  "minusScale v = (if pixelScale v > 1 then v\<lparr>pixelScale := pixelScale v - 1\<rparr> else v)"

definition getRealCharWidth :: "video_st \<Rightarrow> nat" where
  "getRealCharWidth v = u16 (WIDTH_FONT * pixelScale v)"

definition getRealCharHeight :: "video_st \<Rightarrow> nat" where
  "getRealCharHeight v = u16 (HEIGHT_FONT * pixelScale v)"

section \<open>Pixels\<close>

definition getPixelPtr :: "nat \<Rightarrow> nat \<Rightarrow> video_st \<Rightarrow> nat" where
  "getPixelPtr x y v =
    framebuffer v + u16 x * (scr_bpp v div 8 mod 256) + u16 y * scr_pitch v"

definition put_pixel :: "nat \<Rightarrow> pixel_color \<Rightarrow> ram \<Rightarrow> ram" where
  "put_pixel a col m = m(a := col_b col, a + 1 := col_g col, a + 2 := col_r col)"

definition get_pixel :: "nat \<Rightarrow> ram \<Rightarrow> pixel_color" where
  "get_pixel a m = \<lparr>col_b = m a, col_g = m (a + 1), col_r = m (a + 2)\<rparr>"

definition vDriver_setPixel :: "nat \<Rightarrow> nat \<Rightarrow> pixel_color \<Rightarrow> video_st \<Rightarrow> video_st" where
  "vDriver_setPixel x y col v =
    (if u16 x \<ge> scr_width v \<or> u16 y \<ge> scr_height v then v
     else v\<lparr>vram := put_pixel (getPixelPtr x y v) col (vram v)\<rparr>)"

section \<open>Scrolling, lines, characters\<close>

definition scrollUp :: "video_st \<Rightarrow> video_st" where
  "scrollUp v =
    fold (\<lambda>i. fold (\<lambda>j w.
        w\<lparr>vram := put_pixel (getPixelPtr j i w)
                   (get_pixel (getPixelPtr j (i + HEIGHT_FONT * pixelScale w) w) (vram w)) (vram w)\<rparr>)
      [0..<scr_width v]) [0..<cursorY v + HEIGHT_FONT * pixelScale v] v"

definition vDriver_newline :: "video_st \<Rightarrow> video_st" where
  "vDriver_newline v =
    (let v1 = v\<lparr>cursorX := 0, cursorY := u16 (cursorY v + HEIGHT_FONT * pixelScale v)\<rparr>
     in if cursorY v1 + HEIGHT_FONT * pixelScale v1 > scr_height v1
        then scrollUp (v1\<lparr>cursorY := u16_sub (cursorY v1) (HEIGHT_FONT * pixelScale v1)\<rparr>)
        else v1)"

text \<open>The check at the head of \<^verbatim>\<open>drawChar\<close> and \<^verbatim>\<open>vDriver_drawCursor\<close>: the cursor is past the line.\<close>

definition wrap_line :: "video_st \<Rightarrow> video_st" where
  "wrap_line v =
    (if cursorX v \<ge> scr_width v then
       let v1 = v\<lparr>cursorX := 0\<rparr>
       in if cursorY v1 + getRealCharHeight v1 > scr_height v1
          then scrollUp (v1\<lparr>cursorY := u16_sub (cursorY v1) (getRealCharHeight v1)\<rparr>)
          else v1\<lparr>cursorY := u16 (cursorY v1 + getRealCharHeight v1)\<rparr>
     else v)"

text \<open>The four nested loops that paint a glyph: bit \<open>cx\<close> of a row is column \<open>8 - cx\<close> of the cell.\<close>

definition paint_glyph :: "byte list \<Rightarrow> pixel_color \<Rightarrow> pixel_color \<Rightarrow> video_st \<Rightarrow> video_st" where
  "paint_glyph glyph fntColor bgColor v =
    fold (\<lambda>cy. fold (\<lambda>cx. fold (\<lambda>i. fold (\<lambda>j w.
        vDriver_setPixel (cursorX w + (8 - cx) * pixelScale w + i) (cursorY w + cy * pixelScale w + j)
          (if bit (glyph ! cy) cx then fntColor else bgColor) w)
      [0..<pixelScale v]) [0..<pixelScale v]) [0..<8]) [0..<16] v"

text \<open>The 16 rows of a character; a character outside the table would read beyond it.\<close>

definition glyph_of :: "nat \<Rightarrow> byte list option" where
  "glyph_of c = (if c < 32 \<or> 16 * (c - 32) + 16 > length font_bitmap then None
                 else Some (take 16 (drop (16 * (c - 32)) font_bitmap)))"

definition drawChar :: "nat \<Rightarrow> pixel_color \<Rightarrow> pixel_color \<Rightarrow> video_st \<Rightarrow> video_st option" where
  "drawChar c fntColor bgColor v = do {
     glyph \<leftarrow> glyph_of c;
     let v1 = paint_glyph glyph fntColor bgColor (wrap_line v);
     Some (v1\<lparr>cursorX := u16 (cursorX v1 + getRealCharWidth v1)\<rparr>)
   }"

definition vDriver_backspace :: "pixel_color \<Rightarrow> pixel_color \<Rightarrow> video_st \<Rightarrow> video_st option" where
  "vDriver_backspace fnt bgd v = do {
     let v1 = (if cursorX v \<ge> WIDTH_FONT * pixelScale v
               then v\<lparr>cursorX := cursorX v - WIDTH_FONT * pixelScale v\<rparr> else v\<lparr>cursorX := 0\<rparr>);
     v2 \<leftarrow> drawChar 32 fnt bgd v1;
     Some (v2\<lparr>cursorX := u16_sub (cursorX v2) (WIDTH_FONT * pixelScale v2)\<rparr>)
   }"

definition vDriver_print :: "char \<Rightarrow> pixel_color \<Rightarrow> pixel_color \<Rightarrow> video_st \<Rightarrow> video_st option" where
  "vDriver_print c fnt bgd v =
    (if of_char c = (10 :: nat) then Some (vDriver_newline v)
     else if of_char c = (8 :: nat) then vDriver_backspace fnt bgd v
     else if c = NUL then Some v
     else drawChar (of_char c) fnt bgd v)"

fun vDriver_prints :: "string \<Rightarrow> pixel_color \<Rightarrow> pixel_color \<Rightarrow> video_st \<Rightarrow> video_st option" where
  "vDriver_prints [] fnt bgd v = Some v"
| "vDriver_prints (c # str) fnt bgd v =
    (if c = NUL then Some v
     else do { v1 \<leftarrow> vDriver_print c fnt bgd v; vDriver_prints str fnt bgd v1 })"

definition vDriver_drawCursor :: "video_st \<Rightarrow> video_st option" where
  "vDriver_drawCursor v = do {
     let fntColor = (if cursorOn v then BLACK else WHITE);
     let bgColor = (if cursorOn v then BLACK else WHITE);
     glyph \<leftarrow> glyph_of 32;
     Some (paint_glyph glyph fntColor bgColor (wrap_line (v\<lparr>cursorOn := \<not> cursorOn v\<rparr>)))
   }"

definition vDriver_clear :: "video_st \<Rightarrow> video_st" where
  "vDriver_clear v =
    (fold (\<lambda>n w. w\<lparr>vram := put_pixel (framebuffer w + 3 * n) BLACK (vram w)\<rparr>)
       [0..<scr_width v * scr_height v mod 4294967296] v)
    \<lparr>cursorX := 0, cursorY := 0\<rparr>"

section \<open>Numbers, rectangles, the screen's data\<close>

definition vd_uintToBase :: "nat \<Rightarrow> nat \<Rightarrow> (nat \<times> string) option" where
  "vd_uintToBase value base = do {
     ds \<leftarrow> digit_loop base value [];
     Some (length ds, reverse_loop 0 (length ds - 1) ds)
   }"

definition vDriver_printBase :: "nat \<Rightarrow> nat \<Rightarrow> pixel_color \<Rightarrow> pixel_color \<Rightarrow> video_st \<Rightarrow> video_st option" where
  "vDriver_printBase value base fnt bgd v = do {
     (digits, buffer) \<leftarrow> vd_uintToBase value base;
     vDriver_prints buffer fnt bgd v
   }"

definition vDriver_printDec :: "nat \<Rightarrow> pixel_color \<Rightarrow> pixel_color \<Rightarrow> video_st \<Rightarrow> video_st option" where
  "vDriver_printDec value fnt bgd v = vDriver_printBase value 10 fnt bgd v"

definition vDriver_printHex :: "nat \<Rightarrow> pixel_color \<Rightarrow> pixel_color \<Rightarrow> video_st \<Rightarrow> video_st option" where
  "vDriver_printHex value fnt bgd v = vDriver_printBase value 16 fnt bgd v"

definition vDriver_printBin :: "nat \<Rightarrow> pixel_color \<Rightarrow> pixel_color \<Rightarrow> video_st \<Rightarrow> video_st option" where
  "vDriver_printBin value fnt bgd v = vDriver_printBase value 2 fnt bgd v"

text \<open>\<^verbatim>\<open>vDriver_drawRectangle\<close>; \<open>x\<close> and \<open>y\<close> are converted to 16 bits, \<open>w\<close> and \<open>h\<close> count loop steps.\<close>

definition vDriver_drawRectangle :: "int \<Rightarrow> int \<Rightarrow> int \<Rightarrow> int \<Rightarrow> pixel_color \<Rightarrow> video_st \<Rightarrow> video_st" where
  "vDriver_drawRectangle x y w h col v =
    fold (\<lambda>i. fold (\<lambda>j s.
        s\<lparr>vram := put_pixel (getPixelPtr (nat (x mod 65536)) (nat ((y + int i) mod 65536)) s + 3 * j)
                   col (vram s)\<rparr>)
      [0..<nat w]) [0..<nat h] v"

definition vDriver_getWidth :: "video_st \<Rightarrow> nat" where "vDriver_getWidth v = scr_width v"
definition vDriver_getHeight :: "video_st \<Rightarrow> nat" where "vDriver_getHeight v = scr_height v"
definition vDriver_getFrameBuffer :: "video_st \<Rightarrow> nat" where "vDriver_getFrameBuffer v = framebuffer v"
definition vDriver_getPixelWidth :: "video_st \<Rightarrow> nat" where "vDriver_getPixelWidth v = scr_bpp v"
definition vDriver_getPitch :: "video_st \<Rightarrow> nat" where "vDriver_getPitch v = scr_pitch v"

end
