(* ===== verification/Video_Theorems.thy ===== *)
theory Video_Theorems
  imports Video
begin

text \<open>
  What appears on the screen: painting a glyph cell by cell, the end of a line, scrolling. The proofs
  work on the memory alone, with the other fields of the state held fixed.
\<close>

section \<open>The memory behind the screen\<close>

definition screen_ok :: "video_st \<Rightarrow> bool" where
  "screen_ok v \<longleftrightarrow> 24 \<le> scr_bpp v \<and> scr_bpp v < 256 \<and> scr_width v * (scr_bpp v div 8) \<le> scr_pitch v
     \<and> scr_width v < 60000 \<and> scr_height v < 60000 \<and> 1 \<le> pixelScale v \<and> pixelScale v \<le> 5"

text \<open>The pixel in column \<open>x\<close> of line \<open>y\<close>.\<close>

definition pixel_at :: "video_st \<Rightarrow> nat \<Rightarrow> nat \<Rightarrow> pixel_color" where
  "pixel_at v x y = get_pixel (getPixelPtr x y v) (vram v)"

definition set_px :: "video_st \<Rightarrow> nat \<Rightarrow> nat \<Rightarrow> pixel_color \<Rightarrow> ram \<Rightarrow> ram" where
  "set_px v x y col m =
    (if u16 x \<ge> scr_width v \<or> u16 y \<ge> scr_height v then m else put_pixel (getPixelPtr x y v) col m)"

lemma u16_small [simp]: "n < 65536 \<Longrightarrow> u16 n = n"
  by (simp add: u16_def)

lemma getPixelPtr_vram [simp]: "getPixelPtr x y (v\<lparr>vram := m\<rparr>) = getPixelPtr x y v"
  by (simp add: getPixelPtr_def)

lemma setPixel_vram: "vDriver_setPixel x y col (v\<lparr>vram := m\<rparr>) = v\<lparr>vram := set_px v x y col m\<rparr>"
  by (simp add: vDriver_setPixel_def set_px_def)

lemma fold_frame:
  "(\<And>x m. x \<in> set xs \<Longrightarrow> F x (v\<lparr>vram := m\<rparr>) = v\<lparr>vram := G x m\<rparr>) \<Longrightarrow>
   fold F xs (v\<lparr>vram := m\<rparr>) = v\<lparr>vram := fold G xs m\<rparr>"
  by (induction xs arbitrary: m) simp_all

lemma pixel_bytes:
  assumes "screen_ok v" "x < scr_width v" "x' < scr_width v" "y < 65536" "y' < 65536" "k < 3" "k' < 3"
  shows "getPixelPtr x y v + k = getPixelPtr x' y' v + k' \<longleftrightarrow> x = x' \<and> y = y' \<and> k = k'"
proof -
  let ?w = "scr_bpp v div 8" and ?p = "scr_pitch v"
  have w: "3 \<le> ?w" "?w < 256" and fits: "scr_width v * ?w \<le> ?p" and x: "x < 65536" "x' < 65536"
    using assms(1-3) by (auto simp: screen_ok_def)
  have inrow: "z * ?w + d < ?p" if "z < scr_width v" "d < 3" for z d
  proof -
    have "z * ?w + d < (z + 1) * ?w" using that(2) w by simp
    also have "\<dots> \<le> scr_width v * ?w" using that(1) by (intro mult_le_mono1) simp
    finally show ?thesis using fits by simp
  qed
  have split: "(z * ?w + d) mod ?w = d" "(z * ?w + d) div ?w = z" if "d < 3" for z d
    using that w by auto
  have row: "(z * ?w + t * ?p + d) mod ?p = z * ?w + d" "(z * ?w + t * ?p + d) div ?p = t"
    if "z < scr_width v" "d < 3" for z t d
  proof -
    have eq: "z * ?w + t * ?p + d = (z * ?w + d) + t * ?p" by simp
    show "(z * ?w + t * ?p + d) mod ?p = z * ?w + d" "(z * ?w + t * ?p + d) div ?p = t"
      unfolding eq using inrow [OF that] by simp_all
  qed
  have "x = x' \<and> y = y' \<and> k = k'" if "x * ?w + y * ?p + k = x' * ?w + y' * ?p + k'"
  proof -
    have "x * ?w + k = x' * ?w + k'" "y = y'" using that row assms(2,3,6,7) by metis+
    with split assms(6,7) show ?thesis by metis
  qed
  then show ?thesis using x w assms by (auto simp: getPixelPtr_def)
qed

lemma get_put_pixel:
  assumes "screen_ok v" "x < scr_width v" "x' < scr_width v" "y < 65536" "y' < 65536"
  shows "get_pixel (getPixelPtr x y v) (put_pixel (getPixelPtr x' y' v) col m) =
    (if x = x' \<and> y = y' then col else get_pixel (getPixelPtr x y v) m)"
proof -
  note bytes = pixel_bytes [OF assms]
  show ?thesis
    using bytes [of 0 0] bytes [of 0 1] bytes [of 0 2] bytes [of 1 0] bytes [of 1 1] bytes [of 1 2]
      bytes [of 2 0] bytes [of 2 1] bytes [of 2 2]
    by (auto simp: get_pixel_def put_pixel_def)
qed

section \<open>Painting\<close>

text \<open>\<open>G\<close> paints the pixels of \<open>A\<close> as \<open>F\<close> says and no other pixel of the screen.\<close>

definition paints :: "video_st \<Rightarrow> (nat \<times> nat) set \<Rightarrow> (nat \<times> nat \<Rightarrow> pixel_color) \<Rightarrow> (ram \<Rightarrow> ram) \<Rightarrow> bool" where
  "paints v A F G \<longleftrightarrow> (\<forall>m x y. x < scr_width v \<longrightarrow> y < scr_height v \<longrightarrow>
     get_pixel (getPixelPtr x y v) (G m) = (if (x, y) \<in> A then F (x, y) else get_pixel (getPixelPtr x y v) m))"

lemma paints_fold:
  "(\<And>x. x \<in> set xs \<Longrightarrow> paints v (A x) F (G x)) \<Longrightarrow> paints v (\<Union>x\<in>set xs. A x) F (fold G xs)"
proof (induction xs)
  case (Cons a xs)
  then have "paints v (A a) F (G a)" "paints v (\<Union>x\<in>set xs. A x) F (fold G xs)" by auto
  then show ?case unfolding paints_def by auto
qed (simp add: paints_def)

lemma paints_set_px:
  "screen_ok v \<Longrightarrow> x < 65536 \<Longrightarrow> y < 65536 \<Longrightarrow> F (x, y) = col \<Longrightarrow> paints v {(x, y)} F (set_px v x y col)"
  unfolding paints_def set_px_def
  by (auto simp: get_put_pixel screen_ok_def)

text \<open>The memory part of \<open>paint_glyph\<close>.\<close>

definition glyph_px :: "video_st \<Rightarrow> byte list \<Rightarrow> pixel_color \<Rightarrow> pixel_color \<Rightarrow> ram \<Rightarrow> ram" where
  "glyph_px v glyph fnt bgd =
    fold (\<lambda>cy. fold (\<lambda>cx. fold (\<lambda>i. fold (\<lambda>j.
        set_px v (cursorX v + (8 - cx) * pixelScale v + i) (cursorY v + cy * pixelScale v + j)
          (if bit (glyph ! cy) cx then fnt else bgd))
      [0..<pixelScale v]) [0..<pixelScale v]) [0..<8]) [0..<16]"

lemma paint_glyph_px: "paint_glyph glyph fnt bgd v = v\<lparr>vram := glyph_px v glyph fnt bgd (vram v)\<rparr>"
proof -
  have "paint_glyph glyph fnt bgd (v\<lparr>vram := m\<rparr>) = v\<lparr>vram := glyph_px v glyph fnt bgd m\<rparr>" for m
    unfolding paint_glyph_def glyph_px_def
    by (simp add: fold_frame setPixel_vram)
  from this [of "vram v"] show ?thesis by simp
qed

text \<open>The colour of a pixel of the cell at the cursor.\<close>

definition cell_color :: "video_st \<Rightarrow> byte list \<Rightarrow> pixel_color \<Rightarrow> pixel_color \<Rightarrow> nat \<times> nat \<Rightarrow> pixel_color" where
  "cell_color v glyph fnt bgd = (\<lambda>(x, y).
     if bit (glyph ! ((y - cursorY v) div pixelScale v)) (8 - (x - cursorX v) div pixelScale v) then fnt else bgd)"

definition in_cell :: "video_st \<Rightarrow> nat \<Rightarrow> nat \<Rightarrow> bool" where
  "in_cell v x y \<longleftrightarrow> cursorX v + pixelScale v \<le> x \<and> x < cursorX v + 9 * pixelScale v
     \<and> cursorY v \<le> y \<and> y < cursorY v + 16 * pixelScale v"

lemma cell_positions:
  assumes "0 < s"
  shows "(\<Union>cy\<in>set [0..<16]. \<Union>cx\<in>set [0..<8]. \<Union>i\<in>set [0..<s]. \<Union>j\<in>set [0..<s].
      {(X + (8 - cx) * s + i, Y + cy * s + j)})
    = {(x, y). X + s \<le> x \<and> x < X + 9 * s \<and> Y \<le> y \<and> y < Y + 16 * (s :: nat)}" (is "?L = ?R")
proof
  show "?L \<subseteq> ?R"
  proof
    fix p assume "p \<in> ?L"
    then obtain cy cx i j where p: "p = (X + (8 - cx) * s + i, Y + cy * s + j)"
      and b: "cy < 16" "cx < 8" "i < s" "j < s" by auto
    have "1 * s \<le> (8 - cx) * s" by (rule mult_le_mono1) (use b in simp)
    moreover have "(8 - cx) * s \<le> 8 * s" by (rule mult_le_mono1) simp
    moreover have "cy * s \<le> 15 * s" by (rule mult_le_mono1) (use b in simp)
    ultimately have "s \<le> (8 - cx) * s + i" "(8 - cx) * s + i < 9 * s" "cy * s + j < 16 * s"
      using b by linarith+
    with p show "p \<in> ?R" by simp
  qed
next
  show "?R \<subseteq> ?L"
  proof
    fix p assume "p \<in> ?R"
    then obtain x y where p: "p = (x, y)" and b: "X + s \<le> x" "x < X + 9 * s" "Y \<le> y" "y < Y + 16 * s"
      by auto
    define q where "q = (x - X) div s"
    have q: "1 \<le> q" "q \<le> 8"
      using b assms by (auto simp: q_def Suc_le_eq div_greater_zero_iff less_Suc_eq_le [symmetric] div_less_iff_less_mult)
    have "x = X + (8 - (8 - q)) * s + (x - X) mod s"
      using q b by (simp add: q_def)
    moreover have "y = Y + (y - Y) div s * s + (y - Y) mod s" using b by simp
    moreover have "8 - q < 8" "(x - X) mod s < s" "(y - Y) div s < 16" "(y - Y) mod s < s"
      using q assms b by (auto simp: div_less_iff_less_mult)
    ultimately show "p \<in> ?L" unfolding p by force
  qed
qed

lemma glyph_px_paints:
  assumes "screen_ok v" "cursorX v < 65000" "cursorY v < 65000"
  shows "paints v {(x, y). in_cell v x y} (cell_color v glyph fnt bgd) (glyph_px v glyph fnt bgd)"
proof -
  let ?s = "pixelScale v"
  have s: "0 < ?s" "?s \<le> 5" using assms(1) by (auto simp: screen_ok_def)
  have px: "paints v {(cursorX v + (8 - cx) * ?s + i, cursorY v + cy * ?s + j)} (cell_color v glyph fnt bgd)
      (set_px v (cursorX v + (8 - cx) * ?s + i) (cursorY v + cy * ?s + j) (if bit (glyph ! cy) cx then fnt else bgd))"
    if "cy < 16" "cx < 8" "i < ?s" "j < ?s" for cy cx i j
  proof (rule paints_set_px)
    have "(8 - cx) * ?s \<le> 8 * 5" "cy * ?s \<le> 16 * 5" using that s by (intro mult_le_mono; simp)+
    then show "cursorX v + (8 - cx) * ?s + i < 65536" "cursorY v + cy * ?s + j < 65536"
      using assms that s by auto
    show "cell_color v glyph fnt bgd (cursorX v + (8 - cx) * ?s + i, cursorY v + cy * ?s + j)
        = (if bit (glyph ! cy) cx then fnt else bgd)"
      using that s by (simp add: cell_color_def)
  qed (rule assms(1))
  have "paints v (\<Union>cy\<in>set [0..<16]. \<Union>cx\<in>set [0..<8]. \<Union>i\<in>set [0..<?s]. \<Union>j\<in>set [0..<?s].
      {(cursorX v + (8 - cx) * ?s + i, cursorY v + cy * ?s + j)}) (cell_color v glyph fnt bgd)
      (glyph_px v glyph fnt bgd)"
    unfolding glyph_px_def by (intro paints_fold px; simp)
  then show ?thesis unfolding cell_positions [OF s(1)] in_cell_def .
qed

section \<open>Scrolling\<close>

definition line_height :: "video_st \<Rightarrow> nat" where
  "line_height v = HEIGHT_FONT * pixelScale v"

definition row_px :: "video_st \<Rightarrow> nat \<Rightarrow> nat list \<Rightarrow> ram \<Rightarrow> ram" where
  "row_px v i = fold (\<lambda>j m. put_pixel (getPixelPtr j i v) (get_pixel (getPixelPtr j (i + line_height v) v) m) m)"

lemma scrollUp_px:
  "scrollUp v = v\<lparr>vram := fold (\<lambda>i. row_px v i [0..<scr_width v]) [0..<cursorY v + line_height v] (vram v)\<rparr>"
proof -
  have "scrollUp (v\<lparr>vram := m\<rparr>) =
      v\<lparr>vram := fold (\<lambda>i. row_px v i [0..<scr_width v]) [0..<cursorY v + line_height v] m\<rparr>" for m
    unfolding scrollUp_def row_px_def line_height_def by (simp add: fold_frame)
  from this [of "vram v"] show ?thesis by simp
qed

lemma line_height_bounds: "screen_ok v \<Longrightarrow> 0 < line_height v \<and> line_height v \<le> 80"
  by (auto simp: screen_ok_def line_height_def const_defs)

lemma row_px_pixel:
  assumes "screen_ok v" "x < scr_width v" "y < 65536" "i + line_height v < 65536" "n \<le> scr_width v"
  shows "get_pixel (getPixelPtr x y v) (row_px v i [0..<n] m) =
    (if y = i \<and> x < n then get_pixel (getPixelPtr x (i + line_height v) v) m else get_pixel (getPixelPtr x y v) m)"
  using assms(2-)
proof (induction n arbitrary: x y)
  case (Suc n)
  have h: "0 < line_height v" using line_height_bounds [OF assms(1)] by simp
  have step: "row_px v i [0..<Suc n] m =
      put_pixel (getPixelPtr n i v) (get_pixel (getPixelPtr n (i + line_height v) v) (row_px v i [0..<n] m))
        (row_px v i [0..<n] m)"
    by (simp add: row_px_def)
  have below: "get_pixel (getPixelPtr n (i + line_height v) v) (row_px v i [0..<n] m) =
      get_pixel (getPixelPtr n (i + line_height v) v) m"
    using Suc.IH [of n "i + line_height v"] Suc.prems h by simp
  show ?case
    unfolding step below using Suc.IH [of x y] Suc.prems get_put_pixel [OF assms(1), of x n y i]
    by (auto simp: less_Suc_eq)
qed (simp add: row_px_def)

lemma rows_px_pixel:
  assumes "screen_ok v" "x < scr_width v" "y < 65536" "n + line_height v \<le> 65536"
  shows "get_pixel (getPixelPtr x y v) (fold (\<lambda>i. row_px v i [0..<scr_width v]) [0..<n] m) =
    (if y < n then get_pixel (getPixelPtr x (y + line_height v) v) m else get_pixel (getPixelPtr x y v) m)"
  using assms(3-)
proof (induction n arbitrary: y)
  case (Suc n)
  let ?m = "fold (\<lambda>i. row_px v i [0..<scr_width v]) [0..<n] m"
  have below: "get_pixel (getPixelPtr x (n + line_height v) v) ?m = get_pixel (getPixelPtr x (n + line_height v) v) m"
    using Suc.IH [of "n + line_height v"] Suc.prems by simp
  show ?case
    using row_px_pixel [OF assms(1,2), of y n "scr_width v" ?m] Suc.IH [of y] Suc.prems below assms(2)
    by (auto simp: less_Suc_eq)
qed simp

lemma scrollUp_pixel:
  assumes "screen_ok v" "x < scr_width v" "y < 65536" "cursorY v + 2 * line_height v \<le> 65536"
  shows "pixel_at (scrollUp v) x y =
    (if y < cursorY v + line_height v then pixel_at v x (y + line_height v) else pixel_at v x y)"
  using rows_px_pixel [OF assms(1-3), of "cursorY v + line_height v"] assms(4)
  by (simp add: pixel_at_def scrollUp_px mult_2)

lemma scrollUp_fields [simp]:
  "cursorX (scrollUp v) = cursorX v" "cursorY (scrollUp v) = cursorY v"
  "scr_width (scrollUp v) = scr_width v" "scr_height (scrollUp v) = scr_height v"
  "pixelScale (scrollUp v) = pixelScale v" "screen_ok (scrollUp v) = screen_ok v"
  by (simp_all add: scrollUp_px screen_ok_def)

lemma pixel_at_cursor [simp]: "pixel_at (v\<lparr>cursorX := a\<rparr>) x y = pixel_at v x y"
  "pixel_at (v\<lparr>cursorY := b\<rparr>) x y = pixel_at v x y" "pixel_at (v\<lparr>cursorX := a, cursorY := b\<rparr>) x y = pixel_at v x y"
  by (simp_all add: pixel_at_def getPixelPtr_def)

lemma screen_ok_cursor [simp]: "screen_ok (v\<lparr>cursorX := a\<rparr>) = screen_ok v"
  "screen_ok (v\<lparr>cursorY := b\<rparr>) = screen_ok v" "screen_ok (v\<lparr>vram := m\<rparr>) = screen_ok v"
  by (simp_all add: screen_ok_def)

lemma char_sizes: "screen_ok v \<Longrightarrow> getRealCharWidth v = 9 * pixelScale v"
  "screen_ok v \<Longrightarrow> getRealCharHeight v = line_height v"
  by (auto simp: screen_ok_def getRealCharWidth_def getRealCharHeight_def line_height_def const_defs)

lemma newline_at_bottom:
  assumes "screen_ok v" "cursorY v < 60000" "scr_height v < cursorY v + 2 * line_height v"
  shows "vDriver_newline v = scrollUp (v\<lparr>cursorX := 0, cursorY := cursorY v\<rparr>)"
proof -
  have H: "HEIGHT_FONT * pixelScale v = line_height v" by (simp add: line_height_def)
  have "line_height v \<le> 80" using line_height_bounds [OF assms(1)] by simp
  then have "u16_sub (u16 (cursorY v + line_height v)) (line_height v) = cursorY v"
    and "u16 (cursorY v + line_height v) = cursorY v + line_height v"
    using assms(2) by (simp_all add: u16_sub_def u16_def)
  then show ?thesis using assms(3) by (simp add: vDriver_newline_def H mult_2)
qed

section \<open>Properties\<close>

text \<open>C37. A character with a glyph, printed with the cursor on the screen, paints exactly its cell: every
  pixel of the eight columns beside the first gets the character's colour where the glyph has a bit set and
  the background colour elsewhere, enlarged by the scale and clipped at the edges; no other pixel of the
  screen changes, and the cursor moves one cell to the right.\<close>

theorem video_char_paints_its_cell:
  assumes "screen_ok v" "glyph_of c = Some glyph" "cursorX v < scr_width v" "cursorY v \<le> scr_height v"
  shows "\<exists>v'. drawChar c fnt bgd v = Some v'
    \<and> cursorX v' = cursorX v + 9 * pixelScale v \<and> cursorY v' = cursorY v
    \<and> (\<forall>x < scr_width v. \<forall>y < scr_height v.
         pixel_at v' x y = (if in_cell v x y then cell_color v glyph fnt bgd (x, y) else pixel_at v x y))"
proof -
  have lim: "cursorX v < 65000" "cursorY v < 65000" "pixelScale v \<le> 5"
    using assms by (auto simp: screen_ok_def)
  define v' where "v' = (v\<lparr>vram := glyph_px v glyph fnt bgd (vram v)\<rparr>)\<lparr>cursorX := cursorX v + 9 * pixelScale v\<rparr>"
  have "wrap_line v = v" using assms(3) by (simp add: wrap_line_def)
  then have "drawChar c fnt bgd v = Some v'"
    using assms(2) lim char_sizes(1) [of "v\<lparr>vram := glyph_px v glyph fnt bgd (vram v)\<rparr>"] assms(1)
    by (simp add: drawChar_def paint_glyph_px v'_def)
  moreover have "\<forall>x < scr_width v. \<forall>y < scr_height v.
      pixel_at v' x y = (if in_cell v x y then cell_color v glyph fnt bgd (x, y) else pixel_at v x y)"
    using glyph_px_paints [OF assms(1) lim(1,2)] by (simp add: v'_def pixel_at_def paints_def getPixelPtr_def)
  ultimately show ?thesis by (intro exI [of _ v']) (simp add: v'_def)
qed

definition demo_screen :: video_st where
  "demo_screen = \<lparr>scr_pitch = 300, scr_width = 100, scr_height = 48, scr_bpp = 24, framebuffer = 4096,
     vram = (\<lambda>_. 0), cursorOn = False, pixelScale = 1, cursorX = 18, cursorY = 16\<rparr>"

lemma demo_screen_ok: "screen_ok demo_screen"
  by (simp add: screen_ok_def demo_screen_def)

definition glyph_A :: "byte list" where
  "glyph_A = [0, 0, 0x10, 0x38, 0x6c, 0xc6, 0xc6, 0xfe, 0xc6, 0xc6, 0xc6, 0xc6, 0, 0, 0, 0]"

lemma glyph_of_A: "glyph_of 65 = Some glyph_A"
  by code_simp

text \<open>The letter A: the third row of its glyph is the single pixel in the fifth column of the cell.\<close>

theorem video_char_paints_its_cell_witness:
  "\<exists>v'. drawChar 65 WHITE BLACK demo_screen = Some v' \<and> cursorX v' = 27 \<and> pixel_at v' 22 18 = WHITE
     \<and> pixel_at v' 21 18 = BLACK"
proof -
  obtain v' where v': "drawChar 65 WHITE BLACK demo_screen = Some v'" "cursorX v' = cursorX demo_screen + 9 * pixelScale demo_screen"
    and px: "\<forall>x < scr_width demo_screen. \<forall>y < scr_height demo_screen. pixel_at v' x y =
      (if in_cell demo_screen x y then cell_color demo_screen glyph_A WHITE BLACK (x, y) else pixel_at demo_screen x y)"
    using video_char_paints_its_cell [OF demo_screen_ok glyph_of_A, of WHITE BLACK] by (auto simp: demo_screen_def)
  have "pixel_at v' 22 18 = WHITE" "pixel_at v' 21 18 = BLACK"
    using px by (simp_all add: demo_screen_def in_cell_def cell_color_def glyph_A_def)
  with v' show ?thesis by (simp add: demo_screen_def)
qed

text \<open>A new line on the last line of the screen moves every line up by one: each pixel takes the value of
  the pixel one line below it. The last line takes its pixels from the memory after the frame buffer, it is
  not cleared. The cursor is at the start of the same line.\<close>

theorem video_newline_scrolls:
  assumes "screen_ok v" "cursorY v + line_height v \<le> scr_height v" "scr_height v < cursorY v + 2 * line_height v"
  shows "\<exists>v'. vDriver_newline v = v' \<and> cursorX v' = 0 \<and> cursorY v' = cursorY v
    \<and> (\<forall>x < scr_width v. \<forall>y < cursorY v + line_height v. pixel_at v' x y = pixel_at v x (y + line_height v))
    \<and> (\<forall>x < scr_width v. \<forall>y < scr_height v. cursorY v + line_height v \<le> y \<longrightarrow> pixel_at v' x y = pixel_at v x y)"
proof -
  have lim: "scr_height v < 60000" "line_height v \<le> 80" using assms(1) line_height_bounds by (auto simp: screen_ok_def)
  have "vDriver_newline v = scrollUp (v\<lparr>cursorX := 0, cursorY := cursorY v\<rparr>)"
    using assms lim by (intro newline_at_bottom) auto
  moreover have "pixel_at (scrollUp (v\<lparr>cursorX := 0, cursorY := cursorY v\<rparr>)) x y =
      (if y < cursorY v + line_height v then pixel_at v x (y + line_height v) else pixel_at v x y)"
    if "x < scr_width v" "y < 65536" for x y
    using scrollUp_pixel [of "v\<lparr>cursorX := 0, cursorY := cursorY v\<rparr>" x y] that assms lim
    by (simp add: line_height_def)
  ultimately show ?thesis using lim assms by auto
qed

theorem video_newline_scrolls_witness:
  "pixel_at (vDriver_newline (demo_screen\<lparr>cursorY := 32, vram := (\<lambda>a. of_nat (a div 300))\<rparr>)) 3 40 =
     \<lparr>col_b = 69, col_g = 69, col_r = 69\<rparr>"
proof -
  let ?v = "demo_screen\<lparr>cursorY := 32, vram := (\<lambda>a. of_nat (a div 300))\<rparr>"
  have "screen_ok ?v" using demo_screen_ok by (simp add: screen_ok_def demo_screen_def)
  from video_newline_scrolls [OF this] have "pixel_at (vDriver_newline ?v) 3 40 = pixel_at ?v 3 (40 + line_height ?v)"
    by (simp add: demo_screen_def line_height_def const_defs)
  then show ?thesis by (simp add: pixel_at_def get_pixel_def getPixelPtr_def demo_screen_def line_height_def const_defs)
qed

text \<open>A character that wraps on the last line of the screen is lost: the cursor moves to the line below the
  screen, where nothing is painted, so the screen does not change and does not scroll. A new line from there
  scrolls one line too many and writes below the last line of the frame buffer.\<close>

theorem video_wrap_on_last_line_is_lost:
  assumes "screen_ok v" "glyph_of c = Some glyph" "scr_width v \<le> cursorX v"
    and "cursorY v + line_height v = scr_height v"
  shows "\<exists>v'. drawChar c fnt bgd v = Some v' \<and> cursorX v' = 9 * pixelScale v \<and> cursorY v' = scr_height v
    \<and> (\<forall>x < scr_width v. \<forall>y < scr_height v. pixel_at v' x y = pixel_at v x y)
    \<and> (\<forall>x < scr_width v. pixel_at (vDriver_newline v') x (scr_height v) = pixel_at v' x (scr_height v + line_height v))"
proof -
  have lim: "scr_height v < 60000" "line_height v \<le> 80" "0 < line_height v" "pixelScale v \<le> 5"
    using assms(1) line_height_bounds by (auto simp: screen_ok_def)
  define w where "w = v\<lparr>cursorX := 0, cursorY := scr_height v\<rparr>"
  have w: "screen_ok w" "cursorX w = 0" "cursorY w = scr_height v" "scr_width w = scr_width v"
    "scr_height w = scr_height v" "pixelScale w = pixelScale v" "line_height w = line_height v"
    using assms(1) by (simp_all add: w_def screen_ok_def line_height_def)
  have "wrap_line v = w" using assms(3,4) lim char_sizes(2) [of "v\<lparr>cursorX := 0\<rparr>"] assms(1)
    by (simp add: wrap_line_def w_def line_height_def)
  define v' where "v' = (w\<lparr>vram := glyph_px w glyph fnt bgd (vram w)\<rparr>)\<lparr>cursorX := 9 * pixelScale v\<rparr>"
  have d: "drawChar c fnt bgd v = Some v'"
    using assms(2) lim char_sizes(1) [of "w\<lparr>vram := glyph_px w glyph fnt bgd (vram w)\<rparr>"] w
    by (simp add: drawChar_def paint_glyph_px v'_def \<open>wrap_line v = w\<close>)
  have v': "screen_ok v'" "cursorX v' = 9 * pixelScale v" "cursorY v' = scr_height v" "scr_width v' = scr_width v"
    "scr_height v' = scr_height v" "pixelScale v' = pixelScale v" "line_height v' = line_height v"
    using w by (simp_all add: v'_def line_height_def)
  have same: "pixel_at v' x y = pixel_at v x y" if "x < scr_width v" "y < scr_height v" for x y
  proof -
    have "\<not> in_cell w x y" using that w by (simp add: in_cell_def)
    then show ?thesis
      using glyph_px_paints [OF w(1), of glyph fnt bgd] w lim that
      by (simp add: paints_def v'_def pixel_at_def getPixelPtr_def w_def)
  qed
  have "vDriver_newline v' = scrollUp (v'\<lparr>cursorX := 0, cursorY := cursorY v'\<rparr>)"
    using v' lim by (intro newline_at_bottom) auto
  then have "pixel_at (vDriver_newline v') x (scr_height v) = pixel_at v' x (scr_height v + line_height v)"
    if "x < scr_width v" for x
    using scrollUp_pixel [of "v'\<lparr>cursorX := 0, cursorY := cursorY v'\<rparr>" x "scr_height v"] that v' lim
    by (simp add: line_height_def)
  with d v' same show ?thesis by blast
qed

theorem video_wrap_on_last_line_is_lost_witness:
  "\<exists>v'. drawChar 65 WHITE BLACK (demo_screen\<lparr>cursorX := 100, cursorY := 32\<rparr>) = Some v'
     \<and> cursorY v' = 48 \<and> pixel_at v' 4 34 = BLACK"
proof -
  let ?v = "demo_screen\<lparr>cursorX := 100, cursorY := 32\<rparr>"
  have "screen_ok ?v" using demo_screen_ok by (simp add: screen_ok_def)
  from video_wrap_on_last_line_is_lost [OF this glyph_of_A, of WHITE BLACK] obtain v' where
    "drawChar 65 WHITE BLACK ?v = Some v'" "cursorY v' = 48" "\<forall>x < 100. \<forall>y < 48. pixel_at v' x y = pixel_at ?v x y"
    by (auto simp: demo_screen_def line_height_def const_defs)
  then show ?thesis
    by (intro exI [of _ v']) (simp add: pixel_at_def get_pixel_def demo_screen_def BLACK_def)
qed

end
