(* ===== verification/Video_State.thy ===== *)
theory Video_State
  imports Video_Theorems
begin

text \<open>
  The state of the video driver under every sequence of its calls: what the cursor, the scale and the mode
  can be, and that printable text is always printed.
\<close>

text \<open>The calls the rest of the kernel makes.\<close>

datatype video_call =
    VPrint char pixel_color pixel_color
  | VPrints string pixel_color pixel_color
  | VNewline | VCursor | VClear | VPlus | VMinus
  | VRectangle int int int int pixel_color

fun video_do :: "video_call \<Rightarrow> video_st \<Rightarrow> video_st option" where
  "video_do (VPrint c fnt bgd) v = vDriver_print c fnt bgd v"
| "video_do (VPrints str fnt bgd) v = vDriver_prints str fnt bgd v"
| "video_do VNewline v = Some (vDriver_newline v)"
| "video_do VCursor v = vDriver_drawCursor v"
| "video_do VClear v = Some (vDriver_clear v)"
| "video_do VPlus v = Some (plusScale v)"
| "video_do VMinus v = Some (minusScale v)"
| "video_do (VRectangle x y w h col) v = Some (vDriver_drawRectangle x y w h col v)"

fun video_run :: "video_call list \<Rightarrow> video_st \<Rightarrow> video_st option" where
  "video_run [] v = Some v"
| "video_run (a # as) v = do { v1 \<leftarrow> video_do a v; video_run as v1 }"

text \<open>A character with a glyph, or one the driver acts on.\<close>

definition drawable :: "char \<Rightarrow> bool" where
  "drawable c \<longleftrightarrow> (let n = (of_char c :: nat) in n = 0 \<or> n = 8 \<or> n = 10 \<or> 32 \<le> n \<and> n \<le> 126)"

fun drawable_call :: "video_call \<Rightarrow> bool" where
  "drawable_call (VPrint c fnt bgd) = drawable c"
| "drawable_call (VPrints str fnt bgd) = list_all drawable str"
| "drawable_call _ = True"

text \<open>
  The driver's type: a scale from one to five, a screen with room for two lines at the largest scale, a
  cursor at most one cell to the right of the screen and at most at its lower edge.
\<close>

definition video_wf :: "video_st \<Rightarrow> bool" where
  "video_wf v \<longleftrightarrow> screen_ok v \<and> 160 \<le> scr_height v \<and> 0 < scr_width v \<and> cursorY v \<le> scr_height v
     \<and> cursorX v < scr_width v + 45"

definition same_mode :: "video_st \<Rightarrow> video_st \<Rightarrow> bool" where
  "same_mode v v' \<longleftrightarrow> scr_pitch v' = scr_pitch v \<and> scr_width v' = scr_width v \<and> scr_height v' = scr_height v
     \<and> scr_bpp v' = scr_bpp v \<and> framebuffer v' = framebuffer v"

definition keeps :: "video_st \<Rightarrow> video_st \<Rightarrow> bool" where
  "keeps v v' \<longleftrightarrow> video_wf v' \<and> same_mode v v'"

lemma keeps_refl: "video_wf v \<Longrightarrow> keeps v v"
  by (simp add: keeps_def same_mode_def)

lemma keeps_trans: "keeps v w \<Longrightarrow> keeps w u \<Longrightarrow> keeps v u"
  by (simp add: keeps_def same_mode_def)

lemma keepsI:
  assumes "video_wf v" "same_mode v v'" "1 \<le> pixelScale v'" "pixelScale v' \<le> 5"
    and "cursorY v' \<le> scr_height v" "cursorX v' < scr_width v + 45"
  shows "keeps v v'"
  using assms by (simp add: keeps_def video_wf_def same_mode_def screen_ok_def)

lemma wf_bounds: "video_wf v \<Longrightarrow> 1 \<le> pixelScale v \<and> pixelScale v \<le> 5 \<and> scr_width v < 60000 \<and> scr_height v < 60000
    \<and> 16 * pixelScale v \<le> 80 \<and> cursorY v \<le> scr_height v \<and> cursorX v < scr_width v + 45 \<and> 160 \<le> scr_height v \<and> 0 < scr_width v"
  by (auto simp: video_wf_def screen_ok_def)

lemma scrollUp_mode [simp]: "scr_pitch (scrollUp v) = scr_pitch v" "scr_bpp (scrollUp v) = scr_bpp v"
  "framebuffer (scrollUp v) = framebuffer v"
  by (simp_all add: scrollUp_px)

section \<open>One call\<close>

lemma u16_sub_small: "a < 65536 \<Longrightarrow> b \<le> a \<Longrightarrow> u16_sub a b = a - b"
proof -
  assume "a < 65536" "b \<le> a"
  then have "a + 65536 - b = (a - b) + 65536" "a - b < 65536" by simp_all
  then show "u16_sub a b = a - b" by (simp only: u16_sub_def u16_def mod_add_self2 mod_less)
qed

lemma newline_keeps: "video_wf v \<Longrightarrow> keeps v (vDriver_newline v)"
proof -
  assume wf: "video_wf v"
  note b = wf_bounds [OF wf]
  have s: "u16 (cursorY v + HEIGHT_FONT * pixelScale v) = cursorY v + 16 * pixelScale v"
    "u16_sub (cursorY v + 16 * pixelScale v) (HEIGHT_FONT * pixelScale v) = cursorY v"
    using b by (simp_all add: const_defs u16_sub_small)
  show ?thesis
  proof (cases "cursorY v + 16 * pixelScale v + 16 * pixelScale v > scr_height v")
    case True
    then have "vDriver_newline v = scrollUp (v\<lparr>cursorX := 0, cursorY := cursorY v\<rparr>)"
      using s by (simp add: vDriver_newline_def Let_def const_defs)
    then show ?thesis using b by (intro keepsI [OF wf]) (simp_all add: same_mode_def)
  next
    case False
    then have "vDriver_newline v = v\<lparr>cursorX := 0, cursorY := cursorY v + 16 * pixelScale v\<rparr>"
      using s by (simp add: vDriver_newline_def Let_def const_defs)
    then show ?thesis using b False by (intro keepsI [OF wf]) (simp_all add: same_mode_def)
  qed
qed

lemma wrap_keeps: "video_wf v \<Longrightarrow> keeps v (wrap_line v) \<and> cursorX (wrap_line v) < scr_width v \<and> pixelScale (wrap_line v) = pixelScale v"
proof -
  assume wf: "video_wf v"
  note b = wf_bounds [OF wf]
  have h: "getRealCharHeight (v\<lparr>cursorX := 0\<rparr>) = 16 * pixelScale v"
    using b by (simp add: getRealCharHeight_def const_defs)
  show ?thesis
  proof (cases "cursorX v \<ge> scr_width v")
    case True
    show ?thesis
    proof (cases "cursorY v + 16 * pixelScale v > scr_height v")
      case high: True
      then have "wrap_line v = scrollUp (v\<lparr>cursorX := 0, cursorY := cursorY v - 16 * pixelScale v\<rparr>)"
        using True h b by (simp add: wrap_line_def Let_def u16_sub_small)
      moreover have "cursorY v - 16 * pixelScale v \<le> scr_height v" using b by linarith
      ultimately show ?thesis using b by (intro conjI keepsI [OF wf]) (simp_all add: same_mode_def)
    next
      case False
      then have "wrap_line v = v\<lparr>cursorX := 0, cursorY := cursorY v + 16 * pixelScale v\<rparr>"
        using True h b by (simp add: wrap_line_def Let_def)
      then show ?thesis using b False by (intro conjI keepsI [OF wf]) (simp_all add: same_mode_def)
    qed
  next
    case False
    then have "wrap_line v = v" by (simp add: wrap_line_def)
    then show ?thesis using wf False by (simp add: keeps_refl)
  qed
qed

lemma font_length: "length font_bitmap = 1520"
  by (simp add: font_bitmap_def font_20_26_def font_27_2d_def font_2e_34_def font_35_3b_def font_3c_41_def font_42_48_def
      font_49_4f_def font_50_56_def font_57_5d_def font_5e_64_def font_65_6b_def font_6c_72_def font_73_79_def font_7a_7e_def)

lemma glyph_exists: "32 \<le> n \<Longrightarrow> n \<le> 126 \<Longrightarrow> \<exists>g. glyph_of n = Some g"
  by (simp add: glyph_of_def font_length)

lemma paint_keeps:
  assumes "video_wf v"
  shows "keeps v (paint_glyph g fnt bgd v)"
  using wf_bounds [OF assms] by (intro keepsI [OF assms]) (simp_all add: paint_glyph_px same_mode_def)

lemma drawChar_keeps:
  assumes "video_wf v" "32 \<le> n" "n \<le> 126"
  shows "\<exists>v'. drawChar n fnt bgd v = Some v' \<and> keeps v v' \<and> 9 * pixelScale v' \<le> cursorX v'"
proof -
  obtain g where g: "glyph_of n = Some g" using glyph_exists assms(2,3) by blast
  let ?w = "wrap_line v"
  note w = wrap_keeps [OF assms(1)]
  have wf: "video_wf ?w" using w by (simp add: keeps_def)
  note b = wf_bounds [OF wf]
  have sw: "scr_width ?w = scr_width v" using w by (simp add: keeps_def same_mode_def)
  define v' where "v' = ?w\<lparr>vram := glyph_px ?w g fnt bgd (vram ?w), cursorX := cursorX ?w + 9 * pixelScale ?w\<rparr>"
  have r: "drawChar n fnt bgd v = Some v'"
    using b g by (simp add: drawChar_def Let_def paint_glyph_px getRealCharWidth_def const_defs v'_def)
  have "keeps ?w v'"
    using b w sw by (intro keepsI [OF wf]) (simp_all add: v'_def same_mode_def)
  with w keeps_trans r show ?thesis by (auto simp: v'_def)
qed

lemma backspace_keeps: "video_wf v \<Longrightarrow> \<exists>v'. vDriver_backspace fnt bgd v = Some v' \<and> keeps v v'"
proof -
  assume wf: "video_wf v"
  note b = wf_bounds [OF wf]
  define v1 where "v1 = (if cursorX v \<ge> WIDTH_FONT * pixelScale v
               then v\<lparr>cursorX := cursorX v - WIDTH_FONT * pixelScale v\<rparr> else v\<lparr>cursorX := 0\<rparr>)"
  have "cursorX v - WIDTH_FONT * pixelScale v < scr_width v + 45" using b by linarith
  then have k1: "keeps v v1" using b by (intro keepsI [OF wf]) (simp_all add: v1_def same_mode_def)
  then have wf1: "video_wf v1" by (simp add: keeps_def)
  from drawChar_keeps [OF wf1, of 32 fnt bgd] obtain v2 where
    v2: "drawChar 32 fnt bgd v1 = Some v2" "keeps v1 v2" "9 * pixelScale v2 \<le> cursorX v2" by auto
  then have wf2: "video_wf v2" by (simp add: keeps_def)
  note b2 = wf_bounds [OF wf2]
  have "u16_sub (cursorX v2) (WIDTH_FONT * pixelScale v2) = cursorX v2 - 9 * pixelScale v2"
    using b2 v2(3) by (simp add: u16_sub_small const_defs)
  moreover have "cursorX v2 - 9 * pixelScale v2 < scr_width v2 + 45" using b2 by linarith
  ultimately have "keeps v2 (v2\<lparr>cursorX := u16_sub (cursorX v2) (WIDTH_FONT * pixelScale v2)\<rparr>)"
    using b2 by (intro keepsI [OF wf2]) (simp_all add: same_mode_def)
  moreover have "vDriver_backspace fnt bgd v = Some (v2\<lparr>cursorX := u16_sub (cursorX v2) (WIDTH_FONT * pixelScale v2)\<rparr>)"
    using v2(1) by (simp add: vDriver_backspace_def v1_def Let_def)
  ultimately show ?thesis using k1 v2(2) keeps_trans by blast
qed

lemma print_keeps: "video_wf v \<Longrightarrow> drawable c \<Longrightarrow> \<exists>v'. vDriver_print c fnt bgd v = Some v' \<and> keeps v v'"
proof -
  assume wf: "video_wf v" and d: "drawable c"
  consider "of_char c = (10 :: nat)" | "of_char c = (8 :: nat)" | "c = NUL"
    | "32 \<le> (of_char c :: nat)" "(of_char c :: nat) \<le> 126" "of_char c \<noteq> (10 :: nat)" "of_char c \<noteq> (8 :: nat)" "c \<noteq> NUL"
  proof -
    have "c = NUL \<longleftrightarrow> (of_char c :: nat) = of_char NUL" by (simp only: of_char_eq_iff)
    then have "c = NUL \<longleftrightarrow> (of_char c :: nat) = 0" by simp
    with d that show ?thesis unfolding drawable_def Let_def by blast
  qed
  then show ?thesis
  proof cases
    case 4
    with drawChar_keeps [OF wf 4(1,2), of fnt bgd] show ?thesis by (auto simp: vDriver_print_def)
  qed (use wf newline_keeps backspace_keeps keeps_refl in \<open>simp_all add: vDriver_print_def\<close>)
qed

lemma prints_keeps: "video_wf v \<Longrightarrow> list_all drawable str \<Longrightarrow> \<exists>v'. vDriver_prints str fnt bgd v = Some v' \<and> keeps v v'"
proof (induction str arbitrary: v)
  case (Cons c str)
  show ?case
  proof (cases "c = NUL")
    case False
    obtain v1 where v1: "vDriver_print c fnt bgd v = Some v1" "keeps v v1" using print_keeps Cons.prems by fastforce
    then have "video_wf v1" by (simp add: keeps_def)
    with Cons obtain v2 where "vDriver_prints str fnt bgd v1 = Some v2" "keeps v1 v2" by auto
    with v1 False keeps_trans show ?thesis by auto
  qed (use Cons.prems keeps_refl in simp)
qed (simp add: keeps_refl)

lemma fold_vram: "(\<And>x w. \<exists>m. F x w = w\<lparr>vram := m\<rparr>) \<Longrightarrow> \<exists>m. fold F xs v = v\<lparr>vram := m\<rparr>"
proof (induction xs arbitrary: v)
  case Nil
  have "fold F [] v = v\<lparr>vram := vram v\<rparr>" by simp
  then show ?case by blast
next
  case (Cons x xs)
  obtain m where "F x v = v\<lparr>vram := m\<rparr>" using Cons.prems by blast
  with Cons.IH [OF Cons.prems, of "F x v"] show ?case by auto
qed

lemma memory_keeps: "video_wf v \<Longrightarrow> keeps v (v\<lparr>vram := m\<rparr>)"
  using wf_bounds by (intro keepsI) (simp_all add: same_mode_def)

lemma rectangle_keeps: "video_wf v \<Longrightarrow> keeps v (vDriver_drawRectangle x y w h col v)"
proof -
  have "\<exists>m. vDriver_drawRectangle x y w h col v = v\<lparr>vram := m\<rparr>"
    unfolding vDriver_drawRectangle_def by (intro fold_vram) blast
  then show "video_wf v \<Longrightarrow> ?thesis" using memory_keeps by metis
qed

lemma clear_keeps: "video_wf v \<Longrightarrow> keeps v (vDriver_clear v)"
proof -
  assume wf: "video_wf v"
  have "\<exists>m. fold (\<lambda>n w. w\<lparr>vram := put_pixel (framebuffer w + 3 * n) BLACK (vram w)\<rparr>)
       [0..<scr_width v * scr_height v mod 4294967296] v = v\<lparr>vram := m\<rparr>" by (intro fold_vram) blast
  then obtain m where "vDriver_clear v = v\<lparr>vram := m, cursorX := 0, cursorY := 0\<rparr>"
    by (auto simp: vDriver_clear_def)
  then show ?thesis using wf_bounds [OF wf] by (intro keepsI [OF wf]) (simp_all add: same_mode_def)
qed

lemma cursor_keeps: "video_wf v \<Longrightarrow> \<exists>v'. vDriver_drawCursor v = Some v' \<and> keeps v v'"
proof -
  assume wf: "video_wf v"
  have "keeps v (v\<lparr>cursorOn := \<not> cursorOn v\<rparr>)"
    using wf_bounds [OF wf] by (intro keepsI [OF wf]) (simp_all add: same_mode_def)
  moreover from this have "keeps (v\<lparr>cursorOn := \<not> cursorOn v\<rparr>) (wrap_line (v\<lparr>cursorOn := \<not> cursorOn v\<rparr>))"
    using wrap_keeps by (simp add: keeps_def)
  moreover from this have "keeps (wrap_line (v\<lparr>cursorOn := \<not> cursorOn v\<rparr>)) (paint_glyph g fnt bgd (wrap_line (v\<lparr>cursorOn := \<not> cursorOn v\<rparr>)))" for g fnt bgd
    using paint_keeps by (simp add: keeps_def)
  moreover obtain g where "glyph_of 32 = Some g" using glyph_exists [of 32] by auto
  ultimately show ?thesis using keeps_trans unfolding vDriver_drawCursor_def Let_def by (metis bind.bind_lunit)
qed

lemma scale_keeps: "video_wf v \<Longrightarrow> keeps v (plusScale v) \<and> keeps v (minusScale v)"
  using wf_bounds [of v] by (auto intro!: keepsI simp: plusScale_def minusScale_def same_mode_def)

lemma video_do_keeps: "video_wf v \<Longrightarrow> drawable_call a \<Longrightarrow> \<exists>v'. video_do a v = Some v' \<and> keeps v v'"
  by (cases a) (use print_keeps prints_keeps newline_keeps cursor_keeps clear_keeps scale_keeps rectangle_keeps in auto)

text \<open>C40. The type of the driver's state is kept by every sequence of its calls: from a state with a scale from
  one to five and the cursor at most one cell outside a screen of at least ten lines, any calls with printable
  text, new lines, backspaces, changes of scale, clearing, the cursor and rectangles all succeed, the state
  is again of that type, so the 16-bit coordinates never wrap, and the mode of the screen is unchanged.\<close>

theorem video_state_keeps_type:
  assumes "video_wf v" and "\<forall>a\<in>set calls. drawable_call a"
  shows "\<exists>v'. video_run calls v = Some v' \<and> video_wf v' \<and> same_mode v v'"
proof -
  have "\<exists>v'. video_run calls v = Some v' \<and> keeps v v'"
    using assms
  proof (induction calls arbitrary: v)
    case (Cons a calls)
    then obtain v1 where v1: "video_do a v = Some v1" "keeps v v1" using video_do_keeps by force
    then have "video_wf v1" by (simp add: keeps_def)
    with Cons obtain v2 where "video_run calls v1 = Some v2" "keeps v1 v2" by auto
    with v1 keeps_trans show ?case by auto
  qed (simp add: keeps_refl)
  then show ?thesis by (simp add: keeps_def)
qed

lemma video_state_keeps_type_witness:
  "let v = \<lparr>scr_pitch = 3072, scr_width = 1024, scr_height = 768, scr_bpp = 24, framebuffer = 0, vram = (\<lambda>_. 0),
      cursorOn = False, pixelScale = 1, cursorX = 0, cursorY = 0\<rparr>;
     v' = the (video_run [VPrints ''user $>'' WHITE BLACK, VPlus, VNewline, VCursor, VPrint (CHR 0x08) WHITE BLACK] v)
   in video_wf v' \<and> scr_width v' = 1024"
proof -
  let ?v = "\<lparr>scr_pitch = 3072, scr_width = 1024, scr_height = 768, scr_bpp = 24, framebuffer = 0, vram = (\<lambda>_. 0),
      cursorOn = False, pixelScale = 1, cursorX = 0, cursorY = 0\<rparr>"
  let ?c = "[VPrints ''user $>'' WHITE BLACK, VPlus, VNewline, VCursor, VPrint (CHR 0x08) WHITE BLACK]"
  have "video_wf ?v" by (simp add: video_wf_def screen_ok_def)
  moreover have "\<forall>a\<in>set ?c. drawable_call a" by (simp add: drawable_def)
  ultimately obtain v' where "video_run ?c ?v = Some v'" "video_wf v'" "same_mode ?v v'"
    using video_state_keeps_type [of ?v ?c] by blast
  then show ?thesis by (simp add: Let_def same_mode_def)
qed

end
