(* ===== verification/Console.thy ===== *)
theory Console
  imports Kernel_Lib Digits
begin

text \<open>
  \<^verbatim>\<open>Kernel/lib/naiveConsole.c\<close>: the text console of the kernel, characters written straight into
  the VGA text memory at \<open>0xB8000\<close>, one character and one attribute byte per cell.
\<close>

record console =
  vga :: ram
  currentVideo :: nat

definition video :: nat where "video = 0xB8000"
definition console_width :: nat where "console_width = 80"
definition console_height :: nat where "console_height = 25"

definition to_byte :: "char \<Rightarrow> byte" where
  "to_byte c = of_nat (of_char c)"

definition ncPrintChar :: "char \<Rightarrow> console \<Rightarrow> console" where
  "ncPrintChar character c =
    c\<lparr>vga := (vga c)(currentVideo c := to_byte character), currentVideo := currentVideo c + 2\<rparr>"

fun ncPrint :: "string \<Rightarrow> console \<Rightarrow> console" where
  "ncPrint [] c = c"
| "ncPrint (ch # str) c = (if ch = NUL then c else ncPrint str (ncPrintChar ch c))"

text \<open>The \<^verbatim>\<open>do ... while\<close> of \<^verbatim>\<open>ncNewline\<close>; \<open>None\<close> is a loop that never meets a line start.\<close>

partial_function (option) ncNewline :: "console \<Rightarrow> console option" where
  "ncNewline c =
    (let c' = ncPrintChar (CHR '' '') c
     in if (currentVideo c' - video) mod (console_width * 2) \<noteq> 0 then ncNewline c' else Some c')"

definition nc_uintToBase :: "nat \<Rightarrow> nat \<Rightarrow> (nat \<times> string) option" where
  "nc_uintToBase value base = do {
     ds \<leftarrow> digit_loop base value [];
     Some (length ds, reverse_loop 0 (length ds - 1) ds)
   }"

definition ncPrintBase :: "nat \<Rightarrow> nat \<Rightarrow> console \<Rightarrow> console option" where
  "ncPrintBase value base c = do {
     (digits, buffer) \<leftarrow> nc_uintToBase value base;
     Some (ncPrint buffer c)
   }"

definition ncPrintDec :: "nat \<Rightarrow> console \<Rightarrow> console option" where
  "ncPrintDec value c = ncPrintBase value 10 c"

definition ncPrintHex :: "nat \<Rightarrow> console \<Rightarrow> console option" where
  "ncPrintHex value c = ncPrintBase value 16 c"

definition ncPrintBin :: "nat \<Rightarrow> console \<Rightarrow> console option" where
  "ncPrintBin value c = ncPrintBase value 2 c"

fun clear_cells :: "nat \<Rightarrow> nat \<Rightarrow> ram \<Rightarrow> ram" where
  "clear_cells i 0 m = m"
| "clear_cells i (Suc n) m = clear_cells (i + 1) n (m(video + i * 2 := to_byte (CHR '' '')))"

definition ncClear :: "console \<Rightarrow> console" where
  "ncClear c = c\<lparr>vga := clear_cells 0 (console_height * console_width) (vga c), currentVideo := video\<rparr>"

section \<open>Where the cursor goes\<close>

text \<open>The cell the cursor is on, counted from the top left.\<close>

definition on_cell :: "nat \<Rightarrow> console \<Rightarrow> bool" where
  "on_cell n c \<longleftrightarrow> currentVideo c = video + 2 * n"

lemma on_cell_print: "on_cell n c \<Longrightarrow> on_cell (n + 1) (ncPrintChar ch c)"
  by (simp add: on_cell_def ncPrintChar_def)

lemma on_cell_ncPrint: "on_cell n c \<Longrightarrow> on_cell (n + length (cstr str)) (ncPrint str c)"
proof (induction str arbitrary: c n)
  case (Cons ch str)
  show ?case
  proof (cases "ch = NUL")
    case False
    then show ?thesis using Cons.IH [OF on_cell_print [OF Cons.prems, of ch]] by (simp add: cstr_def)
  qed (use Cons.prems in \<open>simp add: cstr_def\<close>)
qed (simp add: cstr_def)

lemma ncPrint_before: "on_cell n c \<Longrightarrow> a < video + 2 * n \<Longrightarrow> vga (ncPrint str c) a = vga c a"
proof (induction str arbitrary: c n)
  case (Cons ch str)
  show ?case
  proof (cases "ch = NUL")
    case False
    then show ?thesis
      using Cons.IH [OF on_cell_print [OF Cons.prems(1), of ch]] Cons.prems
      by (simp add: ncPrintChar_def on_cell_def)
  qed (use Cons.prems in simp)
qed simp

lemma ncPrint_cells:
  "on_cell n c \<Longrightarrow> i < length (cstr str) \<Longrightarrow> vga (ncPrint str c) (video + 2 * (n + i)) = to_byte (cstr str ! i)"
proof (induction str arbitrary: c n i)
  case (Cons ch str)
  then have ch: "ch \<noteq> NUL" by (auto simp: cstr_def split: if_splits)
  have cell: "on_cell (n + 1) (ncPrintChar ch c)" by (rule on_cell_print [OF Cons.prems(1)])
  show ?case
  proof (cases i)
    case 0
    have "vga (ncPrintChar ch c) (video + 2 * n) = to_byte ch"
      using Cons.prems(1) by (simp add: ncPrintChar_def on_cell_def)
    with 0 ch show ?thesis using ncPrint_before [OF cell, of "video + 2 * n" str] by (simp add: cstr_def)
  next
    case (Suc j)
    with ch Cons.prems(2) show ?thesis using Cons.IH [OF cell, of j] by (simp add: cstr_def)
  qed
qed (simp add: cstr_def)

lemma ncNewline_step:
  "on_cell n c \<Longrightarrow> ncNewline c =
     (if (n + 1) mod 80 = 0 then Some (ncPrintChar (CHR '' '') c) else ncNewline (ncPrintChar (CHR '' '') c))"
proof -
  assume "on_cell n c"
  then have "on_cell (n + 1) (ncPrintChar (CHR '' '') c)" by (rule on_cell_print)
  then have "currentVideo (ncPrintChar (CHR '' '') c) - video = 2 * (n + 1)" by (simp add: on_cell_def)
  moreover have "(2 * (n + 1)) mod 160 \<noteq> 0 \<longleftrightarrow> (n + 1) mod 80 \<noteq> 0" by presburger
  ultimately show ?thesis
    by (subst ncNewline.simps) (simp only: console_width_def Let_def mult_numeral_1 split: if_split, simp)
qed

lemma ncNewline_run:
  "on_cell n c \<Longrightarrow> 80 - n mod 80 = Suc k \<Longrightarrow> \<exists>c'. ncNewline c = Some c' \<and> on_cell (n + Suc k) c'"
proof (induction k arbitrary: n c)
  case 0
  then have "(n + 1) mod 80 = 0" by (auto simp: mod_Suc)
  with 0 show ?case using ncNewline_step on_cell_print by auto
next
  case (Suc k)
  have nz: "(n + 1) mod 80 \<noteq> 0" using Suc.prems(2) by (auto simp: mod_Suc)
  have len: "80 - (n + 1) mod 80 = Suc k" using Suc.prems(2) by (auto simp: mod_Suc)
  then have "ncNewline c = ncNewline (ncPrintChar (CHR '' '') c)"
    using ncNewline_step [OF Suc.prems(1)] nz by simp
  with Suc.IH [OF on_cell_print [OF Suc.prems(1)] len] show ?case by simp
qed

lemma nc_uintToBase_eq:
  "1 < base \<Longrightarrow> nc_uintToBase value base =
     Some (length (digits_of base value), map base_digit (digits_of base value))"
  by (simp add: nc_uintToBase_def digit_loop_eq reverse_loop_rev [of "map base_digit (rev (digits_of base value))", simplified] rev_map)

end
