(* ===== verification/Kernel_Lib_Theorems.thy ===== *)
theory Kernel_Lib_Theorems
  imports Console
begin

text \<open>
  Properties of the memory routines, of the console, and the round trip from the image packer to the
  module loader.
\<close>

section \<open>Copying\<close>

text \<open>One word is four bytes, also where source and destination overlap in whole words.\<close>

lemma copy_word_as_bytes:
  assumes "d + 4 \<le> s \<or> s + 4 \<le> d \<or> d = s"
  shows "store32 d (load32 m s) m = copy_bytes d s 4 m"
proof -
  have "store32 d (load32 m s) m = m(d := m s, d + 1 := m (s + 1), d + 2 := m (s + 2), d + 3 := m (s + 3))"
    by (simp only: store32_def store_load32_bytes)
  moreover have "copy_bytes d s (Suc (Suc (Suc (Suc 0)))) m =
      m(d := m s, d + 1 := m (s + 1), d + 2 := m (s + 2), d + 3 := m (s + 3))"
    using assms by (auto simp: fun_eq_iff numeral_2_eq_2 numeral_3_eq_3)
  ultimately show ?thesis by (simp add: eval_nat_numeral)
qed

lemma copy_bytes_add: "copy_bytes d s (k + n) m = copy_bytes (d + k) (s + k) n (copy_bytes d s k m)"
  by (induction k arbitrary: d s m) simp_all

lemma copy_words_as_bytes: "d mod 4 = 0 \<Longrightarrow> s mod 4 = 0 \<Longrightarrow> copy_words d s n m = copy_bytes d s (4 * n) m"
proof (induction n arbitrary: d s m)
  case (Suc n)
  have "d + 4 \<le> s \<or> s + 4 \<le> d \<or> d = s" using Suc.prems by presburger
  then have "store32 d (load32 m s) m = copy_bytes d s 4 m" by (rule copy_word_as_bytes)
  moreover have "copy_words (d + 4) (s + 4) n (copy_bytes d s 4 m) = copy_bytes (d + 4) (s + 4) (4 * n) (copy_bytes d s 4 m)"
    using Suc.prems by (intro Suc.IH) simp_all
  ultimately show ?case using copy_bytes_add [of d s 4 "4 * n" m] by simp
qed simp

lemma copy_bytes_apply:
  "d \<le> s \<or> s + n \<le> d \<Longrightarrow> copy_bytes d s n m a = (if d \<le> a \<and> a < d + n then m (s + (a - d)) else m a)"
proof (induction n arbitrary: d s m)
  case 0
  show ?case by (cases "d \<le> a") simp_all
next
  case (Suc n)
  then have "copy_bytes (d + 1) (s + 1) n (m(d := m s)) a =
      (if d + 1 \<le> a \<and> a < d + 1 + n then (m(d := m s)) (s + 1 + (a - (d + 1))) else (m(d := m s)) a)"
    by (intro Suc.IH) auto
  moreover have "(m(d := m s)) (s + 1 + (a - (d + 1))) = m (s + (a - d))" if "d < a" "a < d + Suc n"
  proof -
    have "s + 1 + (a - (d + 1)) = s + (a - d)" "s + (a - d) \<noteq> d" using that Suc.prems by auto
    then show ?thesis by (simp only: fun_upd_apply if_False)
  qed
  ultimately show ?case by (cases "a = d"; cases "d < a") auto
qed

text \<open>C38. The word-wise copy that \<^verbatim>\<open>memcpy\<close> takes when addresses and length are multiples of four leaves
  the same memory as the byte-wise copy, for every pair of addresses, overlapping ones included.\<close>

theorem memcpy_paths_agree: "memcpy d s n m = copy_bytes d s n m"
proof (cases "d mod 4 = 0 \<and> s mod 4 = 0 \<and> n mod 4 = 0")
  case True
  then have "4 * (n div 4) = n" by presburger
  with True show ?thesis using copy_words_as_bytes [of d s "n div 4" m] by (simp only: memcpy_def simp_thms if_True)
next
  case False
  then show ?thesis by (simp only: memcpy_def if_False)
qed

text \<open>The form the loader needs; the claim above is not used in other proofs.\<close>

lemma memcpy_apply:
  assumes "d \<le> s \<or> s + n \<le> d"
  shows "memcpy d s n m a = (if d \<le> a \<and> a < d + n then m (s + (a - d)) else m a)"
proof -
  have "4 * (n div 4) = n" if "n mod 4 = 0" using that by presburger
  then have "memcpy d s n m = copy_bytes d s n m"
    using copy_words_as_bytes [of d s "n div 4" m] by (auto simp: memcpy_def)
  with assms show ?thesis by (simp add: copy_bytes_apply)
qed

section \<open>From the packer to the loader\<close>

definition image_at :: "ram \<Rightarrow> nat \<Rightarrow> byte list \<Rightarrow> bool" where
  "image_at m a bs \<longleftrightarrow> (\<forall>i < length bs. m (a + i) = bs ! i)"

definition packed :: "byte list list \<Rightarrow> byte list" where
  "packed bs = concat (map (\<lambda>b. le32 (length b) @ b) bs)"

lemma image_at_append: "image_at m a (xs @ ys) \<longleftrightarrow> image_at m a xs \<and> image_at m (a + length xs) ys"
proof
  assume L: "image_at m a (xs @ ys)"
  have "m (a + length xs + i) = ys ! i" if "i < length ys" for i
    using L that by (auto simp: image_at_def nth_append dest!: spec [of _ "length xs + i"] simp: add.assoc)
  moreover have "m (a + i) = xs ! i" if "i < length xs" for i
    using L that by (auto simp: image_at_def nth_append dest!: spec [of _ i])
  ultimately show "image_at m a xs \<and> image_at m (a + length xs) ys" by (simp add: image_at_def)
next
  assume R: "image_at m a xs \<and> image_at m (a + length xs) ys"
  show "image_at m a (xs @ ys)"
    unfolding image_at_def
  proof (intro allI impI)
    fix i assume i: "i < length (xs @ ys)"
    show "m (a + i) = (xs @ ys) ! i"
    proof (cases "i < length xs")
      case True
      with R show ?thesis by (simp add: image_at_def nth_append)
    next
      case False
      with i have "i - length xs < length ys" "a + length xs + (i - length xs) = a + i" by auto
      with R False show ?thesis unfolding image_at_def nth_append by metis
    qed
  qed
qed

lemma write_file_append: "write_file target source = target @ source"
proof (induction target source rule: write_file.induct)
  case (1 target source)
  show ?case
  proof (cases "length (take BUFFER_SIZE source) < BUFFER_SIZE")
    case True
    then show ?thesis by (subst write_file.simps) (auto simp: Let_def)
  next
    case False
    with 1 show ?thesis by (subst write_file.simps) (simp add: Let_def)
  qed
qed

lemma length_le32 [simp]: "length (le32 n) = 4"
  by (simp add: le32_def Let_def)

lemma load32_le32: "image_at m a (le32 n) \<Longrightarrow> load32 m a = of_nat n"
proof -
  assume img: "image_at m a (le32 n)"
  define w :: "32 word" where "w = of_nat n"
  have b: "m a = ucast w" "m (a + 1) = ucast (drop_bit 8 w)" "m (a + 2) = ucast (drop_bit 16 w)"
    "m (a + 3) = ucast (drop_bit 24 w)"
    using img unfolding image_at_def le32_def Let_def w_def [symmetric]
    by (auto dest: spec [of _ 0] spec [of _ 1] spec [of _ 2] spec [of _ 3])
  have "load32 m a = w"
  proof (rule bit_word_eqI)
    fix i assume "i < LENGTH(32)"
    then have "i < 8 \<or> 8 \<le> i \<and> i < 16 \<or> 16 \<le> i \<and> i < 24 \<or> 24 \<le> i \<and> i < 32" by auto
    then show "bit (load32 m a) i \<longleftrightarrow> bit w i"
      by (elim disjE) (auto simp: load32_def b [simplified] bit_simps dest: bit_imp_le_length)
  qed
  then show ?thesis by (simp add: w_def)
qed

lemma readUint32_le32: "image_at m a (le32 n) \<Longrightarrow> n < 2 ^ 32 \<Longrightarrow> readUint32 m a = (n, a + 4)"
  by (simp add: readUint32_def load32_le32 unat_of_nat)

lemma pack_loop_eq:
  "pack_loop fs names target = Some img \<Longrightarrow>
   \<exists>bs. map fs names = map Some bs \<and> img = target @ packed bs"
proof (induction names arbitrary: target)
  case (Cons f names)
  then obtain b where f: "fs f = Some b" and rest: "pack_loop fs names (target @ le32 (length b) @ b) = Some img"
    by (auto simp: bind_eq_Some write_file_append write_size_def)
  from Cons.IH [OF rest] obtain bs where "map fs names = map Some bs" "img = (target @ le32 (length b) @ b) @ packed bs"
    by auto
  with f show ?case by (intro exI [of _ "b # bs"]) (simp add: packed_def)
qed (simp add: packed_def)

lemma buildImage_eq:
  "buildImage fs (kern # mods) = Some img \<Longrightarrow>
   \<exists>k bs. fs kern = Some k \<and> map fs mods = map Some bs \<and> img = k @ le32 (length bs) @ packed bs"
proof -
  assume "buildImage fs (kern # mods) = Some img"
  then obtain k where k: "fs kern = Some k" and p: "pack_loop fs mods (k @ le32 (length mods)) = Some img"
    by (auto simp: buildImage_def bind_eq_Some write_file_append)
  from pack_loop_eq [OF p] obtain bs where "map fs mods = map Some bs" "img = (k @ le32 (length mods)) @ packed bs"
    by auto
  moreover from this have "length mods = length bs" by (metis length_map)
  ultimately show ?thesis using k by auto
qed

text \<open>The target regions keep clear of the payload and of each other.\<close>

definition apart :: "nat \<Rightarrow> nat \<Rightarrow> nat \<Rightarrow> nat \<Rightarrow> bool" where
  "apart a n b k \<longleftrightarrow> a + n \<le> b \<or> b + k \<le> a"

fun targets_ok :: "nat \<Rightarrow> nat \<Rightarrow> (byte list \<times> nat) list \<Rightarrow> bool" where
  "targets_ok p n [] \<longleftrightarrow> True"
| "targets_ok p n ((b, t) # rest) \<longleftrightarrow>
     apart t (length b) p n \<and> list_all (\<lambda>(b', t'). apart t (length b) t' (length b')) rest \<and> targets_ok p n rest"

lemma targets_ok_suffix: "targets_ok p (k + n) bts \<Longrightarrow> targets_ok (p + k) n bts"
  by (induction bts) (auto simp: apart_def)

lemma image_at_untouched:
  "image_at m a bs \<Longrightarrow> (\<And>x. a \<le> x \<Longrightarrow> x < a + length bs \<Longrightarrow> m' x = m x) \<Longrightarrow> image_at m' a bs"
  by (simp add: image_at_def)

lemma load_loop_places:
  "image_at m p (packed bs) \<Longrightarrow> length bs \<le> length ts \<Longrightarrow> \<forall>b\<in>set bs. length b < 2 ^ 32 \<Longrightarrow>
   targets_ok p (length (packed bs)) (zip bs ts) \<Longrightarrow>
   \<exists>m'. load_loop (length bs) ts p m = Some m'
     \<and> (\<forall>i < length bs. image_at m' (ts ! i) (bs ! i))
     \<and> (\<forall>a. (\<forall>(b, t)\<in>set (zip bs ts). apart t (length b) a 1) \<longrightarrow> m' a = m a)"
proof (induction bs arbitrary: ts p m)
  case (Cons b bs)
  then obtain t ts' where ts: "ts = t # ts'" by (cases ts) auto
  let ?rest = "packed bs" and ?p = "p + 4 + length b"
  have "image_at m p (le32 (length b) @ b @ ?rest)" using Cons.prems(1) by (simp add: packed_def)
  then have hdr: "image_at m p (le32 (length b))" and body: "image_at m (p + 4) b" and rest: "image_at m ?p ?rest"
    by (simp_all add: image_at_append add.assoc)
  have size: "readUint32 m p = (length b, p + 4)" using hdr Cons.prems(3) by (intro readUint32_le32) auto
  have len: "length (packed (b # bs)) = (4 + length b) + length ?rest" by (simp add: packed_def)
  have ok: "apart t (length b) p ((4 + length b) + length ?rest)"
    "list_all (\<lambda>(b', t'). apart t (length b) t' (length b')) (zip bs ts')"
    "targets_ok p ((4 + length b) + length ?rest) (zip bs ts')"
    using Cons.prems(4) unfolding ts len by simp_all
  define m1 where "m1 = memcpy t (p + 4) (length b) m"
  have m1: "m1 a = (if t \<le> a \<and> a < t + length b then m (p + 4 + (a - t)) else m a)" for a
    unfolding m1_def using ok(1) by (intro memcpy_apply) (auto simp: apart_def)
  have placed: "image_at m1 t b" using body by (simp add: image_at_def m1)
  have rest1: "image_at m1 ?p ?rest"
    using rest ok(1) by (elim image_at_untouched) (auto simp: m1 apart_def)
  obtain m' where m': "load_loop (length bs) ts' ?p m1 = Some m'"
    "\<forall>i < length bs. image_at m' (ts' ! i) (bs ! i)"
    "\<forall>a. (\<forall>(b, t)\<in>set (zip bs ts'). apart t (length b) a 1) \<longrightarrow> m' a = m1 a"
    using Cons.IH [OF rest1, of ts'] Cons.prems(2,3) targets_ok_suffix [OF ok(3)] ts by (auto simp: add.assoc)
  have "m' x = m1 x" if "t \<le> x" "x < t + length b" for x
  proof -
    have "\<forall>(b', t')\<in>set (zip bs ts'). apart t' (length b') x 1"
      using ok(2) that unfolding list_all_iff apart_def by fastforce
    with m'(3) show ?thesis by blast
  qed
  then have "image_at m' t b" using placed by (elim image_at_untouched) auto
  moreover have "load_loop (length (b # bs)) ts p m = Some m'"
    using m'(1) size by (simp add: ts loadModule_def m1_def Let_def add.assoc)
  moreover have "m' a = m a" if "\<forall>(b, t)\<in>set (zip (b # bs) ts). apart t (length b) a 1" for a
    using that m'(3) m1 [of a] by (auto simp: ts apart_def)
  ultimately show ?case using m'(2) by (auto simp: ts nth_Cons split: nat.split)
qed simp

text \<open>C28. What the packer appends to the kernel, the loader takes apart: if the image built from a kernel and
  its modules lies in memory, loading the modules from the end of the kernel copies every module, whole and
  unchanged, to its target, when the targets keep clear of the image and of each other.\<close>

theorem packed_modules_are_loaded:
  assumes "packer_main fs (kern # mods) = (0, Some img)" "image_at m base img"
    and "fs kern = Some k" "map fs mods = map Some bs" "length mods < 2 ^ 31" "\<forall>b\<in>set bs. length b < 2 ^ 32"
    and "length mods \<le> length targets"
    and "targets_ok (base + length k + 4) (length (packed bs)) (zip bs targets)"
  shows "\<exists>m'. loadModules (base + length k) targets m = Some m'
    \<and> (\<forall>i < length mods. image_at m' (targets ! i) (bs ! i))"
proof -
  have "buildImage fs (kern # mods) = Some img" using assms(1) by (auto simp: packer_main_def split: if_splits)
  from buildImage_eq [OF this] obtain bs' where bs': "map fs mods = map Some bs'" "img = k @ le32 (length bs') @ packed bs'"
    using assms(3) by auto
  have eq: "bs' = bs" using bs'(1) assms(4) by (metis list.inj_map_strong option.inject)
  have len: "length mods = length bs" using assms(4) by (metis length_map)
  have "image_at m (base + length k) (le32 (length bs))" and img: "image_at m (base + length k + 4) (packed bs)"
    using assms(2) bs'(2) eq by (simp_all add: image_at_append add.assoc)
  then have "readUint32 m (base + length k) = (length bs, base + length k + 4)"
    using assms(5) len by (intro readUint32_le32) auto
  with load_loop_places [OF img, of targets] assms(6-8) len show ?thesis by (auto simp: loadModules_def)
qed

definition demo_files :: "string \<Rightarrow> byte list option" where
  "demo_files = [''kernel'' \<mapsto> [0xAA, 0xBB], ''code'' \<mapsto> [7], ''data'' \<mapsto> [8, 9]]"

definition demo_image :: "byte list" where
  "demo_image = [0xAA, 0xBB, 2, 0, 0, 0, 1, 0, 0, 0, 7, 2, 0, 0, 0, 8, 9]"

lemma demo_image_built: "packer_main demo_files [''kernel'', ''code'', ''data''] = (0, Some demo_image)"
proof -
  have "checkFiles demo_files [''kernel'', ''code'', ''data'']" by (simp add: demo_files_def)
  moreover have "buildImage demo_files [''kernel'', ''code'', ''data''] = Some demo_image"
    by (simp add: demo_files_def demo_image_def buildImage_def write_file_append write_size_def le32_def)
  ultimately show ?thesis by (simp add: packer_main_def)
qed

theorem packed_modules_are_loaded_witness:
  "\<exists>m'. loadModules 2 [0x400000, 0x500000] (\<lambda>a. if a < 17 then demo_image ! a else 0) = Some m'
    \<and> m' 0x400000 = 7 \<and> m' 0x500001 = 9"
proof -
  let ?m = "\<lambda>a. if a < 17 then demo_image ! a else 0"
  have img: "image_at ?m 0 demo_image" by (simp add: image_at_def demo_image_def)
  have files: "demo_files ''kernel'' = Some [0xAA, 0xBB]" "map demo_files [''code'', ''data''] = map Some [[7], [8, 9]]"
    by (simp_all add: demo_files_def)
  have ok: "targets_ok (0 + length [0xAA, 0xBB :: byte] + 4) (length (packed [[7], [8, 9]]))
      (zip [[7], [8, 9]] [0x400000, 0x500000])"
    by (simp add: packed_def apart_def)
  obtain m' where m': "loadModules (0 + length [0xAA, 0xBB :: byte]) [0x400000, 0x500000] ?m = Some m'"
    and at: "\<forall>i < length [''code'', ''data'']. image_at m' ([0x400000, 0x500000] ! i) ([[7], [8, 9]] ! i)"
    using packed_modules_are_loaded [OF demo_image_built img files _ _ _ ok] by auto
  from at have "image_at m' 0x400000 [7]" "image_at m' 0x500000 [8, 9]"
    by (auto dest: spec [of _ 0] spec [of _ 1])
  then have "m' 0x400000 = 7" "m' (0x500000 + 1) = 9"
    unfolding image_at_def by (auto dest: spec [of _ 0] spec [of _ 1])
  with m' show ?thesis by (simp add: numeral_2_eq_2)
qed

section \<open>The console\<close>

text \<open>C39. Printing a number on the console ends, and its decimal digits are then in the cells from the cursor
  on, most significant first; the cursor is behind the last digit and the cells before it are unchanged. Then a
  new line also ends, in the first cell of the next line.\<close>

theorem console_prints_decimal:
  assumes "on_cell n c"
  shows "\<exists>c' c''. ncPrintDec num c = Some c' \<and> on_cell (n + length (digits_of 10 num)) c'
    \<and> value_of 10 (digits_of 10 num) = num
    \<and> (\<forall>i < length (digits_of 10 num). vga c' (video + 2 * (n + i)) = of_nat (48 + digits_of 10 num ! i))
    \<and> (\<forall>a < video + 2 * n. vga c' a = vga c a)
    \<and> ncNewline c' = Some c'' \<and> on_cell (80 * ((n + length (digits_of 10 num)) div 80 + 1)) c''"
proof -
  let ?ds = "digits_of 10 num" and ?str = "map base_digit (digits_of 10 num)"
  define c' where "c' = ncPrint ?str c"
  have d10: "d < 10" if "d \<in> set ?ds" for d by (rule digits_of_less [OF _ that]) simp
  have "base_digit d \<noteq> NUL" if "d \<in> set ?ds" for d
    using d10 [OF that] by (intro base_digit_no_NUL) simp
  then have "NUL \<notin> set ?str" unfolding set_map image_iff by metis
  then have str: "cstr ?str = ?str" by (rule cstr_ident)
  have print: "ncPrintDec num c = Some c'"
    by (simp add: ncPrintDec_def ncPrintBase_def nc_uintToBase_eq c'_def)
  have cell: "on_cell (n + length ?ds) c'" using on_cell_ncPrint [OF assms, of ?str] by (simp add: str c'_def)
  have "vga c' (video + 2 * (n + i)) = of_nat (48 + ?ds ! i)" if "i < length ?ds" for i
    using ncPrint_cells [OF assms, of i ?str] that d10 [of "?ds ! i"]
    by (simp add: str c'_def to_byte_def base_digit_eq add.commute)
  moreover have "vga c' a = vga c a" if "a < video + 2 * n" for a
    using ncPrint_before [OF assms that] by (simp add: c'_def)
  moreover
  have less: "(n + length ?ds) mod 80 < 80" by simp
  then obtain k where k: "80 - (n + length ?ds) mod 80 = Suc k"
    using not0_implies_Suc [of "80 - (n + length ?ds) mod 80"] by (simp only: diff_is_0_eq not_le) blast
  obtain c'' where c'': "ncNewline c' = Some c''" "on_cell (n + length ?ds + Suc k) c''"
    using ncNewline_run [OF cell k] by auto
  moreover have "x + Suc k = 80 * (x div 80 + 1)" if "80 - x mod 80 = Suc k" for x
  proof -
    have "x mod 80 + Suc k = 80" using that by linarith
    moreover have "80 * (x div 80 + 1) = 80 * (x div 80) + (x mod 80 + Suc k)"
      by (simp only: \<open>x mod 80 + Suc k = 80\<close> distrib_left mult_1_right)
    ultimately show ?thesis using mult_div_mod_eq [of 80 x] by (simp only: add.assoc [symmetric])
  qed
  from this [OF k] have "on_cell (80 * ((n + length ?ds) div 80 + 1)) c''" using c''(2) by (simp only:)
  ultimately show ?thesis using print cell value_of_digits [of 10 num] by auto
qed

theorem console_prints_decimal_witness:
  "\<exists>c'. ncPrintDec 407 \<lparr>vga = (\<lambda>_. 0), currentVideo = video + 158\<rparr> = Some c'
     \<and> vga c' (video + 158) = 52 \<and> vga c' (video + 162) = 55"
proof -
  have ds: "digits_of 10 407 = [4, 0, 7]" by (simp add: digits_of.simps)
  have "on_cell 79 \<lparr>vga = (\<lambda>_. 0), currentVideo = video + 158\<rparr>" by (simp add: on_cell_def)
  from console_prints_decimal [OF this, of 407] obtain c' where
    "ncPrintDec 407 \<lparr>vga = (\<lambda>_. 0), currentVideo = video + 158\<rparr> = Some c'"
    "\<forall>i < 3. vga c' (video + 2 * (79 + i)) = of_nat (48 + [4, 0, 7] ! i)"
    by (auto simp: ds numeral_3_eq_3)
  moreover from this(2) have "vga c' (video + 2 * (79 + 0)) = 52" "vga c' (video + 2 * (79 + 2)) = 55"
    by (auto dest: spec [of _ 0] spec [of _ 2])
  ultimately show ?thesis by auto
qed

end
