(* ===== verification/User_Sys.thy ===== *)
theory User_Sys
  imports Digits
begin

text \<open>
  User programs as the system calls they make. A program works on a record with the calls made so far
  (\<open>trace\<close>) and the answers the kernel will give (\<open>replies\<close>); parts of the user library and the shell
  extend it with their own static data. \<open>say\<close> is a call whose result the program ignores, \<open>ask\<close> a call
  whose result it uses; the trace has that result beside the call. \<open>None\<close> is a run that stops: no answer is left, or the C code has no defined
  behaviour at that point (an access outside an array, a read past the end of a format string).
  The wrappers of \<^verbatim>\<open>asm/sys_calls.asm\<close> only load registers; a call is its name with its arguments.
\<close>

type_synonym ucolor = "nat \<times> nat \<times> nat"  \<comment> \<open>blue, green, red\<close>

datatype sys_ev =
    SysWriteFd int string
  | SysWriteColor int char ucolor
  | SysReadFd int int
  | SysRead int
  | SysClear | SysDrawCursor | SysPixelPlus | SysPixelMinus
  | SysPlaySpeaker nat nat
  | SysDrawRectangle int int int int ucolor
  | SysScrWidth | SysScrHeight
  | SysGetHours | SysGetMinutes | SysGetSeconds
  | SysWait nat
  | SysPrintMem nat
  | SysRegisterInfo
  | InvalidOpcode | ZeroDivision
  | SysMalloc nat
  | SysFree nat
  | SysGetpid
  | SysCreateProcess string int nat "string list" string nat int
  | SysKill int | SysBlock int | SysUnblock int
  | SysNice int nat
  | SysYield
  | SysWaitPid int
  | SysExit int
  | SysProcSnapshot nat
  | SysSemOpen string nat | SysSemWait int | SysSemPost int | SysSemClose int | SysSemUnlink string
  | SysPipeOpen string int | SysPipeClose int | SysPipeUnlink string
  | SysCloseFd int
  | SysDup2 int int
  | SysMmGetStats

record user_st =
  trace :: "(sys_ev \<times> int option) list"
  replies :: "int list"

definition say :: "sys_ev \<Rightarrow> 'a user_st_scheme \<Rightarrow> 'a user_st_scheme" where
  "say e u = u\<lparr>trace := trace u @ [(e, None)]\<rparr>"

fun say_all :: "sys_ev list \<Rightarrow> 'a user_st_scheme \<Rightarrow> 'a user_st_scheme" where
  "say_all [] u = u"
| "say_all (e # es) u = say_all es (say e u)"

definition next_reply :: "'a user_st_scheme \<Rightarrow> (int \<times> 'a user_st_scheme) option" where
  "next_reply u = (case replies u of [] \<Rightarrow> None | r # rs \<Rightarrow> Some (r, u\<lparr>replies := rs\<rparr>))"

definition ask :: "sys_ev \<Rightarrow> 'a user_st_scheme \<Rightarrow> (int \<times> 'a user_st_scheme) option" where
  "ask e u = do { (r, u1) \<leftarrow> next_reply u; Some (r, u1\<lparr>trace := trace u1 @ [(e, Some r)]\<rparr>) }"

text \<open>\<^verbatim>\<open>sys_malloc\<close>: the answer is an address, 0 when there is no memory.\<close>

definition umalloc :: "nat \<Rightarrow> 'a user_st_scheme \<Rightarrow> (nat \<times> 'a user_st_scheme) option" where
  "umalloc n u = do { (r, u1) \<leftarrow> ask (SysMalloc n) u; Some (nat r, u1) }"

text \<open>\<^verbatim>\<open>sys_wait_pid\<close> answers the process and stores its status, when there is one, at the address given.\<close>

definition ask_wait :: "int \<Rightarrow> int \<Rightarrow> 'a user_st_scheme \<Rightarrow> (int \<times> int \<times> 'a user_st_scheme) option" where
  "ask_wait pd status u = do {
     (r, u1) \<leftarrow> ask (SysWaitPid pd) u;
     if r \<ge> 0 then do { (st, u2) \<leftarrow> next_reply u1; Some (r, st, u2) } else Some (r, status, u1)
   }"

lemma trace_say [simp]: "trace (say e u) = trace u @ [(e, None)]"
  and replies_say [simp]: "replies (say e u) = replies u"
  by (simp_all add: say_def)

lemma trace_say_all [simp]: "trace (say_all es u) = trace u @ map (\<lambda>e. (e, None)) es"
  and replies_say_all [simp]: "replies (say_all es u) = replies u"
  by (induction es arbitrary: u) simp_all

lemma next_replyD: "next_reply u = Some (r, u') \<Longrightarrow> trace u' = trace u \<and> replies u = r # replies u'"
  by (auto simp: next_reply_def split: list.splits)

lemma askD: "ask e u = Some (r, u') \<Longrightarrow> trace u' = trace u @ [(e, Some r)] \<and> replies u = r # replies u'"
  by (auto simp: ask_def bind_eq_Some next_reply_def split: list.splits)

lemma umallocD: "umalloc n u = Some (a, u') \<Longrightarrow>
  \<exists>r. a = nat r \<and> trace u' = trace u @ [(SysMalloc n, Some r)] \<and> replies u = r # replies u'"
  by (auto simp: umalloc_def bind_eq_Some dest!: askD)

lemma ask_waitD: "ask_wait p s u = Some (r, st, u') \<Longrightarrow> trace u' = trace u @ [(SysWaitPid p, Some r)]"
  by (auto simp: ask_wait_def bind_eq_Some dest!: askD next_replyD split: if_splits)

end
