(* ===== verification/User_Lib.thy ===== *)
theory User_Lib
  imports User_Sys
begin

text \<open>
  The user library: \<^verbatim>\<open>lib/userlib.c\<close> and the part of \<^verbatim>\<open>lib/stdio.c\<close> that turns numbers into text, with
  the parser of \<^verbatim>\<open>include/parse_utils.h\<close>. A C string is the list of its characters up to the NUL.
  \<^verbatim>\<open>char\<close> is signed. An \<^verbatim>\<open>int\<close> that leaves its 32 bits has no defined value in C: the parsers that
  can overflow answer \<open>None\<close> there.
\<close>

section \<open>Colours\<close>

definition uBLACK :: ucolor where "uBLACK = (0, 0, 0)"
definition uWHITE :: ucolor where "uWHITE = (255, 255, 255)"
definition RED :: ucolor where "RED = (0, 0, 255)"
definition LIGHT_BLUE :: ucolor where "LIGHT_BLUE = (173, 216, 230)"
definition BLUE :: ucolor where "BLUE = (255, 0, 0)"
definition ORANGE :: ucolor where "ORANGE = (16, 160, 255)"
definition YELLOW :: ucolor where "YELLOW = (30, 224, 255)"
definition PURPLE :: ucolor where "PURPLE = (255, 32, 160)"
definition PINK :: ucolor where "PINK = (100, 0, 244)"
definition GREEN :: ucolor where "GREEN = (0, 255, 0)"
definition LIGHT_RED :: ucolor where "LIGHT_RED = (0, 255, 255)"
definition LIGHT_PURPLE :: ucolor where "LIGHT_PURPLE = (255, 0, 255)"
definition LIGHT_ORANGE :: ucolor where "LIGHT_ORANGE = (0, 160, 255)"
definition LIGHT_YELLOW :: ucolor where "LIGHT_YELLOW = (0, 224, 255)"
definition LIGHT_PINK :: ucolor where "LIGHT_PINK = (0, 100, 244)"
definition LIGHT_GREEN :: ucolor where "LIGHT_GREEN = (0, 255, 0)"
definition CYAN :: ucolor where "CYAN = (255, 255, 0)"

section \<open>Output and the small wrappers\<close>

definition u_triggerSpeaker :: "nat \<Rightarrow> nat \<Rightarrow> 'a user_st_scheme \<Rightarrow> 'a user_st_scheme" where
  "u_triggerSpeaker frequence duration u = say (SysPlaySpeaker frequence duration) u"

text \<open>\<^verbatim>\<open>playMelody\<close>: a note is a tone and a duration, two \<^verbatim>\<open>int\<close> fields converted by the call.\<close>

fun playMelody :: "(int \<times> int) list \<Rightarrow> 'a user_st_scheme \<Rightarrow> 'a user_st_scheme" where
  "playMelody [] u = u"
| "playMelody ((tone, duration) # melody) u =
    playMelody melody (u_triggerSpeaker (nat (tone mod 4294967296)) (nat (duration mod 18446744073709551616)) u)"

definition printc :: "char \<Rightarrow> 'a user_st_scheme \<Rightarrow> 'a user_st_scheme" where
  "printc c u = say (SysWriteFd 1 [c]) u"

definition printcColor :: "char \<Rightarrow> ucolor \<Rightarrow> 'a user_st_scheme \<Rightarrow> 'a user_st_scheme" where
  "printcColor c col u = say (SysWriteColor 1 c col) u"

definition drawCursor :: "'a user_st_scheme \<Rightarrow> 'a user_st_scheme" where
  "drawCursor u = say SysDrawCursor u"

fun prints_len :: "string \<Rightarrow> int \<Rightarrow> nat \<Rightarrow> nat" where
  "prints_len [] lenght len = len"
| "prints_len (c # str) lenght len =
    (if int len < lenght \<and> c \<noteq> NUL then prints_len str lenght (len + 1) else len)"

definition prints :: "string \<Rightarrow> int \<Rightarrow> 'a user_st_scheme \<Rightarrow> 'a user_st_scheme" where
  "prints str lenght u =
    (let len = prints_len str lenght 0 in if len > 0 then say (SysWriteFd 1 (take len str)) u else u)"

fun printsColor :: "string \<Rightarrow> int \<Rightarrow> ucolor \<Rightarrow> 'a user_st_scheme \<Rightarrow> 'a user_st_scheme" where
  "printsColor [] lenght col u = u"
| "printsColor (c # str) lenght col u =
    (if lenght > 0 \<and> c \<noteq> NUL then printsColor str (lenght - 1) col (printcColor c col u) else u)"

definition getChar :: "'a user_st_scheme \<Rightarrow> (char \<times> 'a user_st_scheme) option" where
  "getChar u = do { (r, u1) \<leftarrow> ask (SysRead 0) u; Some (char_of (nat (r mod 256)), u1) }"

definition clear_scr :: "'a user_st_scheme \<Rightarrow> 'a user_st_scheme" where
  "clear_scr u = say SysClear u"

definition u_wait :: "nat \<Rightarrow> 'a user_st_scheme \<Rightarrow> 'a user_st_scheme" where
  "u_wait ms u = say (SysWait ms) u"

definition increaseScale :: "'a user_st_scheme \<Rightarrow> 'a user_st_scheme" where
  "increaseScale u = say SysPixelPlus u"

definition decreaseScale :: "'a user_st_scheme \<Rightarrow> 'a user_st_scheme" where
  "decreaseScale u = say SysPixelMinus u"

definition print_mem :: "nat \<Rightarrow> 'a user_st_scheme \<Rightarrow> (int \<times> 'a user_st_scheme) option" where
  "print_mem mem u = do { (r, u1) \<leftarrow> ask (SysPrintMem mem) u; Some (r, u1) }"

definition u_malloc :: "nat \<Rightarrow> 'a user_st_scheme \<Rightarrow> (nat \<times> 'a user_st_scheme) option" where
  "u_malloc sz u = umalloc sz u"

definition u_free :: "nat \<Rightarrow> 'a user_st_scheme \<Rightarrow> 'a user_st_scheme" where
  "u_free p u = say (SysFree p) u"

text \<open>\<^verbatim>\<open>drawRectangle\<close> asks for the size of the screen and draws only inside it.\<close>

definition u_drawRectangle :: "int \<Rightarrow> int \<Rightarrow> int \<Rightarrow> int \<Rightarrow> ucolor \<Rightarrow> 'a user_st_scheme \<Rightarrow> 'a user_st_scheme option" where
  "u_drawRectangle x y x2 y2 col u = do {
     (scr_w, u1) \<leftarrow> ask SysScrWidth u;
     (scr_h, u2) \<leftarrow> ask SysScrHeight u1;
     if (x \<ge> 0 \<and> x + x2 < scr_w) \<and> (y \<ge> 0 \<and> y + y2 < scr_h)
     then Some (say (SysDrawRectangle x y x2 y2 col) u2)
     else Some u2
   }"

section \<open>Characters and strings\<close>

definition isChar :: "char \<Rightarrow> bool" where
  "isChar c \<longleftrightarrow> schar c \<ge> 33 \<and> schar c \<le> 125"

definition isUpperArrow :: "char \<Rightarrow> bool" where
  "isUpperArrow c \<longleftrightarrow> schar c = 0x48"

definition isDownArrow :: "char \<Rightarrow> bool" where
  "isDownArrow c \<longleftrightarrow> schar c = 0x50"

definition isDigit :: "char \<Rightarrow> bool" where
  "isDigit c \<longleftrightarrow> schar c \<ge> 48 \<and> schar c \<le> 57"

fun u_strlen :: "string \<Rightarrow> nat" where
  "u_strlen [] = 0"
| "u_strlen (c # str) = (if c \<noteq> NUL then u_strlen str + 1 else 0)"

fun u_strcpy :: "string \<Rightarrow> string" where
  "u_strcpy [] = []"
| "u_strcpy (c # src) = (if c \<noteq> NUL then c # u_strcpy src else [])"

definition strcpyForParam :: "string \<Rightarrow> string \<Rightarrow> string" where
  "strcpyForParam src src2 = u_strcpy src @ CHR '' '' # u_strcpy src2"

text \<open>\<^verbatim>\<open>strcmp\<close> of the user library compares signed characters.\<close>

fun u_strcmp :: "string \<Rightarrow> string \<Rightarrow> int" where
  "u_strcmp (a # as) (b # bs) =
    (if a \<noteq> NUL \<and> b \<noteq> NUL then
       if schar a - schar b \<noteq> 0 then schar a - schar b else u_strcmp as bs
     else schar a - schar b)"
| "u_strcmp as bs = schar (first_char as) - schar (first_char bs)"

definition u_random :: "'a user_st_scheme \<Rightarrow> (int \<times> 'a user_st_scheme) option" where
  "u_random u = do { (s, u1) \<leftarrow> ask SysGetSeconds u; Some (s mod 3, u1) }"

text \<open>\<^verbatim>\<open>charToInt\<close> on 64 bits; a character that is no digit makes the result \<^verbatim>\<open>-1\<close>, the largest value.\<close>

fun charToInt_loop :: "string \<Rightarrow> nat \<Rightarrow> nat" where
  "charToInt_loop [] ret = ret"
| "charToInt_loop (c # str) ret =
    (if c = NUL then ret
     else if \<not> isDigit c then 18446744073709551615
     else charToInt_loop str (wrap64 (wrap64 (ret * 10) + (of_char c - 48))))"

definition charToInt :: "string \<Rightarrow> nat" where
  "charToInt str = (if \<not> isDigit (first_char str) then 18446744073709551615 else charToInt_loop str 0)"

definition in_int :: "int \<Rightarrow> bool" where
  "in_int v \<longleftrightarrow> - 2147483648 \<le> v \<and> v \<le> 2147483647"

fun atoi_loop :: "string \<Rightarrow> int \<Rightarrow> int option" where
  "atoi_loop [] result = Some result"
| "atoi_loop (c # str) result =
    (if schar c \<ge> 48 \<and> schar c \<le> 57 then
       let r = result * 10 + (schar c - 48)
       in if in_int r then atoi_loop str r else None
     else Some result)"

fun skip_spaces :: "string \<Rightarrow> string" where
  "skip_spaces [] = []"
| "skip_spaces (c # str) = (if c = CHR '' '' then skip_spaces str else c # str)"

definition atoi :: "string \<Rightarrow> int option" where
  "atoi str0 =
    (let str = skip_spaces str0;
         c = first_char str;
         sign = (if c = CHR ''-'' then -1 else 1);
         digs = (if c = CHR ''-'' \<or> c = CHR ''+'' then tl str else str)
     in do { result \<leftarrow> atoi_loop digs 0; Some (sign * result) })"

text \<open>\<^verbatim>\<open>parse_int_token\<close>: \<open>Some None\<close> is the answer 0 (no number), \<open>Some (Some v)\<close> stores \<open>v\<close>.\<close>

fun parse_digits :: "string \<Rightarrow> int \<Rightarrow> int option option" where
  "parse_digits [] parsed = Some (Some parsed)"
| "parse_digits (c # token) parsed =
    (if c = NUL then Some (Some parsed)
     else if schar c < 48 \<or> schar c > 57 then Some None
     else let r = parsed * 10 + (schar c - 48) in if in_int r then parse_digits token r else None)"

definition parse_int_token :: "string option \<Rightarrow> int option option" where
  "parse_int_token token =
    (case token of None \<Rightarrow> Some None
     | Some t \<Rightarrow>
       if first_char t = NUL then Some None
       else if first_char t = CHR ''-'' then
         (if first_char (tl t) = NUL then Some None
          else map_option (map_option (\<lambda>p. -1 * p)) (parse_digits (tl t) 0))
       else parse_digits t 0)"

section \<open>Numbers as text\<close>

definition ul_uintToBase :: "nat \<Rightarrow> nat \<Rightarrow> (nat \<times> string) option" where
  "ul_uintToBase value base = do {
     ds \<leftarrow> digit_loop base value [];
     Some (length ds, reverse_loop 0 (length ds - 1) ds)
   }"

text \<open>The number is built in a static buffer of 64 characters: with its NUL it must fit there.\<close>

definition printBase :: "nat \<Rightarrow> nat \<Rightarrow> 'a user_st_scheme \<Rightarrow> 'a user_st_scheme option" where
  "printBase value base u = do {
     (digits, buffer) \<leftarrow> ul_uintToBase value base;
     if digits + 1 > 64 then None
     else Some (fold printc buffer u)
   }"

definition printDec :: "nat \<Rightarrow> 'a user_st_scheme \<Rightarrow> 'a user_st_scheme option" where
  "printDec value u = printBase value 10 u"

definition printHex :: "nat \<Rightarrow> 'a user_st_scheme \<Rightarrow> 'a user_st_scheme option" where
  "printHex value u = printBase value 16 u"

definition printBin :: "nat \<Rightarrow> 'a user_st_scheme \<Rightarrow> 'a user_st_scheme option" where
  "printBin value u = printBase value 2 u"

text \<open>\<^verbatim>\<open>uint64ToHex\<close>: sixteen digits, filled from the last.\<close>

fun hex_fill :: "nat \<Rightarrow> nat \<Rightarrow> string" where
  "hex_fill 0 n = []"
| "hex_fill (Suc k) n = hex_fill k (n div 16) @ [char_of (if n mod 16 < 10 then 48 + n mod 16 else 55 + n mod 16)]"

definition uint64ToHex :: "nat \<Rightarrow> string" where
  "uint64ToHex n = hex_fill 16 n"

definition register_names :: "string list" where
  "register_names = [''RIP'', ''RAX'', ''RBX'', ''RCX'', ''RDX'', ''RSI'', ''RDI'', ''RBP'', ''RSP'',
     ''R8 '', ''R9 '', ''R10'', ''R11'', ''R12'', ''R13'', ''R14'', ''R15'']"

abbreviation NL :: char where "NL \<equiv> CHR 0x0A"

fun print_registers :: "nat \<Rightarrow> (string \<times> nat) list \<Rightarrow> 'a user_st_scheme \<Rightarrow> 'a user_st_scheme" where
  "print_registers i [] u = u"
| "print_registers i ((nm, r) # rest) u =
    (let u1 = prints (''0x'' @ uint64ToHex r) 100 (prints '': '' 100 (prints nm 100 u))
     in print_registers (i + 1) rest (if i mod 4 = 3 then printc NL u1 else prints ''   '' 100 u1))"

text \<open>\<^verbatim>\<open>registerInfo\<close>; \<open>regs\<close> is what the call stored in the array.\<close>

definition registerInfo :: "nat list \<Rightarrow> 'a user_st_scheme \<Rightarrow> 'a user_st_scheme option" where
  "registerInfo regs u = do {
     (i, u1) \<leftarrow> ask SysRegisterInfo u;
     let u2 = printc NL u1;
     Some (if i = 1 then print_registers 0 (zip register_names regs) u2
           else prints (NL # ''ERROR: You must take a snapshot first. Press '' @ CHR 0x27 # ''Shift'' @ CHR 0x27 #
              '' and '' @ CHR 0x27 # ''S'' @ CHR 0x27 # '' at any time to take a snapshot.'' @ [NL]) 100 u2)
   }"

section \<open>\<^verbatim>\<open>itoa\<close> and \<^verbatim>\<open>utoa\<close>\<close>

definition hex_digits :: string where "hex_digits = ''0123456789abcdef''"

text \<open>Division of signed integers truncates; a digit outside the table is an access outside the string.\<close>

partial_function (option) itoa_loop :: "int \<Rightarrow> int \<Rightarrow> string \<Rightarrow> string option" where
  "itoa_loop base value str =
    (let rest = value sdiv base; d = value - rest * base
     in if d < 0 \<or> d > 15 then None
        else
          let str' = str @ [hex_digits ! nat d]
          in if rest \<noteq> 0 then itoa_loop base rest str' else Some str')"

definition itoa :: "int \<Rightarrow> int \<Rightarrow> string option" where
  "itoa value0 base =
    (let is_negative = (value0 < 0 \<and> base = 10);
         value = (if is_negative then - value0 else value0)
     in if value > 9223372036854775807 then None
     else do {
       ds \<leftarrow> itoa_loop base value [];
       let str = (if is_negative then ds @ ''-'' else ds);
       Some (reverse_loop 0 (length str - 1) str)
     })"

partial_function (option) utoa_loop :: "nat \<Rightarrow> nat \<Rightarrow> string \<Rightarrow> string option" where
  "utoa_loop base value str =
    (let rest = value div base; d = value - rest * base; str' = str @ [hex_digits ! d]
     in if rest \<noteq> 0 then utoa_loop base rest str' else Some str')"

definition utoa :: "nat \<Rightarrow> nat \<Rightarrow> string option" where
  "utoa value base = do {
     str \<leftarrow> utoa_loop base value [];
     Some (reverse_loop 0 (length str - 1) str)
   }"

declare itoa_loop.simps [code] utoa_loop.simps [code]

end
