(* ===== verification/Stdio.thy ===== *)
theory Stdio
  imports User_Lib
begin

text \<open>
  \<^verbatim>\<open>printf\<close>, \<^verbatim>\<open>sprintf\<close>, \<^verbatim>\<open>puts\<close> and \<^verbatim>\<open>putchar\<close> of \<^verbatim>\<open>lib/stdio.c\<close>. A variadic argument is a value of
  \<open>va\<close>; a missing argument, or one of another type than the format asks for, has no defined meaning in C
  and is \<open>None\<close>.
\<close>

datatype va = VInt int | VLong int | VUInt nat | VStr "string option"

text \<open>What the number conversions print, and the rest of the format and of the arguments.\<close>

fun conv_number :: "char \<Rightarrow> va \<Rightarrow> string option" where
  "conv_number c (VInt v) = (if c = CHR ''d'' \<or> c = CHR ''i'' then itoa v 10 else None)"
| "conv_number c (VLong v) = (if c = CHR ''l'' then itoa v 10 else None)"
| "conv_number c (VUInt v) =
    (if c = CHR ''u'' then utoa v 10 else if c = CHR ''x'' then utoa v 16 else None)"
| "conv_number c (VStr s) = None"

definition conv_str :: "va \<Rightarrow> string option" where
  "conv_str a = (case a of VStr None \<Rightarrow> Some [] | VStr (Some s) \<Rightarrow> Some (cstr s) | _ \<Rightarrow> None)"

definition conv_char :: "va \<Rightarrow> string option" where
  "conv_char a = (case a of VInt v \<Rightarrow> Some [char_of (nat (v mod 256))] | _ \<Rightarrow> None)"

definition take_arg :: "(va \<Rightarrow> string option) \<Rightarrow> va list \<Rightarrow> (string \<times> va list) option" where
  "take_arg conv args = (case args of [] \<Rightarrow> None | a # rest \<Rightarrow> do { s \<leftarrow> conv a; Some (s, rest) })"

text \<open>
  The conversion after a \<^verbatim>\<open>%\<close> of \<^verbatim>\<open>printf\<close>: the characters it produces and how many characters of the
  format it uses. A \<^verbatim>\<open>%\<close> that ends the format makes the loop step over the NUL.
\<close>

definition printf_conv :: "string \<Rightarrow> va list \<Rightarrow> (string \<times> nat \<times> va list) option" where
  "printf_conv fmt args =
    (let c = first_char fmt in
     if c = NUL then None
     else if c = CHR ''d'' \<or> c = CHR ''i'' then do { (s, r) \<leftarrow> take_arg (conv_number c) args; Some (s, 1, r) }
     else if c = CHR ''l'' \<and> first_char (tl fmt) = CHR ''d'' then
       do { (s, r) \<leftarrow> take_arg (conv_number c) args; Some (s, 2, r) }
     else if c = CHR ''u'' \<or> c = CHR ''x'' then do { (s, r) \<leftarrow> take_arg (conv_number c) args; Some (s, 1, r) }
     else if c = CHR ''s'' then do { (s, r) \<leftarrow> take_arg conv_str args; Some (s, 1, r) }
     else if c = CHR ''c'' then do { (s, r) \<leftarrow> take_arg conv_char args; Some (s, 1, r) }
     else if c = CHR ''%'' then Some (''%'', 1, args)
     else Some ([], 1, args))"

text \<open>
  The loop: \<open>buf\<close> is what the local buffer of 1024 characters holds, \<open>count\<close> the characters so far. More
  than the buffer holds is a write outside it; more than 1000 are flushed.
\<close>

definition flush :: "string \<Rightarrow> 'a user_st_scheme \<Rightarrow> (string \<times> 'a user_st_scheme) option" where
  "flush buf u =
    (if length buf > 1024 then None
     else if length buf > 1000 then Some ([], say (SysWriteFd 1 buf) u) else Some (buf, u))"

function printf_loop :: "string \<Rightarrow> va list \<Rightarrow> string \<Rightarrow> nat \<Rightarrow> 'a user_st_scheme \<Rightarrow> (nat \<times> 'a user_st_scheme) option" where
  "printf_loop [] args buf count u = Some (count, if buf \<noteq> [] then say (SysWriteFd 1 buf) u else u)"
| "printf_loop (c # fmt) args buf count u =
    (if c = NUL then Some (count, if buf \<noteq> [] then say (SysWriteFd 1 buf) u else u)
     else if c = CHR ''%'' then
       (case printf_conv fmt args of None \<Rightarrow> None
        | Some (s, n, args') \<Rightarrow>
          (case flush (buf @ s) u of None \<Rightarrow> None
           | Some (buf', u') \<Rightarrow> printf_loop (drop n fmt) args' buf' (count + length s) u'))
     else
       (case flush (buf @ [c]) u of None \<Rightarrow> None
        | Some (buf', u') \<Rightarrow> printf_loop fmt args buf' (count + 1) u'))"
  by pat_completeness auto
termination by (relation "measure (\<lambda>(fmt, _). length fmt)") auto

definition printf :: "string \<Rightarrow> va list \<Rightarrow> 'a user_st_scheme \<Rightarrow> (nat \<times> 'a user_st_scheme) option" where
  "printf format args u = printf_loop format args [] 0 u"

text \<open>\<^verbatim>\<open>sprintf\<close> knows fewer conversions: \<^verbatim>\<open>%u\<close>, \<^verbatim>\<open>%x\<close> and \<^verbatim>\<open>%%\<close> print nothing and take no argument.\<close>

definition sprintf_conv :: "string \<Rightarrow> va list \<Rightarrow> (string \<times> nat \<times> va list) option" where
  "sprintf_conv fmt args =
    (let c = first_char fmt in
     if c = NUL then None
     else if c = CHR ''d'' \<or> c = CHR ''i'' then do { (s, r) \<leftarrow> take_arg (conv_number c) args; Some (s, 1, r) }
     else if c = CHR ''l'' \<and> first_char (tl fmt) = CHR ''d'' then
       do { (s, r) \<leftarrow> take_arg (conv_number c) args; Some (s, 2, r) }
     else if c = CHR ''s'' then do { (s, r) \<leftarrow> take_arg conv_str args; Some (s, 1, r) }
     else if c = CHR ''c'' then do { (s, r) \<leftarrow> take_arg conv_char args; Some (s, 1, r) }
     else Some ([], 1, args))"

text \<open>The string left in the destination; its capacity is the caller's concern.\<close>

function sprintf_loop :: "string \<Rightarrow> va list \<Rightarrow> string \<Rightarrow> string option" where
  "sprintf_loop [] args str = Some str"
| "sprintf_loop (c # fmt) args str =
    (if c = NUL then Some str
     else if c = CHR ''%'' then
       (case sprintf_conv fmt args of None \<Rightarrow> None
        | Some (s, n, args') \<Rightarrow> sprintf_loop (drop n fmt) args' (str @ s))
     else sprintf_loop fmt args (str @ [c]))"
  by pat_completeness auto
termination by (relation "measure (\<lambda>(fmt, _). length fmt)") auto

definition sprintf :: "string \<Rightarrow> va list \<Rightarrow> string option" where
  "sprintf format args = sprintf_loop format args []"

definition puts :: "string option \<Rightarrow> 'a user_st_scheme \<Rightarrow> int \<times> 'a user_st_scheme" where
  "puts str u =
    (case str of None \<Rightarrow> (-1, u)
     | Some s \<Rightarrow> (let len = u_strlen s
                  in (int len + 1, say (SysWriteFd 1 [NL]) (say (SysWriteFd 1 (take len s)) u))))"

definition putchar :: "int \<Rightarrow> 'a user_st_scheme \<Rightarrow> int \<times> 'a user_st_scheme" where
  "putchar c u = (c mod 256, say (SysWriteFd 1 [char_of (nat (c mod 256))]) u)"

declare printf_loop.simps [simp del] sprintf_loop.simps [simp del]

section \<open>What the number conversions print\<close>

lemma hex_digits_nth: "d < 10 \<Longrightarrow> hex_digits ! d = base_digit d"
proof -
  assume "d < 10"
  moreover have "list_all (\<lambda>d. hex_digits ! d = base_digit d) [0..<10]" by code_simp
  ultimately show ?thesis by (simp add: list_all_iff)
qed

lemma itoa_loop_nat: "0 \<le> v \<Longrightarrow>
  itoa_loop 10 v str = Some (str @ map base_digit (rev (digits_of 10 (nat v))))"
proof (induction "nat v" arbitrary: v str rule: less_induct)
  case less
  let ?q = "v sdiv 10"
  have q: "?q = v div 10" using less.prems by (cases "v = 0") (simp_all add: signed_divide_int_def)
  have d: "v - v div 10 * 10 = v mod 10" by (simp add: minus_div_mult_eq_mod)
  have nm: "nat (v mod 10) = nat v mod 10" "nat (v div 10) = nat v div 10"
    using less.prems by (simp_all add: nat_mod_distrib nat_div_distrib)
  have bounds: "0 \<le> v mod 10" "v mod 10 < 10" by simp_all
  show ?case
  proof (cases "v < 10")
    case True
    then have "v div 10 = 0" using less.prems by simp
    moreover have "nat v < 10" "v mod 10 = v" using True less.prems by simp_all
    ultimately show ?thesis using True less.prems d nm
      by (subst itoa_loop.simps) (simp add: q Let_def digits_of_small hex_digits_nth)
  next
    case False
    then have nz: "v div 10 \<noteq> 0" "0 \<le> v div 10" using less.prems by auto
    have "nat (v div 10) < nat v" "10 \<le> nat v" using False by auto
    moreover have "\<not> v < v div 10 * 10" "\<not> 15 < v mod 10" using d bounds by linarith+
    ultimately show ?thesis using less.hyps [of "v div 10"] nz d nm
      by (subst itoa_loop.simps) (simp add: q Let_def digits_of_big [of 10 "nat v"] hex_digits_nth)
  qed
qed

definition decimal :: "nat \<Rightarrow> string" where
  "decimal n = map base_digit (digits_of 10 n)"

definition signed_decimal :: "int \<Rightarrow> string" where
  "signed_decimal v = (if v < 0 then CHR ''-'' # decimal (nat (- v)) else decimal (nat v))"

lemma itoa_decimal: "- 9223372036854775808 < v \<Longrightarrow> v \<le> 9223372036854775807 \<Longrightarrow> itoa v 10 = Some (signed_decimal v)"
  by (auto simp: itoa_def itoa_loop_nat reverse_loop_rev [of "_ @ [_]", simplified] signed_decimal_def
      decimal_def rev_map reverse_loop_rev [of "map _ (rev _)", simplified])

end
