(* ===== verification/User_Theorems.thy ===== *)
theory User_Theorems
  imports Stdio
begin

text \<open>Properties of the user library: numbers to text and back, and what printing a number needs.\<close>

section \<open>Decimal text\<close>

lemma schar_digit: "d < 10 \<Longrightarrow> schar (base_digit d) = 48 + int d"
  by (simp add: schar_def base_digit_eq Let_def)

lemma digit_not_NUL: "d < 10 \<Longrightarrow> base_digit d \<noteq> NUL"
  by (rule base_digit_no_NUL) simp

lemma digit_not_sign: "d < 10 \<Longrightarrow> base_digit d \<noteq> CHR ''-'' \<and> base_digit d \<noteq> CHR ''+'' \<and> base_digit d \<noteq> CHR '' ''"
proof -
  assume "d < 10"
  moreover have "list_all (\<lambda>d. base_digit d \<noteq> CHR ''-'' \<and> base_digit d \<noteq> CHR ''+'' \<and> base_digit d \<noteq> CHR '' '') [0..<10]"
    by code_simp
  ultimately show ?thesis by (simp add: list_all_iff)
qed

lemma foldl_digits_mono: "0 \<le> r \<Longrightarrow> r \<le> foldl (\<lambda>a d. a * 10 + int d) r ds"
proof (induction ds arbitrary: r)
  case (Cons d ds)
  then have "r * 10 + int d \<le> foldl (\<lambda>a d. a * 10 + int d) (r * 10 + int d) ds" by simp
  with Cons.prems show ?case by simp
qed simp

lemma foldl_digits_int: "foldl (\<lambda>a d. a * 10 + int d) (int r) ds = int (foldl (\<lambda>a d. a * 10 + d) r ds)"
proof (induction ds arbitrary: r)
  case (Cons d ds)
  have "int r * 10 + int d = int (r * 10 + d)" by simp
  then show ?case using Cons [of "r * 10 + d"] by simp
qed simp

lemma atoi_loop_digits:
  "list_all (\<lambda>d. d < 10) ds \<Longrightarrow> 0 \<le> r \<Longrightarrow> foldl (\<lambda>a d. a * 10 + int d) r ds \<le> 2147483647 \<Longrightarrow>
   atoi_loop (map base_digit ds) r = Some (foldl (\<lambda>a d. a * 10 + int d) r ds)"
proof (induction ds arbitrary: r)
  case (Cons d ds)
  have "r * 10 + int d \<le> 2147483647" "0 \<le> r * 10 + int d"
    using Cons.prems foldl_digits_mono [of "r * 10 + int d" ds] by auto
  then show ?case using Cons by (simp add: schar_digit in_int_def)
qed simp

lemma parse_digits_digits:
  "list_all (\<lambda>d. d < 10) ds \<Longrightarrow> 0 \<le> r \<Longrightarrow> foldl (\<lambda>a d. a * 10 + int d) r ds \<le> 2147483647 \<Longrightarrow>
   parse_digits (map base_digit ds) r = Some (Some (foldl (\<lambda>a d. a * 10 + int d) r ds))"
proof (induction ds arbitrary: r)
  case (Cons d ds)
  have "r * 10 + int d \<le> 2147483647" "0 \<le> r * 10 + int d"
    using Cons.prems foldl_digits_mono [of "r * 10 + int d" ds] by auto
  then show ?case using Cons by (simp add: schar_digit in_int_def digit_not_NUL)
qed simp

lemma digits10: "list_all (\<lambda>d. d < 10) (digits_of 10 n)"
  by (auto simp: list_all_iff intro: digits_of_less)

lemma foldl_decimal: "foldl (\<lambda>a d. a * 10 + int d) 0 (digits_of 10 n) = int n"
  using foldl_digits_int [of 0 "digits_of 10 n"] value_of_digits [of 10 n] by (simp add: value_of_def)

lemma decimal_Cons: "\<exists>d ds. d < 10 \<and> digits_of 10 n = d # ds \<and> decimal n = base_digit d # map base_digit ds"
proof -
  obtain d ds where "digits_of 10 n = d # ds" by (cases "digits_of 10 n") auto
  with digits10 [of n] show ?thesis by (auto simp: decimal_def)
qed

lemma atoi_loop_decimal: "n \<le> 2147483647 \<Longrightarrow> atoi_loop (decimal n) 0 = Some (int n)"
  using atoi_loop_digits [OF digits10, of 0 n] foldl_decimal [of n] by (simp add: decimal_def)

lemma parse_digits_decimal: "n \<le> 2147483647 \<Longrightarrow> parse_digits (decimal n) 0 = Some (Some (int n))"
  using parse_digits_digits [OF digits10, of 0 n] foldl_decimal [of n] by (simp add: decimal_def)

lemma charToInt_loop_digits:
  "list_all (\<lambda>d. d < 10) ds \<Longrightarrow> foldl (\<lambda>a d. a * 10 + d) r ds < 2 ^ 64 \<Longrightarrow>
   charToInt_loop (map base_digit ds) r = foldl (\<lambda>a d. a * 10 + d) r ds"
proof (induction ds arbitrary: r)
  case (Cons d ds)
  have mono: "s \<le> foldl (\<lambda>a d. a * 10 + d) s es" for s and es :: "nat list"
  proof (induction es arbitrary: s)
    case (Cons e es)
    from Cons [of "s * 10 + e"] show ?case by simp
  qed simp
  have "r * 10 + d < 2 ^ 64" using Cons.prems mono [of "r * 10 + d" ds] by simp
  then have "wrap64 (wrap64 (r * 10) + d) = r * 10 + d" by (simp add: wrap64_def)
  then show ?case using Cons by (simp add: digit_not_NUL isDigit_def schar_digit base_digit_eq)
qed simp

lemma charToInt_decimal: "n < 2 ^ 64 \<Longrightarrow> charToInt (decimal n) = n"
proof -
  assume "n < 2 ^ 64"
  moreover have "foldl (\<lambda>a d. a * 10 + d) 0 (digits_of 10 n) = n"
    using value_of_digits [of 10 n] by (simp add: value_of_def)
  ultimately have "charToInt_loop (decimal n) 0 = n"
    using charToInt_loop_digits [OF digits10, of 0 n] by (simp add: decimal_def)
  moreover obtain d ds where "d < 10" "decimal n = base_digit d # ds" using decimal_Cons by blast
  ultimately show ?thesis by (simp add: charToInt_def first_char_def isDigit_def schar_digit)
qed

section \<open>Properties\<close>

text \<open>C35. Numbers survive their text: for every \<^verbatim>\<open>int\<close> but the least, \<^verbatim>\<open>itoa\<close> returns a text that \<^verbatim>\<open>atoi\<close> and
  \<^verbatim>\<open>parse_int_token\<close> read back as the same number; and the digits of a 64-bit number are read back by
  \<^verbatim>\<open>charToInt\<close>. For the least \<^verbatim>\<open>int\<close> both parsers overflow.\<close>

theorem numbers_survive_text:
  assumes "- 2147483648 < v" "v \<le> 2147483647" "n < 2 ^ 64"
  shows "\<exists>str str'. itoa v 10 = Some str \<and> atoi str = Some v \<and> parse_int_token (Some str) = Some (Some v)
    \<and> ul_uintToBase n 10 = Some (length str', str') \<and> charToInt str' = n
    \<and> (\<exists>m. itoa (- 2147483648) 10 = Some m \<and> atoi m = None \<and> parse_int_token (Some m) = None)"
proof -
  have it: "itoa v 10 = Some (signed_decimal v)" using assms by (intro itoa_decimal) auto
  have "atoi (signed_decimal v) = Some v \<and> parse_int_token (Some (signed_decimal v)) = Some (Some v)"
  proof (cases "v < 0")
    case True
    obtain d ds where d: "d < 10" "decimal (nat (- v)) = base_digit d # ds" using decimal_Cons by blast
    have b: "nat (- v) \<le> 2147483647" using assms by simp
    show ?thesis
      using True d atoi_loop_decimal [OF b] parse_digits_decimal [OF b] digit_not_NUL [OF d(1)]
      by (simp add: signed_decimal_def atoi_def parse_int_token_def first_char_def)
  next
    case False
    obtain d ds where d: "d < 10" "decimal (nat v) = base_digit d # ds" using decimal_Cons by blast
    have b: "nat v \<le> 2147483647" using assms by simp
    show ?thesis
      using False d atoi_loop_decimal [OF b] parse_digits_decimal [OF b] digit_not_NUL [OF d(1)] digit_not_sign [OF d(1)]
      by (simp add: signed_decimal_def atoi_def parse_int_token_def first_char_def)
  qed
  moreover have "ul_uintToBase n 10 = Some (length (decimal n), decimal n)"
    by (simp add: ul_uintToBase_def digit_loop_eq decimal_def rev_map
        reverse_loop_rev [of "map base_digit (rev (digits_of 10 n))", simplified])
  moreover have "itoa (- 2147483648) 10 = Some ''-2147483648'' \<and> atoi ''-2147483648'' = None
      \<and> parse_int_token (Some ''-2147483648'') = None"
    by code_simp
  ultimately show ?thesis using it charToInt_decimal [OF assms(3)] by blast
qed

theorem numbers_survive_text_witness:
  "\<exists>str. itoa (-407) 10 = Some str \<and> atoi str = Some (-407)"
  using numbers_survive_text [of "-407" 18446744073709551615] by auto

text \<open>C36. Printing a number in a base from 2 to 36 ends and needs at most 64 digits and a NUL, one more than the
  static buffer of 64 characters holds; the only numbers that write past the buffer are those of 64 binary
  digits. Every other number is printed digit by digit, most significant first.\<close>

theorem printBase_prints_digits:
  assumes "2 \<le> base" "base \<le> 36" "n < 2 ^ 64"
  shows "length (digits_of base n) \<le> 64
    \<and> (length (digits_of base n) = 64 \<longleftrightarrow> base = 2 \<and> 2 ^ 63 \<le> n)
    \<and> printBase n base u =
        (if base = 2 \<and> 2 ^ 63 \<le> n then None
         else Some (say_all (map (\<lambda>d. SysWriteFd 1 [base_digit d]) (digits_of base n)) u))"
proof -
  have b: "1 < base" using assms(1) by simp
  have pow: "(2 :: nat) ^ k \<le> base ^ k" for k using assms(1) by (intro power_mono) auto
  have "n < base ^ 64" using assms(3) pow [of 64] by linarith
  then have len: "length (digits_of base n) \<le> 64" using digits_of_length [OF b, of 64 n] by simp
  have "length (digits_of base n) \<le> 63 \<longleftrightarrow> n < base ^ 63" using digits_of_length [OF b, of 63 n] by simp
  moreover have "n < base ^ 63" if "base \<noteq> 2"
  proof -
    have "(3 :: nat) ^ 63 \<le> base ^ 63" using that assms(1) by (intro power_mono) auto
    moreover have "(2 :: nat) ^ 64 < 3 ^ 63" by simp
    ultimately show ?thesis using assms(3) by linarith
  qed
  ultimately have eq: "length (digits_of base n) = 64 \<longleftrightarrow> base = 2 \<and> 2 ^ 63 \<le> n" using len by (cases "base = 2") auto
  have print: "fold printc (map base_digit ds) u = say_all (map (\<lambda>d. SysWriteFd 1 [base_digit d]) ds) u" for ds and u :: "'a user_st_scheme"
    by (induction ds arbitrary: u) (simp_all add: printc_def)
  have "ul_uintToBase n base = Some (length (digits_of base n), map base_digit (digits_of base n))"
    using b by (simp add: ul_uintToBase_def digit_loop_eq rev_map
        reverse_loop_rev [of "map base_digit (rev (digits_of base n))", simplified])
  then show ?thesis using len eq print by (auto simp: printBase_def)
qed

theorem printBase_prints_digits_witness:
  "printBase (2 ^ 63) 2 \<lparr>trace = [], replies = []\<rparr> = None
   \<and> printBase 42 16 \<lparr>trace = [], replies = []\<rparr> = Some \<lparr>trace = [(SysWriteFd 1 ''2'', None), (SysWriteFd 1 ''A'', None)], replies = []\<rparr>"
proof -
  have "digits_of 16 42 = [2, 10]" by (simp add: digits_of.simps)
  moreover have "base_digit 2 = CHR ''2''" "base_digit 10 = CHR ''A''" by code_simp+
  ultimately show ?thesis
    using printBase_prints_digits [of 2 "2 ^ 63" "\<lparr>trace = [], replies = []\<rparr>"]
      printBase_prints_digits [of 16 42 "\<lparr>trace = [], replies = []\<rparr>"]
    by (simp add: say_def)
qed

end
