(* ===== verification/Mvar.thy ===== *)
theory Mvar
  imports Stdio
begin

unbundle bit_operations_syntax

text \<open>
  \<^verbatim>\<open>programs/mvar.c\<close>: a variable shared by writers and readers, guarded by the semaphores \<open>empty\<close> and
  \<open>full\<close>. User programs share one address space, so the table of contexts is part of the state of every
  program that uses it. The endless loops of the processes are given by their body; \<open>mvar_step\<close> is any
  interleaving of the bodies.
\<close>

definition MVAR_MAX_WRITERS :: nat where [const_defs]: "MVAR_MAX_WRITERS = 26"
definition MVAR_MAX_READERS :: nat where [const_defs]: "MVAR_MAX_READERS = 14"
definition MVAR_MAX_INSTANCES :: nat where [const_defs]: "MVAR_MAX_INSTANCES = 4"

record mvar_context =
  mv_in_use :: bool
  mv_id :: int
  mv_value :: char
  sem_empty_name :: string
  sem_full_name :: string

record mvar_st = user_st +
  contexts :: "mvar_context list"
  next_ctx_id :: int

record mvar_launch_info =
  context_id :: int
  writer_pids :: "int list"
  reader_pids :: "int list"
  writer_names :: "string list"
  reader_names :: "string list"

definition reader_palette :: "(string \<times> ucolor) list" where
  "reader_palette =
    [(''red'', RED), (''green'', GREEN), (''blue'', BLUE), (''yellow'', YELLOW), (''cyan'', CYAN),
     (''orange'', ORANGE), (''purple'', PURPLE), (''pink'', PINK), (''lightgreen'', LIGHT_GREEN),
     (''lightblue'', LIGHT_BLUE), (''lightpurple'', LIGHT_PURPLE), (''lightorange'', LIGHT_ORANGE),
     (''lightyellow'', LIGHT_YELLOW), (''lightpink'', LIGHT_PINK)]"

definition contexts_boot :: "mvar_context list" where
  "contexts_boot = replicate MVAR_MAX_INSTANCES
     \<lparr>mv_in_use = False, mv_id = 0, mv_value = NUL, sem_empty_name = [], sem_full_name = []\<rparr>"

section \<open>Waiting a random time\<close>

definition rng_step :: "32 word \<Rightarrow> 32 word" where
  "rng_step x0 =
    (let x1 = x0 XOR push_bit 13 x0; x2 = x1 XOR drop_bit 17 x1 in x2 XOR push_bit 5 x2)"

fun yield_loop :: "nat \<Rightarrow> nat \<Rightarrow> 'a user_st_scheme \<Rightarrow> 'a user_st_scheme" where
  "yield_loop i 0 u = u"
| "yield_loop i (Suc n) u = yield_loop (i + 1) n (if i mod 1024 = 0 then say SysYield u else u)"

definition active_random_wait :: "32 word \<Rightarrow> 'a user_st_scheme \<Rightarrow> 32 word \<times> 'a user_st_scheme" where
  "active_random_wait st u =
    (let st' = rng_step st in (st', yield_loop 0 (unat st' mod 60000 + 4000) u))"

section \<open>Contexts\<close>

fun find_index :: "('a \<Rightarrow> bool) \<Rightarrow> 'a list \<Rightarrow> nat option" where
  "find_index P [] = None"
| "find_index P (x # xs) = (if P x then Some 0 else map_option Suc (find_index P xs))"

definition ctx_lookup :: "int \<Rightarrow> 'a mvar_st_scheme \<Rightarrow> nat option" where
  "ctx_lookup i u = find_index (\<lambda>c. mv_in_use c \<and> mv_id c = i) (contexts u)"

definition ctx_allocate :: "'a mvar_st_scheme \<Rightarrow> (nat option \<times> 'a mvar_st_scheme) option" where
  "ctx_allocate u =
    (case find_index (\<lambda>c. \<not> mv_in_use c) (contexts u) of
       None \<Rightarrow> Some (None, u)
     | Some i \<Rightarrow> do {
         let n = next_ctx_id u;
         en \<leftarrow> sprintf ''mvar_empty_%d'' [VInt n];
         fn \<leftarrow> sprintf ''mvar_full_%d'' [VInt n];
         if \<not> in_int (n + 1) then None
         else Some (Some i, u\<lparr>next_ctx_id := n + 1,
                contexts := (contexts u)[i := \<lparr>mv_in_use = True, mv_id = n, mv_value = NUL,
                  sem_empty_name = en, sem_full_name = fn\<rparr>]\<rparr>)
       })"

section \<open>The processes\<close>

text \<open>Opening both semaphores; on failure those that were opened are closed again.\<close>

definition open_sems :: "nat \<Rightarrow> 'a mvar_st_scheme \<Rightarrow> ((int \<times> int) option \<times> 'a mvar_st_scheme) option" where
  "open_sems i u = do {
     (se, u1) \<leftarrow> ask (SysSemOpen (sem_empty_name (contexts u ! i)) 1) u;
     (sf, u2) \<leftarrow> ask (SysSemOpen (sem_full_name (contexts u1 ! i)) 0) u1;
     if se < 0 \<or> sf < 0 then
       let u3 = (if se \<ge> 0 then say (SysSemClose se) u2 else u2);
           u4 = (if sf \<ge> 0 then say (SysSemClose sf) u3 else u3)
       in Some (None, u4)
     else Some (Some (se, sf), u2)
   }"

text \<open>
  What a process is after its start: ended, or in its loop with the context, the two semaphores, its
  letter or colour and the state of its random numbers. \<open>argv\<close> is the address of the array and the texts.
\<close>

datatype mvar_proc =
    Ended int
  | Writing nat int int char "32 word"
  | Reading nat int int ucolor "32 word"

definition writer_start :: "int \<Rightarrow> nat \<Rightarrow> string list \<Rightarrow> 'a mvar_st_scheme \<Rightarrow> (mvar_proc \<times> 'a mvar_st_scheme) option" where
  "writer_start argc argv args u =
    (if argc < 3 then Some (Ended (-1), say (SysExit (-1)) u)
     else if length args < 3 then None
     else do {
       i \<leftarrow> atoi (args ! 0);
       let letter = first_char (args ! 1);
       widx \<leftarrow> atoi (args ! 2);
       let u1 = (if argv \<noteq> 0 then u_free argv u else u);
       case ctx_lookup i u1 of
         None \<Rightarrow> Some (Ended (-1), say (SysExit (-1)) u1)
       | Some c \<Rightarrow> do {
           (sems, u2) \<leftarrow> open_sems c u1;
           case sems of
             None \<Rightarrow> Some (Ended (-1), say (SysExit (-1)) u2)
           | Some (se, sf) \<Rightarrow> do {
               (pd, u3) \<leftarrow> ask SysGetpid u2;
               Some (Writing c se sf letter (word_of_int pd XOR (word_of_int widx * 6971)), u3)
             }
         }
     })"

definition reader_start :: "int \<Rightarrow> nat \<Rightarrow> string list \<Rightarrow> 'a mvar_st_scheme \<Rightarrow> (mvar_proc \<times> 'a mvar_st_scheme) option" where
  "reader_start argc argv args u =
    (if argc < 3 then Some (Ended (-1), say (SysExit (-1)) u)
     else if length args < 3 then None
     else do {
       i \<leftarrow> atoi (args ! 0);
       ridx \<leftarrow> atoi (args ! 1);
       cidx \<leftarrow> atoi (args ! 2);
       let u1 = (if argv \<noteq> 0 then u_free argv u else u);
       case ctx_lookup i u1 of
         None \<Rightarrow> Some (Ended (-1), say (SysExit (-1)) u1)
       | Some c \<Rightarrow> do {
           (sems, u2) \<leftarrow> open_sems c u1;
           case sems of
             None \<Rightarrow> Some (Ended (-1), say (SysExit (-1)) u2)
           | Some (se, sf) \<Rightarrow>
               if cidx < 0 then None
               else do {
                 (pd, u3) \<leftarrow> ask SysGetpid u2;
                 Some (Reading c se sf (snd (reader_palette ! (nat cidx mod length reader_palette)))
                   (word_of_int pd XOR (word_of_int ridx * 9151)), u3)
               }
         }
     })"

text \<open>One turn of each loop, from one random wait to the next.\<close>

definition writer_round :: "nat \<Rightarrow> int \<Rightarrow> int \<Rightarrow> char \<Rightarrow> 32 word \<Rightarrow> 'a mvar_st_scheme \<Rightarrow> 32 word \<times> 'a mvar_st_scheme" where
  "writer_round c se sf letter st u =
    (let (st', u1) = active_random_wait st u;
         u2 = say (SysSemWait se) u1;
         u3 = u2\<lparr>contexts := (contexts u2)[c := (contexts u2 ! c)\<lparr>mv_value := letter\<rparr>]\<rparr>
     in (st', say (SysSemPost sf) u3))"

definition reader_round :: "nat \<Rightarrow> int \<Rightarrow> int \<Rightarrow> ucolor \<Rightarrow> 32 word \<Rightarrow> 'a mvar_st_scheme \<Rightarrow> 32 word \<times> 'a mvar_st_scheme" where
  "reader_round c se sf col st u =
    (let (st', u1) = active_random_wait st u;
         u2 = say (SysSemWait sf) u1;
         v = mv_value (contexts u2 ! c);
         u3 = say (SysSemPost se) u2
     in (st', say SysYield (printcColor v col u3)))"

section \<open>Starting the demo\<close>

text \<open>The array and the three strings of one process; \<open>sizes\<close> are the sizes the code asks for.\<close>

definition alloc_args :: "nat list \<Rightarrow> 'a user_st_scheme \<Rightarrow> ((nat \<times> nat list) option \<times> 'a user_st_scheme) option" where
  "alloc_args sizes u = do {
     (argv, u1) \<leftarrow> u_malloc 32 u;
     if argv = 0 then Some (None, u1)
     else do {
       (a0, u2) \<leftarrow> u_malloc (sizes ! 0) u1;
       (a1, u3) \<leftarrow> u_malloc (sizes ! 1) u2;
       (a2, u4) \<leftarrow> u_malloc (sizes ! 2) u3;
       if a0 = 0 \<or> a1 = 0 \<or> a2 = 0 then
         let u5 = (if a0 \<noteq> 0 then u_free a0 u4 else u4);
             u6 = (if a1 \<noteq> 0 then u_free a1 u5 else u5);
             u7 = (if a2 \<noteq> 0 then u_free a2 u6 else u6)
         in Some (None, u_free argv u7)
       else Some (Some (argv, [a0, a1, a2]), u4)
     }
   }"

fun start_writers :: "nat \<Rightarrow> nat \<Rightarrow> int \<Rightarrow> mvar_launch_info \<Rightarrow> 'a mvar_st_scheme \<Rightarrow>
    ((int \<times> mvar_launch_info) \<times> 'a mvar_st_scheme) option" where
  "start_writers w 0 cid info u = Some ((0, info), u)"
| "start_writers w (Suc n) cid info u = do {
     (av, u1) \<leftarrow> alloc_args [16, 4, 16] u;
     case av of
       None \<Rightarrow> Some ((-1, info), u1)
     | Some (argv, addrs) \<Rightarrow> do {
         arg0 \<leftarrow> sprintf ''%d'' [VInt cid];
         arg1 \<leftarrow> sprintf ''%c'' [VInt (65 + int w)];
         arg2 \<leftarrow> sprintf ''%d'' [VInt (int w)];
         nm \<leftarrow> sprintf ''mvar-writer-%c'' [VInt (65 + int w)];
         (pd, u2) \<leftarrow> ask (SysCreateProcess ''writer_process'' 3 argv [arg0, arg1, arg2] nm 2 0) u1;
         if pd < 0 then Some ((-1, info), u2)
         else start_writers (w + 1) n cid
           (info\<lparr>writer_pids := (writer_pids info)[w := pd], writer_names := (writer_names info)[w := nm]\<rparr>) u2
       }
   }"

fun start_readers :: "nat \<Rightarrow> nat \<Rightarrow> int \<Rightarrow> mvar_launch_info \<Rightarrow> 'a mvar_st_scheme \<Rightarrow>
    ((int \<times> mvar_launch_info) \<times> 'a mvar_st_scheme) option" where
  "start_readers r 0 cid info u = Some ((0, info), u)"
| "start_readers r (Suc n) cid info u = do {
     (av, u1) \<leftarrow> alloc_args [16, 16, 16] u;
     case av of
       None \<Rightarrow> Some ((-1, info), u1)
     | Some (argv, addrs) \<Rightarrow> do {
         arg0 \<leftarrow> sprintf ''%d'' [VInt cid];
         arg1 \<leftarrow> sprintf ''%d'' [VInt (int r)];
         arg2 \<leftarrow> sprintf ''%d'' [VInt (int r)];
         nm \<leftarrow> sprintf ''mvar-reader-%s'' [VStr (Some (fst (reader_palette ! (r mod length reader_palette))))];
         (pd, u2) \<leftarrow> ask (SysCreateProcess ''reader_process'' 3 argv [arg0, arg1, arg2] nm 2 0) u1;
         if pd < 0 then Some ((-1, info), u2)
         else start_readers (r + 1) n cid
           (info\<lparr>reader_pids := (reader_pids info)[r := pd], reader_names := (reader_names info)[r := nm]\<rparr>) u2
       }
   }"

definition info_init :: "int \<Rightarrow> mvar_launch_info" where
  "info_init cid = \<lparr>context_id = cid, writer_pids = replicate MVAR_MAX_WRITERS (-1),
     reader_pids = replicate MVAR_MAX_READERS (-1), writer_names = replicate MVAR_MAX_WRITERS [],
     reader_names = replicate MVAR_MAX_READERS []\<rparr>"

text \<open>\<^verbatim>\<open>mvar_start\<close> with a place for the launch information, as the shell calls it.\<close>

definition mvar_start :: "int \<Rightarrow> int \<Rightarrow> 'a mvar_st_scheme \<Rightarrow> ((int \<times> mvar_launch_info) \<times> 'a mvar_st_scheme) option" where
  "mvar_start writer_count reader_count u =
    (if writer_count \<le> 0 \<or> reader_count \<le> 0 \<or> writer_count > int MVAR_MAX_WRITERS \<or> reader_count > int MVAR_MAX_READERS
     then Some ((-1, info_init 0), u)
     else do {
       (c, u1) \<leftarrow> ctx_allocate u;
       case c of None \<Rightarrow> Some ((-1, info_init 0), u1)
       | Some i \<Rightarrow> do {
           (sems, u2) \<leftarrow> open_sems i u1;
           case sems of
             None \<Rightarrow> Some ((-1, info_init 0),
                 u2\<lparr>contexts := (contexts u2)[i := (contexts u2 ! i)\<lparr>mv_in_use := False\<rparr>]\<rparr>)
           | Some (se, sf) \<Rightarrow> do {
               let u3 = say (SysSemClose sf) (say (SysSemClose se) u2);
               let cid = mv_id (contexts u3 ! i);
               ((r, info), u4) \<leftarrow> start_writers 0 (nat writer_count) cid (info_init cid) u3;
               if r < 0 then Some ((-1, info), u4)
               else start_readers 0 (nat reader_count) cid info u4
             }
         }
     })"

section \<open>The shared variable under every interleaving\<close>

text \<open>
  Where each process is in its turn. A semaphore is its count: a wait is a step that is possible while the
  count is positive, a post raises it. \<open>wrote\<close> and \<open>got\<close> record what was stored and what was loaded.
\<close>

datatype writer_pc = WWait | WStore | WPost
datatype reader_pc = RWait | RLoad | RPost char | RPrint char

record mvar_run =
  sem_empty :: nat
  sem_full :: nat
  cell :: char
  wpc :: "nat \<Rightarrow> writer_pc"
  rpc :: "nat \<Rightarrow> reader_pc"
  wrote :: string
  got :: string

text \<open>\<open>nw\<close> and \<open>nr\<close> are the numbers of writers and readers, \<open>letter\<close> gives each writer's letter.\<close>

inductive writer_step :: "nat \<Rightarrow> (nat \<Rightarrow> char) \<Rightarrow> mvar_run \<Rightarrow> mvar_run \<Rightarrow> bool" for nw letter where
  w_wait: "w < nw \<Longrightarrow> wpc s w = WWait \<Longrightarrow> 0 < sem_empty s \<Longrightarrow>
     writer_step nw letter s (s\<lparr>sem_empty := sem_empty s - 1, wpc := (wpc s)(w := WStore)\<rparr>)"
| w_store: "w < nw \<Longrightarrow> wpc s w = WStore \<Longrightarrow>
     writer_step nw letter s (s\<lparr>cell := letter w, wrote := wrote s @ [letter w], wpc := (wpc s)(w := WPost)\<rparr>)"
| w_post: "w < nw \<Longrightarrow> wpc s w = WPost \<Longrightarrow>
     writer_step nw letter s (s\<lparr>sem_full := sem_full s + 1, wpc := (wpc s)(w := WWait)\<rparr>)"

inductive reader_step :: "nat \<Rightarrow> mvar_run \<Rightarrow> mvar_run \<Rightarrow> bool" for nr where
  r_wait: "r < nr \<Longrightarrow> rpc s r = RWait \<Longrightarrow> 0 < sem_full s \<Longrightarrow>
     reader_step nr s (s\<lparr>sem_full := sem_full s - 1, rpc := (rpc s)(r := RLoad)\<rparr>)"
| r_load: "r < nr \<Longrightarrow> rpc s r = RLoad \<Longrightarrow>
     reader_step nr s (s\<lparr>got := got s @ [cell s], rpc := (rpc s)(r := RPost (cell s))\<rparr>)"
| r_post: "r < nr \<Longrightarrow> rpc s r = RPost c \<Longrightarrow>
     reader_step nr s (s\<lparr>sem_empty := sem_empty s + 1, rpc := (rpc s)(r := RPrint c)\<rparr>)"
| r_print: "r < nr \<Longrightarrow> rpc s r = RPrint c \<Longrightarrow> reader_step nr s (s\<lparr>rpc := (rpc s)(r := RWait)\<rparr>)"

definition mvar_step :: "nat \<Rightarrow> nat \<Rightarrow> (nat \<Rightarrow> char) \<Rightarrow> mvar_run \<Rightarrow> mvar_run \<Rightarrow> bool" where
  "mvar_step nw nr letter s s' \<longleftrightarrow> writer_step nw letter s s' \<or> reader_step nr s s'"

definition mvar_begin :: mvar_run where
  "mvar_begin = \<lparr>sem_empty = 1, sem_full = 0, cell = NUL, wpc = (\<lambda>_. WWait), rpc = (\<lambda>_. RWait),
     wrote = [], got = []\<rparr>"

inductive mvar_reach :: "nat \<Rightarrow> nat \<Rightarrow> (nat \<Rightarrow> char) \<Rightarrow> mvar_run \<Rightarrow> bool" for nw nr letter where
  at_start: "mvar_reach nw nr letter mvar_begin"
| more: "mvar_reach nw nr letter s \<Longrightarrow> mvar_step nw nr letter s s' \<Longrightarrow> mvar_reach nw nr letter s'"

inductive_cases writer_stepE: "writer_step nw letter s s'"
inductive_cases reader_stepE: "reader_step nr s s'"

end
