(* ===== verification/Mvar_Theorems.thy ===== *)
theory Mvar_Theorems
  imports Mvar
begin















end
