(* ===== verification/Ascii_Art.thy ===== *)
theory Ascii_Art
  imports User_Lib
begin

text \<open>The pictures of \<^verbatim>\<open>include/ascii.h\<close> that the command \<^verbatim>\<open>ascii\<close> chooses from.\<close>

abbreviation APOS :: char where "APOS \<equiv> CHR 0x27"

definition ascii_JesusIsKing :: "string list" where
  "ascii_JesusIsKing =
   [''                           |       |'',
    ''                            |~~~~~|'',
    ''                         |  I N R I  |'',
    ''                         |_________|'',
    ''                           |       |'',
    ''|.'' @ [CHR 0x5C] @ [CHR 0x5C] @ ''~~~~xx~         ~~~~~~~///;|'',
    ''|  '' @ [CHR 0x5C] @ ''  o '' @ [CHR 0x5C] @ ''_         ,XXXXX),                         _..-~ o /  |'',
    ''|    ~'' @ [CHR 0x5C] @ ''  ~-.     XXXXX'' @ [CHR 0x60] @ '')))),                 _.--~   .-~   |'',
    '' ~~'' @ [CHR 0x60] @ [CHR 0x5C] @ ''   ~'' @ [CHR 0x5C] @ ''~XXX'' @ [APOS] @ '' _/ '' @ [APOS] @ '';))     |~~..-     _.-~ ~~~'',
    ''          '' @ [CHR 0x60] @ [CHR 0x5C] @ ''   ~--'' @ [CHR 0x60] @ [CHR 0x5C] @ [CHR 0x5C] @ '', ;;;'' @ [CHR 0x5C] @ '')_.---.~      _.-~'',
    ''            -.       '' @ [CHR 0x60] @ '':;;/;; '' @ [CHR 0x5C] @ ''          _..-~'',
    ''               -._      '' @ [CHR 0x60] @ [APOS] @ [APOS] @ ''        /--~'',
    ''                   '' @ [CHR 0x60] @ [CHR 0x5C] @ ''              /  /'',
    ''                     |         ,   | |'',
    ''                      |  '' @ [APOS] @ ''        /  |'',
    ''                       '' @ [CHR 0x5C] @ ''/;          |'',
    ''                        ;;          |'',
    ''                        '' @ [CHR 0x60] @ '';   .       |'',
    ''                        |~-----.....|'',
    ''                       | '' @ [CHR 0x5C] @ ''             '' @ [CHR 0x5C],
    ''                      | /'' @ [CHR 0x5C] @ ''~~--...__    |'',
    ''                      (|  '' @ [CHR 0x60] @ [CHR 0x5C] @ ''       __-'' @ [CHR 0x5C] @ ''|'',
    ''                      ||    '' @ [CHR 0x5C] @ ''_   /~    |'',
    ''                      |)     '' @ [CHR 0x5C] @ ''~-'' @ [APOS] @ ''      |'',
    ''                       |      | '' @ [CHR 0x5C] @ ''      '' @ [APOS],
    ''                       |      |  '' @ [CHR 0x5C] @ ''    :'',
    ''                        '' @ [CHR 0x5C] @ ''     |  |    |'',
    ''                         |    )  (    )'',
    ''                          '' @ [CHR 0x5C] @ ''  /;  /'' @ [CHR 0x5C] @ ''  |'',
    ''                          |    |/   |'',
    ''                          |    |   |'',
    ''                           '' @ [CHR 0x5C] @ ''  .'' @ [APOS] @ ''  ||'',
    ''                           |  |  | |'',
    ''                           (  | |  |'',
    ''                           |   '' @ [CHR 0x5C] @ '' '' @ [CHR 0x5C] @ '' |'',
    ''                           || o '' @ [CHR 0x60] @ ''.)|'',
    ''                           |'' @ [CHR 0x60] @ [CHR 0x5C] @ [CHR 0x5C] @ [CHR 0x5C] @ '') |'',
    ''                           |       |'',
    ''                           |       |'',
    ''                           |       |'']"

definition ascii_artGun :: "string list" where
  "ascii_artGun =
   [''      .____.'',
    ''   xuu$'' @ [CHR 0x60] @ [CHR 0x60] @ ''$$$uuu.'',
    '' . $'' @ [CHR 0x60] @ [CHR 0x60] @ ''$  $$$'' @ [CHR 0x60] @ ''$$$'',
    ''dP*$  $  $$$ $$$'',
    ''?k $  $  $$$ $$$'',
    '' $ $  $  $$$ $$$'',
    '' '' @ [CHR 0x22] @ '':$  $  $$$ $$$'',
    ''  N$  $  $$$ $$$'',
    ''  $$  $  $$$ $$$'',
    ''   $  $  $$$ $$$'',
    ''   $  $  $$$ $$$'',
    ''   $  $  $$$ $$$'',
    ''   $  $  $$$ $$$'',
    ''   $  $  $$$ $$$'',
    ''   $$#$  $$$ $$$'',
    ''   $$'' @ [APOS] @ ''$  $$$ $$$'',
    ''   $$'' @ [CHR 0x60] @ ''R  $$$ $$$'',
    ''   $$$&  $$$ $$$'',
    ''   $#*$  $$$ $$$'',
    ''   $  $  $$$ @$$'',
    ''   $  $  $$$ $$$'',
    ''   $  $  $$$ $$$'',
    ''   $  $  $B$ $$&.'',
    ''   $  $  $D$ $$$$$muL.'',
    ''   $  $  $Q$ $$$$$  '' @ [CHR 0x60] @ [CHR 0x22] @ ''**mu..'',
    ''   $  $  $R$ $$$$$    k  '' @ [CHR 0x60] @ ''$$*t'',
    ''   $  @  $$$ $$$$$    k   $$!4'',
    ''   $ x$uu@B8u$NB@$uuuu6...$$X?'',
    ''   $ $('' @ [CHR 0x60] @ ''RF'' @ [CHR 0x60] @ ''$'' @ [CHR 0x60] @ [CHR 0x60] @ [CHR 0x60] @ [CHR 0x60] @ [CHR 0x60] @ ''R$ $$5'' @ [CHR 0x60] @ [CHR 0x22] @ [CHR 0x22] @ [CHR 0x22] @ ''#'' @ [CHR 0x22] @ ''R'',
    ''   $ $'' @ [CHR 0x22] @ '' M$ $     $$ $$$      ?'',
    ''   $ $  ?$ $     T$ $$$      $'',
    ''   $ $F H$ $     M$ $$K      $  ..'',
    ''   $ $L $$ $     $$ $$R.     '' @ [CHR 0x22] @ ''d$$$$Ns.'',
    ''   $ $~ $$ $     N$ $$X      .'' @ [CHR 0x22] @ ''    '' @ [CHR 0x22] @ ''%2h'',
    ''   $ 4k f  $     *$ $$&      R       '' @ [CHR 0x22] @ ''iN'',
    ''   $ $$ %uz!     tuuR$$:     Buu      ?'' @ [CHR 0x60] @ '':'',
    ''   $ $F          $??$8B      | '' @ [APOS] @ ''*Ned*$~L$'',
    ''   $ $k          $'' @ [APOS] @ ''@$$$      |$.suu+!'' @ [APOS] @ '' !$'',
    ''   $ ?N          $'' @ [APOS] @ ''$$@$      $*'' @ [CHR 0x60] @ ''      d:'' @ [CHR 0x22],
    ''   $ dL..........M.$&$$      5       d'' @ [CHR 0x22] @ ''P'',
    '' ..$.^'' @ [CHR 0x22] @ ''*I$RR*$C'' @ [CHR 0x22] @ [CHR 0x22] @ ''??77*?      '' @ [CHR 0x22] @ ''nu...n*L*'',
    [APOS] @ ''$C'' @ [CHR 0x22] @ ''R   '' @ [CHR 0x60] @ [CHR 0x60] @ [CHR 0x22] @ [CHR 0x22] @ ''!$*@#'' @ [CHR 0x22] @ [CHR 0x22] @ [CHR 0x60] @ '' .uor    bu8BUU+!'' @ [CHR 0x60],
    [APOS] @ ''*@m@.       *d'' @ [CHR 0x22] @ ''     *$Rouxxd'' @ [CHR 0x22] @ [CHR 0x60] @ [CHR 0x60] @ [CHR 0x60] @ ''$'',
    ''     R*@mu.           '' @ [CHR 0x22] @ ''#$R *$    !'',
    ''     *%x. '' @ [CHR 0x22] @ ''*L               $     %.'',
    ''        '' @ [CHR 0x22] @ ''N  '' @ [CHR 0x60] @ ''%.      ...u.d!'' @ [CHR 0x60] @ '' ..ue$$$o..'',
    ''         @    '' @ [CHR 0x22] @ ''.    $*'' @ [CHR 0x22] @ [CHR 0x22] @ [CHR 0x22] @ [CHR 0x22] @ '' .u$$$$$$$$$$$$beu...'',
    ''        8  .mL %  :R'' @ [CHR 0x60] @ ''     x$$$$$$$$$$$$$$$$$$$$$$$$$$WmeemeeWc'',
    ''       |$e!'' @ [CHR 0x22] @ '' '' @ [CHR 0x22] @ ''s:k 4      d$N'' @ [CHR 0x60] @ [CHR 0x22] @ [CHR 0x22] @ ''#$$$$$$$$$$$$$$$$$$$$$$$$$$$$$>'',
    ''       $$      '' @ [CHR 0x22] @ ''N @      $?$    F$$$$$$$$$$$$$$$$$$$$$$$$$$$$>'',
    ''       $@       ^%Uu..   R#8buu$$$$$$$$$$$$$$$$$$$$$$$$$$$$$$>'',
    ''                  '' @ [CHR 0x60] @ [CHR 0x60] @ [CHR 0x60] @ [CHR 0x22] @ [CHR 0x22] @ ''*u$$$$$$$$$$$$$$$$$$$$$$$$$$$$$$$$$$$$>'',
    ''                         #$$$$$$$$$$$$$$$$$$$$$$$$$$$$$$$$$$$>'',
    ''                          '' @ [CHR 0x22] @ ''5$$$$$$$$$$$$$$$$$$$$$$$$$$$$$$$$$>'',
    ''                            '' @ [CHR 0x60] @ ''*$$$$$$$$$$$$$$$$$$$$$$$$$$$$$$$>'',
    ''                              ^#$$$$$$$$$$$$$$$$$$$$$$$$$$$$$>'',
    ''                                 '' @ [CHR 0x22] @ ''*$$$$$$$$$$$$$$$$$$$$$$$$$$>'',
    ''                                   '' @ [CHR 0x60] @ [CHR 0x22] @ ''*$$$$$$$$$$$$$$$$$$$$$$$>'',
    ''                                       ^!$$$$$$$$$$$$$$$$$$$$>'',
    ''                                           '' @ [CHR 0x60] @ [CHR 0x22] @ ''#+$$$$$$$$$$$$$$>'',
    ''                                                 '' @ [CHR 0x22] @ [CHR 0x22] @ ''**$$$$$$$$>'',
    ''                                                        '' @ [CHR 0x60] @ [CHR 0x60] @ [CHR 0x60] @ [CHR 0x22] @ [CHR 0x22]]"

definition shrek :: "string list" where
  "shrek =
   [''######################################################################################'',
    ''#                                                                                    #'',
    ''#                            ,.--------._                                            #'',
    ''#                           /            '' @ [APOS] @ [APOS] @ ''.                                         #'',
    ''#                         ,'' @ [APOS] @ ''                '' @ [CHR 0x5C] @ ''     |'' @ [CHR 0x22] @ [CHR 0x5C] @ ''                /'' @ [CHR 0x5C] @ ''          /'' @ [CHR 0x5C] @ ''  #'',
    ''#                /'' @ [CHR 0x22] @ ''|     /                   '' @ [CHR 0x5C] @ ''    |__'' @ [CHR 0x22] @ ''              ( '' @ [CHR 0x5C] @ [CHR 0x5C] @ ''        // ) #'',
    ''#               '' @ [CHR 0x22] @ ''_'' @ [CHR 0x22] @ ''|    /           z#####z   '' @ [CHR 0x5C] @ ''  //                  '' @ [CHR 0x5C] @ '' '' @ [CHR 0x5C] @ [CHR 0x5C] @ ''      // /  #'',
    ''#                 '' @ [CHR 0x5C] @ [CHR 0x5C] @ ''  #####        ##------'' @ [CHR 0x22] @ ''.  '' @ [CHR 0x5C] @ ''//                    '' @ [CHR 0x5C] @ [CHR 0x5C] @ [CHR 0x5C] @ ''||||///   #'',
    ''#                  '' @ [CHR 0x5C] @ [CHR 0x5C] @ ''/-----'' @ [CHR 0x5C] @ ''     /          '' @ [CHR 0x22] @ ''.  '' @ [CHR 0x5C] @ ''                      '' @ [CHR 0x5C] @ ''/ _  _ '' @ [CHR 0x5C] @ ''     #'',
    ''#                   '' @ [CHR 0x5C] @ ''|      '' @ [CHR 0x5C] @ ''   |   ,,--..       '' @ [CHR 0x5C] @ ''                    '' @ [CHR 0x5C] @ ''/|(O)(O)|     #'',
    ''#                   | ,.--._ '' @ [CHR 0x5C] @ ''  (  | ##   '' @ [CHR 0x5C] @ '')      '' @ [CHR 0x5C] @ ''                  '' @ [CHR 0x5C] @ ''/ |      |     #'',
    ''#                   |(  ##  )/   '' @ [CHR 0x5C] @ '' '' @ [CHR 0x60] @ ''-....-//       |///////////////_'' @ [CHR 0x5C] @ ''/  '' @ [CHR 0x5C] @ ''      /     #'',
    ''#                     '' @ [APOS] @ ''--'' @ [APOS] @ ''.'' @ [CHR 0x22] @ ''      '' @ [CHR 0x5C] @ ''                '' @ [CHR 0x5C] @ ''              //     |__|      #'',
    ''#                  /'' @ [APOS] @ ''    /         ) --.            '' @ [CHR 0x5C] @ ''            ||     /      '' @ [CHR 0x5C] @ ''     #'',
    ''#               ,..|     '' @ [CHR 0x5C] @ ''.______/    '' @ [CHR 0x60] @ ''-..         '' @ [CHR 0x5C] @ ''   '' @ [CHR 0x5C] @ ''       '' @ [CHR 0x5C] @ ''|     '' @ [CHR 0x5C] @ '' 0  0 /     #'',
    ''#            ,##/ |   ,/   /   '' @ [CHR 0x5C] @ ''           '' @ [CHR 0x5C] @ ''         '' @ [CHR 0x5C] @ ''   '' @ [CHR 0x5C] @ ''       U    / '' @ [CHR 0x5C] @ [CHR 0x5C] @ ''//_/      #'',
    ''#          :###.-  |  ,/   /     '' @ [CHR 0x5C] @ ''        /'' @ [APOS] @ '' '' @ [CHR 0x22] @ [CHR 0x22] @ [CHR 0x5C] @ ''      .'' @ [CHR 0x5C] @ ''        (     /              #'',
    ''#         /####|   |   (._________,---'' @ [APOS] @ '',/    |       |'' @ [CHR 0x5C] @ ''=.___|  |_/               #'',
    ''#        /#####|   |     '' @ [CHR 0x5C] @ ''_|_|_|_|_,/             |####'' @ [CHR 0x5C] @ ''    |  ||                #'',
    ''#       /######'' @ [CHR 0x5C] @ ''   '' @ [CHR 0x5C] @ ''      '' @ [CHR 0x5C] @ ''________/                /#####|   '' @ [CHR 0x5C] @ ''  ||                #'',
    ''#      /|#######'' @ [CHR 0x60] @ ''. '' @ [CHR 0x60] @ [CHR 0x5C] @ ''                                /#######'' @ [CHR 0x5C] @ ''   | ||                #'',
    ''#     /++'' @ [CHR 0x5C] @ ''#########'' @ [CHR 0x5C] @ ''  '' @ [CHR 0x5C] @ ''                      _,'' @ [APOS] @ ''    _/#########'' @ [CHR 0x5C] @ '' | ||                #'',
    ''#    /++++|#########|  '' @ [CHR 0x5C] @ ''      .---..       ,/      ,'' @ [APOS] @ ''##########.'' @ [CHR 0x5C] @ ''|_||  Donkey By     #'',
    ''#   //++++|#########'' @ [CHR 0x5C] @ ''.  '' @ [CHR 0x5C] @ ''.              ,-/      ,'' @ [APOS] @ ''########,+++++'' @ [CHR 0x5C] @ [CHR 0x5C] @ ''_'' @ [CHR 0x5C] @ [CHR 0x5C] @ '' Hard'' @ [APOS] @ ''96       #'',
    ''#  /++++++|##########'' @ [CHR 0x5C] @ ''.   '' @ [APOS] @ ''._        _,/       ,'' @ [APOS] @ ''######,'' @ [APOS] @ [APOS] @ ''++++++++'' @ [CHR 0x5C] @ ''                  #'',
    ''# |+++++++|###########|       -----.'' @ [CHR 0x22] @ ''        _'' @ [APOS] @ ''#######'' @ [APOS] @ '' +++++++++++'' @ [CHR 0x5C] @ ''                 #'',
    ''# |+++++++|############'' @ [CHR 0x5C] @ ''.     '' @ [CHR 0x5C] @ [CHR 0x5C] @ ''     //      /#######/++++ S@yaN +++'' @ [CHR 0x5C] @ ''                #'',
    ''#      ______________________'' @ [CHR 0x5C] @ [CHR 0x5C] @ ''_//____________________________________         #'',
    ''#     / __________________________________________________________________)        #'',
    ''#    / /              _                                             _                #'',
    ''#    | |             | |                                           | |               #'',
    ''#     '' @ [CHR 0x5C] @ '' '' @ [CHR 0x5C] @ ''            | | _           __           __           | |  _            #'',
    ''#      '' @ [CHR 0x5C] @ '' '' @ [CHR 0x5C] @ ''           | || '' @ [CHR 0x5C] @ ''         / _)         / _  )          | | / )           #'',
    ''#  ___) )          | | | |        | |           (  __ /          | |< (            #'',
    ''# (____/           || ||        ||            '' @ [CHR 0x5C] @ ''____)         || '' @ [CHR 0x5C] @ '')           #'',
    ''#                                                                            #'',
    ''######################################################################################'']"

definition ascii :: "string list list" where
  "ascii = [ascii_JesusIsKing, ascii_artGun, shrek]"

end
