(* ===== verification/Shell.thy ===== *)
theory Shell
  imports Mvar Ascii_Art
begin

text \<open>
  \<^verbatim>\<open>shell/sh.c\<close>, first part: the state of the shell, the parsing of lines and tokens, and the creation
  of processes. Arrays are lists of their length; an access outside one is \<open>None\<close>. A process the shell
  creates is named by its entry function, and the strings \<^verbatim>\<open>argv\<close> points to are part of the call.
\<close>

definition MAX_BUFF :: nat where [const_defs]: "MAX_BUFF = 254"
definition MAX_COMMAND :: nat where [const_defs]: "MAX_COMMAND = 20"
definition DEFAULT_PRIORITY :: nat where [const_defs]: "DEFAULT_PRIORITY = 2"
definition MIN_PRIORITY :: int where [const_defs]: "MIN_PRIORITY = 0"
definition MAX_PRIORITY :: int where [const_defs]: "MAX_PRIORITY = 3"
definition SHELL_BACKUP_STDIN :: int where [const_defs]: "SHELL_BACKUP_STDIN = 60"
definition SHELL_BACKUP_STDOUT :: int where [const_defs]: "SHELL_BACKUP_STDOUT = 61"

record shell = mvar_st +
  line :: string
  linePos :: nat
  parameter :: string
  command_buf :: string
  terminate :: bool
  commandHistory :: string  \<comment> \<open>20 rows of 254 characters, one after the other\<close>
  commandIterator :: int
  commandIdxMax :: nat
  loop_counter :: int
  pipe_seq :: int
  debug_enabled :: bool
  is_background :: bool

abbreviation SPACE :: char where "SPACE \<equiv> CHR '' ''"

definition shell_boot :: "int list \<Rightarrow> shell" where
  "shell_boot rs =
    \<lparr>trace = [], replies = rs, contexts = contexts_boot, next_ctx_id = 1, line = replicate 255 NUL, linePos = 0, parameter = replicate 255 NUL,
     command_buf = replicate 255 NUL, terminate = False, commandHistory = replicate 5080 NUL,
     commandIterator = 0, commandIdxMax = 0, loop_counter = 0, pipe_seq = 0, debug_enabled = False,
     is_background = False\<rparr>"

section \<open>Arrays of characters\<close>

definition put :: "string \<Rightarrow> nat \<Rightarrow> char \<Rightarrow> string option" where
  "put xs i c = (if i < length xs then Some (xs[i := c]) else None)"

fun put_str :: "string \<Rightarrow> nat \<Rightarrow> string \<Rightarrow> string option" where
  "put_str xs i [] = put xs i NUL"
| "put_str xs i (c # str) = do { ys \<leftarrow> put xs i c; put_str ys (i + 1) str }"

fun put_chars :: "string \<Rightarrow> nat \<Rightarrow> string \<Rightarrow> string option" where
  "put_chars xs i [] = Some xs"
| "put_chars xs i (c # str) = do { ys \<leftarrow> put xs i c; put_chars ys (i + 1) str }"

definition get_str :: "string \<Rightarrow> int \<Rightarrow> string option" where
  "get_str xs i =
    (if i < 0 \<or> NUL \<notin> set (drop (nat i) xs) then None else Some (cstr (drop (nat i) xs)))"

section \<open>Output\<close>

definition pcolor :: "string \<Rightarrow> ucolor \<Rightarrow> 'a user_st_scheme \<Rightarrow> 'a user_st_scheme" where
  "pcolor str col u = printsColor str (int MAX_BUFF) col u"

definition uprintf :: "string \<Rightarrow> va list \<Rightarrow> 'a user_st_scheme \<Rightarrow> 'a user_st_scheme option" where
  "uprintf fmt args u = do { (n, u1) \<leftarrow> printf fmt args u; Some u1 }"

definition printPrompt :: "'a user_st_scheme \<Rightarrow> 'a user_st_scheme" where
  "printPrompt u = printcColor (CHR ''>'') PINK (prints '' $'' (int MAX_BUFF) (prints ''user'' 4 u))"

text \<open>The debug output; every caller passes the tag \<^verbatim>\<open>"sh"\<close>.\<close>

definition debug_log :: "string \<Rightarrow> shell \<Rightarrow> shell option" where
  "debug_log msg s =
    (if \<not> debug_enabled s then Some s
     else uprintf (''[DBG][%s] %s'' @ [NL]) [VStr (Some ''sh''), VStr (Some msg)] s)"

definition debug_log_u64 :: "string \<Rightarrow> int \<Rightarrow> shell \<Rightarrow> shell option" where
  "debug_log_u64 label value s =
    (if \<not> debug_enabled s then Some s
     else uprintf (''[DBG][%s] %s: %u'' @ [NL])
       [VStr (Some ''sh''), VStr (Some label), VUInt (nat (value mod 4294967296))] s)"

fun dump_args :: "nat \<Rightarrow> string option list \<Rightarrow> shell \<Rightarrow> shell option" where
  "dump_args i [] s = Some s"
| "dump_args i (a # argv) s = do {
     s1 \<leftarrow> uprintf (''[DBG][%s] argv[%d]=%s'' @ [NL])
       [VStr (Some ''sh''), VInt (int i), VStr (Some (case a of None \<Rightarrow> ''(null)'' | Some t \<Rightarrow> t))] s;
     dump_args (i + 1) argv s1
   }"

definition debug_dump_args :: "int \<Rightarrow> string option list option \<Rightarrow> shell \<Rightarrow> shell option" where
  "debug_dump_args argc argv s =
    (if \<not> debug_enabled s then Some s
     else do {
       s1 \<leftarrow> uprintf (''[DBG][%s] argc=%d'' @ [NL]) [VStr (Some ''sh''), VInt argc] s;
       case argv of
         None \<Rightarrow> uprintf (''[DBG][%s] argv=(null)'' @ [NL]) [VStr (Some ''sh'')] s1
       | Some as \<Rightarrow> dump_args 0 (take (nat argc) as) s1
     })"

section \<open>Parsing\<close>

text \<open>\<^verbatim>\<open>next_token\<close>: the token (cut at \<^verbatim>\<open>max_len - 1\<close>) and what follows it; \<open>None\<close> is the answer 0.\<close>

fun token_chars :: "nat \<Rightarrow> string \<Rightarrow> string \<times> string" where
  "token_chars room [] = ([], [])"
| "token_chars room (c # src) =
    (if c \<noteq> NUL \<and> c \<noteq> SPACE \<and> room > 0
     then (let (t, rest) = token_chars (room - 1) src in (c # t, rest)) else ([], c # src))"

definition next_token :: "nat \<Rightarrow> string \<Rightarrow> (string \<times> string) option" where
  "next_token max_len src0 =
    (let src = skip_spaces src0
     in if first_char src = NUL then None
        else (let (out, rest) = token_chars (max_len - 1) src in Some (out, skip_spaces rest)))"

definition strip_end :: "(char \<Rightarrow> bool) \<Rightarrow> string \<Rightarrow> string" where
  "strip_end P str = rev (dropWhile P (rev str))"

text \<open>\<^verbatim>\<open>sanitize_echo_text\<close>: the text without outer spaces and quotes, cut to \<^verbatim>\<open>max_len - 1\<close>.\<close>

definition sanitize_echo_text :: "string option \<Rightarrow> nat \<Rightarrow> string" where
  "sanitize_echo_text src max_len =
    (case src of None \<Rightarrow> []
     | Some s \<Rightarrow>
       (let t = strip_end (\<lambda>c. c = SPACE \<or> c = NL \<or> c = CHR 0x0D \<or> c = CHR 0x09) (skip_spaces (cstr s));
            u = (if length t \<ge> 2 \<and> hd t = CHR 0x22 \<and> last t = CHR 0x22 then butlast (tl t) else t)
        in take (max_len - 1) u))"

text \<open>\<^verbatim>\<open>parse_command_line\<close>: success, the command and the parameter, each cut to \<^verbatim>\<open>MAX_BUFF\<close>.\<close>

definition parse_command_line :: "string \<Rightarrow> bool \<times> string \<times> string" where
  "parse_command_line input =
    (let str = skip_spaces (cstr input);
         word = takeWhile (\<lambda>c. c \<noteq> SPACE) str;
         rest = skip_spaces (dropWhile (\<lambda>c. c \<noteq> SPACE) str);
         cmd = take MAX_BUFF word;
         param = strip_end (\<lambda>c. c = SPACE) (take MAX_BUFF rest)
     in (cmd \<noteq> [], cmd, param))"

fun pipe_index :: "string \<Rightarrow> nat \<Rightarrow> nat option" where
  "pipe_index [] i = None"
| "pipe_index (c # str) i =
    (if c = NUL then None else if c = CHR ''|'' then Some i else pipe_index str (i + 1))"

definition has_pipe :: "string \<Rightarrow> nat option" where
  "has_pipe str = pipe_index str 0"

text \<open>\<^verbatim>\<open>echo_output\<close>, which writes the new line and the text itself.\<close>

definition echo_output :: "string option \<Rightarrow> bool \<Rightarrow> 'a user_st_scheme \<Rightarrow> 'a user_st_scheme" where
  "echo_output param interactive u =
    (let text = sanitize_echo_text param (MAX_BUFF + 1);
         u1 = (if interactive then say (SysWriteFd 1 [NL]) u else u);
         u2 = (if length text > 0 then say (SysWriteFd 1 text) u1 else u1)
     in say (SysWriteFd 1 [NL]) u2)"

text \<open>\<^verbatim>\<open>copy_arg_or_default\<close> into a buffer of \<open>dst_len\<close> characters; \<open>argv\<close> is the array with its NULL.\<close>

definition copy_arg_or_default :: "nat \<Rightarrow> string option list option \<Rightarrow> nat \<Rightarrow> string option \<Rightarrow> string option" where
  "copy_arg_or_default dst_len argv index fallback =
    (let dflt = (case fallback of None \<Rightarrow> [] | Some f \<Rightarrow> take (dst_len - 1) (cstr f))
     in case argv of None \<Rightarrow> Some dflt
        | Some as \<Rightarrow>
          if index < length as then
            Some (case as ! index of None \<Rightarrow> dflt | Some src \<Rightarrow> take (dst_len - 1) (cstr src))
          else None)"

section \<open>Arguments of a new process\<close>

text \<open>An \<^verbatim>\<open>argv\<close> is the address of the array with the addresses and texts of its strings.\<close>

type_synonym uargv = "nat \<times> (nat \<times> string) list"

definition dup_arg_string :: "string option \<Rightarrow> 'a user_st_scheme \<Rightarrow> ((nat \<times> string) \<times> 'a user_st_scheme) option" where
  "dup_arg_string src u =
    (case src of None \<Rightarrow> Some ((0, []), u)
     | Some s \<Rightarrow> do {
         (dst, u1) \<leftarrow> umalloc (u_strlen s + 1) u;
         Some (if dst = 0 then (0, []) else (dst, u_strcpy s), u1)
       })"

fun free_each :: "(nat \<times> string) list \<Rightarrow> 'a user_st_scheme \<Rightarrow> 'a user_st_scheme" where
  "free_each [] u = u"
| "free_each ((a, str) # rest) u = free_each rest (if a \<noteq> 0 then say (SysFree a) u else u)"

definition free_partial_args :: "uargv \<Rightarrow> 'a user_st_scheme \<Rightarrow> 'a user_st_scheme" where
  "free_partial_args argv u =
    (if fst argv = 0 then u else say (SysFree (fst argv)) (free_each (snd argv) u))"

text \<open>\<^verbatim>\<open>free_spawn_args\<close> of \<^verbatim>\<open>include/spawn_args.h\<close>.\<close>

definition free_spawn_args :: "uargv \<Rightarrow> 'a user_st_scheme \<Rightarrow> 'a user_st_scheme" where
  "free_spawn_args argv u =
    (if fst argv = 0 then u else say (SysFree (fst argv)) (free_each (snd argv) u))"

fun fill_args :: "string option list \<Rightarrow> uargv \<Rightarrow> 'a user_st_scheme \<Rightarrow> (uargv option \<times> 'a user_st_scheme) option" where
  "fill_args [] argv u = Some (Some argv, u)"
| "fill_args (e # extra) argv u =
    (if e = None then Some (None, free_partial_args argv u)
     else do {
       (p, u1) \<leftarrow> dup_arg_string e u;
       if fst p = 0 then Some (None, free_partial_args argv u1)
       else fill_args extra (fst argv, snd argv @ [p]) u1
     })"

definition build_spawn_argv ::
  "string \<Rightarrow> string option list \<Rightarrow> 'a user_st_scheme \<Rightarrow> (uargv option \<times> 'a user_st_scheme) option" where
  "build_spawn_argv cmd_name extra u = do {
     let total = 1 + length extra;
     (a, u1) \<leftarrow> umalloc (8 * (total + 1)) u;
     if a = 0 then Some (None, u1)
     else do {
       (p, u2) \<leftarrow> dup_arg_string (Some cmd_name) u1;
       if fst p = 0 then Some (None, free_partial_args (a, []) u2)
       else fill_args extra (a, [p]) u2
     }
   }"

section \<open>New processes\<close>

definition create_process ::
  "string \<Rightarrow> int \<Rightarrow> uargv \<Rightarrow> string \<Rightarrow> nat \<Rightarrow> int \<Rightarrow> 'a user_st_scheme \<Rightarrow> (int \<times> 'a user_st_scheme) option" where
  "create_process entry argc argv nm prio is_fg u =
    ask (SysCreateProcess entry argc (fst argv) (map snd (snd argv)) nm prio is_fg) u"

definition spawn_test_process :: "string \<Rightarrow> string \<Rightarrow> int \<Rightarrow> uargv \<Rightarrow> shell \<Rightarrow> (int \<times> shell) option" where
  "spawn_test_process nm entry argc argv s = do {
     s1 \<leftarrow> debug_log ''spawn_test_process'' s;
     s2 \<leftarrow> debug_log_u64 ''argc'' argc s1;
     (pd, s3) \<leftarrow> create_process entry argc argv nm DEFAULT_PRIORITY (if is_background s2 then 0 else 1) s2;
     let s4 = (if pd < 0 then free_spawn_args argv s3 else s3);
     s5 \<leftarrow> debug_log_u64 ''spawned pid'' pd s4;
     Some (pd, s5)
   }"

definition spawn_user_command :: "string \<Rightarrow> int \<Rightarrow> uargv \<Rightarrow> string \<Rightarrow> shell \<Rightarrow> (int \<times> shell) option" where
  "spawn_user_command entry argc argv nm s = do {
     s1 \<leftarrow> debug_log ''spawn_user_command enter'' s;
     s2 \<leftarrow> debug_log_u64 ''is_background'' (if is_background s1 then 1 else 0) s1;
     s3 \<leftarrow> debug_log_u64 ''argc'' argc s2;
     (pd, s4) \<leftarrow> create_process entry argc argv nm DEFAULT_PRIORITY (if is_background s3 then 0 else 1) s3;
     s5 \<leftarrow> debug_log_u64 ''spawn_user_command pid'' pd s4;
     if pd < 0 \<and> fst argv \<noteq> 0 then Some (pd, free_spawn_args argv s5)
     else do {
       s8 \<leftarrow> (if \<not> is_background s5 then do {
                s6 \<leftarrow> debug_log ''spawn_user_command waiting child'' s5;
                (waited, status, s7) \<leftarrow> ask_wait pd 0 s6;
                s7a \<leftarrow> debug_log_u64 ''spawn_user_command waited_pid'' waited s7;
                debug_log_u64 ''spawn_user_command status'' status s7a
              } else do {
                s6 \<leftarrow> debug_log ''spawn_user_command background'' s5;
                Some (printPrompt (printc NL s6))
              });
       s9 \<leftarrow> debug_log ''spawn_user_command exit'' s8;
       Some (pd, s9)
     }
   }"

definition spawn_pipeline_process :: "string \<Rightarrow> string \<Rightarrow> string option list \<Rightarrow> shell \<Rightarrow> (int \<times> shell) option" where
  "spawn_pipeline_process nm entry args s = do {
     (av, s1) \<leftarrow> build_spawn_argv nm args s;
     case av of
       None \<Rightarrow> Some (-1, pcolor (NL # ''[pipe] Failed to allocate argv'' @ [NL]) RED s1)
     | Some argv \<Rightarrow> do {
         (pd, s2) \<leftarrow> create_process entry (int (length (snd argv))) argv nm DEFAULT_PRIORITY 1 s1;
         if pd < 0 then
           Some (-1, pcolor (NL # ''[pipe] Failed to spawn process'' @ [NL]) RED (free_spawn_args argv s2))
         else do { (w, status, s3) \<leftarrow> ask_wait pd 0 s2; Some (status, s3) }
       }
   }"

end
