(* ===== verification/Shell_Commands.thy ===== *)
theory Shell_Commands
  imports Shell
begin

text \<open>
  \<^verbatim>\<open>shell/sh.c\<close>, second part: the commands. Each works on the parameter the line editor left in
  \<open>parameter\<close>; the commands that run as processes differ in their entry function and their arguments.
\<close>

section \<open>Commands of the shell itself\<close>

definition help_texts :: "string list" where
  "help_texts =
   [[NL] @ [NL] @ ''===== Listing a preview of available commands ====='' @ [NL],
    [NL] @ ''>'' @ [APOS] @ ''help'' @ [APOS] @ '' or '' @ [APOS] @ ''ls'' @ [APOS] @ ''     - displays this shell information'',
    [NL] @ ''>time               - display current time'',
    [NL] @ ''>clear              - clear the display'',
    [NL] @ ''>(+)                - increase font size (scaled)'',
    [NL] @ ''>(-)                - decrease font size (scaled)'',
    [NL] @ ''>registersinfo      - print current register values'',
    [NL] @ ''>zerodiv            - testeo divide by zero exception'',
    [NL] @ ''>invopcode          - testeo invalid op code exception'',
    [NL] @ ''>ps                 - list all processes'',
    [NL] @ ''>loop [-p prio]     - prints short greeting and process PID'',
    [NL] @ ''>nice <pid> <prio>  - change a given'' @ [APOS] @ ''s process priority'',
    [NL] @ ''>kill <pid>         - kill specified process'',
    [NL] @ ''>block <pid>        - toggle process between BLOCKED and READY'',
    [NL] @ ''>yield              - yield the CPU'',
    [NL] @ ''>waitpid <pid|-1>   - wait for a child to finish'',
    [NL] @ ''>echo <text>        - print text to stdout'',
    [NL] @ ''>mem [-v]           - show memory usage statistics'',
    [NL] @ ''>cat                - read from stdin and write to stdout'',
    [NL] @ ''>wc                 - count lines from stdin'',
    [NL] @ ''>filter             - remove vowels from stdin'',
    [NL] @ ''>test_mm [size]     - test memory manager (default: 100000000)'',
    [NL] @ ''>test_processes [n] - test process management (default: 10)'',
    [NL] @ ''>test_priority [n]  - scheduling demo (default: 5)'',
    [NL] @ ''>test_no_synchro [n]- run race condition without semaphores'',
    [NL] @ ''>test_synchro [n]   - run synchronized version using semaphores'',
    [NL] @ ''>mvar <writers> <readers> - start colored MVar demo'',
    [NL] @ ''>exit               - exit KERNEL OS'',
    [NL] @ [NL],
    ''Background execution:'' @ [NL],
    ''  cmd &  - Execute command in background (no wait)'' @ [NL],
    ''Pipe examples:'' @ [NL],
    ''  echo hola | wc         - count lines in '' @ [APOS] @ ''hola'' @ [APOS] @ [NL],
    ''  echo '' @ [CHR 0x22] @ ''hola mundo'' @ [CHR 0x22] @ '' | wc  - count lines with spaces'' @ [NL],
    ''  echo abracadabra | filter - remove vowels'' @ [NL],
    ''  cat | filter           - read input and filter vowels'' @ [NL] @ [NL]]"

fun print_all :: "string list \<Rightarrow> 'a user_st_scheme \<Rightarrow> 'a user_st_scheme option" where
  "print_all [] u = Some u"
| "print_all (t # ts) u = do { u1 \<leftarrow> uprintf t [] u; print_all ts u1 }"

definition printHelp :: "'a user_st_scheme \<Rightarrow> 'a user_st_scheme option" where
  "printHelp u = print_all help_texts u"

text \<open>\<^verbatim>\<open>welcome\<close>; the name of the memory manager is chosen when the shell is built.\<close>

definition sh_welcome :: "bool \<Rightarrow> 'a user_st_scheme \<Rightarrow> 'a user_st_scheme option" where
  "sh_welcome use_buddy u = do {
     let u1 = pcolor (NL # ''    Welcome this efficient and simple operating system'' @ [NL]) GREEN u;
     let u2 = (if use_buddy then pcolor (''    Memory Manager: BUDDY SYSTEM'' @ [NL]) YELLOW u1
               else pcolor (''    Memory Manager: FIRST FIT'' @ [NL]) YELLOW u1);
     printHelp (pcolor (''    Here'' @ [APOS] @ ''s a list of available commands'' @ [NL]) GREEN u2)
   }"

definition cmd_undefined :: "'a user_st_scheme \<Rightarrow> 'a user_st_scheme" where
  "cmd_undefined u = prints (NL # NL # ''Unknown command. Type '' @ [APOS] @ ''help'' @ [APOS] @ '' or ''
     @ [APOS] @ ''ls'' @ [APOS] @ '' to display available commands'') (int MAX_BUFF) u"

text \<open>\<^verbatim>\<open>getTime\<close> of \<^verbatim>\<open>programs/time.c\<close>: the difference of the hours is converted to 64 bits.\<close>

definition getTime :: "'a user_st_scheme \<Rightarrow> 'a user_st_scheme option" where
  "getTime u = do {
     (hours, u1) \<leftarrow> ask SysGetHours u;
     (minutes, u2) \<leftarrow> ask SysGetMinutes u1;
     (seconds, u3) \<leftarrow> ask SysGetSeconds u2;
     u4 \<leftarrow> printDec (nat ((hours - 3) mod 18446744073709551616)) (printc NL u3);
     u5 \<leftarrow> printDec (nat (minutes mod 18446744073709551616)) (printc (CHR '':'') u4);
     printDec (nat (seconds mod 18446744073709551616)) (printc (CHR '':'') u5)
   }"

definition cmd_time :: "'a user_st_scheme \<Rightarrow> 'a user_st_scheme option" where
  "cmd_time u = getTime u"

definition cmd_exit :: "shell \<Rightarrow> shell" where
  "cmd_exit s = (prints (NL # NL # ''Exiting OS'' @ [NL]) (int MAX_BUFF) s)\<lparr>terminate := True\<rparr>"

definition cmd_clear :: "'a user_st_scheme \<Rightarrow> 'a user_st_scheme" where
  "cmd_clear u = clear_scr u"

text \<open>The registers the kernel stored are not part of the shell: \<open>regs\<close> are their values.\<close>

definition cmd_registersinfo :: "nat list \<Rightarrow> 'a user_st_scheme \<Rightarrow> 'a user_st_scheme option" where
  "cmd_registersinfo regs u = registerInfo regs u"

definition cmd_invOpcode :: "'a user_st_scheme \<Rightarrow> 'a user_st_scheme" where
  "cmd_invOpcode u = say InvalidOpcode u"

definition cmd_zeroDiv :: "'a user_st_scheme \<Rightarrow> 'a user_st_scheme" where
  "cmd_zeroDiv u = say ZeroDivision u"

definition cmd_charsizeplus :: "'a user_st_scheme \<Rightarrow> 'a user_st_scheme" where
  "cmd_charsizeplus u = printPrompt (increaseScale (cmd_clear u))"

definition cmd_charsizeminus :: "'a user_st_scheme \<Rightarrow> 'a user_st_scheme" where
  "cmd_charsizeminus u = printPrompt (decreaseScale (cmd_clear u))"

fun print_picture :: "string list \<Rightarrow> 'a user_st_scheme \<Rightarrow> 'a user_st_scheme" where
  "print_picture [] u = u"
| "print_picture (l # ls) u = print_picture ls (printc NL (pcolor l uWHITE u))"

definition cmd_ascii :: "'a user_st_scheme \<Rightarrow> 'a user_st_scheme option" where
  "cmd_ascii u = do {
     (i, u1) \<leftarrow> u_random u;
     if 0 \<le> i \<and> i < 3 then Some (print_picture (ascii ! nat i) u1) else None
   }"

definition cmd_debug :: "shell \<Rightarrow> shell option" where
  "cmd_debug s =
    (if first_char (parameter s) = NUL then
       uprintf (NL # ''Debug logging is %s'' @ [NL]) [VStr (Some (if debug_enabled s then ''ON'' else ''OFF''))] s
     else if u_strcmp (parameter s) ''on'' = 0 then
       debug_log ''debug mode enabled''
         (pcolor (NL # ''Debug logging enabled'' @ [NL]) LIGHT_GREEN (s\<lparr>debug_enabled := True\<rparr>))
     else if u_strcmp (parameter s) ''off'' = 0 then
       Some (pcolor (NL # ''Debug logging disabled'' @ [NL]) LIGHT_RED (s\<lparr>debug_enabled := False\<rparr>))
     else Some (pcolor (NL # ''Usage: debug [on|off]'' @ [NL]) ORANGE s))"

definition cmd_yield :: "'a user_st_scheme \<Rightarrow> 'a user_st_scheme" where
  "cmd_yield u = prints (NL # ''Yield requested'') (int MAX_BUFF) (say SysYield u)"

definition cmd_echo :: "shell \<Rightarrow> shell" where
  "cmd_echo s = echo_output (Some (parameter s)) True s"

text \<open>A parser's answer that has no value in C stops the run.\<close>

definition cmd_waitpid :: "shell \<Rightarrow> shell option" where
  "cmd_waitpid s =
    (let wait = (\<lambda>pd. do {
           (waited, status, s1) \<leftarrow> ask_wait pd 0 s;
           if waited < 0 then Some (pcolor (NL # ''waitpid failed (no matching child)'') RED s1)
           else uprintf (NL # ''waitpid -> child %d exited with status %d'' @ [NL]) [VInt waited, VInt status] s1
         })
     in if first_char (parameter s) = NUL then wait (-1)
        else (case next_token 32 (parameter s) of
            None \<Rightarrow> Some (pcolor (NL # ''Usage: waitpid <pid|-1>'') RED s)
          | Some (token, _) \<Rightarrow>
            (case parse_int_token (Some token) of
               None \<Rightarrow> None
             | Some None \<Rightarrow> Some (pcolor (NL # ''Invalid pid'') RED s)
             | Some (Some pd) \<Rightarrow> wait pd)))"

section \<open>Commands that run as a process\<close>

text \<open>The common end: build the arguments, create the process, and say what failed.\<close>

definition run_user_command :: "string \<Rightarrow> string \<Rightarrow> string option list \<Rightarrow> shell \<Rightarrow> shell option" where
  "run_user_command nm entry extra s = do {
     (av, s1) \<leftarrow> build_spawn_argv nm extra s;
     case av of
       None \<Rightarrow> Some (pcolor (NL # nm @ '': failed to allocate args'' @ [NL]) RED s1)
     | Some argv \<Rightarrow> do {
         (pd, s2) \<leftarrow> spawn_user_command entry (int (length (snd argv))) argv nm s1;
         if pd < 0 then Some (pcolor (NL # nm @ '': failed to spawn process'' @ [NL]) RED s2) else Some s2
       }
   }"

definition cmd_help :: "shell \<Rightarrow> shell option" where
  "cmd_help s = run_user_command ''help'' ''help_process'' [] s"

definition cmd_ps :: "shell \<Rightarrow> shell option" where
  "cmd_ps s = run_user_command ''ps'' ''ps_process'' [] s"

definition cmd_cat :: "shell \<Rightarrow> shell option" where
  "cmd_cat s = run_user_command ''cat'' ''cat_process'' [] s"

definition cmd_wc :: "shell \<Rightarrow> shell option" where
  "cmd_wc s = run_user_command ''wc'' ''wc_process'' [] s"

definition cmd_filter :: "shell \<Rightarrow> shell option" where
  "cmd_filter s = run_user_command ''filter'' ''filter_process'' [] s"

definition cmd_nice :: "shell \<Rightarrow> shell option" where
  "cmd_nice s =
    (case next_token MAX_BUFF (parameter s) of
       None \<Rightarrow> Some (pcolor (NL # ''Usage: nice <pid> <prio>'') RED s)
     | Some (pid_token, r1) \<Rightarrow>
       (case next_token MAX_BUFF r1 of
          None \<Rightarrow> Some (pcolor (NL # ''Usage: nice <pid> <prio>'') RED s)
        | Some (prio_token, r2) \<Rightarrow>
          (case next_token MAX_BUFF r2 of
             Some _ \<Rightarrow> Some (pcolor (NL # ''nice: too many arguments'' @ [NL]) RED s)
           | None \<Rightarrow> run_user_command ''nice'' ''nice_process'' [Some pid_token, Some prio_token] s)))"

definition cmd_kill :: "shell \<Rightarrow> shell option" where
  "cmd_kill s =
    (case next_token MAX_BUFF (parameter s) of
       None \<Rightarrow> Some (pcolor (NL # ''Usage: kill <pid>'') RED s)
     | Some (pid_token, r1) \<Rightarrow>
       (case next_token MAX_BUFF r1 of
          Some _ \<Rightarrow> Some (pcolor (NL # ''kill: too many arguments'' @ [NL]) RED s)
        | None \<Rightarrow> run_user_command ''kill'' ''kill_process'' [Some pid_token] s))"

definition cmd_block :: "shell \<Rightarrow> shell option" where
  "cmd_block s =
    (case next_token MAX_BUFF (parameter s) of
       None \<Rightarrow> Some (pcolor (NL # ''Usage: block <pid>'') RED s)
     | Some (pid_token, r1) \<Rightarrow>
       (case next_token MAX_BUFF r1 of
          Some _ \<Rightarrow> Some (pcolor (NL # ''block: too many arguments'' @ [NL]) RED s)
        | None \<Rightarrow> do {
            (shell_pid, s1) \<leftarrow> ask SysGetpid s;
            buf \<leftarrow> sprintf ''%d'' [VInt shell_pid];
            run_user_command ''block'' ''block_process'' [Some pid_token, Some buf] s1
          }))"

definition cmd_mem :: "shell \<Rightarrow> shell option" where
  "cmd_mem s =
    (if first_char (parameter s) = NUL then run_user_command ''mem'' ''mem_process'' [] s
     else (case next_token MAX_BUFF (parameter s) of
         None \<Rightarrow> Some (pcolor (NL # ''mem: invalid argument'' @ [NL]) RED s)
       | Some (arg, r1) \<Rightarrow>
         (case next_token MAX_BUFF r1 of
            Some _ \<Rightarrow> Some (pcolor (NL # ''mem: too many arguments'' @ [NL]) RED s)
          | None \<Rightarrow> run_user_command ''mem'' ''mem_process'' [Some arg] s)))"

text \<open>The loops that clear the first \<^verbatim>\<open>MAX_BUFF\<close> characters of the three buffers.\<close>

definition clear_buf :: "string \<Rightarrow> string" where
  "clear_buf xs = replicate (min MAX_BUFF (length xs)) NUL @ drop MAX_BUFF xs"

definition clear_line :: "shell \<Rightarrow> shell" where
  "clear_line s = s\<lparr>line := clear_buf (line s), command_buf := clear_buf (command_buf s),
     parameter := clear_buf (parameter s), linePos := 0\<rparr>"

text \<open>The priority \<^verbatim>\<open>loop\<close> is asked to run with, or the error it prints.\<close>

definition loop_priority :: "string \<Rightarrow> (string + int) option" where
  "loop_priority param =
    (if first_char param = NUL then Some (Inr (int DEFAULT_PRIORITY))
     else (case next_token MAX_BUFF param of
         None \<Rightarrow> Some (Inl (NL # ''Invalid priority''))
       | Some (t1, r1) \<Rightarrow>
         (case (if u_strcmp t1 ''-p'' = 0 then next_token MAX_BUFF r1 else Some (t1, r1)) of
            None \<Rightarrow> Some (Inl (NL # ''Usage: loop [-p <prio>]''))
          | Some (token, _) \<Rightarrow>
            (case parse_int_token (Some token) of
               None \<Rightarrow> None
             | Some None \<Rightarrow> Some (Inl (NL # ''Priority must be a number''))
             | Some (Some prio) \<Rightarrow> Some (Inr prio)))))"

definition cmd_loop :: "shell \<Rightarrow> shell option" where
  "cmd_loop s = do {
     lp \<leftarrow> loop_priority (parameter s);
     case lp of Inl msg \<Rightarrow> Some (pcolor msg RED s)
     | Inr prio \<Rightarrow>
       if prio < MIN_PRIORITY \<or> prio > MAX_PRIORITY then
         Some (pcolor (NL # ''Priority out of range (0-3)'') RED s)
       else do {
         nm \<leftarrow> sprintf ''loop-%d'' [VInt (loop_counter s)];
         let s1 = s\<lparr>loop_counter := loop_counter s + 1\<rparr>;
         (pd, s2) \<leftarrow> create_process ''loop_process'' 0 (0, []) nm (nat prio)
                       (if is_background s1 then 0 else 1) s1;
         if pd < 0 then Some (pcolor (NL # ''Failed to spawn loop'') RED s2)
         else if is_background s2 then Some (printPrompt s2)
         else do {
           s3 \<leftarrow> uprintf (NL # ''Spawned %s (pid %d, prio %d)'' @ [NL]) [VStr (Some nm), VInt pd, VInt prio] s2;
           (w, st, s4) \<leftarrow> ask_wait pd 0 s3;
           s5 \<leftarrow> uprintf (''[loop %d terminated]'' @ [NL]) [VInt pd] s4;
           Some (printPrompt (clear_line s5))
         }
       }
   }"

end
