(* ===== verification/Shell_Tests.thy ===== *)
theory Shell_Tests
  imports Shell_Commands
begin

text \<open>
  \<^verbatim>\<open>shell/sh.c\<close>, third part: the commands that start the tests and the \<^verbatim>\<open>mvar\<close> demo, and the bodies of
  the processes the shell starts. The five test commands differ in their texts.
\<close>

section \<open>Starting a test\<close>

text \<open>One argument: its string first, then the array, and both released when the array cannot be had.\<close>

definition one_test_arg :: "string \<Rightarrow> shell \<Rightarrow> (uargv option \<times> shell) option" where
  "one_test_arg token s = do {
     (a0, s1) \<leftarrow> umalloc (u_strlen token + 1) s;
     if a0 = 0 then Some (None, pcolor (NL # ''Failed to allocate args'') RED s1)
     else do {
       (av, s2) \<leftarrow> umalloc 16 s1;
       if av = 0 then Some (None, pcolor (NL # ''Failed to allocate argv'') RED (say (SysFree a0) s2))
       else Some (Some (av, [(a0, u_strcpy token)]), s2)
     }
   }"

text \<open>The end of every test command: the process, and the wait for it in the foreground.\<close>

definition launch_test :: "string \<Rightarrow> string \<Rightarrow> uargv \<Rightarrow> string list \<Rightarrow> string list \<Rightarrow> shell \<Rightarrow> shell option" where
  "launch_test nm entry argv bg_notes fg_notes s = do {
     let s1 = pcolor (''Spawning '' @ nm @ (if nm = ''test_mm'' then '' process...'' else ''...'') @ [NL]) LIGHT_BLUE s;
     (pd, s2) \<leftarrow> spawn_test_process nm entry (int (length (snd argv))) argv s1;
     if pd < 0 then Some (pcolor (NL # ''[ERROR] Failed to launch '' @ nm @ [NL]) RED s2)
     else do {
       s3 \<leftarrow> uprintf (''%d)'' @ [NL]) [VInt pd]
               (pcolor (''CREATED '' @ [APOS] @ nm @ [APOS] @ '' PROCESS (PID: '') GREEN s2);
       if is_background s3 then
         Some (fold (\<lambda>t. pcolor t LIGHT_BLUE) ((''['' @ nm @ '' running in background]'' @ [NL]) # bg_notes) s3)
       else do {
         (w, st, s4) \<leftarrow> ask_wait pd 0 (fold (\<lambda>t. pcolor t LIGHT_BLUE) fg_notes s3);
         Some (printPrompt (clear_line (pcolor (''['' @ nm @ '' finished]'' @ [NL]) LIGHT_BLUE s4)))
       }
     }
   }"

definition banner :: "string \<Rightarrow> ucolor \<Rightarrow> 'a user_st_scheme \<Rightarrow> 'a user_st_scheme" where
  "banner title col u =
    pcolor (NL # ''========================================'' @ [NL]) LIGHT_BLUE
      (pcolor (NL # title) col (pcolor (NL # ''========================================'') LIGHT_BLUE u))"

text \<open>The test commands with one optional argument.\<close>

definition test_with_arg ::
  "string \<Rightarrow> string \<Rightarrow> (string \<times> ucolor) list \<Rightarrow> (string \<times> ucolor) list \<Rightarrow> string \<Rightarrow> string list \<Rightarrow> string list
   \<Rightarrow> shell \<Rightarrow> shell option" where
  "test_with_arg nm entry before after default_text bg_notes fg_notes s =
    (case next_token 32 (parameter s) of
       None \<Rightarrow> launch_test nm entry (0, []) bg_notes fg_notes (pcolor default_text uWHITE s)
     | Some (token, _) \<Rightarrow> do {
         (av, s1) \<leftarrow> one_test_arg token s;
         case av of None \<Rightarrow> Some s1
         | Some argv \<Rightarrow>
             launch_test nm entry argv bg_notes fg_notes
               (fold (\<lambda>(t, c). pcolor t c) (before @ [(token, GREEN)] @ after) s1)
       })"

definition cmd_test_mm :: "shell \<Rightarrow> shell option" where
  "cmd_test_mm s =
    test_with_arg ''test_mm'' ''test_mm_process'' [(''Testing with size: '', uWHITE)] [([NL], uWHITE)]
      (''Testing with default size: 100000000'' @ [NL]) [] [''Running test_mm...'' @ [NL]]
      (banner ''    MEMORY MANAGER TEST'' YELLOW s)"

definition cmd_test_processes :: "shell \<Rightarrow> shell option" where
  "cmd_test_processes s =
    test_with_arg ''test_processes'' ''test_processes_process'' [(''Testing with '', uWHITE)]
      [('' processes'' @ [NL], uWHITE)] (''Testing with 10 processes (default)'' @ [NL]) [] []
      (pcolor (''Running test_processes'' @ [NL]) uWHITE (banner ''    PROCESS MANAGEMENT TEST'' YELLOW s))"

definition cmd_test_priority :: "shell \<Rightarrow> shell option" where
  "cmd_test_priority s =
    test_with_arg ''test_priority'' ''test_priority_process'' [(''Scheduling window: '', uWHITE)]
      [('' ms'' @ [NL], uWHITE)] (''Scheduling window: 1500 ms (default)'' @ [NL])
      [''Observe the counters to compare priorities.'' @ [NL]] [''Observe the counters to compare priorities.'' @ [NL]]
      (banner ''    PRIORITY SCHEDULING TEST'' YELLOW s)"

definition cmd_test_no_synchro :: "shell \<Rightarrow> shell option" where
  "cmd_test_no_synchro s =
    test_with_arg ''test_no_synchro'' ''test_no_synchro_process'' [(''Testing with '', uWHITE)]
      [('' iterations'' @ [NL], uWHITE)] (''Testing with 10 iterations (default)'' @ [NL]) [] []
      (pcolor (''Expect to see RACE CONDITIONS!'' @ [NL]) LIGHT_RED
        (pcolor (''Running test WITHOUT synchronization'' @ [NL]) ORANGE
          (banner ''  RACE CONDITION TEST (NO SEMAPHORES)'' RED s)))"

text \<open>\<^verbatim>\<open>cmd_test_synchro\<close> has up to two arguments and gets the array first.\<close>

definition two_test_args :: "string \<Rightarrow> string option \<Rightarrow> shell \<Rightarrow> (uargv option \<times> shell) option" where
  "two_test_args token0 token1 s = do {
     (av, s1) \<leftarrow> umalloc (8 * (if token1 = None then 2 else 3)) s;
     if av = 0 then Some (None, pcolor (NL # ''Failed to allocate argv'') RED s1)
     else do {
       (a0, s2) \<leftarrow> umalloc (u_strlen token0 + 1) s1;
       if a0 = 0 then Some (None, pcolor (NL # ''Failed to allocate args'') RED (say (SysFree av) s2))
       else case token1 of
         None \<Rightarrow> Some (Some (av, [(a0, u_strcpy token0)]), s2)
       | Some t1 \<Rightarrow> do {
           (a1, s3) \<leftarrow> umalloc (u_strlen t1 + 1) s2;
           if a1 = 0 then
             Some (None, pcolor (NL # ''Failed to allocate args'') RED (say (SysFree av) (say (SysFree a0) s3)))
           else Some (Some (av, [(a0, u_strcpy token0), (a1, u_strcpy t1)]), s3)
         }
     }
   }"

definition cmd_test_synchro :: "shell \<Rightarrow> shell option" where
  "cmd_test_synchro s = do {
     let s0 = pcolor (''Using semaphores to prevent race conditions'' @ [NL]) LIGHT_GREEN
       (pcolor (''Running test WITH synchronization'' @ [NL]) ORANGE
         (banner '' SYNCHRONIZED TEST (WITH SEMAPHORES)'' GREEN s));
     case next_token 32 (parameter s) of
       None \<Rightarrow> launch_test ''test_synchro'' ''test_synchro_process'' (0, []) [] []
           (pcolor (''Testing with default params: 10 1'' @ [NL]) uWHITE s0)
     | Some (token0, r1) \<Rightarrow> do {
         let t1 = map_option fst (next_token 32 r1);
         (av, s1) \<leftarrow> two_test_args token0 t1 s0;
         case av of None \<Rightarrow> Some s1
         | Some argv \<Rightarrow> do {
             let s2 = pcolor token0 GREEN (pcolor ''Testing with params: '' uWHITE s1);
             let s3 = (case t1 of None \<Rightarrow> s2 | Some t \<Rightarrow> pcolor t GREEN (pcolor '' '' uWHITE s2));
             launch_test ''test_synchro'' ''test_synchro_process'' argv [] [] (pcolor [NL] uWHITE s3)
           }
       }
   }"

definition cmd_test_sync :: "shell \<Rightarrow> shell option" where
  "cmd_test_sync s = cmd_test_synchro s"

section \<open>The demo\<close>

fun print_writers :: "nat \<Rightarrow> (string \<times> int) list \<Rightarrow> 'a user_st_scheme \<Rightarrow> 'a user_st_scheme option" where
  "print_writers i [] u = Some u"
| "print_writers i ((nm, pd) # rest) u = do {
     u1 \<leftarrow> (if first_char nm \<noteq> NUL then
             uprintf (''  - %s (pid %d) value '' @ [APOS] @ ''%c'' @ [APOS] @ [NL])
               [VStr (Some nm), VInt pd, VInt (65 + int i mod 26)] u
           else Some u);
     print_writers (i + 1) rest u1
   }"

fun print_readers :: "(string \<times> int) list \<Rightarrow> 'a user_st_scheme \<Rightarrow> 'a user_st_scheme option" where
  "print_readers [] u = Some u"
| "print_readers ((nm, pd) # rest) u = do {
     u1 \<leftarrow> (if first_char nm \<noteq> NUL then uprintf (''  - %s (pid %d)'' @ [NL]) [VStr (Some nm), VInt pd] u
           else Some u);
     print_readers rest u1
   }"

text \<open>The counts \<^verbatim>\<open>cmd_mvar\<close> reads from its parameter, or the message it prints.\<close>

definition mvar_counts :: "string \<Rightarrow> (string + int \<times> int) option" where
  "mvar_counts param =
    (let usage = Inl (NL # ''Usage: mvar <writers> <readers>'' @ [NL]);
         bad = (\<lambda>who. Inl (NL # ''[mvar] Invalid '' @ who @ '' count'' @ [NL])) in
     case next_token MAX_BUFF param of None \<Rightarrow> Some usage
     | Some (t1, r1) \<Rightarrow>
       (case parse_int_token (Some t1) of None \<Rightarrow> None | Some None \<Rightarrow> Some (bad ''writer'')
        | Some (Some writers) \<Rightarrow>
          if writers \<le> 0 then Some (bad ''writer'')
          else (case next_token MAX_BUFF r1 of None \<Rightarrow> Some usage
            | Some (t2, _) \<Rightarrow>
              (case parse_int_token (Some t2) of None \<Rightarrow> None | Some None \<Rightarrow> Some (bad ''reader'')
               | Some (Some readers) \<Rightarrow>
                 if readers \<le> 0 then Some (bad ''reader'')
                 else if writers > int MVAR_MAX_WRITERS then
                   Some (Inl (NL # ''[mvar] Too many writers requested, MAX_WRITERS=26'' @ [NL]))
                 else if readers > int MVAR_MAX_READERS then
                   Some (Inl (NL # ''[mvar] Too many readers requested, MAX_READERS=14'' @ [NL]))
                 else Some (Inr (writers, readers))))))"

definition cmd_mvar :: "shell \<Rightarrow> shell option" where
  "cmd_mvar s = do {
     mc \<leftarrow> mvar_counts (parameter s);
     case mc of Inl msg \<Rightarrow> uprintf msg [] s
     | Inr (writers, readers) \<Rightarrow> do {
         ((r, info), s1) \<leftarrow> mvar_start writers readers s;
         if r < 0 then uprintf (NL # ''[mvar] Failed to start demo (resources unavailable)'' @ [NL]) [] s1
         else do {
           s2 \<leftarrow> uprintf (''(context %d) with %d writer%s and %d reader%s'' @ [NL])
             [VInt (context_id info), VInt writers, VStr (Some (if writers = 1 then [] else ''s'')),
              VInt readers, VStr (Some (if readers = 1 then [] else ''s''))]
             (pcolor (NL # ''[mvar] Started MVar demo '') LIGHT_BLUE s1);
           s3 \<leftarrow> print_writers 0 (take (nat writers) (zip (writer_names info) (writer_pids info)))
             (pcolor (''[mvar] Writers:'' @ [NL]) GREEN s2);
           s4 \<leftarrow> print_readers (take (nat readers) (zip (reader_names info) (reader_pids info)))
             (pcolor (''[mvar] Readers:'' @ [NL]) GREEN s3);
           let s5 = pcolor (''[mvar] Use '' @ [APOS] @ ''kill'' @ [APOS] @ '' or '' @ [APOS] @ ''nice'' @ [APOS]
               @ '' with the PIDs above to replicate the scenarios.'' @ [NL]) LIGHT_BLUE
             (pcolor (''[mvar] Output alternates between colored readers consuming writer values.'' @ [NL]) LIGHT_BLUE s4);
           Some (if is_background s5 then printPrompt s5 else s5)
         }
       }
   }"

section \<open>Processes of the shell's file\<close>

text \<open>
  The wrappers of the tests: the arguments are copied, the caller's are released and the test is called
  with the copies. The result is the test that is called with its arguments; \<open>test_result\<close> is what it
  returns.
\<close>

definition start_test_process ::
  "string \<Rightarrow> string \<Rightarrow> string \<Rightarrow> (nat \<times> string) list \<Rightarrow> int \<Rightarrow> uargv \<Rightarrow> shell \<Rightarrow> (string list \<times> shell) option" where
  "start_test_process nm test shown args argc argv s = do {
     let texts = (if fst argv = 0 then None else Some (map (Some \<circ> snd) (snd argv) @ [None]));
     s1 \<leftarrow> debug_dump_args argc texts s;
     s2 \<leftarrow> debug_log (nm @ '' start'') s1;
     s3 \<leftarrow> uprintf (NL # ''['' @ nm @ ''] Starting with argc=%d'' @ [NL]) [VInt argc] s2;
     bufs \<leftarrow> those (map (\<lambda>(i, d). copy_arg_or_default 32 texts i (Some d)) args);
     s4 \<leftarrow> uprintf (''['' @ nm @ ''] Using '' @ shown @ [NL]) (map (VStr \<circ> Some) bufs) s3;
     let s5 = free_spawn_args argv s4;
     s6 \<leftarrow> uprintf (''['' @ nm @ ''] Calling '' @ test @ ''...'' @ [NL]) [] s5;
     Some (bufs, s6)
   }"

definition test_mm_process :: "(string list \<Rightarrow> shell \<Rightarrow> (int \<times> shell) option) \<Rightarrow> int \<Rightarrow> uargv \<Rightarrow> shell \<Rightarrow> shell option" where
  "test_mm_process test_mm argc argv s = do {
     (bufs, s1) \<leftarrow> start_test_process ''test_mm_process'' ''test_mm'' ''arg: %s'' [(0, ''100000000'')] argc argv s;
     (result, s2) \<leftarrow> test_mm bufs s1;
     s3 \<leftarrow> uprintf (''[test_mm_process] Finished with result: %d'' @ [NL]) [VInt result] s2;
     Some (say (SysExit result) s3)
   }"

definition finish_test :: "string \<Rightarrow> (string list \<Rightarrow> shell \<Rightarrow> (int \<times> shell) option) \<Rightarrow> string list \<Rightarrow> shell \<Rightarrow> shell option" where
  "finish_test nm test bufs s = do {
     (result, s2) \<leftarrow> test bufs s;
     s3 \<leftarrow> uprintf (''['' @ nm @ ''] Finished'' @ [NL]) [] s2;
     Some (say (SysExit 0) s3)
   }"

definition test_processes_process :: "(string list \<Rightarrow> shell \<Rightarrow> (int \<times> shell) option) \<Rightarrow> int \<Rightarrow> uargv \<Rightarrow> shell \<Rightarrow> shell option" where
  "test_processes_process test argc argv s = do {
     (bufs, s1) \<leftarrow> start_test_process ''test_processes_process'' ''test_processes'' ''arg: %s'' [(0, ''10'')] argc argv s;
     finish_test ''test_processes_process'' test bufs s1
   }"

definition test_priority_process :: "(string list \<Rightarrow> shell \<Rightarrow> (int \<times> shell) option) \<Rightarrow> int \<Rightarrow> uargv \<Rightarrow> shell \<Rightarrow> shell option" where
  "test_priority_process test argc argv s = do {
     (bufs, s1) \<leftarrow> start_test_process ''test_priority_process'' ''test_prio'' ''window: %s ms'' [(0, ''1500'')] argc argv s;
     finish_test ''test_priority_process'' test bufs s1
   }"

definition test_sync_process :: "(string list \<Rightarrow> shell \<Rightarrow> (int \<times> shell) option) \<Rightarrow> int \<Rightarrow> uargv \<Rightarrow> shell \<Rightarrow> shell option" where
  "test_sync_process test argc argv s = do {
     (bufs, s1) \<leftarrow> start_test_process ''test_sync_process'' ''test_sync'' ''args: %s, %s'' [(0, ''10''), (1, ''1'')] argc argv s;
     finish_test ''test_sync_process'' test bufs s1
   }"

definition test_no_synchro_process :: "(string list \<Rightarrow> shell \<Rightarrow> (int \<times> shell) option) \<Rightarrow> int \<Rightarrow> uargv \<Rightarrow> shell \<Rightarrow> shell option" where
  "test_no_synchro_process test argc argv s = do {
     (bufs, s1) \<leftarrow> start_test_process ''test_no_synchro_process'' ''test_no_synchro'' ''arg: %s'' [(0, ''10'')] argc argv s;
     finish_test ''test_no_synchro_process'' test (bufs @ [''0'']) s1
   }"

definition test_synchro_process :: "(string list \<Rightarrow> shell \<Rightarrow> (int \<times> shell) option) \<Rightarrow> int \<Rightarrow> uargv \<Rightarrow> shell \<Rightarrow> shell option" where
  "test_synchro_process test argc argv s = do {
     (bufs, s1) \<leftarrow> start_test_process ''test_synchro_process'' ''test_synchro'' ''args: %s, %s'' [(0, ''10''), (1, ''1'')] argc argv s;
     finish_test ''test_synchro_process'' test bufs s1
   }"

text \<open>One turn of the endless loop of \<^verbatim>\<open>loop_process\<close>; \<open>counter\<close> is its number of turns so far.\<close>

definition loop_silent :: "int \<Rightarrow> uargv \<Rightarrow> bool" where
  "loop_silent argc argv \<longleftrightarrow>
    argc > 0 \<and> fst argv \<noteq> 0 \<and> snd argv \<noteq> [] \<and> u_strcmp (snd (hd (snd argv))) ''silent'' = 0"

definition loop_turn :: "bool \<Rightarrow> int \<Rightarrow> nat \<Rightarrow> 'a user_st_scheme \<Rightarrow> (nat \<times> 'a user_st_scheme) option" where
  "loop_turn silent pd counter u = do {
     u1 \<leftarrow> (if \<not> silent then uprintf (''[loop %d] .'' @ [NL]) [VInt pd] u else Some u);
     let u2 = say SysYield u1;
     let u3 = (if (counter + 1) mod 5 = 0 then say SysYield (say SysYield u2) else u2);
     Some (counter + 1, say (SysWait 1000) u3)
   }"

end
