(* ===== verification/Shell_Loop.thy ===== *)
theory Shell_Loop
  imports Shell_Tests
begin

text \<open>
  \<^verbatim>\<open>shell/sh.c\<close>, fourth part: pipelines, the dispatch of a line, the line editor and the main loop.
  \<open>regs\<close> are the register values \<^verbatim>\<open>registersinfo\<close> would receive.
\<close>

section \<open>Pipelines\<close>

text \<open>
  A command that reads the global \<open>parameter\<close> runs with the pipeline's parameter copied over it, without
  a NUL, and the old contents are put back afterwards.
\<close>

definition with_parameter :: "string \<Rightarrow> (shell \<Rightarrow> shell option) \<Rightarrow> shell \<Rightarrow> shell option" where
  "with_parameter param cmd s = do {
     let saved = parameter s;
     p1 \<leftarrow> put_chars (parameter s) 0 param;
     let p2 = (if param = [] then p1[0 := NUL] else p1);
     s1 \<leftarrow> cmd (s\<lparr>parameter := p2\<rparr>);
     Some (s1\<lparr>parameter := saved\<rparr>)
   }"

definition finished :: "shell option \<Rightarrow> (int \<times> shell) option" where
  "finished m = do { s \<leftarrow> m; Some (0, s) }"

definition run_pipeline_command :: "string \<Rightarrow> string \<Rightarrow> shell \<Rightarrow> (int \<times> shell) option" where
  "run_pipeline_command cmd param s =
    (if cmd = [] then Some (-1, s)
     else if u_strcmp cmd ''cat'' = 0 then spawn_pipeline_process ''cat'' ''cat_process'' [] s
     else if u_strcmp cmd ''wc'' = 0 then spawn_pipeline_process ''wc'' ''wc_process'' [] s
     else if u_strcmp cmd ''filter'' = 0 then spawn_pipeline_process ''filter'' ''filter_process'' [] s
     else if u_strcmp cmd ''echo'' = 0 then Some (0, echo_output (Some param) False s)
     else if u_strcmp cmd ''ps'' = 0 then finished (cmd_ps s)
     else if u_strcmp cmd ''help'' = 0 \<or> u_strcmp cmd ''ls'' = 0 then finished (cmd_help s)
     else if u_strcmp cmd ''mem'' = 0 then finished (with_parameter param cmd_mem s)
     else if u_strcmp cmd ''loop'' = 0 then finished (with_parameter param cmd_loop s)
     else if u_strcmp cmd ''time'' = 0 then finished (cmd_time s)
     else if u_strcmp cmd ''mvar'' = 0 then finished (with_parameter param cmd_mvar s)
     else if u_strcmp cmd ''test_mm'' = 0 then finished (with_parameter param cmd_test_mm s)
     else if u_strcmp cmd ''test_processes'' = 0 then finished (with_parameter param cmd_test_processes s)
     else if u_strcmp cmd ''test_priority'' = 0 then finished (with_parameter param cmd_test_priority s)
     else if u_strcmp cmd ''test_synchro'' = 0 then finished (with_parameter param cmd_test_synchro s)
     else if u_strcmp cmd ''test_no_synchro'' = 0 then finished (with_parameter param cmd_test_no_synchro s)
     else Some (-1, pcolor (NL # ''[pipe] Unsupported command in pipeline'' @ [NL]) RED s))"

text \<open>The local variables of \<^verbatim>\<open>execute_pipe\<close> that its cleanup looks at.\<close>

record pipe_vars =
  backup_in :: int
  backup_out :: int
  write_fd :: int
  read_fd :: int
  pstatus :: int
  pipe_created :: bool

definition pipe_vars_init :: pipe_vars where
  "pipe_vars_init = \<lparr>backup_in = -1, backup_out = -1, write_fd = -1, read_fd = -1, pstatus = 0, pipe_created = False\<rparr>"

definition restore_fd :: "int \<Rightarrow> int \<Rightarrow> 'a user_st_scheme \<Rightarrow> 'a user_st_scheme" where
  "restore_fd backup fd u = (if backup \<ge> 0 then say (SysCloseFd backup) (say (SysDup2 backup fd) u) else u)"

text \<open>The label \<^verbatim>\<open>cleanup\<close>, where every path through the function ends.\<close>

definition pipe_cleanup :: "string \<Rightarrow> pipe_vars \<Rightarrow> 'a user_st_scheme \<Rightarrow> 'a user_st_scheme" where
  "pipe_cleanup pipe_name v u =
    (let u1 = restore_fd (backup_in v) 0 u;
         u2 = restore_fd (backup_out v) 1 u1;
         u3 = (if read_fd v \<ge> 0 then say (SysPipeClose (read_fd v)) u2 else u2);
         u4 = (if write_fd v \<ge> 0 then say (SysPipeClose (write_fd v)) u3 else u3);
         u5 = (if pipe_created v then say (SysPipeUnlink pipe_name) u4 else u4)
     in if pstatus v < 0 then pcolor (NL # ''[pipe] Execution failed'' @ [NL]) RED u5 else u5)"

definition pipe_error :: "string \<Rightarrow> pipe_vars \<Rightarrow> 'a user_st_scheme \<Rightarrow> (pipe_vars \<times> 'a user_st_scheme) option" where
  "pipe_error what v u =
    Some (v\<lparr>pstatus := -1\<rparr>, pcolor (NL # ''[pipe] Failed to '' @ what @ [NL]) RED u)"

text \<open>The part after both ends are open: the left command, then the right one.\<close>

definition pipe_right :: "string \<Rightarrow> string \<Rightarrow> pipe_vars \<Rightarrow> shell \<Rightarrow> (pipe_vars \<times> shell) option" where
  "pipe_right right_cmd right_param v s =
    (if pstatus v \<noteq> 0 then Some (v, s)
     else do {
       (r, s1) \<leftarrow> ask (SysDup2 (read_fd v) 0) s;
       if r < 0 then pipe_error ''redirect stdin'' v s1
       else do {
         let s2 = say (SysPipeClose (read_fd v)) s1;
         (rc, s3) \<leftarrow> run_pipeline_command right_cmd right_param s2;
         Some (v\<lparr>read_fd := -1, pstatus := (if rc < 0 then -1 else 0)\<rparr>, s3)
       }
     })"

definition pipe_body :: "string \<Rightarrow> string \<Rightarrow> string \<Rightarrow> string \<Rightarrow> pipe_vars \<Rightarrow> shell \<Rightarrow> (pipe_vars \<times> shell) option" where
  "pipe_body left_cmd left_param right_cmd right_param v s = do {
     (r, s1) \<leftarrow> ask (SysDup2 (write_fd v) 1) s;
     if r < 0 then pipe_error ''redirect stdout'' v s1
     else do {
       let s2 = say (SysPipeClose (write_fd v)) s1;
       (rc, s3) \<leftarrow> run_pipeline_command left_cmd left_param s2;
       let s4 = restore_fd (backup_out v) 1 s3;
       pipe_right right_cmd right_param
         (v\<lparr>write_fd := -1, pstatus := (if rc < 0 then -1 else 0), backup_out := -1\<rparr>) s4
     }
   }"

text \<open>The acquisitions in order; the first that fails goes to the cleanup.\<close>

definition pipe_open_ends :: "string \<Rightarrow> pipe_vars \<Rightarrow> 'a user_st_scheme \<Rightarrow> ((bool \<times> pipe_vars) \<times> 'a user_st_scheme) option" where
  "pipe_open_ends pipe_name v u = do {
     (w, u1) \<leftarrow> ask (SysPipeOpen pipe_name 2) u;
     let v1 = v\<lparr>write_fd := w\<rparr>;
     if w < 0 then do { (v', u') \<leftarrow> pipe_error ''open pipe writer'' v1 u1; Some ((False, v'), u') }
     else do {
       (r, u2) \<leftarrow> ask (SysPipeOpen pipe_name 1) u1;
       let v2 = v1\<lparr>read_fd := r\<rparr>;
       if r < 0 then do { (v', u') \<leftarrow> pipe_error ''open pipe reader'' v2 u2; Some ((False, v'), u') }
       else Some ((True, v2\<lparr>pipe_created := True\<rparr>), u2)
     }
   }"

definition pipe_backups :: "pipe_vars \<Rightarrow> 'a user_st_scheme \<Rightarrow> ((bool \<times> pipe_vars) \<times> 'a user_st_scheme) option" where
  "pipe_backups v u = do {
     (bi, u1) \<leftarrow> ask (SysDup2 0 SHELL_BACKUP_STDIN) u;
     let v1 = v\<lparr>backup_in := bi\<rparr>;
     if bi < 0 then do { (v', u') \<leftarrow> pipe_error ''backup stdin'' v1 u1; Some ((False, v'), u') }
     else do {
       (bo, u2) \<leftarrow> ask (SysDup2 1 SHELL_BACKUP_STDOUT) u1;
       let v2 = v1\<lparr>backup_out := bo\<rparr>;
       if bo < 0 then do { (v', u') \<leftarrow> pipe_error ''backup stdout'' v2 u2; Some ((False, v'), u') }
       else Some ((True, v2), u2)
     }
   }"

definition pipe_run :: "string \<Rightarrow> string \<Rightarrow> string \<Rightarrow> string \<Rightarrow> string \<Rightarrow> shell \<Rightarrow> (pipe_vars \<times> shell) option" where
  "pipe_run pipe_name left_cmd left_param right_cmd right_param s = do {
     ((ok1, v1), s1) \<leftarrow> pipe_backups pipe_vars_init s;
     if \<not> ok1 then Some (v1, s1)
     else do {
       ((ok2, v2), s2) \<leftarrow> pipe_open_ends pipe_name v1 s1;
       if \<not> ok2 then Some (v2, s2) else pipe_body left_cmd left_param right_cmd right_param v2 s2
     }
   }"

definition execute_pipe :: "string \<Rightarrow> string \<Rightarrow> shell \<Rightarrow> shell option" where
  "execute_pipe left_line right_line s =
    (let (lok, left_cmd, left_param) = parse_command_line left_line;
         (rok, right_cmd, right_param) = parse_command_line right_line
     in if \<not> lok \<or> \<not> rok then Some (pcolor (NL # ''[pipe] Invalid command syntax'' @ [NL]) RED s)
        else do {
          pipe_name \<leftarrow> sprintf ''tmp_pipe_%d'' [VInt (pipe_seq s)];
          (v, s1) \<leftarrow> pipe_run pipe_name left_cmd left_param right_cmd right_param
                       (s\<lparr>pipe_seq := pipe_seq s + 1\<rparr>);
          Some (pipe_cleanup pipe_name v s1)
        })"

section \<open>One line\<close>

definition commands :: "string list" where
  "commands = [''undefined'', ''help'', ''ls'', ''time'', ''clear'', ''registersinfo'', ''zerodiv'', ''invopcode'',
     ''exit'', ''ascii'', ''test_mm'', ''test_processes'', ''test_priority'', ''test_sync'', ''test_no_synchro'',
     ''test_synchro'', ''debug'', ''ps'', ''loop'', ''nice'', ''kill'', ''block'', ''yield'', ''waitpid'', ''mem'',
     ''cat'', ''wc'', ''filter'', ''echo'', ''mvar'']"

definition commands_ptr :: "nat list \<Rightarrow> (shell \<Rightarrow> shell option) list" where
  "commands_ptr regs =
    [Some \<circ> cmd_undefined, cmd_help, cmd_help, cmd_time, Some \<circ> cmd_clear, cmd_registersinfo regs,
     Some \<circ> cmd_zeroDiv, Some \<circ> cmd_invOpcode, Some \<circ> cmd_exit, cmd_ascii, cmd_test_mm, cmd_test_processes,
     cmd_test_priority, cmd_test_sync, cmd_test_no_synchro, cmd_test_synchro, cmd_debug, cmd_ps, cmd_loop,
     cmd_nice, cmd_kill, cmd_block, Some \<circ> cmd_yield, cmd_waitpid, cmd_mem, cmd_cat, cmd_wc, cmd_filter,
     Some \<circ> cmd_echo, cmd_mvar]"

fun command_index :: "nat \<Rightarrow> string list \<Rightarrow> string \<Rightarrow> nat" where
  "command_index i [] cmd = 0"
| "command_index i (c # cs) cmd = (if u_strcmp cmd c = 0 then i else command_index (i + 1) cs cmd)"

text \<open>
  \<^verbatim>\<open>checkLine\<close>: the word before the first space goes to \<open>command_buf\<close>, the rest to \<open>parameter\<close>, neither
  terminated; the line goes to the history, whose index is not checked.
\<close>

definition checkLine :: "shell \<Rightarrow> (nat \<times> shell) option" where
  "checkLine s = do {
     let typed = take (linePos s) (line s);
     let word = takeWhile (\<lambda>c. c \<noteq> SPACE) typed;
     let rest = tl (dropWhile (\<lambda>c. c \<noteq> SPACE) typed);
     cb \<leftarrow> put_chars (command_buf s) 0 word;
     pb \<leftarrow> put_chars (parameter s) 0 rest;
     h \<leftarrow> put_str (commandHistory s) (commandIdxMax s * MAX_BUFF) (strcpyForParam cb pb);
     Some (command_index 1 (tl commands) cb,
       s\<lparr>command_buf := cb, parameter := pb, commandHistory := h,
         commandIdxMax := commandIdxMax s + 1, commandIterator := int (commandIdxMax s + 1)\<rparr>)
   }"

text \<open>The head of \<^verbatim>\<open>newLine\<close>: a trailing \<^verbatim>\<open>&\<close> is removed with the spaces around it.\<close>

fun erase_spaces :: "nat \<Rightarrow> string \<Rightarrow> nat \<times> string" where
  "erase_spaces 0 l = (0, l)"
| "erase_spaces (Suc n) l = (if l ! n = SPACE then erase_spaces n (l[n := NUL]) else (Suc n, l))"

definition take_background :: "shell \<Rightarrow> shell" where
  "take_background s0 =
    (let s = s0\<lparr>is_background := False\<rparr>;
         effective_len = length (strip_end (\<lambda>c. c = SPACE) (take (linePos s) (line s)))
     in if effective_len > 0 \<and> line s ! (effective_len - 1) = CHR ''&'' then
          let (n, l) = erase_spaces (effective_len - 1) ((line s)[effective_len - 1 := NUL])
          in s\<lparr>is_background := True, line := l, linePos := n\<rparr>
        else s)"

text \<open>The two sides of a \<^verbatim>\<open>|\<close> at \<open>pos\<close>, without spaces at the end; the right side also without leading ones.\<close>

definition pipe_sides :: "nat \<Rightarrow> nat \<Rightarrow> string \<Rightarrow> string \<times> string" where
  "pipe_sides pos len l =
    (strip_end (\<lambda>c. c = SPACE) (cstr (take pos l)),
     strip_end (\<lambda>c. c = SPACE) (cstr (skip_spaces (take (len - (pos + 1)) (drop (pos + 1) l)))))"

definition run_line :: "nat list \<Rightarrow> shell \<Rightarrow> shell option" where
  "run_line regs s =
    (case has_pipe (line s) of
       Some pos \<Rightarrow>
         (let (left_cmd, right_cmd) = pipe_sides pos (linePos s) (line s)
          in if left_cmd = [] \<or> right_cmd = [] then
               Some (pcolor (NL # ''[pipe] Invalid command syntax'' @ [NL]) RED s)
             else if has_pipe right_cmd \<noteq> None then
               Some (pcolor (NL # ''[pipe] Only single '' @ [APOS] @ ''|'' @ [APOS] @ '' supported'' @ [NL]) RED s)
             else execute_pipe left_cmd right_cmd s)
     | None \<Rightarrow> do { (i, s1) \<leftarrow> checkLine s; (commands_ptr regs ! i) s1 })"

definition newLine :: "nat list \<Rightarrow> shell \<Rightarrow> shell option" where
  "newLine regs s = do {
     s1 \<leftarrow> run_line regs (take_background s);
     let s2 = clear_line s1;
     let s3 = (if \<not> is_background s2 then printPrompt (printc NL s2) else s2);
     Some (s3\<lparr>is_background := False\<rparr>)
   }"

section \<open>The line editor\<close>

text \<open>\<^verbatim>\<open>historyCaller\<close>: the index is moved without a check; a row outside the table is undefined.\<close>

definition historyCaller :: "int \<Rightarrow> shell \<Rightarrow> shell option" where
  "historyCaller direction s = do {
     let s1 = (printPrompt (cmd_clear s))\<lparr>commandIterator := commandIterator s + direction\<rparr>;
     row \<leftarrow> (if 0 \<le> commandIterator s1 \<and> commandIterator s1 < int MAX_COMMAND
            then get_str (commandHistory s1) (commandIterator s1 * int MAX_BUFF) else None);
     l \<leftarrow> put_str (line s1) 0 row;
     Some ((prints row (int MAX_BUFF) s1)\<lparr>line := l, linePos := u_strlen row\<rparr>)
   }"

definition handleSpecialCommands :: "char \<Rightarrow> shell \<Rightarrow> shell option" where
  "handleSpecialCommands c s =
    (if c = CHR ''+'' \<and> linePos s = 0 then Some (cmd_charsizeplus s)
     else if c = CHR ''-'' \<and> linePos s = 0 then Some (cmd_charsizeminus s)
     else if isUpperArrow c then historyCaller (-1) s
     else if isDownArrow c then historyCaller 1 s
     else do {
       l \<leftarrow> put (line s) (linePos s) c;
       Some (printc c (s\<lparr>line := l, linePos := linePos s + 1\<rparr>))
     })"

definition printLine :: "nat list \<Rightarrow> char \<Rightarrow> shell \<Rightarrow> shell option" where
  "printLine regs c s =
    (if c = NUL then Some s
     else if linePos s \<ge> MAX_BUFF then Some s
     else if isChar c \<or> c = SPACE \<or> isDigit c then handleSpecialCommands c s
     else if c = CHR 0x08 \<and> linePos s > 0 then
       Some ((printc (CHR 0x08) s)\<lparr>linePos := linePos s - 1, line := (line s)[linePos s - 1 := NUL]\<rparr>)
     else if c = NL then newLine regs s
     else Some s)"

text \<open>
  \<^verbatim>\<open>sh_loop\<close>: a cursor, a character, its effect, until the shell is told to end. The recursion ends at the
  latest when no more answers of the kernel are given.
\<close>

partial_function (option) loop_chars :: "nat list \<Rightarrow> shell \<Rightarrow> shell option" where
  "loop_chars regs s =
    (if terminate s then Some s
     else do {
       (c, s1) \<leftarrow> getChar (drawCursor s);
       s2 \<leftarrow> printLine regs c s1;
       loop_chars regs s2
     })"

definition sh_loop :: "nat list \<Rightarrow> shell \<Rightarrow> shell option" where
  "sh_loop regs s = loop_chars regs (printPrompt s)"

text \<open>\<^verbatim>\<open>main\<close> of the user module.\<close>

definition user_main :: "bool \<Rightarrow> nat list \<Rightarrow> shell \<Rightarrow> shell option" where
  "user_main use_buddy regs s = do { s1 \<leftarrow> sh_welcome use_buddy s; sh_loop regs s1 }"

text \<open>Typing a text, one key after the other.\<close>

fun type_keys :: "nat list \<Rightarrow> string \<Rightarrow> shell \<Rightarrow> shell option" where
  "type_keys regs [] s = Some s"
| "type_keys regs (c # cs) s = do { s1 \<leftarrow> printLine regs c s; type_keys regs cs s1 }"

end
