(* ===== verification/Shell_Quiet.thy ===== *)
theory Shell_Quiet
  imports Shell_Loop
begin

text \<open>
  The commands of the shell make no descriptor calls of their own: only \<^verbatim>\<open>execute_pipe\<close> duplicates,
  opens and closes descriptors. One rule per function, collected in \<open>quiet\<close>.
\<close>

named_theorems quiet \<comment> \<open>the calls since a point of the trace have no descriptor call among them\<close>

fun fd_call :: "sys_ev \<Rightarrow> bool" where
  "fd_call (SysPipeOpen nm flags) = True"
| "fd_call (SysPipeClose fd) = True"
| "fd_call (SysDup2 old new) = True"
| "fd_call (SysCloseFd fd) = True"
| "fd_call e = False"

type_synonym calls = "(sys_ev \<times> int option) list"

definition since :: "calls \<Rightarrow> calls \<Rightarrow> bool" where
  "since t0 t \<longleftrightarrow> (\<exists>es. t = t0 @ es \<and> list_all (\<lambda>(e, r). \<not> fd_call e) es)"

lemma since_refl [simp]: "since t t"
  by (simp add: since_def)

lemma since_snoc: "since t0 t \<Longrightarrow> \<not> fd_call e \<Longrightarrow> since t0 (t @ [(e, r)])"
proof -
  assume "since t0 t" and e: "\<not> fd_call e"
  then obtain es where "t = t0 @ es" "list_all (\<lambda>(e, r). \<not> fd_call e) es" by (auto simp: since_def)
  with e show ?thesis unfolding since_def by (intro exI [of _ "es @ [(e, r)]"]) simp
qed

lemma since_append [quiet]: "since t0 t \<Longrightarrow> list_all (\<lambda>(e, r). \<not> fd_call e) es \<Longrightarrow> since t0 (t @ es)"
  by (auto simp: since_def)

lemma quiet_say [quiet]: "since t0 (trace u) \<Longrightarrow> \<not> fd_call e \<Longrightarrow> since t0 (trace (say e u))"
  by (simp add: since_snoc)

text \<open>The same for the possible results of a function, by the place of the state in them.\<close>

definition q1 :: "calls \<Rightarrow> 'a user_st_scheme option \<Rightarrow> bool" where
  "q1 t0 m \<longleftrightarrow> (\<forall>u'. m = Some u' \<longrightarrow> since t0 (trace u'))"

definition q2 :: "calls \<Rightarrow> ('b \<times> 'a user_st_scheme) option \<Rightarrow> bool" where
  "q2 t0 m \<longleftrightarrow> (\<forall>b u'. m = Some (b, u') \<longrightarrow> since t0 (trace u'))"

definition q3 :: "calls \<Rightarrow> ('b \<times> 'c \<times> 'a user_st_scheme) option \<Rightarrow> bool" where
  "q3 t0 m \<longleftrightarrow> (\<forall>b c u'. m = Some (b, c, u') \<longrightarrow> since t0 (trace u'))"

lemma q_simps [simp]:
  "q1 t0 None" "q1 t0 (Some u) \<longleftrightarrow> since t0 (trace u)"
  "q2 t0 None" "q2 t0 (Some (b, u)) \<longleftrightarrow> since t0 (trace u)"
  "q3 t0 None" "q3 t0 (Some (b, c, u)) \<longleftrightarrow> since t0 (trace u)"
  by (auto simp: q1_def q2_def q3_def)

lemma q1_bind_any: "(\<And>x. q1 t0 (h x)) \<Longrightarrow> q1 t0 (Option.bind m h)"
  by (cases m) simp_all

lemma q2_bind_any: "(\<And>x. q2 t0 (h x)) \<Longrightarrow> q2 t0 (Option.bind m h)"
  by (cases m) simp_all

text \<open>Results that have no state in them.\<close>

lemma q_bind_string [quiet]: fixes m :: "string option"
  shows "(\<And>x. q1 t0 (h x)) \<Longrightarrow> q1 t0 (Option.bind m h)" "(\<And>x. q2 t0 (h' x)) \<Longrightarrow> q2 t0 (Option.bind m h')"
  by (rule q1_bind_any, assumption) (rule q2_bind_any, assumption)

lemma q_bind_parsed [quiet]: fixes m :: "(string + 'p) option"
  shows "(\<And>x. q1 t0 (h x)) \<Longrightarrow> q1 t0 (Option.bind m h)" "(\<And>x. q2 t0 (h' x)) \<Longrightarrow> q2 t0 (Option.bind m h')"
  by (rule q1_bind_any, assumption) (rule q2_bind_any, assumption)

lemma q_bind1 [quiet]:
  "q1 t0 m \<Longrightarrow> (\<And>u. since t0 (trace u) \<Longrightarrow> q1 t0 (f u)) \<Longrightarrow> q1 t0 (Option.bind m f)"
  "q1 t0 m \<Longrightarrow> (\<And>u. since t0 (trace u) \<Longrightarrow> q2 t0 (f' u)) \<Longrightarrow> q2 t0 (Option.bind m f')"
  by (cases m; simp)+

lemma q_bind2 [quiet]:
  "q2 t0 m \<Longrightarrow> (\<And>b u. since t0 (trace u) \<Longrightarrow> q1 t0 (f (b, u))) \<Longrightarrow> q1 t0 (Option.bind m f)"
  "q2 t0 m \<Longrightarrow> (\<And>b u. since t0 (trace u) \<Longrightarrow> q2 t0 (f' (b, u))) \<Longrightarrow> q2 t0 (Option.bind m f')"
  by (cases m; auto simp: q2_def)+

lemma q_bind3 [quiet]:
  "q3 t0 m \<Longrightarrow> (\<And>b c u. since t0 (trace u) \<Longrightarrow> q1 t0 (f (b, c, u))) \<Longrightarrow> q1 t0 (Option.bind m f)"
  "q3 t0 m \<Longrightarrow> (\<And>b c u. since t0 (trace u) \<Longrightarrow> q2 t0 (f' (b, c, u))) \<Longrightarrow> q2 t0 (Option.bind m f')"
  by (cases m; auto simp: q3_def)+

lemma quiet_ask [quiet]: "since t0 (trace u) \<Longrightarrow> \<not> fd_call e \<Longrightarrow> q2 t0 (ask e u)"
  by (auto dest!: askD simp: since_snoc q2_def)

lemma quiet_umalloc [quiet]: "since t0 (trace u) \<Longrightarrow> q2 t0 (umalloc n u)"
  by (auto dest!: umallocD simp: since_snoc q2_def)

lemma quiet_u_malloc [quiet]: "since t0 (trace u) \<Longrightarrow> q2 t0 (u_malloc n u)"
  by (simp add: u_malloc_def quiet_umalloc)

lemma quiet_ask_wait [quiet]: "since t0 (trace u) \<Longrightarrow> q3 t0 (ask_wait p s u)"
  by (auto dest!: ask_waitD simp: since_snoc q3_def)

section \<open>Output\<close>

lemma quiet_printc [quiet]: "since t0 (trace u) \<Longrightarrow> since t0 (trace (printc c u))"
  by (simp add: printc_def since_snoc)

lemma quiet_prints [quiet]: "since t0 (trace u) \<Longrightarrow> since t0 (trace (prints str n u))"
  by (simp add: prints_def Let_def since_snoc)

lemma quiet_printcColor [quiet]: "since t0 (trace u) \<Longrightarrow> since t0 (trace (printcColor c col u))"
  by (simp add: printcColor_def since_snoc)

lemma quiet_printsColor [quiet]: "since t0 (trace u) \<Longrightarrow> since t0 (trace (printsColor str n col u))"
  by (induction str n col u rule: printsColor.induct) (auto intro: quiet_printcColor)

lemma quiet_pcolor [quiet]: "since t0 (trace u) \<Longrightarrow> since t0 (trace (pcolor str col u))"
  by (simp add: pcolor_def quiet_printsColor)

lemma quiet_prompt [quiet]: "since t0 (trace u) \<Longrightarrow> since t0 (trace (printPrompt u))"
  by (simp add: printPrompt_def quiet)

lemma quiet_flush: "flush b u = Some (b', u') \<Longrightarrow> since t0 (trace u) \<Longrightarrow> since t0 (trace u')"
  by (auto simp: flush_def since_snoc split: if_splits)

lemma quiet_printf_loop: "printf_loop fmt args buf n u = Some (m, u') \<Longrightarrow> since t0 (trace u) \<Longrightarrow> since t0 (trace u')"
proof (induction fmt args buf n u rule: printf_loop.induct)
  case (1 args buf n u)
  then show ?case by (auto simp: printf_loop.simps(1) since_snoc split: if_splits)
next
  case (2 c fmt args buf n u)
  show ?case
  proof (cases "c = NUL")
    case True
    with 2 show ?thesis by (auto simp: printf_loop.simps(2) since_snoc split: if_splits)
  next
    case notnul: False
    show ?thesis
    proof (cases "c = CHR ''%''")
      case True
      with 2(3) notnul obtain s k args' b' u1 where s: "printf_conv fmt args = Some (s, k, args')"
        "flush (buf @ s) u = Some (b', u1)" "printf_loop (drop k fmt) args' b' (n + length s) u1 = Some (m, u')"
        by (auto simp: printf_loop.simps(2) split: option.splits)
      show ?thesis by (rule 2(1) [OF notnul True s(1) refl refl s(2) refl s(3)]) (rule quiet_flush [OF s(2) 2(4)])
    next
      case False
      with 2(3) notnul obtain b' u1 where s: "flush (buf @ [c]) u = Some (b', u1)"
        "printf_loop fmt args b' (n + 1) u1 = Some (m, u')"
        by (auto simp: printf_loop.simps(2) split: option.splits)
      show ?thesis by (rule 2(2) [OF notnul False s(1) refl s(2)]) (rule quiet_flush [OF s(1) 2(4)])
    qed
  qed
qed

lemma quiet_uprintf [quiet]: "since t0 (trace u) \<Longrightarrow> q1 t0 (uprintf fmt args u)"
  by (auto simp: uprintf_def printf_def bind_eq_Some q1_def intro: quiet_printf_loop)

lemma quiet_printDec [quiet]: "since t0 (trace u) \<Longrightarrow> q1 t0 (printDec n u)"
proof -
  assume t: "since t0 (trace u)"
  have "since t0 (trace (fold printc b u))" for b
    using t by (induction b arbitrary: u) (simp_all add: quiet_printc)
  then show ?thesis by (auto simp: q1_def printDec_def printBase_def bind_eq_Some split: if_splits)
qed

lemma quiet_fold_pcolor [quiet]: "since t0 (trace u) \<Longrightarrow> since t0 (trace (fold (\<lambda>t. pcolor t col) ts u))"
  by (induction ts arbitrary: u) (simp_all add: quiet_pcolor)

lemma quiet_fold_pcolor_pairs [quiet]: "since t0 (trace u) \<Longrightarrow> since t0 (trace (fold (\<lambda>(t, c). pcolor t c) ts u))"
  by (induction ts arbitrary: u) (auto simp: quiet_pcolor)

lemma quiet_echo [quiet]: "since t0 (trace u) \<Longrightarrow> since t0 (trace (echo_output p i u))"
  by (simp add: echo_output_def Let_def since_snoc)

section \<open>Processes\<close>

lemma quiet_free_each [quiet]: "since t0 (trace u) \<Longrightarrow> since t0 (trace (free_each as u))"
  by (induction as u rule: free_each.induct) (simp_all add: since_snoc)

lemma quiet_free_args [quiet]: "since t0 (trace u) \<Longrightarrow> since t0 (trace (free_partial_args av u))"
  "since t0 (trace u) \<Longrightarrow> since t0 (trace (free_spawn_args av u))"
  by (simp_all add: free_partial_args_def free_spawn_args_def since_snoc quiet_free_each)

lemma quiet_dup_arg [quiet]: "since t0 (trace u) \<Longrightarrow> q2 t0 (dup_arg_string src u)"
  by (auto simp: dup_arg_string_def split: option.split intro!: quiet)

lemma quiet_fill [quiet]: "since t0 (trace u) \<Longrightarrow> q2 t0 (fill_args es av u)"
  by (induction es arbitrary: av u) (auto intro!: quiet)

lemma quiet_build [quiet]: "since t0 (trace u) \<Longrightarrow> q2 t0 (build_spawn_argv nm es u)"
  by (auto simp: build_spawn_argv_def Let_def intro!: quiet)

lemma quiet_create [quiet]: "since t0 (trace u) \<Longrightarrow> q2 t0 (create_process e n av nm p f u)"
  by (auto simp: create_process_def intro!: quiet)

lemma quiet_debug [quiet]: "since t0 (trace s) \<Longrightarrow> q1 t0 (debug_log msg s)"
  "since t0 (trace s) \<Longrightarrow> q1 t0 (debug_log_u64 lbl v s)"
  by (auto simp: debug_log_def debug_log_u64_def intro!: quiet)

lemma quiet_spawn_user [quiet]: "since t0 (trace s) \<Longrightarrow> q2 t0 (spawn_user_command e n av nm s)"
  by (auto simp: spawn_user_command_def intro!: quiet)

lemma quiet_spawn_test [quiet]: "since t0 (trace s) \<Longrightarrow> q2 t0 (spawn_test_process nm e n av s)"
  by (auto simp: spawn_test_process_def Let_def intro!: quiet)

lemma quiet_spawn_pipeline [quiet]: "since t0 (trace s) \<Longrightarrow> q2 t0 (spawn_pipeline_process nm e args s)"
  by (auto simp: spawn_pipeline_process_def split: option.split intro!: quiet)

section \<open>Commands\<close>

lemma quiet_run_user [quiet]: "since t0 (trace s) \<Longrightarrow> q1 t0 (run_user_command nm e args s)"
  by (auto simp: run_user_command_def split: option.split intro!: quiet)

lemma quiet_clear_line [quiet]: "since t0 (trace s) \<Longrightarrow> since t0 (trace (clear_line s))"
  by (simp add: clear_line_def)

lemma quiet_simple_commands [quiet]:
  "since t0 (trace s) \<Longrightarrow> q1 t0 (cmd_ps s)" "since t0 (trace s) \<Longrightarrow> q1 t0 (cmd_help s)"
  by (simp_all add: cmd_ps_def cmd_help_def quiet)

lemma quiet_time [quiet]: "since t0 (trace u) \<Longrightarrow> q1 t0 (cmd_time u)"
  by (auto simp: cmd_time_def getTime_def intro!: quiet)

lemma quiet_mem [quiet]: "since t0 (trace s) \<Longrightarrow> q1 t0 (cmd_mem s)"
  by (auto simp: cmd_mem_def split: option.split intro!: quiet)

lemma quiet_loop [quiet]: "since t0 (trace s) \<Longrightarrow> q1 t0 (cmd_loop s)"
  by (auto simp: cmd_loop_def Let_def split: sum.split intro!: quiet)

lemma quiet_launch [quiet]: "since t0 (trace s) \<Longrightarrow> q1 t0 (launch_test nm e av bg fg s)"
  by (auto simp: launch_test_def Let_def intro!: quiet)

lemma quiet_banner [quiet]: "since t0 (trace u) \<Longrightarrow> since t0 (trace (banner title col u))"
  by (simp add: banner_def quiet)

lemma quiet_one_arg [quiet]: "since t0 (trace s) \<Longrightarrow> q2 t0 (one_test_arg t s)"
  by (auto simp: one_test_arg_def intro!: quiet)

lemma quiet_two_args [quiet]: "since t0 (trace s) \<Longrightarrow> q2 t0 (two_test_args t t' s)"
  by (auto simp: two_test_args_def split: option.split intro!: quiet)

lemma quiet_test_arg [quiet]: "since t0 (trace s) \<Longrightarrow> q1 t0 (test_with_arg nm e b a d bg fg s)"
  by (auto simp: test_with_arg_def split: option.split intro!: quiet)

lemma quiet_tests [quiet]:
  "since t0 (trace s) \<Longrightarrow> q1 t0 (cmd_test_mm s)" "since t0 (trace s) \<Longrightarrow> q1 t0 (cmd_test_processes s)"
  "since t0 (trace s) \<Longrightarrow> q1 t0 (cmd_test_priority s)" "since t0 (trace s) \<Longrightarrow> q1 t0 (cmd_test_no_synchro s)"
  by (simp_all add: cmd_test_mm_def cmd_test_processes_def cmd_test_priority_def cmd_test_no_synchro_def quiet)

lemma quiet_test_synchro [quiet]: "since t0 (trace s) \<Longrightarrow> q1 t0 (cmd_test_synchro s)"
  by (auto simp: cmd_test_synchro_def Let_def split: option.split intro!: quiet)

section \<open>The \<^verbatim>\<open>mvar\<close> demo\<close>

lemma quiet_alloc_args [quiet]: "since t0 (trace u) \<Longrightarrow> q2 t0 (alloc_args sizes u)"
  by (auto simp: alloc_args_def u_free_def Let_def intro!: quiet)

lemma quiet_open_sems [quiet]: "since t0 (trace u) \<Longrightarrow> q2 t0 (open_sems i u)"
  by (auto simp: open_sems_def Let_def intro!: quiet)

lemma quiet_start_writers [quiet]: "since t0 (trace u) \<Longrightarrow> q2 t0 (start_writers w n cid info u)"
  by (induction n arbitrary: w info u) (auto split: option.split intro!: quiet)

lemma quiet_start_readers [quiet]: "since t0 (trace u) \<Longrightarrow> q2 t0 (start_readers w n cid info u)"
  by (induction n arbitrary: w info u) (auto split: option.split intro!: quiet)

lemma quiet_ctx_allocate [quiet]: "since t0 (trace u) \<Longrightarrow> q2 t0 (ctx_allocate u)"
  by (auto simp: ctx_allocate_def Let_def split: option.split intro!: quiet)

lemma quiet_mvar_start [quiet]: "since t0 (trace u) \<Longrightarrow> q2 t0 (mvar_start w r u)"
  by (auto simp: mvar_start_def Let_def split: option.split intro!: quiet)

lemma quiet_print_procs [quiet]: "since t0 (trace u) \<Longrightarrow> q1 t0 (print_writers i l u)"
  "since t0 (trace u) \<Longrightarrow> q1 t0 (print_readers l u)"
  by (induction l arbitrary: i u) (auto intro!: quiet)

lemma quiet_mvar [quiet]: "since t0 (trace s) \<Longrightarrow> q1 t0 (cmd_mvar s)"
  by (auto simp: cmd_mvar_def Let_def split: sum.split intro!: quiet)

section \<open>A command of a pipeline\<close>

lemma quiet_with_parameter:
  "since t0 (trace s) \<Longrightarrow> (\<And>s. since t0 (trace s) \<Longrightarrow> q1 t0 (cmd s)) \<Longrightarrow> q1 t0 (with_parameter p cmd s)"
  by (auto simp: with_parameter_def Let_def intro!: q_bind1 q_bind_string)

lemma quiet_finished: "q1 t0 m \<Longrightarrow> q2 t0 (finished m)"
  by (auto simp: finished_def q1_def q2_def bind_eq_Some)

lemma quiet_pipeline_command: "since t0 (trace s) \<Longrightarrow> q2 t0 (run_pipeline_command cmd param s)"
  unfolding run_pipeline_command_def
  by (simp add: quiet quiet_finished quiet_with_parameter split: if_split)

end
