(* ===== verification/User_Programs.thy ===== *)
theory User_Programs
  imports Shell Mm_Types
begin

text \<open>
  The programs of \<^verbatim>\<open>programs/\<close> that the shell starts as processes. Each ends with \<^verbatim>\<open>sys_exit\<close>, which does
  not return: the model ends there too. \<open>argv\<close> is the address of the array with the addresses and texts of
  its strings. What a call stores in the program's memory (bytes read, process table, statistics) is an
  argument of the model.
\<close>

text \<open>The end that every program has on every path.\<close>

definition leave :: "int \<Rightarrow> uargv \<Rightarrow> 'a user_st_scheme \<Rightarrow> 'a user_st_scheme" where
  "leave code argv u = say (SysExit code) (free_spawn_args argv u)"

definition fail_with :: "string \<Rightarrow> va list \<Rightarrow> uargv \<Rightarrow> 'a user_st_scheme \<Rightarrow> 'a user_st_scheme option" where
  "fail_with fmt args argv u = do { u1 \<leftarrow> uprintf fmt args u; Some (leave 1 argv u1) }"

definition arg :: "nat \<Rightarrow> uargv \<Rightarrow> string option" where
  "arg i argv = (if i < length (snd argv) then Some (snd (snd argv ! i)) else None)"

section \<open>\<^verbatim>\<open>kill\<close>, \<^verbatim>\<open>nice\<close>, \<^verbatim>\<open>block\<close>\<close>

definition kill_main :: "int \<Rightarrow> uargv \<Rightarrow> 'a user_st_scheme \<Rightarrow> 'a user_st_scheme option" where
  "kill_main argc argv u =
    (if argc < 2 then fail_with (NL # ''Usage: kill <pid>'' @ [NL]) [] argv u
     else do {
       p \<leftarrow> parse_int_token (arg 1 argv);
       case p of
         None \<Rightarrow> fail_with (NL # ''kill: invalid pid '' @ [APOS] @ ''%s'' @ [APOS, NL]) [VStr (arg 1 argv)] argv u
       | Some pd \<Rightarrow> do {
           (r, u1) \<leftarrow> ask (SysKill pd) u;
           if r < 0 then fail_with (NL # ''kill: failed to terminate pid %d'' @ [NL]) [VInt pd] argv u1
           else do {
             u2 \<leftarrow> uprintf (NL # ''Killed pid %d'' @ [NL]) [VInt pd] u1;
             Some (leave 0 argv u2)
           }
         }
     })"

definition nice_main :: "int \<Rightarrow> uargv \<Rightarrow> 'a user_st_scheme \<Rightarrow> 'a user_st_scheme option" where
  "nice_main argc argv u =
    (if argc < 3 then fail_with (NL # ''Usage: nice <pid> <prio>'' @ [NL]) [] argv u
     else do {
       p \<leftarrow> parse_int_token (arg 1 argv);
       case p of
         None \<Rightarrow> fail_with (NL # ''nice: invalid pid '' @ [APOS] @ ''%s'' @ [APOS, NL]) [VStr (arg 1 argv)] argv u
       | Some pd \<Rightarrow> do {
           q \<leftarrow> parse_int_token (arg 2 argv);
           case q of
             None \<Rightarrow> fail_with (NL # ''nice: invalid priority '' @ [APOS] @ ''%s'' @ [APOS, NL]) [VStr (arg 2 argv)] argv u
           | Some prio \<Rightarrow>
             if prio < MIN_PRIORITY \<or> prio > MAX_PRIORITY then
               fail_with (NL # ''nice: priority out of range (%d-%d)'' @ [NL]) [VInt MIN_PRIORITY, VInt MAX_PRIORITY] argv u
             else do {
               (r, u1) \<leftarrow> ask (SysNice pd (nat prio)) u;
               if r < 0 then fail_with (NL # ''nice: failed to set priority for pid %d'' @ [NL]) [VInt pd] argv u1
               else do {
                 u2 \<leftarrow> uprintf (NL # ''Set pid %d priority to %d'' @ [NL]) [VInt pd, VInt prio] u1;
                 Some (leave 0 argv u2)
               }
             }
         }
     })"

text \<open>An entry of the process table as \<^verbatim>\<open>block\<close> and \<^verbatim>\<open>ps\<close> see it.\<close>

record uproc_info =
  up_pid :: int
  up_priority :: int
  up_state :: int
  up_ticks_left :: int
  up_fg :: int
  up_name :: string
  up_sp :: nat
  up_bp :: nat

fun find_proc :: "uproc_info list \<Rightarrow> int \<Rightarrow> uproc_info option" where
  "find_proc [] pd = None"
| "find_proc (p # ps) pd = (if up_pid p = pd then Some p else find_proc ps pd)"

text \<open>The shell's own process, when its number was passed; a bad number leaves -1.\<close>

definition shell_pid_arg :: "int \<Rightarrow> uargv \<Rightarrow> int option" where
  "shell_pid_arg argc argv =
    (if argc \<ge> 3 \<and> arg 2 argv \<noteq> None then
       map_option (\<lambda>r. case r of None \<Rightarrow> -1 | Some v \<Rightarrow> v) (parse_int_token (arg 2 argv))
     else Some (-1))"

definition block_found :: "int \<Rightarrow> uproc_info \<Rightarrow> uargv \<Rightarrow> 'a user_st_scheme \<Rightarrow> 'a user_st_scheme option" where
  "block_found target_pid target argv u =
    (if up_state target = 4 then fail_with (NL # ''block: process already exited'' @ [NL]) [] argv u
     else if up_state target = 3 then do {
       (r, u1) \<leftarrow> ask (SysUnblock target_pid) u;
       if r < 0 then fail_with (NL # ''block: failed to unblock process %d'' @ [NL]) [VInt target_pid] argv u1
       else do { u2 \<leftarrow> uprintf (NL # ''Process %d moved to READY'' @ [NL]) [VInt target_pid] u1; Some (leave 0 argv u2) }
     }
     else if up_state target = 0 then fail_with (NL # ''block: process not started yet'' @ [NL]) [] argv u
     else do {
       (r, u1) \<leftarrow> ask (SysBlock target_pid) u;
       if r < 0 then fail_with (NL # ''block: failed to block process %d'' @ [NL]) [VInt target_pid] argv u1
       else do { u2 \<leftarrow> uprintf (NL # ''Process %d moved to BLOCKED'' @ [NL]) [VInt target_pid] u1; Some (leave 0 argv u2) }
     })"

text \<open>\<open>table\<close> is the array the snapshot filled; only its first \<open>count\<close> entries are looked at.\<close>

definition block_main :: "uproc_info list \<Rightarrow> int \<Rightarrow> uargv \<Rightarrow> 'a user_st_scheme \<Rightarrow> 'a user_st_scheme option" where
  "block_main table argc argv u =
    (if argc < 2 then fail_with (NL # ''Usage: block <pid>'' @ [NL]) [] argv u
     else do {
       p \<leftarrow> parse_int_token (arg 1 argv);
       case p of
         None \<Rightarrow> fail_with (NL # ''block: invalid pid '' @ [APOS] @ ''%s'' @ [APOS, NL]) [VStr (arg 1 argv)] argv u
       | Some pd \<Rightarrow>
         if pd \<le> 0 then
           fail_with (NL # ''block: invalid pid '' @ [APOS] @ ''%s'' @ [APOS, NL]) [VStr (arg 1 argv)] argv u
         else do {
           sp \<leftarrow> shell_pid_arg argc argv;
           if pd = sp then fail_with (NL # ''block: refusing to block the current shell'' @ [NL]) [] argv u
           else do {
             (count, u1) \<leftarrow> ask (SysProcSnapshot 128) u;
             if count \<le> 0 then fail_with (NL # ''block: could not read process list'' @ [NL]) [] argv u1
             else case find_proc (take (nat count) table) pd of
               None \<Rightarrow> fail_with (NL # ''block: pid %d not found'' @ [NL]) [VInt pd] argv u1
             | Some t \<Rightarrow> block_found pd t argv u1
           }
         }
     })"

section \<open>\<^verbatim>\<open>cat\<close>, \<^verbatim>\<open>wc\<close>, \<^verbatim>\<open>filter\<close>\<close>

text \<open>
  The input is the list of what the reads store: a chunk, an empty chunk at the end of the input, or
  \<open>None\<close> for a read that fails. A read never stores more than it was asked for: a longer chunk would
  overflow the buffer.
\<close>

text \<open>\<^verbatim>\<open>cat\<close> writes whole lines, and the rest only at the end of the input, not after a failed read; \<open>lines_of\<close> splits the buffer behind every new line.\<close>

fun lines_of :: "string \<Rightarrow> string \<Rightarrow> string list \<times> string" where
  "lines_of cur [] = ([], cur)"
| "lines_of cur (c # cs) =
    (if c = NL then (let (ls, r) = lines_of [] cs in ((cur @ [c]) # ls, r)) else lines_of (cur @ [c]) cs)"

fun cat_loop :: "string \<Rightarrow> string option list \<Rightarrow> 'a user_st_scheme \<Rightarrow> (string \<times> 'a user_st_scheme) option" where
  "cat_loop buf [] u = None"
| "cat_loop buf (None # input) u = Some ([], say (SysReadFd 0 (int (256 - length buf))) u)"
| "cat_loop buf (Some chunk # input) u =
    (let u1 = say (SysReadFd 0 (int (256 - length buf))) u in
     if chunk = [] then Some (buf, u1)
     else if length buf + length chunk > 256 then None
     else
       let (ls, rest) = lines_of [] (buf @ chunk);
           u2 = say_all (map (SysWriteFd 1) ls) u1
       in if length rest = 256 then cat_loop [] input (say (SysWriteFd 1 rest) u2)
          else cat_loop rest input u2)"

definition cat_main :: "string option list \<Rightarrow> uargv \<Rightarrow> 'a user_st_scheme \<Rightarrow> 'a user_st_scheme option" where
  "cat_main input argv u = do {
     (buf, u1) \<leftarrow> cat_loop [] input u;
     Some (leave 0 argv (if buf \<noteq> [] then say (SysWriteFd 1 buf) u1 else u1))
   }"

fun count_newlines :: "string \<Rightarrow> nat \<Rightarrow> nat" where
  "count_newlines [] n = n"
| "count_newlines (c # cs) n = count_newlines cs (if c = NL then n + 1 else n)"

fun wc_loop :: "nat \<Rightarrow> string option list \<Rightarrow> 'a user_st_scheme \<Rightarrow> (nat \<times> 'a user_st_scheme) option" where
  "wc_loop lns [] u = None"
| "wc_loop lns (None # input) u = Some (lns, say (SysReadFd 0 256) u)"
| "wc_loop lns (Some chunk # input) u =
    (let u1 = say (SysReadFd 0 256) u in
     if chunk = [] then Some (lns, u1)
     else if length chunk > 256 then None
     else wc_loop (count_newlines chunk lns) input u1)"

definition wc_main :: "string option list \<Rightarrow> uargv \<Rightarrow> 'a user_st_scheme \<Rightarrow> 'a user_st_scheme option" where
  "wc_main input argv u = do {
     (lns, u1) \<leftarrow> wc_loop 0 input u;
     u2 \<leftarrow> uprintf (''%d'' @ [NL]) [VInt (int lns)] u1;
     Some (leave 0 argv u2)
   }"

definition is_vowel :: "char \<Rightarrow> bool" where
  "is_vowel c \<longleftrightarrow> c = CHR ''a'' \<or> c = CHR ''e'' \<or> c = CHR ''i'' \<or> c = CHR ''o'' \<or> c = CHR ''u''
     \<or> c = CHR ''A'' \<or> c = CHR ''E'' \<or> c = CHR ''I'' \<or> c = CHR ''O'' \<or> c = CHR ''U''"

fun drop_vowels :: "string \<Rightarrow> string" where
  "drop_vowels [] = []"
| "drop_vowels (c # cs) = (if \<not> is_vowel c then c # drop_vowels cs else drop_vowels cs)"

fun filter_loop :: "string option list \<Rightarrow> 'a user_st_scheme \<Rightarrow> 'a user_st_scheme option" where
  "filter_loop [] u = None"
| "filter_loop (None # input) u = Some (say (SysReadFd 0 256) u)"
| "filter_loop (Some chunk # input) u =
    (let u1 = say (SysReadFd 0 256) u in
     if chunk = [] then Some u1
     else if length chunk > 256 then None
     else filter_loop input
       (if drop_vowels chunk \<noteq> [] then say (SysWriteFd 1 (drop_vowels chunk)) u1 else u1))"

definition filter_main :: "string option list \<Rightarrow> uargv \<Rightarrow> 'a user_st_scheme \<Rightarrow> 'a user_st_scheme option" where
  "filter_main input argv u = do { u1 \<leftarrow> filter_loop input u; Some (leave 0 argv u1) }"

section \<open>\<^verbatim>\<open>ps\<close>\<close>

definition state_to_string :: "int \<Rightarrow> string" where
  "state_to_string st =
    (if st = 0 then ''NEW'' else if st = 1 then ''READY'' else if st = 2 then ''RUN''
     else if st = 3 then ''BLOCK'' else if st = 4 then ''EXIT'' else ''?'')"

text \<open>Sixteen upper-case digits, filled from the last.\<close>

definition format_hex64 :: "nat \<Rightarrow> string" where
  "format_hex64 value = hex_fill 16 value"

definition print_hex64 :: "nat \<Rightarrow> 'a user_st_scheme \<Rightarrow> 'a user_st_scheme option" where
  "print_hex64 value u = uprintf ''0x%s'' [VStr (Some (format_hex64 value))] u"

text \<open>A number in a field: its width is guessed from its size, so a negative number counts as one digit.\<close>

definition num_len :: "nat \<Rightarrow> int \<Rightarrow> nat" where
  "num_len most v =
    (if v < 10 then 1 else if v < 100 then 2 else if v < 1000 then 3
     else if most = 5 \<and> v < 10000 then 4 else most)"

fun pad :: "nat \<Rightarrow> 'a user_st_scheme \<Rightarrow> 'a user_st_scheme option" where
  "pad 0 u = Some u"
| "pad (Suc n) u = do { u1 \<leftarrow> uprintf '' '' [] u; pad n u1 }"

definition ps_row :: "uproc_info \<Rightarrow> 'a user_st_scheme \<Rightarrow> 'a user_st_scheme option" where
  "ps_row p u = do {
     u1 \<leftarrow> uprintf ''%d'' [VInt (up_pid p)] u;
     u2 \<leftarrow> pad (6 - num_len 5 (up_pid p)) u1;
     u3 \<leftarrow> uprintf ''%d'' [VInt (up_priority p)] u2;
     u4 \<leftarrow> pad (5 - num_len 4 (up_priority p)) u3;
     u5 \<leftarrow> uprintf ''%s'' [VStr (Some (state_to_string (up_state p)))] u4;
     u6 \<leftarrow> pad (7 - length (state_to_string (up_state p))) u5;
     u7 \<leftarrow> uprintf ''%d'' [VInt (up_ticks_left p)] u6;
     u8 \<leftarrow> pad (6 - num_len 5 (up_ticks_left p)) u7;
     u9 \<leftarrow> uprintf ''%s'' [VStr (Some (if up_fg p \<noteq> 0 then ''FG'' else ''BG''))] u8;
     u10 \<leftarrow> pad 8 u9;
     u11 \<leftarrow> print_hex64 (up_sp p) u10;
     u12 \<leftarrow> uprintf '' '' [] u11;
     u13 \<leftarrow> print_hex64 (up_bp p) u12;
     uprintf ('' %s'' @ [NL]) [VStr (Some (if first_char (up_name p) \<noteq> NUL then up_name p else ''(no name)''))] u13
   }"

fun ps_rows :: "uproc_info list \<Rightarrow> 'a user_st_scheme \<Rightarrow> 'a user_st_scheme option" where
  "ps_rows [] u = Some u"
| "ps_rows (p # ps) u = do { u1 \<leftarrow> ps_row p u; ps_rows ps u1 }"

definition ps_main :: "uproc_info list \<Rightarrow> uargv \<Rightarrow> 'a user_st_scheme \<Rightarrow> 'a user_st_scheme option" where
  "ps_main info argv u = do {
     (count, u1) \<leftarrow> ask (SysProcSnapshot 128) u;
     if count \<le> 0 then do {
       u2 \<leftarrow> uprintf (NL # ''No processes to show'' @ [NL]) [] u1;
       Some (leave 0 argv u2)
     } else do {
       u2 \<leftarrow> uprintf (NL # ''PID   PRIO STATE  TICKS FG        SP                BP                NAME'' @ [NL]) [] u1;
       u3 \<leftarrow> ps_rows (take (nat count) info) u2;
       u4 \<leftarrow> uprintf [NL] [] u3;
       Some (leave 0 argv u4)
     }
   }"

section \<open>\<^verbatim>\<open>mem\<close>\<close>

text \<open>The ratio in hundredths, rounded; the product wraps at 64 bits.\<close>

definition print_fixed_ratio :: "nat \<Rightarrow> nat \<Rightarrow> 'a user_st_scheme \<Rightarrow> 'a user_st_scheme option" where
  "print_fixed_ratio numerator denominator u =
    (if denominator = 0 then uprintf ''N/A'' [] u
     else do {
       let scaled = (if numerator = 0 then 0
                     else wrap64 (wrap64 (numerator * 100) + denominator div 2) div denominator);
       u1 \<leftarrow> uprintf ''%d'' [VInt ((int (scaled div 100) + 2147483648) mod 4294967296 - 2147483648)] u;
       u2 \<leftarrow> uprintf ''.'' [] u1;
       u3 \<leftarrow> (if scaled mod 100 < 10 then uprintf ''0'' [] u2 else Some u2);
       uprintf ''%d'' [VInt (int (scaled mod 100))] u3
     })"

text \<open>A label, a number and a unit.\<close>

definition print_field :: "string \<Rightarrow> nat \<Rightarrow> string \<Rightarrow> 'a user_st_scheme \<Rightarrow> 'a user_st_scheme option" where
  "print_field label v unit_text u = do {
     u1 \<leftarrow> uprintf label [] u;
     u2 \<leftarrow> printDec v u1;
     uprintf unit_text [] u2
   }"

definition print_basic_stats :: "mm_stats \<Rightarrow> 'a user_st_scheme \<Rightarrow> 'a user_st_scheme option" where
  "print_basic_stats st u = do {
     u1 \<leftarrow> uprintf (''allocator: %s'' @ [NL])
             [VStr (Some (if first_char (mm_name st) \<noteq> NUL then mm_name st else ''unknown''))] u;
     u2 \<leftarrow> print_field ''heap:      '' (heap_total st) ('' bytes'' @ [NL]) u1;
     u3 \<leftarrow> print_field ''used:      '' (used_bytes st) ('' bytes'' @ [NL]) u2;
     u4 \<leftarrow> print_field ''free:      '' (free_bytes st) ('' bytes'' @ [NL]) u3;
     u5 \<leftarrow> print_field ''free_blks: '' (free_blocks st) [NL] u4;
     u6 \<leftarrow> print_field ''largest:   '' (largest_free st) ('' bytes'' @ [NL]) u5;
     u7 \<leftarrow> uprintf ''frag:      '' [] u6;
     u8 \<leftarrow> (if free_bytes st = 0 then uprintf (''N/A'' @ [NL]) [] u7
            else do {
              let wasted = (if free_bytes st > largest_free st then free_bytes st - largest_free st else 0);
              u' \<leftarrow> print_fixed_ratio wasted (free_bytes st) u7;
              uprintf [NL] [] u'
            });
     if heap_base st \<noteq> 0 \<or> st_heap_end st \<noteq> 0 then do {
       u9 \<leftarrow> uprintf ''heap_base: 0x'' [] u8;
       u10 \<leftarrow> printHex (heap_base st) u9;
       u11 \<leftarrow> uprintf (NL # ''heap_end:  0x'') [] u10;
       u12 \<leftarrow> printHex (st_heap_end st) u11;
       uprintf [NL] [] u12
     } else Some u8
   }"

fun print_free_blocks :: "(nat \<times> nat) list \<Rightarrow> 'a user_st_scheme \<Rightarrow> 'a user_st_scheme option" where
  "print_free_blocks [] u = Some u"
| "print_free_blocks ((a, n) # rest) u = do {
     u1 \<leftarrow> uprintf ''  0x'' [] u;
     u2 \<leftarrow> printHex a u1;
     u3 \<leftarrow> print_field ''  '' n ('' bytes'' @ [NL]) u2;
     print_free_blocks rest u3
   }"

definition print_verbose_simple :: "mm_stats \<Rightarrow> 'a user_st_scheme \<Rightarrow> 'a user_st_scheme option" where
  "print_verbose_simple st u = do {
     u1 \<leftarrow> uprintf (NL # ''freelist (up to %d):'' @ [NL]) [VInt (int MM_MAX_SIMPLE_BLOCKS)] u;
     u2 \<leftarrow> print_free_blocks (take (min (freelist_count st) MM_MAX_SIMPLE_BLOCKS) (freelist st)) u1;
     u3 \<leftarrow> (if freelist_count st = 0 then uprintf (''  (no free blocks)'' @ [NL]) [] u2 else Some u2);
     if freelist_truncated st > 0 then print_field ''  (+ '' (freelist_truncated st) ('' more)'' @ [NL]) u3
     else Some u3
   }"

fun print_order_lines :: "mm_order_info list \<Rightarrow> 'a user_st_scheme \<Rightarrow> 'a user_st_scheme option" where
  "print_order_lines [] u = Some u"
| "print_order_lines (o1 # rest) u = do {
     u1 \<leftarrow> print_field ''  '' (oi_order o1) ''    '' u;
     u2 \<leftarrow> printDec (oi_block_size o1) u1;
     u3 \<leftarrow> print_field ''    '' (oi_free_count o1) [NL] u2;
     print_order_lines rest u3
   }"

definition print_verbose_buddy :: "mm_stats \<Rightarrow> 'a user_st_scheme \<Rightarrow> 'a user_st_scheme option" where
  "print_verbose_buddy st u = do {
     u1 \<leftarrow> uprintf (NL # ''order  size       free'' @ [NL]) [] u;
     let limit = (if st_max_order st \<ge> MM_MAX_ORDER then MM_MAX_ORDER - 1 else st_max_order st);
     print_order_lines (take (limit + 1) (orders st)) u1
   }"

fun mem_options :: "string list \<Rightarrow> bool \<Rightarrow> string + bool" where
  "mem_options [] verbose = Inr verbose"
| "mem_options (a # rest) verbose =
    (if u_strcmp a ''-v'' = 0 \<or> u_strcmp a ''--verbose'' = 0 then mem_options rest True else Inl a)"

text \<open>\<open>st\<close> is what the call stored.\<close>

definition mem_command :: "mm_stats \<Rightarrow> uargv \<Rightarrow> 'a user_st_scheme \<Rightarrow> (int \<times> 'a user_st_scheme) option" where
  "mem_command st argv u =
    (case mem_options (map snd (tl (snd argv))) False of
       Inl a \<Rightarrow> do { u1 \<leftarrow> uprintf (''mem: unknown option '' @ [APOS] @ ''%s'' @ [APOS, NL]) [VStr (Some a)] u; Some (1, u1) }
     | Inr verbose \<Rightarrow> do {
         (rc, u1) \<leftarrow> ask SysMmGetStats u;
         if rc < 0 then do {
           u2 \<leftarrow> uprintf (''mem: mm_get_stats failed (%d)'' @ [NL]) [VInt (- rc)] u1;
           Some (1, u2)
         } else do {
           u2 \<leftarrow> print_basic_stats st u1;
           u3 \<leftarrow> (if \<not> verbose then Some u2
                 else if has_buddy st \<noteq> 0 then print_verbose_buddy st u2 else print_verbose_simple st u2);
           Some (0, u3)
         }
       })"

definition mem_main :: "mm_stats \<Rightarrow> uargv \<Rightarrow> 'a user_st_scheme \<Rightarrow> 'a user_st_scheme option" where
  "mem_main st argv u = do { (status, u1) \<leftarrow> mem_command st argv u; Some (leave status argv u1) }"

section \<open>\<^verbatim>\<open>help\<close>\<close>

definition help_program_texts :: "string list" where
  "help_program_texts =
   [[NL] @ [NL] @ ''===== Listing a preview of available commands ====='' @ [NL],
    [NL] @ ''>'' @ [APOS] @ ''help'' @ [APOS] @ '' or '' @ [APOS] @ ''ls'' @ [APOS] @ ''     - displays this shell information'',
    [NL] @ ''>time               - display current time'',
    [NL] @ ''>clear              - clear the display'',
    [NL] @ ''>(+)                - increase font size (scaled)'',
    [NL] @ ''>(-)                - decrease font size (scaled)'',
    [NL] @ ''>registersinfo      - print current register values'',
    [NL] @ ''>zerodiv            - test divide by zero exception'',
    [NL] @ ''>invopcode          - test invalid op code exception'',
    [NL] @ ''>ps                 - list all processes'',
    [NL] @ ''>loop [-p prio]     - prints short greeting and process PID'',
    [NL] @ ''>nice <pid> <prio>  - change a given process priority'',
    [NL] @ ''>kill <pid>         - kill specified process'',
    [NL] @ ''>block <pid>        - toggle process between BLOCKED and READY'',
    [NL] @ ''>yield              - yield the CPU'',
    [NL] @ ''>waitpid <pid|-1>   - wait for a child to finish'',
    [NL] @ ''>echo <text>        - print text to stdout'',
    [NL] @ ''>mem [-v]           - show memory usage statistics'',
    [NL] @ ''>cat                - read from stdin and write to stdout'',
    [NL] @ ''>wc                 - count lines from stdin'',
    [NL] @ ''>filter             - remove vowels from stdin'',
    [NL] @ ''>test_mm [size]     - test memory manager (default: 100000000)'',
    [NL] @ ''>test_processes [n] - test process management (default: 10)'',
    [NL] @ ''>test_priority [n]  - scheduling demo (default: 5)'',
    [NL] @ ''>test_no_synchro [n]- run race condition without semaphores'',
    [NL] @ ''>test_synchro [n]   - run synchronized version using semaphores'',
    [NL] @ ''>mvar <writers> <readers> - start colored MVar demo'',
    [NL] @ ''>exit               - exit KERNEL OS'' @ [NL] @ [NL],
    ''Background execution:'' @ [NL],
    ''  cmd &  - Execute command in background (no wait)'' @ [NL],
    ''Pipe examples:'' @ [NL],
    ''  echo hola | wc         - count lines in '' @ [APOS] @ ''hola'' @ [APOS] @ [NL],
    ''  echo '' @ [CHR 0x22] @ ''hola mundo'' @ [CHR 0x22] @ '' | wc  - count lines with spaces'' @ [NL],
    ''  echo abracadabra | filter - remove vowels'' @ [NL],
    ''  cat | filter           - read input and filter vowels'' @ [NL] @ [NL]]"
fun print_texts :: "string list \<Rightarrow> 'a user_st_scheme \<Rightarrow> 'a user_st_scheme option" where
  "print_texts [] u = Some u"
| "print_texts (t # ts) u = do { u1 \<leftarrow> uprintf t [] u; print_texts ts u1 }"

definition help_main :: "uargv \<Rightarrow> 'a user_st_scheme \<Rightarrow> 'a user_st_scheme option" where
  "help_main argv u = do { u1 \<leftarrow> print_texts help_program_texts u; Some (leave 0 argv u1) }"

section \<open>\<^verbatim>\<open>loop\<close>\<close>

text \<open>The start of the endless program, and one turn of its loop; \<open>count\<close> must stay an \<^verbatim>\<open>int\<close>.\<close>

definition loop_main :: "'a user_st_scheme \<Rightarrow> (int \<times> 'a user_st_scheme) option" where
  "loop_main u = do {
     (pd, u1) \<leftarrow> ask SysGetpid u;
     u2 \<leftarrow> uprintf (''[loop %d] Starting infinite loop (use kill to stop)'' @ [NL]) [VInt pd] u1;
     Some (pd, u2)
   }"

definition loop_main_turn :: "int \<Rightarrow> int \<Rightarrow> 'a user_st_scheme \<Rightarrow> (int \<times> 'a user_st_scheme) option" where
  "loop_main_turn pd count u =
    (if \<not> in_int (count + 1) then None
     else do {
       u1 \<leftarrow> (if (count + 1) mod 100000 = 0
               then uprintf (''[loop %d] Iteration %d'' @ [NL]) [VInt pd, VInt ((count + 1) div 100000)] u else Some u);
       Some (count + 1, if (count + 1) mod 10000 = 0 then say SysYield u1 else u1)
     })"

end
