(* ===== verification/Shell_Theorems.thy ===== *)
theory Shell_Theorems
  imports Shell_Quiet User_Programs User_Theorems "HOL-Library.Multiset"
begin

text \<open>
  Properties of the shell: what it releases on every path, how a typed line reaches its command, and the
  two places where its buffers give out.
\<close>

section \<open>Descriptors in a trace\<close>

definition opened :: "calls \<Rightarrow> int list" where
  "opened t = concat (map (\<lambda>(e, r). case e of
     SysPipeOpen nm flags \<Rightarrow> (case r of Some fd \<Rightarrow> if fd \<ge> 0 then [fd] else [] | None \<Rightarrow> []) | _ \<Rightarrow> []) t)"

definition closed :: "calls \<Rightarrow> int list" where
  "closed t = concat (map (\<lambda>(e, r). case e of SysPipeClose fd \<Rightarrow> [fd] | _ \<Rightarrow> []) t)"

text \<open>Copies of standard descriptors put aside, and plain descriptors closed.\<close>

definition saved :: "calls \<Rightarrow> int list" where
  "saved t = concat (map (\<lambda>(e, r). case e of
     SysDup2 old new \<Rightarrow> (case r of Some fd \<Rightarrow> if new \<ge> 60 \<and> fd \<ge> 0 then [fd] else [] | None \<Rightarrow> []) | _ \<Rightarrow> []) t)"

definition dropped :: "calls \<Rightarrow> int list" where
  "dropped t = concat (map (\<lambda>(e, r). case e of SysCloseFd fd \<Rightarrow> [fd] | _ \<Rightarrow> []) t)"

text \<open>What a descriptor was redirected to, in order; a call known to have failed does not count.\<close>

definition redirects :: "int \<Rightarrow> calls \<Rightarrow> int list" where
  "redirects n t = concat (map (\<lambda>(e, r). case e of
     SysDup2 old new \<Rightarrow> if new = n \<and> (case r of Some x \<Rightarrow> x \<ge> 0 | None \<Rightarrow> True) then [old] else [] | _ \<Rightarrow> []) t)"

lemmas fd_views = opened_def closed_def saved_def dropped_def redirects_def

lemma fd_views_append [simp]:
  "opened (a @ b) = opened a @ opened b" "closed (a @ b) = closed a @ closed b" "saved (a @ b) = saved a @ saved b"
  "dropped (a @ b) = dropped a @ dropped b" "redirects n (a @ b) = redirects n a @ redirects n b"
  by (simp_all add: fd_views)

lemma fd_views_Nil [simp]:
  "opened [] = []" "closed [] = []" "saved [] = []" "dropped [] = []" "redirects n [] = []"
  by (simp_all add: fd_views)

lemma fd_views_Cons:
  "opened (x # t) = opened [x] @ opened t" "closed (x # t) = closed [x] @ closed t" "saved (x # t) = saved [x] @ saved t"
  "dropped (x # t) = dropped [x] @ dropped t" "redirects n (x # t) = redirects n [x] @ redirects n t"
  by (simp_all add: fd_views)

text \<open>No descriptor shows in a stretch without descriptor calls.\<close>

definition calm :: "calls \<Rightarrow> bool" where
  "calm es \<longleftrightarrow> list_all (\<lambda>(e, r). \<not> fd_call e) es"

lemma calm_views: "calm es \<Longrightarrow> opened es = [] \<and> closed es = [] \<and> saved es = [] \<and> dropped es = [] \<and> redirects n es = []"
proof (induction es)
  case (Cons x es)
  obtain e r where x: "x = (e, r)" by (cases x)
  with Cons.prems have "\<not> fd_call e" "calm es" by (auto simp: calm_def)
  then have "opened [x] = [] \<and> closed [x] = [] \<and> saved [x] = [] \<and> dropped [x] = [] \<and> redirects n [x] = []"
    unfolding x fd_views by (cases e) auto
  with Cons.IH [OF \<open>calm es\<close>] show ?case using fd_views_Cons [where x = x and t = es] by simp
qed simp

lemma sinceD: "since t0 t \<Longrightarrow> \<exists>es. t = t0 @ es \<and> calm es"
  by (auto simp: since_def calm_def)

lemma q2_calm: "q2 (trace u) m \<Longrightarrow> m = Some (b, u') \<Longrightarrow> \<exists>es. trace u' = trace u @ es \<and> calm es"
  by (auto simp: q2_def dest: sinceD)

lemma pcolor_calm: "\<exists>es. trace (pcolor str col u) = trace u @ es \<and> calm es"
  by (rule sinceD) (simp add: quiet)

text \<open>What a stretch of the pipeline code did, as the five views.\<close>

definition did :: "calls \<Rightarrow> int list \<Rightarrow> int list \<Rightarrow> int list \<Rightarrow> int list \<Rightarrow> int list \<Rightarrow> int list \<Rightarrow> bool" where
  "did es op cl sv dr r0 r1 \<longleftrightarrow> opened es = op \<and> closed es = cl \<and> saved es = sv \<and> dropped es = dr
     \<and> redirects 0 es = r0 \<and> redirects 1 es = r1"

lemma did_append: "did a op cl sv dr r0 r1 \<Longrightarrow> did b op' cl' sv' dr' r0' r1' \<Longrightarrow>
  did (a @ b) (op @ op') (cl @ cl') (sv @ sv') (dr @ dr') (r0 @ r0') (r1 @ r1')"
  by (simp add: did_def)

lemma did_calm: "calm es \<Longrightarrow> did es [] [] [] [] [] []"
  using calm_views by (simp add: did_def)

section \<open>The steps of \<^verbatim>\<open>execute_pipe\<close>\<close>

lemma pipe_errorD: "pipe_error what v u = Some (v', u') \<Longrightarrow>
  v' = v\<lparr>pstatus := -1\<rparr> \<and> (\<exists>es. trace u' = trace u @ es \<and> did es [] [] [] [] [] [])"
  using pcolor_calm did_calm unfolding pipe_error_def by blast

abbreviation fds :: "int \<Rightarrow> int list" where "fds n \<equiv> (if n \<ge> 0 then [n] else [])"

lemma did_one:
  "did [(SysDup2 0 60, Some n)] [] [] (fds n) [] [] []" "did [(SysDup2 1 61, Some n)] [] [] (fds n) [] [] []"
  "did [(SysPipeOpen nm f, Some n)] (fds n) [] [] [] [] []" "did [(SysPipeClose n, r)] [] [n] [] [] [] []"
  "did [(SysDup2 a 0, Some n)] [] [] [] [] (if n \<ge> 0 then [a] else []) []"
  "did [(SysDup2 a 1, Some n)] [] [] [] [] [] (if n \<ge> 0 then [a] else [])"
  "did [(SysPipeUnlink nm, r)] [] [] [] [] [] []"
  by (auto simp: did_def fd_views)

text \<open>A step that did something after what the trace already holds.\<close>

definition stage :: "calls \<Rightarrow> calls \<Rightarrow> int list \<Rightarrow> int list \<Rightarrow> int list \<Rightarrow> int list \<Rightarrow> int list \<Rightarrow> int list \<Rightarrow> bool" where
  "stage t t' op cl sv dr r0 r1 \<longleftrightarrow> (\<exists>es. t' = t @ es \<and> did es op cl sv dr r0 r1)"

lemma stage_trans: "stage t u op cl sv dr r0 r1 \<Longrightarrow> stage u w op' cl' sv' dr' r0' r1' \<Longrightarrow>
  stage t w (op @ op') (cl @ cl') (sv @ sv') (dr @ dr') (r0 @ r0') (r1 @ r1')"
  by (auto simp: stage_def dest: did_append)

lemma stage_did: "did es op cl sv dr r0 r1 \<Longrightarrow> stage t (t @ es) op cl sv dr r0 r1"
  by (auto simp: stage_def)

lemma stage_ask: "ask e u = Some (r, u') \<Longrightarrow> did [(e, Some r)] op cl sv dr r0 r1 \<Longrightarrow> stage (trace u) (trace u') op cl sv dr r0 r1"
  using stage_did [of "[(e, Some r)]" op cl sv dr r0 r1 "trace u"] by (auto dest!: askD)

lemma stage_calm: "since t t' \<Longrightarrow> stage t t' [] [] [] [] [] []"
  by (auto simp: stage_def dest!: sinceD intro: did_calm)

lemma stage_error: "pipe_error what v u = Some (v', u') \<Longrightarrow> v' = v\<lparr>pstatus := -1\<rparr> \<and> stage (trace u) (trace u') [] [] [] [] [] []"
  using pipe_errorD by (fastforce simp: stage_def)

lemma pipe_backupsD:
  assumes "pipe_backups pipe_vars_init u = Some ((ok, v), u')"
  shows "stage (trace u) (trace u') [] [] (fds (backup_in v) @ fds (backup_out v)) [] [] []
    \<and> write_fd v = -1 \<and> read_fd v = -1 \<and> \<not> pipe_created v
    \<and> (backup_in v < 0 \<longrightarrow> backup_out v < 0) \<and> (ok \<longrightarrow> backup_in v \<ge> 0 \<and> backup_out v \<ge> 0)"
proof -
  obtain bi u1 where a: "ask (SysDup2 0 60) u = Some (bi, u1)"
    using assms by (auto simp: pipe_backups_def bind_eq_Some const_defs)
  note ta = stage_ask [OF a did_one(1)]
  show ?thesis
  proof (cases "bi < 0")
    case True
    with assms a have e: "pipe_error ''backup stdin'' (pipe_vars_init\<lparr>backup_in := bi\<rparr>) u1 = Some (v, u')" and "\<not> ok"
      by (auto simp: pipe_backups_def bind_eq_Some const_defs)
    with stage_trans [OF ta conjunct2 [OF stage_error [OF e]]] stage_error [OF e] True show ?thesis
      by (simp add: pipe_vars_init_def)
  next
    case ge: False
    then obtain bo u2 where b: "ask (SysDup2 1 61) u1 = Some (bo, u2)"
      using assms a by (auto simp: pipe_backups_def bind_eq_Some const_defs)
    note tb = stage_trans [OF ta stage_ask [OF b did_one(2)]]
    show ?thesis
    proof (cases "bo < 0")
      case True
      with assms a b ge have e: "pipe_error ''backup stdout'' (pipe_vars_init\<lparr>backup_in := bi, backup_out := bo\<rparr>) u2 = Some (v, u')"
        and "\<not> ok" by (auto simp: pipe_backups_def bind_eq_Some const_defs)
      with stage_trans [OF tb conjunct2 [OF stage_error [OF e]]] stage_error [OF e] True ge show ?thesis
        by (simp add: pipe_vars_init_def)
    next
      case False
      with assms a b ge have v: "v = pipe_vars_init\<lparr>backup_in := bi, backup_out := bo\<rparr>" "u' = u2"
        by (auto simp: pipe_backups_def bind_eq_Some const_defs)
      with tb False ge show ?thesis by (simp add: pipe_vars_init_def)
    qed
  qed
qed

lemma pipe_open_endsD:
  assumes "pipe_open_ends nm v0 u = Some ((ok, v), u')" and "write_fd v0 = -1" "read_fd v0 = -1"
  shows "stage (trace u) (trace u') (fds (write_fd v) @ fds (read_fd v)) [] [] [] [] []
    \<and> backup_in v = backup_in v0 \<and> backup_out v = backup_out v0 \<and> (ok \<longrightarrow> write_fd v \<ge> 0 \<and> read_fd v \<ge> 0)"
proof -
  obtain w u1 where a: "ask (SysPipeOpen nm 2) u = Some (w, u1)"
    using assms by (auto simp: pipe_open_ends_def bind_eq_Some)
  note ta = stage_ask [OF a did_one(3)]
  show ?thesis
  proof (cases "w < 0")
    case True
    with assms a have e: "pipe_error ''open pipe writer'' (v0\<lparr>write_fd := w\<rparr>) u1 = Some (v, u')" and "\<not> ok"
      by (auto simp: pipe_open_ends_def bind_eq_Some)
    with stage_trans [OF ta conjunct2 [OF stage_error [OF e]]] stage_error [OF e] True assms(3) show ?thesis by simp
  next
    case ge: False
    then obtain r u2 where b: "ask (SysPipeOpen nm 1) u1 = Some (r, u2)"
      using assms a by (auto simp: pipe_open_ends_def bind_eq_Some)
    note tb = stage_trans [OF ta stage_ask [OF b did_one(3)]]
    show ?thesis
    proof (cases "r < 0")
      case True
      with assms a b ge have e: "pipe_error ''open pipe reader'' (v0\<lparr>write_fd := w, read_fd := r\<rparr>) u2 = Some (v, u')"
        and "\<not> ok" by (auto simp: pipe_open_ends_def bind_eq_Some)
      with stage_trans [OF tb conjunct2 [OF stage_error [OF e]]] stage_error [OF e] True ge show ?thesis by simp
    next
      case False
      with assms a b ge have v: "v = v0\<lparr>write_fd := w, read_fd := r, pipe_created := True\<rparr>" "u' = u2"
        by (auto simp: pipe_open_ends_def bind_eq_Some)
      with tb False ge show ?thesis by simp
    qed
  qed
qed

lemma stage_restore:
  "stage (trace u) (trace (restore_fd b 0 u)) [] [] [] (fds b) (fds b) []"
  "stage (trace u) (trace (restore_fd b 1 u)) [] [] [] (fds b) [] (fds b)"
  using stage_did [of "[(SysDup2 b 0, None), (SysCloseFd b, None)]" _ _ _ _ _ _ "trace u"]
    stage_did [of "[(SysDup2 b 1, None), (SysCloseFd b, None)]" _ _ _ _ _ _ "trace u"]
    stage_did [of "[]" "[]" "[]" "[]" "[]" "[]" "[]" "trace u"]
  by (auto simp: restore_fd_def did_def fd_views)

lemma stage_close: "stage (trace u) (trace (if fd \<ge> 0 then say (SysPipeClose fd) u else u)) [] (fds fd) [] [] [] []"
  using stage_did [of "[(SysPipeClose fd, None)]" _ _ _ _ _ _ "trace u"] stage_did [of "[]" "[]" "[]" "[]" "[]" "[]" "[]" "trace u"]
  by (auto simp: did_def fd_views)

lemma stage_unlink: "stage (trace u) (trace (if b then say (SysPipeUnlink nm) u else u)) [] [] [] [] [] []"
  using stage_did [of "[(SysPipeUnlink nm, None)]" _ _ _ _ _ _ "trace u"] stage_did [of "[]" "[]" "[]" "[]" "[]" "[]" "[]" "trace u"]
  by (auto simp: did_def fd_views)

lemma stage_report: "stage (trace u) (trace (if b then pcolor str col u else u)) [] [] [] [] [] []"
  by (rule stage_calm) (simp add: quiet)

lemma pipe_cleanupD:
  "stage (trace u) (trace (pipe_cleanup nm v u)) [] (fds (read_fd v) @ fds (write_fd v)) []
     (fds (backup_in v) @ fds (backup_out v)) (fds (backup_in v)) (fds (backup_out v))"
  using stage_trans [OF stage_trans [OF stage_trans [OF stage_trans [OF stage_trans [OF
      stage_restore(1) [of u "backup_in v"] stage_restore(2) [of _ "backup_out v"]] stage_close [of _ "read_fd v"]]
      stage_close [of _ "write_fd v"]] stage_unlink [of _ "pipe_created v" nm]]
      stage_report [of _ "pstatus v < 0" "NL # ''[pipe] Execution failed'' @ [NL]" RED]]
  by (simp add: pipe_cleanup_def Let_def)

lemma stage_command: "run_pipeline_command cmd param s = Some (rc, s') \<Longrightarrow> stage (trace s) (trace s') [] [] [] [] [] []"
  using quiet_pipeline_command [of "trace s" s cmd param] by (intro stage_calm) (simp add: q2_def)

lemma pipe_rightD:
  assumes "pipe_right cmd param v0 s = Some (v, s')" and "read_fd v0 \<ge> 0"
  shows "\<exists>cl r0. stage (trace s) (trace s') [] cl [] [] r0 [] \<and> cl @ fds (read_fd v) = [read_fd v0]
    \<and> write_fd v = write_fd v0 \<and> backup_in v = backup_in v0 \<and> backup_out v = backup_out v0"
proof (cases "pstatus v0 = 0")
  case False
  with assms stage_did [of "[]" "[]" "[]" "[]" "[]" "[]" "[]" "trace s"] show ?thesis
    by (auto simp: pipe_right_def did_def intro!: exI [of _ "[]"])
next
  case True
  then obtain r s1 where a: "ask (SysDup2 (read_fd v0) 0) s = Some (r, s1)"
    using assms by (auto simp: pipe_right_def bind_eq_Some)
  note ta = stage_ask [OF a did_one(5)]
  show ?thesis
  proof (cases "r < 0")
    case neg: True
    with assms a True have e: "pipe_error ''redirect stdin'' v0 s1 = Some (v, s')"
      by (auto simp: pipe_right_def bind_eq_Some)
    with stage_trans [OF ta conjunct2 [OF stage_error [OF e]]] stage_error [OF e] neg assms(2) show ?thesis
      by (intro exI [of _ "[]"]) simp
  next
    case False
    with assms a True obtain rc where c: "run_pipeline_command cmd param (say (SysPipeClose (read_fd v0)) s1) = Some (rc, s')"
      and v: "v = v0\<lparr>read_fd := -1, pstatus := (if rc < 0 then -1 else 0)\<rparr>"
      by (auto simp: pipe_right_def bind_eq_Some Let_def)
    have "stage (trace s) (trace s') [] [read_fd v0] [] [] [read_fd v0] []"
      using stage_trans [OF stage_trans [OF ta stage_close [of s1 "read_fd v0"]]] stage_command [OF c] False assms(2) by simp
    with v show ?thesis by (intro exI) (rule conjI, assumption, simp)
  qed
qed

lemma pipe_bodyD:
  assumes "pipe_body lc lp rcmd rp v0 s = Some (v, s')" and "write_fd v0 \<ge> 0" "read_fd v0 \<ge> 0" "backup_out v0 \<ge> 0"
  shows "\<exists>cl dr r0 r1. stage (trace s) (trace s') [] cl [] dr r0 r1
    \<and> cl @ fds (read_fd v) @ fds (write_fd v) \<in> {[write_fd v0, read_fd v0], [read_fd v0, write_fd v0]}
    \<and> dr @ fds (backup_out v) = [backup_out v0]
    \<and> backup_in v = backup_in v0 \<and> (backup_out v < 0 \<longrightarrow> r1 \<noteq> [] \<and> last r1 = backup_out v0)"
proof -
  obtain r s1 where a: "ask (SysDup2 (write_fd v0) 1) s = Some (r, s1)"
    using assms by (auto simp: pipe_body_def bind_eq_Some)
  note ta = stage_ask [OF a did_one(6)]
  show ?thesis
  proof (cases "r < 0")
    case neg: True
    with assms a have e: "pipe_error ''redirect stdout'' v0 s1 = Some (v, s')"
      by (auto simp: pipe_body_def bind_eq_Some)
    with stage_trans [OF ta conjunct2 [OF stage_error [OF e]]] stage_error [OF e] neg assms(2-) show ?thesis
      by (intro exI [of _ "[]"]) simp
  next
    case False
    with assms a obtain rc s3 where c: "run_pipeline_command lc lp (say (SysPipeClose (write_fd v0)) s1) = Some (rc, s3)"
      and g: "pipe_right rcmd rp (v0\<lparr>write_fd := -1, pstatus := (if rc < 0 then -1 else 0), backup_out := -1\<rparr>)
        (restore_fd (backup_out v0) 1 s3) = Some (v, s')" (is "pipe_right _ _ ?v _ = _")
      by (auto simp: pipe_body_def bind_eq_Some Let_def)
    have t: "stage (trace s) (trace (restore_fd (backup_out v0) 1 s3)) [] [write_fd v0] [] [backup_out v0] [] [write_fd v0, backup_out v0]"
    proof -
      have "stage (trace s1) (trace s3) [] [write_fd v0] [] [] [] []"
        using stage_trans [OF stage_close [of s1 "write_fd v0"]] stage_command [OF c] assms(2) by fastforce
      from stage_trans [OF stage_trans [OF ta this] stage_restore(2) [of s3 "backup_out v0"]] False assms(2,4)
      show ?thesis by simp
    qed
    from pipe_rightD [OF g] assms(3) obtain cl r0 where
      g2: "stage (trace (restore_fd (backup_out v0) 1 s3)) (trace s') [] cl [] [] r0 []"
      "cl @ fds (read_fd v) = [read_fd v0]" "write_fd v = -1" "backup_in v = backup_in v0" "backup_out v = -1" by auto
    from stage_trans [OF t g2(1)] g2(2-) show ?thesis
      by (intro exI [of _ "write_fd v0 # cl"] exI [of _ "[backup_out v0]"] exI [of _ r0] exI [of _ "[write_fd v0, backup_out v0]"]) simp
  qed
qed

lemma pipe_runD:
  assumes "pipe_run nm lc lp rcmd rp s = Some (v, s')"
  shows "\<exists>op cl sv dr r0 r1. stage (trace s) (trace s') op cl sv dr r0 r1
    \<and> mset op = mset (cl @ fds (read_fd v) @ fds (write_fd v))
    \<and> mset sv = mset (dr @ fds (backup_in v) @ fds (backup_out v))
    \<and> (if sv = [] then backup_in v < 0 \<and> r0 = [] else hd sv = backup_in v \<and> backup_in v \<ge> 0)
    \<and> (if backup_out v < 0 then r1 = [] \<or> (sv \<noteq> [] \<and> last r1 = last sv) else last sv = backup_out v)"
proof -
  obtain ok1 v1 s1 where a: "pipe_backups pipe_vars_init s = Some ((ok1, v1), s1)"
    using assms by (auto simp: pipe_run_def bind_eq_Some)
  note A = pipe_backupsD [OF a]
  show ?thesis
  proof (cases ok1)
    case False
    with assms a have "v = v1" "s' = s1" by (auto simp: pipe_run_def bind_eq_Some)
    have t: "stage (trace s) (trace s') [] [] (fds (backup_in v) @ fds (backup_out v)) [] [] []"
      unfolding \<open>v = v1\<close> \<open>s' = s1\<close> by (rule conjunct1 [OF A])
    from A \<open>v = v1\<close> show ?thesis by (intro exI) (rule conjI, rule t, auto)
  next
    case ok1: True
    obtain ok2 v2 s2 where b: "pipe_open_ends nm v1 s1 = Some ((ok2, v2), s2)"
      using assms a ok1 by (auto simp: pipe_run_def bind_eq_Some)
    from pipe_open_endsD [OF b] A have B: "stage (trace s1) (trace s2) (fds (write_fd v2) @ fds (read_fd v2)) [] [] [] [] []"
      "backup_in v2 = backup_in v1" "backup_out v2 = backup_out v1" "ok2 \<longrightarrow> write_fd v2 \<ge> 0 \<and> read_fd v2 \<ge> 0" by auto
    have t: "stage (trace s) (trace s2) (fds (write_fd v2) @ fds (read_fd v2)) [] [backup_in v2, backup_out v2] [] [] []"
      using stage_trans [OF conjunct1 [OF A] B(1)] A B(2,3) ok1 by simp
    show ?thesis
    proof (cases ok2)
      case False
      with assms a b ok1 have "v = v2" "s' = s2" by (auto simp: pipe_run_def bind_eq_Some)
      with A B ok1 show ?thesis by (intro exI) (rule conjI, simp only: \<open>s' = s2\<close>, rule t, auto)
    next
      case ok2: True
      with assms a b ok1 have c: "pipe_body lc lp rcmd rp v2 s2 = Some (v, s')" by (auto simp: pipe_run_def bind_eq_Some)
      from pipe_bodyD [OF c] A B ok1 ok2 obtain cl dr r0 r1 where
        C: "stage (trace s2) (trace s') [] cl [] dr r0 r1"
        "cl @ fds (read_fd v) @ fds (write_fd v) \<in> {[write_fd v2, read_fd v2], [read_fd v2, write_fd v2]}"
        "dr @ fds (backup_out v) = [backup_out v2]" "backup_in v = backup_in v2"
        "backup_out v < 0 \<longrightarrow> r1 \<noteq> [] \<and> last r1 = backup_out v2" by auto
      have m: "mset [write_fd v2, read_fd v2] = mset (cl @ fds (read_fd v) @ fds (write_fd v))"
        using C(2) by auto
      have d: "mset [backup_in v2, backup_out v2] = mset (dr @ fds (backup_in v) @ fds (backup_out v))"
        using C(3,4) A B ok1 by (auto split: if_splits)
      have g: "if backup_out v < 0 then r1 = [] \<or> last r1 = backup_out v2 else backup_out v2 = backup_out v"
        using C(3,5) by (auto split: if_splits)
      from stage_trans [OF t C(1)] m d g A B C(4) ok1 ok2 show ?thesis
        by (intro exI) (rule conjI, assumption, simp split: if_splits)
    qed
  qed
qed

text \<open>C29. A pipeline of the shell leaves the descriptors as it found them on every path: whatever call fails
  (saving standard input or output, opening either end of the pipe, redirecting, starting either side),
  the ends of the pipe that were opened are exactly those closed, each once; the copies of the standard
  descriptors that were put aside are exactly those dropped, each once; and when standard input or standard
  output was redirected at all, the last redirection is back to the copy that was saved of it.\<close>

theorem pipeline_restores_descriptors:
  assumes "execute_pipe left_line right_line s = Some s'"
  shows "\<exists>es. trace s' = trace s @ es
    \<and> mset (opened es) = mset (closed es) \<and> mset (saved es) = mset (dropped es)
    \<and> (redirects 0 es \<noteq> [] \<longrightarrow> saved es \<noteq> [] \<and> last (redirects 0 es) = hd (saved es))
    \<and> (redirects 1 es \<noteq> [] \<longrightarrow> saved es \<noteq> [] \<and> last (redirects 1 es) = last (saved es))"
proof -
  obtain lok lc lp where l: "parse_command_line left_line = (lok, lc, lp)" by (metis prod_cases3)
  obtain rok rcmd rp where r: "parse_command_line right_line = (rok, rcmd, rp)" by (metis prod_cases3)
  show ?thesis
  proof (cases "lok \<and> rok")
    case False
    with assms l r have "s' = pcolor (NL # ''[pipe] Invalid command syntax'' @ [NL]) RED s"
      by (auto simp: execute_pipe_def)
    with pcolor_calm obtain es where "trace s' = trace s @ es" "calm es" by blast
    with calm_views [of es] show ?thesis by auto
  next
    case True
    with assms l r obtain nm v s1 where "pipe_run nm lc lp rcmd rp (s\<lparr>pipe_seq := pipe_seq s + 1\<rparr>) = Some (v, s1)"
      and s': "s' = pipe_cleanup nm v s1" by (auto simp: execute_pipe_def bind_eq_Some)
    from pipe_runD [OF this(1)] obtain op cl sv dr r0 r1 where
      t: "stage (trace s) (trace s1) op cl sv dr r0 r1"
      and m: "mset op = mset (cl @ fds (read_fd v) @ fds (write_fd v))" "mset sv = mset (dr @ fds (backup_in v) @ fds (backup_out v))"
      and b: "if sv = [] then backup_in v < 0 \<and> r0 = [] else hd sv = backup_in v \<and> backup_in v \<ge> 0"
        "if backup_out v < 0 then r1 = [] \<or> (sv \<noteq> [] \<and> last r1 = last sv) else last sv = backup_out v" by auto
    from stage_trans [OF t pipe_cleanupD [of s1 nm v]] s' obtain es where
      es: "trace s' = trace s @ es"
      and d: "did es op (cl @ fds (read_fd v) @ fds (write_fd v)) sv (dr @ fds (backup_in v) @ fds (backup_out v))
        (r0 @ fds (backup_in v)) (r1 @ fds (backup_out v))" by (auto simp: stage_def)
    have 0: "redirects 0 es \<noteq> [] \<longrightarrow> saved es \<noteq> [] \<and> last (redirects 0 es) = hd (saved es)"
      using d b(1) by (auto simp: did_def split: if_splits)
    have 1: "redirects 1 es \<noteq> [] \<longrightarrow> saved es \<noteq> [] \<and> last (redirects 1 es) = last (saved es)"
      using d b(2) m(2) by (auto simp: did_def split: if_splits)
    from es d m 0 1 show ?thesis by (auto simp: did_def)
  qed
qed

lemma pipeline_restores_descriptors_witness:
  "\<exists>s' es. execute_pipe ''cat'' ''wc'' (shell_boot [60, 61, 4, -1]) = Some s' \<and> trace s' = es
    \<and> mset (opened es) = mset (closed es) \<and> mset (saved es) = mset (dropped es)"
proof -
  have p: "parse_command_line ''cat'' = (True, ''cat'', [])" "parse_command_line ''wc'' = (True, ''wc'', [])"
    "sprintf ''tmp_pipe_%d'' [VInt 0] = Some ''tmp_pipe_0''" by code_simp+
  have "\<exists>s'. execute_pipe ''cat'' ''wc'' (shell_boot [60, 61, 4, -1]) = Some s'"
    by (simp add: execute_pipe_def p shell_boot_def pipe_run_def pipe_backups_def pipe_open_ends_def ask_def next_reply_def
        pipe_error_def del: One_nat_def)
  then obtain s' where e: "execute_pipe ''cat'' ''wc'' (shell_boot [60, 61, 4, -1]) = Some s'" by blast
  from pipeline_restores_descriptors [OF e] e show ?thesis by (auto simp: shell_boot_def)
qed

section \<open>The arguments of a new process\<close>

text \<open>The addresses a stretch of the trace was given and gave back.\<close>

definition allocated :: "calls \<Rightarrow> nat list" where
  "allocated t = concat (map (\<lambda>(e, r). case e of
     SysMalloc n \<Rightarrow> (case r of Some a \<Rightarrow> if nat a \<noteq> 0 then [nat a] else [] | None \<Rightarrow> []) | _ \<Rightarrow> []) t)"

definition freed :: "calls \<Rightarrow> nat list" where
  "freed t = concat (map (\<lambda>(e, r). case e of SysFree a \<Rightarrow> [a] | _ \<Rightarrow> []) t)"

lemma heap_views_append [simp]: "allocated (a @ b) = allocated a @ allocated b" "freed (a @ b) = freed a @ freed b"
  by (simp_all add: allocated_def freed_def)

lemma heap_views_one [simp]:
  "allocated [(SysMalloc n, Some a)] = (if nat a \<noteq> 0 then [nat a] else [])" "freed [(SysMalloc n, r)] = []"
  "allocated [(SysFree p, r)] = []" "freed [(SysFree p, r)] = [p]" "allocated [] = []" "freed [] = []"
  by (simp_all add: allocated_def freed_def)

lemma free_each_trace: "\<exists>es. trace (free_each ps u) = trace u @ es \<and> allocated es = []
  \<and> freed es = filter (\<lambda>a. a \<noteq> 0) (map fst ps)"
proof (induction ps u rule: free_each.induct)
  case (2 a str rest u)
  then obtain es where t: "trace (free_each rest (if a \<noteq> 0 then say (SysFree a) u else u))
      = trace (if a \<noteq> 0 then say (SysFree a) u else u) @ es" "allocated es = []"
    "freed es = filter (\<lambda>a. a \<noteq> 0) (map fst rest)" by blast
  show ?case
  proof (cases "a = 0")
    case True
    with t show ?thesis by auto
  next
    case False
    with t show ?thesis by (intro exI [of _ "[(SysFree a, None)] @ es"]) (simp del: append.simps)
  qed
qed simp

lemma free_partial_trace:
  assumes "a \<noteq> 0" and "list_all (\<lambda>p. fst p \<noteq> 0) ps"
  shows "\<exists>es. trace (free_partial_args (a, ps) u) = trace u @ es \<and> allocated es = [] \<and> mset (freed es) = mset (a # map fst ps)"
proof -
  have "filter (\<lambda>a. a \<noteq> 0) (map fst ps) = map fst ps"
    using assms(2) by (simp add: list_all_iff filter_id_conv)
  with free_each_trace [of ps u] obtain es where "trace (free_each ps u) = trace u @ es" "allocated es = []" "freed es = map fst ps"
    by metis
  with assms(1) show ?thesis by (intro exI [of _ "es @ [(SysFree a, None)]"]) (simp add: free_partial_args_def)
qed

lemma dup_arg_trace:
  assumes "dup_arg_string (Some str) u = Some (p, u')"
  shows "\<exists>es. trace u' = trace u @ es \<and> freed es = [] \<and> allocated es = (if fst p = 0 then [] else [fst p])
    \<and> (fst p \<noteq> 0 \<longrightarrow> snd p = u_strcpy str)"
proof -
  obtain a where a: "umalloc (u_strlen str + 1) u = Some (a, u')" "p = (if a = 0 then (0, []) else (a, u_strcpy str))"
    using assms by (auto simp: dup_arg_string_def bind_eq_Some)
  from umallocD [OF a(1)] obtain x where x: "a = nat x" "trace u' = trace u @ [(SysMalloc (u_strlen str + 1), Some x)]" by blast
  show ?thesis
  proof (intro exI conjI)
    show "trace u' = trace u @ [(SysMalloc (u_strlen str + 1), Some x)]" by (rule x)
  qed (simp_all add: a(2) x(1))
qed

lemma fill_args_trace:
  assumes "fill_args es (a, ps) u = Some (r, u')" and "a \<noteq> 0" "list_all (\<lambda>p. fst p \<noteq> 0) ps"
  shows "\<exists>t. trace u' = trace u @ t \<and> (case r of
      None \<Rightarrow> mset (a # map fst ps) + mset (allocated t) = mset (freed t)
    | Some (b, qs) \<Rightarrow> b = a \<and> freed t = [] \<and> map fst ps @ allocated t = map fst qs
        \<and> map snd qs = map snd ps @ map (\<lambda>e. u_strcpy (the e)) es \<and> None \<notin> set es)"
  using assms
proof (induction es arbitrary: ps u)
  case Nil
  then show ?case by auto
next
  case (Cons e es)
  show ?case
  proof (cases e)
    case None
    with Cons.prems free_partial_trace [of a ps u] show ?thesis by auto
  next
    case (Some str)
    with Cons.prems(1) obtain p u1 where d: "dup_arg_string (Some str) u = Some (p, u1)" by (auto simp: bind_eq_Some)
    from dup_arg_trace [OF d] obtain t1 where t1: "trace u1 = trace u @ t1" "freed t1 = []"
      "allocated t1 = (if fst p = 0 then [] else [fst p])" "fst p \<noteq> 0 \<longrightarrow> snd p = u_strcpy str" by blast
    show ?thesis
    proof (cases "fst p = 0")
      case True
      with Cons.prems d Some have "r = None" "u' = free_partial_args (a, ps) u1" by auto
      moreover obtain t2 where "trace (free_partial_args (a, ps) u1) = trace u1 @ t2" "allocated t2 = []"
        "mset (freed t2) = mset (a # map fst ps)" using free_partial_trace [of a ps u1] Cons.prems by blast
      ultimately show ?thesis using t1 True by (intro exI [of _ "t1 @ t2"]) simp
    next
      case False
      with Cons.prems d Some have "fill_args es (a, ps @ [p]) u1 = Some (r, u')" by auto
      from Cons.IH [OF this] Cons.prems False obtain t2 where t2: "trace u' = trace u1 @ t2"
        "case r of None \<Rightarrow> mset (a # map fst (ps @ [p])) + mset (allocated t2) = mset (freed t2)
         | Some (b, qs) \<Rightarrow> b = a \<and> freed t2 = [] \<and> map fst (ps @ [p]) @ allocated t2 = map fst qs
             \<and> map snd qs = map snd (ps @ [p]) @ map (\<lambda>e. u_strcpy (the e)) es \<and> None \<notin> set es" by auto
      with t1 False Some show ?thesis
        by (intro exI [of _ "t1 @ t2"]) (auto simp: add_mset_commute split: option.splits)
    qed
  qed
qed

text \<open>C30. Building the arguments of a new process loses no memory: when any allocation fails or an argument is
  missing, every block obtained so far is freed, each once; on success nothing was freed, the blocks are the
  array and the strings it points to, and the strings are copies of the command name and the arguments.\<close>

theorem spawn_arguments_keep_no_garbage:
  assumes "build_spawn_argv nm extra u = Some (r, u')"
  shows "\<exists>es. trace u' = trace u @ es \<and> (case r of
      None \<Rightarrow> mset (allocated es) = mset (freed es)
    | Some (a, ps) \<Rightarrow> freed es = [] \<and> allocated es = a # map fst ps
        \<and> None \<notin> set extra \<and> map snd ps = u_strcpy nm # map (\<lambda>e. u_strcpy (the e)) extra)"
proof -
  obtain a u1 where a: "umalloc (8 * (1 + length extra + 1)) u = Some (a, u1)"
    using assms by (auto simp: build_spawn_argv_def bind_eq_Some Let_def)
  from umallocD [OF a] obtain x where x: "a = nat x" "trace u1 = trace u @ [(SysMalloc (8 * (1 + length extra + 1)), Some x)]" by blast
  show ?thesis
  proof (cases "a = 0")
    case True
    with assms a have "r = None" "u' = u1" by (auto simp: build_spawn_argv_def bind_eq_Some Let_def)
    with x True show ?thesis by auto
  next
    case a0: False
    with assms a obtain p u2 where d: "dup_arg_string (Some nm) u1 = Some (p, u2)"
      by (auto simp: build_spawn_argv_def bind_eq_Some Let_def)
    from dup_arg_trace [OF d] obtain t1 where t1: "trace u2 = trace u1 @ t1" "freed t1 = []"
      "allocated t1 = (if fst p = 0 then [] else [fst p])" "fst p \<noteq> 0 \<longrightarrow> snd p = u_strcpy nm" by blast
    show ?thesis
    proof (cases "fst p = 0")
      case True
      with assms a a0 d have "r = None" "u' = free_partial_args (a, []) u2"
        by (auto simp: build_spawn_argv_def bind_eq_Some Let_def)
      with x t1 True a0 show ?thesis
        by (intro exI [of _ "[(SysMalloc (8 * (1 + length extra + 1)), Some x)] @ t1 @ [(SysFree a, None)]"])
          (simp add: free_partial_args_def del: append.simps)
    next
      case False
      with assms a a0 d have "fill_args extra (a, [p]) u2 = Some (r, u')"
        by (auto simp: build_spawn_argv_def bind_eq_Some Let_def)
      from fill_args_trace [OF this] a0 False obtain t2 where t2: "trace u' = trace u2 @ t2"
        "case r of None \<Rightarrow> mset (a # map fst [p]) + mset (allocated t2) = mset (freed t2)
         | Some (b, qs) \<Rightarrow> b = a \<and> freed t2 = [] \<and> map fst [p] @ allocated t2 = map fst qs
             \<and> map snd qs = map snd [p] @ map (\<lambda>e. u_strcpy (the e)) extra \<and> None \<notin> set extra" by auto
      define m where "m = [(SysMalloc (8 * (1 + length extra + 1)), Some x)]"
      have m: "allocated m = [a]" "freed m = []" using a0 x(1) by (simp_all add: m_def)
      show ?thesis
        using t1 t2 False m x(2) [folded m_def] by (intro exI [of _ "m @ t1 @ t2"]) (auto split: option.splits)
    qed
  qed
qed

lemma spawn_arguments_keep_no_garbage_witness:
  "\<exists>u' es. build_spawn_argv ''cat'' [Some ''x''] \<lparr>trace = [], replies = [4096, 8192, 0]\<rparr> = Some (None, u')
    \<and> trace u' = es \<and> allocated es = [4096, 8192] \<and> mset (allocated es) = mset (freed es)"
proof -
  obtain u' where e: "build_spawn_argv ''cat'' [Some ''x''] \<lparr>trace = [], replies = [4096, 8192, 0]\<rparr> = Some (None, u')"
    and v: "allocated (trace u') = [4096, 8192]"
    by (simp add: build_spawn_argv_def umalloc_def ask_def next_reply_def dup_arg_string_def free_partial_args_def allocated_def)
  from spawn_arguments_keep_no_garbage [OF e] e v show ?thesis by auto
qed

end
