(* ===== verification/Shell_Typing.thy ===== *)
theory Shell_Typing
  imports Shell_Loop User_Theorems
begin

text \<open>
  From the keys to the command: what typing a line does to the buffers, which command it reaches with which
  parameter, and where the buffers give out.
\<close>

section \<open>Typing ordinary characters\<close>

text \<open>A character the line editor only stores: not one of the letters it takes for the arrow keys.\<close>

definition plain :: "char \<Rightarrow> bool" where
  "plain c \<longleftrightarrow> (isChar c \<or> c = SPACE) \<and> c \<noteq> CHR ''H'' \<and> c \<noteq> CHR ''P''"

definition plain_text :: "string \<Rightarrow> bool" where
  "plain_text t \<longleftrightarrow> list_all plain t \<and> first_char t \<noteq> CHR ''+'' \<and> first_char t \<noteq> CHR ''-''"

lemma schar_inj: "schar a = schar b \<longleftrightarrow> a = b"
proof
  assume h: "schar a = schar b"
  define x y :: nat where xy: "x = of_char a" "y = of_char b"
  have "x < 256" "y < 256" by (simp_all add: xy)
  with h have "x = y" unfolding schar_def Let_def xy [symmetric] by (auto split: if_splits)
  then have "(of_char a :: nat) = of_char b" by (simp add: xy)
  then show "a = b" by simp
qed simp

lemma arrow_letters: "isUpperArrow c \<longleftrightarrow> c = CHR ''H''" "isDownArrow c \<longleftrightarrow> c = CHR ''P''"
proof -
  have "schar (CHR ''H'') = 0x48" "schar (CHR ''P'') = 0x50" by (simp_all add: schar_def)
  then show "isUpperArrow c \<longleftrightarrow> c = CHR ''H''" "isDownArrow c \<longleftrightarrow> c = CHR ''P''"
    unfolding isUpperArrow_def isDownArrow_def using schar_inj by metis+
qed

lemma plain_not_NUL: "plain c \<Longrightarrow> c \<noteq> NUL"
  by (auto simp: plain_def isChar_def schar_def)

lemma printLine_plain:
  assumes "plain c" and "linePos s < 254" and "length (line s) = 255"
    and "linePos s = 0 \<Longrightarrow> c \<noteq> CHR ''+'' \<and> c \<noteq> CHR ''-''"
  shows "printLine regs c s = Some (printc c (s\<lparr>line := (line s)[linePos s := c], linePos := linePos s + 1\<rparr>))"
proof -
  have "c \<noteq> NUL" using assms(1) by (rule plain_not_NUL)
  moreover have "isChar c \<or> c = SPACE \<or> isDigit c" using assms(1) by (auto simp: plain_def)
  moreover have "\<not> isUpperArrow c" "\<not> isDownArrow c" using assms(1) by (simp_all add: arrow_letters plain_def)
  ultimately show ?thesis
    using assms(2-) by (auto simp: printLine_def const_defs handleSpecialCommands_def put_def)
qed

lemma printc_update: "line (printc c s) = line s" "linePos (printc c s) = linePos s"
  "printc c (s\<lparr>line := l, linePos := n\<rparr>) = (printc c s)\<lparr>line := l, linePos := n\<rparr>"
  by (simp_all add: printc_def say_def)

lemma fold_printc_update: "line (fold printc t s) = line s" "linePos (fold printc t s) = linePos s"
  "(fold printc t s)\<lparr>line := l, linePos := n\<rparr> = fold printc t (s\<lparr>line := l, linePos := n\<rparr>)"
  by (induction t arbitrary: s) (simp_all add: printc_update)

text \<open>The state after a text has been typed at the end of the line.\<close>

definition typed :: "string \<Rightarrow> shell \<Rightarrow> shell" where
  "typed t s = (fold printc t s)\<lparr>line := take (linePos s) (line s) @ t @ drop (linePos s + length t) (line s),
     linePos := linePos s + length t\<rparr>"

lemma type_keys_plain:
  assumes "list_all plain t" and "linePos s + length t \<le> 254" and "length (line s) = 255"
    and "linePos s = 0 \<Longrightarrow> first_char t \<noteq> CHR ''+'' \<and> first_char t \<noteq> CHR ''-''"
  shows "type_keys regs t s = Some (typed t s)"
  using assms
proof (induction t arbitrary: s)
  case Nil
  have "fold printc [] s = s" by simp
  then show ?case by (simp add: typed_def)
next
  case (Cons c t)
  let ?s = "printc c (s\<lparr>line := (line s)[linePos s := c], linePos := linePos s + 1\<rparr>)"
  have p: "printLine regs c s = Some ?s"
    using Cons.prems by (intro printLine_plain) (auto simp: first_char_def)
  have "type_keys regs t ?s = Some (typed t ?s)"
    using Cons.prems by (intro Cons.IH) (auto simp: printc_update)
  moreover have "typed t ?s = typed (c # t) s"
  proof -
    have "take (linePos s + 1) ((line s)[linePos s := c]) = take (linePos s) (line s) @ [c]"
      using Cons.prems by (simp add: take_Suc_conv_app_nth)
    moreover have "drop (linePos s + 1 + length t) ((line s)[linePos s := c]) = drop (linePos s + length (c # t)) (line s)"
      by simp
    ultimately show ?thesis
      by (simp add: typed_def printc_update fold_printc_update)
  qed
  ultimately show ?case using p by simp
qed

lemma type_keys_append: "type_keys regs (a @ b) s = Option.bind (type_keys regs a s) (type_keys regs b)"
  by (induction a arbitrary: s) (auto split: bind_splits)

lemma full_line_ignores: "linePos s \<ge> 254 \<Longrightarrow> type_keys regs ks s = Some s"
  by (induction ks) (simp_all add: printLine_def const_defs)

text \<open>C32. A line that is full cannot be left: after 254 ordinary characters no key has an effect any more, not
  even Enter or backspace, because \<^verbatim>\<open>printLine\<close> gives up before it looks at the key.\<close>

theorem full_line_is_deaf:
  assumes "linePos s = 0" and "length (line s) = 255" and "plain_text t" and "length t = 254"
  shows "type_keys regs t s = Some (typed t s) \<and> type_keys regs (t @ ks) s = type_keys regs t s"
proof -
  have "type_keys regs t s = Some (typed t s)"
    using assms by (intro type_keys_plain) (simp_all add: plain_text_def)
  moreover have "linePos (typed t s) \<ge> 254" using assms by (simp add: typed_def)
  ultimately show ?thesis by (simp add: type_keys_append full_line_ignores)
qed

lemma full_line_is_deaf_witness:
  "type_keys [] (replicate 254 (CHR ''a'') @ [NL, CHR 0x08]) (shell_boot []) = type_keys [] (replicate 254 (CHR ''a'')) (shell_boot [])
    \<and> type_keys [] (replicate 254 (CHR ''a'')) (shell_boot []) \<noteq> None"
proof -
  have p: "plain_text (replicate 254 (CHR ''a''))" "linePos (shell_boot []) = 0" "length (line (shell_boot [])) = 255"
    by (auto simp: plain_text_def plain_def isChar_def schar_def first_char_def list_all_iff shell_boot_def
        numeral_eq_Suc split: list.splits)
  from full_line_is_deaf [OF p(2,3,1), of "[]" "[NL, CHR 0x08]"] show ?thesis by simp
qed

section \<open>Character arrays\<close>

lemma put_chars_eq: "i + length w \<le> length xs \<Longrightarrow> put_chars xs i w = Some (take i xs @ w @ drop (i + length w) xs)"
proof (induction w arbitrary: xs i)
  case (Cons c w)
  then have "put_chars (xs[i := c]) (i + 1) w = Some (take (i + 1) (xs[i := c]) @ w @ drop (i + 1 + length w) (xs[i := c]))"
    by (intro Cons.IH) simp
  moreover have "take (i + 1) (xs[i := c]) = take i xs @ [c]" using Cons.prems by (simp add: take_Suc_conv_app_nth)
  ultimately show ?case using Cons.prems by (simp add: put_def)
qed simp

lemma put_str_eq: "put_str xs i w = put_chars xs i (w @ [NUL])"
  by (induction w arbitrary: xs i) (simp_all add: put_def)

lemma put_str_outside: "i + length w \<ge> length xs \<Longrightarrow> put_str xs i w = None"
  by (induction w arbitrary: xs i) (auto simp: put_def)

lemma put_chars_outside: "i + length w > length xs \<Longrightarrow> w \<noteq> [] \<Longrightarrow> put_chars xs i w = None"
proof (induction w arbitrary: xs i)
  case (Cons c w)
  then show ?case by (cases "w = []") (auto simp: put_def)
qed simp

lemma cstr_append_NUL: "NUL \<notin> set w \<Longrightarrow> cstr (w @ NUL # r) = w" "NUL \<notin> set w \<Longrightarrow> cstr w = w"
proof -
  show "NUL \<notin> set w \<Longrightarrow> cstr w = w" by (auto simp: cstr_def takeWhile_eq_all_conv)
  show "NUL \<notin> set w \<Longrightarrow> cstr (w @ NUL # r) = w" by (induction w) (auto simp: cstr_def)
qed

lemma u_strcpy_cstr: "u_strcpy s = cstr s"
  by (induction s) (simp_all add: cstr_def)

lemma schar_0: "schar c = 0 \<longleftrightarrow> c = NUL" "schar NUL = 0"
  using schar_inj [of c NUL] by (simp_all add: schar_def)

lemma u_strcmp_eq: "u_strcmp a b = 0 \<longleftrightarrow> cstr a = cstr b"
proof (induction a b rule: u_strcmp.induct)
  case (1 a as b bs)
  then show ?case using schar_inj [of a b] by (auto simp: cstr_def schar_0)
qed (auto simp: cstr_def first_char_def schar_0 split: list.splits)

lemma strip_end_length: "length (strip_end P w) \<le> length w"
  using length_dropWhile_le [of P "rev w"] by (simp add: strip_end_def)

lemma strip_end_prefix: "\<exists>r. w = strip_end P w @ r"
proof -
  have "rev w = takeWhile P (rev w) @ dropWhile P (rev w)" by simp
  then have "w = rev (dropWhile P (rev w)) @ rev (takeWhile P (rev w))" by (metis rev_append rev_rev_ident)
  then show ?thesis by (auto simp: strip_end_def)
qed

section \<open>The dispatch of a line\<close>

lemma command_index_spec:
  "if cstr cmd \<in> set (map cstr cs)
   then i \<le> command_index i cs cmd \<and> command_index i cs cmd < i + length cs \<and> cstr (cs ! (command_index i cs cmd - i)) = cstr cmd
   else command_index i cs cmd = 0"
proof (induction i cs cmd rule: command_index.induct)
  case (2 i c cs cmd)
  show ?case
  proof (cases "cstr cmd = cstr c")
    case True
    then show ?thesis by (simp add: u_strcmp_eq)
  next
    case ne: False
    then have k: "command_index i (c # cs) cmd = command_index (i + 1) cs cmd" by (simp add: u_strcmp_eq)
    show ?thesis
    proof (cases "cstr cmd \<in> set (map cstr cs)")
      case True
      have "i + 1 \<le> command_index (i + 1) cs cmd \<and> command_index (i + 1) cs cmd < i + 1 + length cs
        \<and> cstr (cs ! (command_index (i + 1) cs cmd - (i + 1))) = cstr cmd"
        using "2.IH" ne True by (simp only: u_strcmp_eq if_True not_False_eq_True)
      then show ?thesis using True ne unfolding k by (simp add: nth_Cons' split: if_split)
    next
      case False
      with "2.IH" ne have "command_index (i + 1) cs cmd = 0" by (simp add: u_strcmp_eq)
      then show ?thesis using False ne unfolding k by simp
    qed
  qed
qed simp

lemma commands_clean: "map cstr (tl commands) = tl commands" "length commands = 30" "length (commands_ptr regs) = 30"
  by (simp_all add: commands_def commands_ptr_def cstr_def)

text \<open>Every command word of the table is found, at the place of its function.\<close>

lemma command_index_commands:
  "command_index 1 (tl commands) cmd < 30"
  "cstr cmd \<in> set (tl commands) \<Longrightarrow> commands ! command_index 1 (tl commands) cmd = cstr cmd"
  "cstr cmd \<notin> set (tl commands) \<Longrightarrow> command_index 1 (tl commands) cmd = 0"
proof -
  note S = command_index_spec [of cmd "tl commands" 1, unfolded commands_clean(1)]
  have len: "length (tl commands) = 29" by (simp add: commands_def)
  show "cstr cmd \<notin> set (tl commands) \<Longrightarrow> command_index 1 (tl commands) cmd = 0" using S by simp
  show "commands ! command_index 1 (tl commands) cmd = cstr cmd" if m: "cstr cmd \<in> set (tl commands)"
  proof -
    let ?i = "command_index 1 (tl commands) cmd"
    from S m len have b: "1 \<le> ?i" "?i < 30" "cstr (tl commands ! (?i - 1)) = cstr cmd" by simp_all
    have "cstr (tl commands ! (?i - 1)) = map cstr (tl commands) ! (?i - 1)" using b len by (simp add: nth_map)
    also have "\<dots> = tl commands ! (?i - 1)" by (simp only: commands_clean(1))
    also have "\<dots> = commands ! ?i" using b len by (subst nth_tl) (simp_all add: commands_clean)
    finally show ?thesis using b(3) by simp
  qed
  show "command_index 1 (tl commands) cmd < 30" using S len by (cases "cstr cmd \<in> set (tl commands)") auto
qed

text \<open>The buffers as \<^verbatim>\<open>clear_line\<close> leaves them.\<close>

definition fresh_line :: "shell \<Rightarrow> bool" where
  "fresh_line s \<longleftrightarrow> line s = replicate 255 NUL \<and> linePos s = 0 \<and> command_buf s = replicate 255 NUL
     \<and> parameter s = replicate 255 NUL \<and> length (commandHistory s) = 5080"

text \<open>What \<^verbatim>\<open>newLine\<close> does after the command.\<close>

definition after_line :: "shell \<Rightarrow> shell" where
  "after_line s = (let s2 = clear_line s in
     (if \<not> is_background s2 then printPrompt (printc NL s2) else s2)\<lparr>is_background := False\<rparr>)"

lemma typed_fresh:
  assumes "fresh_line s" and "length t \<le> 254"
  shows "line (typed t s) = t @ replicate (255 - length t) NUL" "linePos (typed t s) = length t"
  using assms by (simp_all add: typed_def fresh_line_def)

lemma fold_printc_fields: "command_buf (fold printc t s) = command_buf s" "parameter (fold printc t s) = parameter s"
  "commandHistory (fold printc t s) = commandHistory s" "commandIdxMax (fold printc t s) = commandIdxMax s"
  "trace (fold printc t s) = trace s @ map (\<lambda>c. (SysWriteFd 1 [c], None)) t"
  by (induction t arbitrary: s) (simp_all add: printc_def say_def)

lemma typed_fields: "command_buf (typed t s) = command_buf s" "parameter (typed t s) = parameter s"
  "commandHistory (typed t s) = commandHistory s" "commandIdxMax (typed t s) = commandIdxMax s"
  "trace (typed t s) = trace s @ map (\<lambda>c. (SysWriteFd 1 [c], None)) t"
  by (simp_all add: typed_def fold_printc_fields)

lemma no_pipe: "CHR ''|'' \<notin> set t \<Longrightarrow> has_pipe (t @ NUL # r) = None"
proof -
  have "CHR ''|'' \<notin> set t \<Longrightarrow> pipe_index (t @ NUL # r) i = None" for i
    by (induction t arbitrary: i) auto
  then show "CHR ''|'' \<notin> set t \<Longrightarrow> has_pipe (t @ NUL # r) = None" by (simp add: has_pipe_def)
qed

lemma take_background_plain:
  assumes "line s = t @ r" and "linePos s = length t" and "CHR ''&'' \<notin> set t"
  shows "take_background s = s\<lparr>is_background := False\<rparr>"
proof -
  let ?n = "length (strip_end (\<lambda>c. c = SPACE) t)"
  have "?n \<le> length t" by (rule strip_end_length)
  then have "?n > 0 \<Longrightarrow> ?n - 1 < length t" by linarith
  then have "?n > 0 \<Longrightarrow> line s ! (?n - 1) \<in> set t" using assms(1) by (simp only: nth_append if_True nth_mem)
  then have "\<not> (?n > 0 \<and> line s ! (?n - 1) = CHR ''&'')" using assms(3) by auto
  with assms(1,2) show ?thesis by (auto simp: take_background_def Let_def)
qed

lemma checkLine_splits:
  assumes l: "line s = t @ r" "linePos s = length t" and b: "command_buf s = replicate 255 NUL" "parameter s = replicate 255 NUL"
    and h: "length (commandHistory s) = 5080" "commandIdxMax s < 20" and t: "length t \<le> 252" "NUL \<notin> set t"
  defines "word \<equiv> takeWhile (\<lambda>c. c \<noteq> SPACE) t" and "rest \<equiv> tl (dropWhile (\<lambda>c. c \<noteq> SPACE) t)"
  shows "\<exists>s1 cb. checkLine s = Some (command_index 1 (tl commands) cb, s1) \<and> cstr cb = word \<and> command_buf s1 = cb
    \<and> cstr (parameter s1) = rest \<and> commandIdxMax s1 = commandIdxMax s + 1 \<and> trace s1 = trace s
    \<and> get_str (commandHistory s1) (int (commandIdxMax s * 254)) = Some (word @ SPACE # rest)"
proof -
  define cb where "cb = word @ replicate (255 - length word) NUL"
  define pb where "pb = rest @ replicate (255 - length rest) NUL"
  define i where "i = commandIdxMax s * 254"
  define h' where "h' = take i (commandHistory s) @ (word @ SPACE # rest @ [NUL]) @ drop (i + length (word @ SPACE # rest @ [NUL])) (commandHistory s)"
  have split: "length word + length (dropWhile (\<lambda>c. c \<noteq> SPACE) t) = length t"
    unfolding word_def by (metis length_append takeWhile_dropWhile_id)
  then have len: "length word + length rest \<le> 252" using t(1) by (simp add: rest_def)
  have nz: "NUL \<notin> set word" "NUL \<notin> set rest"
  proof -
    show "NUL \<notin> set word" using t(2) unfolding word_def by (auto dest: set_takeWhileD)
    have "set (tl x) \<subseteq> set x" for x :: string by (cases x) auto
    moreover have "set (dropWhile (\<lambda>c. c \<noteq> SPACE) t) \<subseteq> set t" by (induction t) auto
    ultimately show "NUL \<notin> set rest" using t(2) unfolding rest_def by blast
  qed
  have 1: "put_chars (command_buf s) 0 word = Some cb" "put_chars (parameter s) 0 rest = Some pb"
    using b len by (simp_all add: put_chars_eq cb_def pb_def)
  have rep: "replicate (255 - length x) NUL = NUL # replicate (254 - length x) NUL" if "length x \<le> 252" for x :: string
  proof -
    have "255 - length x = Suc (254 - length x)" using that by simp
    then show ?thesis by (simp only: replicate_Suc)
  qed
  have 2: "cstr cb = word" "cstr pb = rest" using nz len rep [of word] rep [of rest] by (simp_all add: cb_def pb_def cstr_append_NUL)
  have room: "i + length (word @ SPACE # rest @ [NUL]) \<le> 5080" using h(2) len by (simp add: i_def)
  have 3: "put_str (commandHistory s) i (strcpyForParam cb pb) = Some h'"
    using room h(1) 2 by (simp add: put_str_eq put_chars_eq strcpyForParam_def u_strcpy_cstr h'_def)
  have "length (take i (commandHistory s)) = i" using room h(1) by simp
  then have "drop i h' = word @ SPACE # rest @ NUL # drop (i + length (word @ SPACE # rest @ [NUL])) (commandHistory s)"
    by (simp add: h'_def)
  then have 4: "get_str h' (int i) = Some (word @ SPACE # rest)"
    using nz cstr_append_NUL(1) [of "word @ SPACE # rest"] by (simp add: get_str_def)
  define s1 where "s1 = s\<lparr>command_buf := cb, parameter := pb, commandHistory := h', commandIdxMax := commandIdxMax s + 1,
      commandIterator := int (commandIdxMax s + 1)\<rparr>"
  have "checkLine s = Some (command_index 1 (tl commands) cb, s1)"
    using 1 3 l by (simp add: checkLine_def Let_def const_defs word_def [symmetric] rest_def [symmetric] i_def s1_def)
  with 2 4 show ?thesis by (intro exI [of _ s1] exI [of _ cb]) (simp add: i_def s1_def)
qed

text \<open>C31. A typed line reaches its command. On a fresh line, with room left in the history, the keys of a
  text of ordinary characters and Enter echo the text and then run the function that the table has for the
  word before the first space (or \<^verbatim>\<open>cmd_undefined\<close> when the word is in no row), with everything after that
  space as its parameter; the history keeps the line.\<close>

theorem typed_line_reaches_command:
  assumes "fresh_line s" and "commandIdxMax s < 20"
    and "plain_text t" and "CHR ''&'' \<notin> set t" and "CHR ''|'' \<notin> set t" and "length t \<le> 252"
  shows "\<exists>i s1. type_keys regs (t @ [NL]) s = map_option after_line ((commands_ptr regs ! i) s1)
    \<and> i < length (commands_ptr regs)
    \<and> (let word = takeWhile (\<lambda>c. c \<noteq> SPACE) t; rest = tl (dropWhile (\<lambda>c. c \<noteq> SPACE) t) in
        (if word \<in> set (tl commands) then commands ! i = word else i = 0)
        \<and> cstr (parameter s1) = rest
        \<and> get_str (commandHistory s1) (int (commandIdxMax s * MAX_BUFF)) = Some (word @ SPACE # rest))
    \<and> trace s1 = trace s @ map (\<lambda>c. (SysWriteFd 1 [c], None)) t"
proof -
  let ?r = "replicate (255 - length t) NUL"
  let ?s = "(typed t s)\<lparr>is_background := False\<rparr>"
  have k: "type_keys regs t s = Some (typed t s)"
    using assms by (intro type_keys_plain) (simp_all add: plain_text_def fresh_line_def)
  have l: "line (typed t s) = t @ ?r" "linePos (typed t s) = length t" using typed_fresh [OF assms(1)] assms(6) by simp_all
  have nz: "NUL \<notin> set t" using assms(3) plain_not_NUL by (auto simp: plain_text_def list_all_iff)
  have bg: "take_background (typed t s) = ?s" by (rule take_background_plain [OF l assms(4)])
  have "255 - length t = Suc (254 - length t)" using assms(6) by simp
  then have np: "has_pipe (t @ ?r) = None" using no_pipe [OF assms(5)] by (simp only: replicate_Suc)
  obtain s1 cb where c: "checkLine ?s = Some (command_index 1 (tl commands) cb, s1)"
    "cstr cb = takeWhile (\<lambda>c. c \<noteq> SPACE) t" "cstr (parameter s1) = tl (dropWhile (\<lambda>c. c \<noteq> SPACE) t)" "trace s1 = trace ?s"
    "get_str (commandHistory s1) (int (commandIdxMax s * 254)) =
      Some (takeWhile (\<lambda>c. c \<noteq> SPACE) t @ SPACE # tl (dropWhile (\<lambda>c. c \<noteq> SPACE) t))"
    using checkLine_splits [of ?s t ?r] l assms nz by (auto simp: typed_fields fresh_line_def)
  let ?i = "command_index 1 (tl commands) cb"
  have "printLine regs NL (typed t s) = newLine regs (typed t s)"
    using l assms(6) by (simp add: printLine_def const_defs isChar_def isDigit_def schar_def)
  also have "\<dots> = map_option after_line ((commands_ptr regs ! ?i) s1)"
    using c(1) l np by (cases "(commands_ptr regs ! ?i) s1")
      (simp_all add: newLine_def bg run_line_def after_line_def Let_def)
  finally have "type_keys regs (t @ [NL]) s = map_option after_line ((commands_ptr regs ! ?i) s1)"
    by (cases "(commands_ptr regs ! ?i) s1") (simp_all add: type_keys_append k)
  moreover have "?i < length (commands_ptr regs)" using command_index_commands(1) by (simp add: commands_clean)
  moreover have "if takeWhile (\<lambda>c. c \<noteq> SPACE) t \<in> set (tl commands) then commands ! ?i = takeWhile (\<lambda>c. c \<noteq> SPACE) t else ?i = 0"
    using command_index_commands(2,3) [of cb] c(2) by simp
  moreover have "trace s1 = trace s @ map (\<lambda>c. (SysWriteFd 1 [c], None)) t" using c(4) by (simp add: typed_fields)
  ultimately show ?thesis using c(3,5) by (intro exI) (auto simp: Let_def const_defs)
qed

lemma typed_line_reaches_command_witness:
  "\<exists>s1. type_keys [] (''nice 3 1'' @ [NL]) (shell_boot []) = map_option after_line (cmd_nice s1)
    \<and> cstr (parameter s1) = ''3 1'' \<and> trace s1 = map (\<lambda>c. (SysWriteFd 1 [c], None)) ''nice 3 1''"
proof -
  have p: "fresh_line (shell_boot [])" "commandIdxMax (shell_boot []) < 20" "trace (shell_boot []) = []"
    by (simp_all add: fresh_line_def shell_boot_def)
  have q: "plain_text ''nice 3 1''" "CHR ''&'' \<notin> set ''nice 3 1''" "CHR ''|'' \<notin> set ''nice 3 1''" "length ''nice 3 1'' \<le> 252"
    by (simp_all add: plain_text_def plain_def isChar_def schar_def first_char_def)
  have w: "takeWhile (\<lambda>c. c \<noteq> SPACE) ''nice 3 1'' = ''nice''" "tl (dropWhile (\<lambda>c. c \<noteq> SPACE) ''nice 3 1'') = ''3 1''"
    "''nice'' \<in> set (tl commands)" by (simp_all add: commands_def)
  obtain i s1 where e: "type_keys [] (''nice 3 1'' @ [NL]) (shell_boot []) = map_option after_line ((commands_ptr [] ! i) s1)"
    "i < 30" "commands ! i = ''nice''" "cstr (parameter s1) = ''3 1''" "trace s1 = map (\<lambda>c. (SysWriteFd 1 [c], None)) ''nice 3 1''"
    using typed_line_reaches_command [OF p(1,2) q, of "[]"] w p(3) commands_clean(3) [of "[]"] by (auto simp: Let_def)
  have "i = 19"
  proof (rule ccontr)
    assume "i \<noteq> 19"
    have "list_all (\<lambda>k. k = 19 \<or> commands ! k \<noteq> ''nice'') [0..<30]" by code_simp
    with e(2,3) \<open>i \<noteq> 19\<close> show False by (auto simp: list_all_iff)
  qed
  moreover have "commands_ptr [] ! 19 = cmd_nice" by (simp add: commands_ptr_def)
  ultimately show ?thesis using e by auto
qed

text \<open>The history has no bound: the line after the twentieth is written behind the table.\<close>

lemma history_overflows:
  assumes "length (commandHistory s) = 5080" "commandIdxMax s \<ge> 20"
  shows "checkLine s = None"
proof -
  have "put_str (commandHistory s) (commandIdxMax s * MAX_BUFF) w = None" for w
    using assms by (intro put_str_outside) (simp add: const_defs)
  then show ?thesis by (simp add: checkLine_def Let_def bind_eq_None_conv)
qed

text \<open>The letters \<^verbatim>\<open>H\<close> and \<^verbatim>\<open>P\<close> are taken for the arrow keys; the first on a new shell leaves the history.\<close>

lemma upper_h_leaves_history: "printLine regs (CHR ''H'') (shell_boot rs) = None"
  by (simp add: printLine_def const_defs shell_boot_def isChar_def schar_def handleSpecialCommands_def arrow_letters
      historyCaller_def cmd_clear_def printPrompt_def)

end
