(* ===== verification/Boot.thy ===== *)
theory Boot
  imports Proc Memory_Theorems Kernel_Inv Tty_Input Kernel_Lib
begin

text \<open>
  \<^verbatim>\<open>Kernel/kernel.c\<close>: the start of the kernel. \<open>kernel_boot\<close> is the state the cleared BSS and the
  initialised data of the kernel's static variables are. The descriptor table is loaded before, in \<open>Hardware\<close>.
\<close>

section \<open>Before \<^verbatim>\<open>main\<close>\<close>

definition PageSize :: nat where [const_defs]: "PageSize = 0x1000"
definition sampleCodeModuleAddress :: nat where [const_defs]: "sampleCodeModuleAddress = 0x400000"
definition sampleDataModuleAddress :: nat where [const_defs]: "sampleDataModuleAddress = 0x500000"

definition clearBSS :: "nat \<Rightarrow> nat \<Rightarrow> ram \<Rightarrow> ram" where
  "clearBSS bssAddress bssSize m = memset bssAddress 0 bssSize m"

definition getStackBase :: "nat \<Rightarrow> nat" where
  "getStackBase endOfKernel = endOfKernel + PageSize * 8 - 8"

definition initializeKernelBinary :: "nat \<Rightarrow> nat \<Rightarrow> nat \<Rightarrow> ram \<Rightarrow> (nat \<times> ram) option" where
  "initializeKernelBinary endOfKernelBinary bss endOfKernel m = do {
     m1 \<leftarrow> loadModules endOfKernelBinary [sampleCodeModuleAddress, sampleDataModuleAddress] m;
     Some (getStackBase endOfKernel, clearBSS bss (endOfKernel - bss) m1)
   }"

section \<open>\<^verbatim>\<open>main\<close>\<close>

definition DEFAULT_PRIO :: int where [const_defs]: "DEFAULT_PRIO = 2"
definition HEAP_SIZE :: nat where [const_defs]: "HEAP_SIZE = 4 * 1024 * 1024"

text \<open>The static variables; \<open>mm\<close> is the memory manager the kernel was built with.\<close>

definition kernel_boot :: "mm \<Rightarrow> (nat \<Rightarrow> regs) \<Rightarrow> kernel" where
  "kernel_boot h fr =
    \<lparr>procs = (\<lambda>_. pcb_zero), ready_head = (\<lambda>_. None), ready_tail = (\<lambda>_. None),
     scheduler_enabled = False, cur = None, idle_proc = None, ticks = 0, ellapsed = 0, debug_timer_count = 0,
     proc_head = None, proc_tail = None, zombie_head = None, next_pid = 1, heap = h, frames = fr,
     files = (\<lambda>_. None), fd_tables = (\<lambda>_. None), stdin_file = 0, stdout_file = 0, stderr_file = 0,
     sems = (\<lambda>_. None), sem_buckets = (\<lambda>_. []), sem_handles = (\<lambda>_. (0, 0)),
     pipes = (\<lambda>_. None), pipe_buckets = (\<lambda>_. []), default_tty = tty_zero, default_tty_initialized = False, screen = []\<rparr>"

text \<open>
  \<^verbatim>\<open>main\<close> up to its last loop, which halts until an interrupt comes. \<open>idle_entry\<close> and \<open>shell_entry\<close> are the
  addresses of \<^verbatim>\<open>idle_loop\<close> and \<^verbatim>\<open>userland_bootstrap\<close>.
\<close>

definition kernel_main :: "nat \<Rightarrow> nat \<Rightarrow> nat \<Rightarrow> kernel \<Rightarrow> keyboard \<Rightarrow> (kernel \<times> keyboard) option" where
  "kernel_main endOfKernel idle_entry shell_entry k kb = do {
     let heap_start_addr = endOfKernel + PageSize * 8;
     h \<leftarrow> mm_init heap_start_addr HEAP_SIZE (heap k);
     k1 \<leftarrow> fd_init_std (fd_init (k\<lparr>heap := h\<rparr>));
     k2 \<leftarrow> sched_init idle_entry k1;
     let kb1 = setCeroChar kb;
     (pd, k3) \<leftarrow> proc_create shell_entry 0 0 DEFAULT_PRIO True (Some ''shell'') k2;
     Some (sched_start k3, kb1)
   }"

text \<open>The first process: \<open>entry\<close> is what the code at \<^verbatim>\<open>0x400000\<close> does until it returns.\<close>

definition userland_bootstrap ::
  "(kernel \<Rightarrow> (int \<times> kernel) option) \<Rightarrow> nat \<Rightarrow> kernel \<Rightarrow> (nat option \<times> kernel) option" where
  "userland_bootstrap entry_point sp k = do { (r, k1) \<leftarrow> entry_point k; proc_exit 0 sp k1 }"

section \<open>Room on the heap\<close>

definition room :: "ff \<Rightarrow> nat \<Rightarrow> bool" where
  "room s n \<longleftrightarrow> (\<exists>bs b. ff_wf bs s \<and> b \<in> set bs \<and> blk_is_free (mem s) b \<and> n \<le> blk_size (mem s) b)"

lemma room_cut:
  assumes "blk_is_free m b" "0 < b" "sz + 80 \<le> blk_size m b" "blk_size m b < 2 ^ 64"
  shows "b + 32 + sz \<in> set (cut_blocks m b sz)" "blk_is_free (take_block m b sz) (b + 32 + sz)"
    "blk_size (take_block m b sz) (b + 32 + sz) = blk_size m b - sz - 32"
proof -
  have rem: "wrap64 (blk_size m b + 2 ^ 64 - sz) = blk_size m b - sz" using assms by (intro wrap64_sub) auto
  have nolt: "\<not> blk_size m b - sz < 48" and nolt': "\<not> blk_size m b < sz + 80" using assms(3) by linarith+
  have "take_block m b sz =
       m(b + 32 + sz := blk_size m b - sz - 32, b + 32 + sz + 8 := 1,
         b + 32 + sz + 16 := blk_next m b, b + 32 + sz + 24 := FREE_MAGIC,
         b := sz, b + 16 := b + 32 + sz, b + 8 := 0, b + 24 := BLOCK_MAGIC)"
    using rem assms nolt nolt' by (simp add: take_block_def split_block_def HDR_def MIN_BLOCK_SIZE_def Let_def)
  then show "blk_is_free (take_block m b sz) (b + 32 + sz)"
    "blk_size (take_block m b sz) (b + 32 + sz) = blk_size m b - sz - 32"
    by (simp_all add: hdr_defs)
  show "b + 32 + sz \<in> set (cut_blocks m b sz)" using assms(3) by (simp add: cut_blocks_def)
qed

lemma malloc_room:
  assumes r: "room s R" and pos: "0 < n" and fits: "alloc_size n + 80 \<le> R"
  shows "\<exists>p s'. first_fit_malloc n s = Some (p, s') \<and> 0 < p \<and> room s' (R - alloc_size n - 32)"
proof -
  from r obtain bs B where wf: "ff_wf bs s" and B: "B \<in> set bs" "blk_is_free (mem s) B" "R \<le> blk_size (mem s) B"
    by (auto simp: room_def)
  from wf have sg: "seg (mem s) (heap_end s) (heap_start s) bs (heap_end s)" "heap_end s < 2 ^ 64" "0 < heap_start s"
    by (auto simp: ff_wf_def)
  from first_fit_malloc_cases [OF wf pos] B fits obtain b where
    b: "b \<in> set bs" "blk_is_free (mem s) b" "alloc_size n \<le> blk_size (mem s) b"
    and run: "first_fit_malloc n s = Some (b + 32,
           s\<lparr>mem := take_block (mem s) b (alloc_size n),
             total_allocations := inc64 (total_allocations s),
             current_allocated_blocks := inc64 (current_allocated_blocks s)\<rparr>)" (is "_ = Some (_, ?s)")
    by fastforce
  from b(1) obtain pre post where bs: "bs = pre @ b # post" by (meson split_list)
  have wf': "ff_wf (pre @ cut_blocks (mem s) b (alloc_size n) @ post) ?s"
    by (rule take_block_wf(1) [OF wf [unfolded bs] b(2,3)])
  have szb: "blk_size (mem s) b < 2 ^ 64" using seg_bounds [OF sg(1) b(1)] sg(2) by (simp add: hdr_defs)
  have "room ?s (R - alloc_size n - 32)"
  proof (cases "B = b")
    case True
    have "0 < b" using seg_bounds [OF sg(1) b(1)] sg(3) by simp
    from room_cut [OF b(2) this _ szb, of "alloc_size n"] B(3) fits True
    have "b + 32 + alloc_size n \<in> set (cut_blocks (mem s) b (alloc_size n))"
      "blk_is_free (mem ?s) (b + 32 + alloc_size n)" "R - alloc_size n - 32 \<le> blk_size (mem ?s) (b + 32 + alloc_size n)"
      by auto
    with wf' show ?thesis unfolding room_def
      by (intro exI [of _ "pre @ cut_blocks (mem s) b (alloc_size n) @ post"] exI [of _ "b + 32 + alloc_size n"]) simp
  next
    case False
    with seg_order [OF sg(1) B(1) b(1)] have o: "blk_end (mem s) B \<le> b \<or> blk_end (mem s) b \<le> B" by auto
    have same: "mem ?s (B + k) = mem s (B + k)" if "k < 32" for k
      using take_block_outside [OF b(3) szb, of "B + k"] o that blk_end_gt [of B "mem s"] by auto
    have "blk_is_free (mem ?s) B" "blk_size (mem ?s) B = blk_size (mem s) B"
      using same [of 0] same [of 8] B(2) by (simp_all add: hdr_defs)
    moreover have "B \<in> set (pre @ cut_blocks (mem s) b (alloc_size n) @ post)" using B(1) bs False by auto
    ultimately show ?thesis using wf' B(3) unfolding room_def
      by (intro exI [of _ "pre @ cut_blocks (mem s) b (alloc_size n) @ post"] exI [of _ B]) simp
  qed
  with run show ?thesis by auto
qed

definition hroom :: "mm \<Rightarrow> nat \<Rightarrow> bool" where
  "hroom h n \<longleftrightarrow> (\<exists>s. h = First_Fit s \<and> room s n)"

lemma hroom_inv: "hroom h n \<Longrightarrow> mm_inv h"
  by (auto simp: hroom_def room_def ff_inv_def)

lemma mm_malloc_room:
  assumes r: "hroom h R" and pos: "0 < n" and fits: "alloc_size n + 80 \<le> R"
  shows "\<exists>p h'. mm_malloc n h = Some (p, h') \<and> p \<noteq> 0 \<and> hroom h' (R - alloc_size n - 32)
    \<and> p \<notin> fst ` mm_live h \<and> fst ` mm_live h' = insert p (fst ` mm_live h)"
proof -
  from r obtain s where s: "h = First_Fit s" "room s R" by (auto simp: hroom_def)
  from malloc_room [OF s(2) pos fits] obtain p s' where
    m: "first_fit_malloc n s = Some (p, s')" "0 < p" "room s' (R - alloc_size n - 32)" by blast
  then have run: "mm_malloc n h = Some (p, First_Fit s')" using s by simp
  from mmheap.alloc_keeps [OF hroom_inv [OF r] run] m(2) obtain sz where
    "p \<notin> fst ` mm_live h" "mm_live (First_Fit s') = insert (p, sz) (mm_live h)" by auto
  with run m show ?thesis
    by (intro exI [of _ p] exI [of _ "First_Fit s'"]) (simp add: hroom_def)
qed

lemma init_room:
  assumes "0 < start" "80 \<le> tot" "start + tot < 2 ^ 64"
  shows "room (first_fit_init start tot s) (tot - 40)" "ff_live (first_fit_init start tot s) = {}"
proof -
  have al: "start \<le> align8 start" "align8 start < start + 8" using align8_bounds [of start] assms by auto
  note wf = first_fit_init_wf [OF assms(1) _ assms(3), of s]
  let ?s = "first_fit_init start tot s"
  have st: "ff_wf [align8 start] ?s" "heap_end ?s = start + tot" "ff_live ?s = {}" using wf assms(2) by auto
  have hs: "heap_start ?s = align8 start" using assms by (simp add: first_fit_init_def Let_def const_defs)
  from st(1) have e: "blk_end (mem ?s) (align8 start) = start + tot" using st(2) by (simp add: ff_wf_def)
  then have "tot - 40 \<le> blk_size (mem ?s) (align8 start)" using al by (simp add: blk_end_def HDR_def)
  moreover have "blk_is_free (mem ?s) (align8 start)"
  proof (rule ccontr)
    assume "\<not> ?thesis"
    then have "(align8 start + HDR, blk_size (mem ?s) (align8 start)) \<in> ff_live ?s" by (simp add: ff_live_eq [OF st(1)])
    with st(3) show False by simp
  qed
  ultimately show "room ?s (tot - 40)" "ff_live ?s = {}" using st by (auto simp: room_def intro!: exI [of _ "[align8 start]"])
qed

end
