(* ===== verification/Boot_Theorems.thy ===== *)
theory Boot_Theorems
  imports Boot
begin

text \<open>
  \<^verbatim>\<open>main\<close> executed to its end on a heap of 4 MB: the files of the console, the idle process and the shell.
\<close>

section \<open>The allocations of the start\<close>

lemma alloc_sizes [simp]: "alloc_size 32 = 32" "alloc_size 512 = 512" "alloc_size 16384 = 16384"
  by code_simp+

lemma alloc_all_room:
  "hroom h (R + sum_list (map (\<lambda>n. alloc_size n + 32) ns) + 80) \<Longrightarrow> \<forall>n \<in> set ns. 0 < n \<Longrightarrow>
   \<exists>ps h'. mmheap.alloc_all ns h = Some (ps, h') \<and> length ps = length ns \<and> 0 \<notin> set ps \<and> distinct ps
     \<and> set ps \<inter> fst ` mm_live h = {} \<and> hroom h' (R + 80)"
proof (induction ns arbitrary: h)
  case Nil
  then show ?case by simp
next
  case (Cons n ns)
  from mm_malloc_room [OF Cons.prems(1), of n] Cons.prems(2) obtain p h1 where
    p: "mm_malloc n h = Some (p, h1)" "p \<noteq> 0" "p \<notin> fst ` mm_live h" "fst ` mm_live h1 = insert p (fst ` mm_live h)"
    and r: "hroom h1 (R + sum_list (map (\<lambda>n. alloc_size n + 32) (n # ns)) + 80 - alloc_size n - 32)" by auto
  from r have "hroom h1 (R + sum_list (map (\<lambda>n. alloc_size n + 32) ns) + 80)" by (simp add: ac_simps)
  from Cons.IH [OF this] Cons.prems(2) obtain ps h' where
    "mmheap.alloc_all ns h1 = Some (ps, h')" "length ps = length ns" "0 \<notin> set ps" "distinct ps"
    "set ps \<inter> fst ` mm_live h1 = {}" "hroom h' (R + 80)" by auto
  with p show ?case by (intro exI [of _ "p # ps"] exI [of _ h']) auto
qed

lemma alloc_all_ConsE:
  assumes "mmheap.alloc_all (n # ns) h = Some (ps, h')"
  obtains p h1 qs where "mm_malloc n h = Some (p, h1)" "mmheap.alloc_all ns h1 = Some (qs, h')" "ps = p # qs"
  using assms by (auto simp: bind_eq_Some_conv)

text \<open>The seven blocks: three files, then a stack and a table for each of the two processes.\<close>

lemma boot_heap:
  assumes "0 < start" "start + HEAP_SIZE < 2 ^ 64" "h = First_Fit (first_fit_init start HEAP_SIZE s)"
  obtains f0 f1 f2 s0 t0 s1 t1 h1 h2 h3 h4 h5 h6 h7 where
    "mm_malloc 32 h = Some (f0, h1)" "mm_malloc 32 h1 = Some (f1, h2)"
    "mm_malloc 32 h2 = Some (f2, h3)" "mm_malloc 16384 h3 = Some (s0, h4)" "mm_malloc 512 h4 = Some (t0, h5)"
    "mm_malloc 16384 h5 = Some (s1, h6)" "mm_malloc 512 h6 = Some (t1, h7)"
    "0 \<notin> {f0, f1, f2, s0, t0, s1, t1}" "distinct [f0, f1, f2, s0, t0, s1, t1]" "mm_inv h7"
proof -
  have "room (first_fit_init start HEAP_SIZE s) (HEAP_SIZE - 40)"
    by (rule init_room) (use assms in \<open>simp_all add: const_defs\<close>)
  then have "hroom h (4160072 + sum_list (map (\<lambda>n. alloc_size n + 32) [32, 32, 32, 16384, 512, 16384, 512]) + 80)"
    using assms(3) by (auto simp: hroom_def const_defs)
  from alloc_all_room [OF this]
  obtain ps h7 where r: "mmheap.alloc_all [32, 32, 32, 16384, 512, 16384, 512] h = Some (ps, h7)"
    and ps: "0 \<notin> set ps" "distinct ps" and inv: "mm_inv h7" by (auto simp del: mmheap.alloc_all.simps dest: hroom_inv)
  from r show thesis
    apply (elim alloc_all_ConsE)
    apply (rule that, assumption+)
    using ps inv by auto
qed

section \<open>The run of \<^verbatim>\<open>main\<close>\<close>

definition boot_file :: "bool \<Rightarrow> bool \<Rightarrow> int \<Rightarrow> kfile" where
  "boot_file rd g n = \<lparr>ftype = FD_TTY, fops = TTY_OPS, fptr = TTY_ADDR, can_read = rd, can_write = (\<not> rd),
     fg_read_guard = g, refcount = n\<rparr>"

definition boot_files :: "nat \<Rightarrow> nat \<Rightarrow> nat \<Rightarrow> int \<Rightarrow> nat \<Rightarrow> kfile option" where
  "boot_files f0 f1 f2 n = (\<lambda>_. None)(f0 \<mapsto> boot_file True True n, f1 \<mapsto> boot_file False False n,
     f2 \<mapsto> boot_file False False n)"

definition boot_table :: "nat \<Rightarrow> nat \<Rightarrow> nat \<Rightarrow> nat list" where
  "boot_table f0 f1 f2 = (replicate FD_MAX 0)[0 := f0, 1 := f1, 2 := f2]"

definition with_console :: "nat \<Rightarrow> nat \<Rightarrow> nat \<Rightarrow> mm \<Rightarrow> (nat \<Rightarrow> regs) \<Rightarrow> kernel" where
  "with_console f0 f1 f2 h fr = (kernel_boot h fr)\<lparr>files := boot_files f0 f1 f2 1, stdin_file := f0,
     stdout_file := f1, stderr_file := f2, default_tty := tty_zero\<lparr>t_fg_pid := -1\<rparr>, default_tty_initialized := True\<rparr>"

definition three :: "nat \<Rightarrow> nat \<Rightarrow> nat \<Rightarrow> bool" where
  "three f0 f1 f2 \<longleftrightarrow> 0 < f0 \<and> 0 < f1 \<and> 0 < f2 \<and> f0 \<noteq> f1 \<and> f0 \<noteq> f2 \<and> f1 \<noteq> f2"

lemma console_opens:
  assumes m: "mm_malloc 32 h = Some (f0, h1)" "mm_malloc 32 h1 = Some (f1, h2)" "mm_malloc 32 h2 = Some (f2, h3)"
    and ne: "three f0 f1 f2"
  shows "fd_init_std (fd_init (kernel_boot h fr)) = Some (with_console f0 f1 f2 h3 fr)"
  using m ne by (simp add: fd_init_std_def fd_init_def kernel_boot_def tty_default_def file_create_def kmalloc_def
      sizeof_file_def TTY_ADDR_def set_file_def boot_file_def boot_files_def with_console_def three_def Let_def fun_upd_twist)

lemma collect_none [simp]: "zombie_head k = None \<Longrightarrow> collect_zombies k = Some (k\<lparr>zombie_head := None\<rparr>)"
  by (simp add: collect_zombies_def collect_zombies_with_def)

lemma find_slot_0: "P (procs k 0) \<Longrightarrow> find_slot P k = Some 0"
  and find_slot_1: "\<not> P (procs k 0) \<Longrightarrow> P (procs k 1) \<Longrightarrow> find_slot P k = Some 1"
  by (simp_all add: find_slot_def MAX_PROCS_def upt_rec)

text \<open>A new table gets the three files, from the console or from the table of the parent.\<close>

definition share_console :: "nat \<Rightarrow> nat \<Rightarrow> nat \<Rightarrow> int \<Rightarrow> nat \<Rightarrow> kernel \<Rightarrow> kernel" where
  "share_console f0 f1 f2 n t k =
    k\<lparr>files := boot_files f0 f1 f2 n, fd_tables := (fd_tables k)(t \<mapsto> boot_table f0 f1 f2)\<rparr>"

lemma boot_table_nth:
  "boot_table f0 f1 f2 ! 0 = f0" "boot_table f0 f1 f2 ! 1 = f1" "boot_table f0 f1 f2 ! 2 = f2"
  "3 \<le> i \<Longrightarrow> i < FD_MAX \<Longrightarrow> boot_table f0 f1 f2 ! i = 0"
  by (simp_all add: boot_table_def FD_MAX_def nth_list_update)

lemma clone_zeros:
  "fd_tables k src = Some es \<Longrightarrow> \<forall>i \<in> set is. es ! i = 0 \<Longrightarrow> clone_loop dst src is k = Some k"
  by (induction "is") auto

lemma attach_console:
  assumes "three f0 f1 f2" "files k = boot_files f0 f1 f2 n" "stdin_file k = f0" "stdout_file k = f1"
    "stderr_file k = f2" "0 < t" "fd_tables k t = Some (replicate FD_MAX 0)"
  shows "fd_table_attach_std t k = Some (share_console f0 f1 f2 (n + 1) t k)"
  using assms by (simp add: fd_table_attach_std_def attach_one_def file_ref_def set_entry_def set_file_def
      boot_files_def boot_file_def share_console_def boot_table_def fun_upd_twist Let_def three_def)

lemma clone_console:
  assumes t: "three f0 f1 f2" and k: "files k = boot_files f0 f1 f2 n" "fd_tables k src = Some (boot_table f0 f1 f2)"
    "fd_tables k dst \<noteq> None" "0 < src" "0 < dst" "src \<noteq> dst"
  shows "fd_table_clone dst src k = Some (0, share_console f0 f1 f2 (n + 1) dst k)"
proof -
  let ?k = "share_console f0 f1 f2 (n + 1) dst k"
  have "[0 ..< FD_MAX] = 0 # 1 # 2 # [3 ..< FD_MAX]" by (simp add: FD_MAX_def upt_rec)
  moreover have "clone_loop dst src [3 ..< FD_MAX] ?k = Some ?k"
    by (rule clone_zeros [of _ _ "boot_table f0 f1 f2"]) (use k in \<open>auto simp: share_console_def boot_table_nth\<close>)
  ultimately show ?thesis
    using t k boot_table_nth(1-3) [of f0 f1 f2]
    by (auto simp: fd_table_clone_def file_ref_def set_entry_def set_file_def set_table_def
      boot_files_def boot_file_def share_console_def boot_table_def fun_upd_twist Let_def three_def)
qed

text \<open>The two processes, as \<^verbatim>\<open>proc_create\<close> leaves them: \<open>stk\<close> is the stack, \<open>t\<close> the table.\<close>

definition boot_pcb :: "nat \<Rightarrow> int \<Rightarrow> bool \<Rightarrow> string \<Rightarrow> int \<Rightarrow> int \<Rightarrow> nat \<Rightarrow> nat \<Rightarrow> pcb" where
  "boot_pcb ent prio is_fg nm pd ppid stk t =
    (init_pcb ent 0 0 prio is_fg nm pd ppid (pcb_zero\<lparr>used := True\<rparr>))
      \<lparr>kstack_base := stk, kframe := (stk + KSTACK_SIZE) div 16 * 16 - 160, fd_table := t\<rparr>"

lemma boot_pcb_fields [simp]:
  "used (boot_pcb ent prio is_fg nm pd ppid stk t)" "pid (boot_pcb ent prio is_fg nm pd ppid stk t) = pd"
  "fd_table (boot_pcb ent prio is_fg nm pd ppid stk t) = t" "priority (boot_pcb ent prio is_fg nm pd ppid stk t) = prio"
  "child_head (boot_pcb ent prio is_fg nm pd ppid stk t) = None" "fg (boot_pcb ent prio is_fg nm pd ppid stk t) = is_fg"
  "name (boot_pcb ent prio is_fg nm pd ppid stk t) = copy_name (Some nm) PROC_NAME_MAX"
  "queue_next (boot_pcb ent prio is_fg nm pd ppid stk t) = None" "entry (boot_pcb ent prio is_fg nm pd ppid stk t) = ent"
  "aging_ticks (boot_pcb ent prio is_fg nm pd ppid stk t) = 0"
  "base_priority (boot_pcb ent prio is_fg nm pd ppid stk t) = prio"
  "parent_pid (boot_pcb ent prio is_fg nm pd ppid stk t) = ppid"
  "kframe (boot_pcb ent prio is_fg nm pd ppid stk t) = (stk + KSTACK_SIZE) div 16 * 16 - 160"
  "next_proc (boot_pcb ent prio is_fg nm pd ppid stk t) = None" "prev_proc (boot_pcb ent prio is_fg nm pd ppid stk t) = None"
  by (simp_all add: boot_pcb_def init_pcb_def pcb_zero_def)

definition idle_pcb :: "nat \<Rightarrow> nat \<Rightarrow> nat \<Rightarrow> pcb" where
  "idle_pcb ent stk t = (boot_pcb ent 0 False ''idle'' 1 (-1) stk t)\<lparr>state := RUNNING, ticks_left := TIME_SLICE_TICKS\<rparr>"

definition with_idle ::
  "nat \<Rightarrow> nat \<Rightarrow> nat \<Rightarrow> nat \<Rightarrow> nat \<Rightarrow> nat \<Rightarrow> mm \<Rightarrow> (nat \<Rightarrow> regs) \<Rightarrow> kernel" where
  "with_idle f0 f1 f2 ent s0 t0 h fr = (with_console f0 f1 f2 h fr)
    \<lparr>procs := (\<lambda>_. pcb_zero)(0 := idle_pcb ent s0 t0), files := boot_files f0 f1 f2 2,
     fd_tables := (\<lambda>_. None)(t0 \<mapsto> boot_table f0 f1 f2), cur := Some 0, idle_proc := Some 0, next_pid := 2,
     proc_head := Some 0, proc_tail := Some 0\<rparr>"

lemma kernel_boot_fields [simp]:
  "procs (kernel_boot h fr) = (\<lambda>_. pcb_zero)" "ready_head (kernel_boot h fr) = (\<lambda>_. None)"
  "ready_tail (kernel_boot h fr) = (\<lambda>_. None)" "\<not> scheduler_enabled (kernel_boot h fr)" "cur (kernel_boot h fr) = None"
  "idle_proc (kernel_boot h fr) = None" "proc_head (kernel_boot h fr) = None" "proc_tail (kernel_boot h fr) = None"
  "zombie_head (kernel_boot h fr) = None" "next_pid (kernel_boot h fr) = 1" "heap (kernel_boot h fr) = h"
  "frames (kernel_boot h fr) = fr" "fd_tables (kernel_boot h fr) = (\<lambda>_. None)"
  by (simp_all add: kernel_boot_def)

lemma boot_steps [simp]: "\<not> used pcb_zero" "swrap32 2 = 2" "swrap32 3 = 3" "clamp_prio 0 = 0" "clamp_prio 2 = 2"
  by (simp_all add: pcb_zero_def swrap32_def clamp_prio_def const_defs)

lemmas boot_exec = proc_create_def allocate_slot_def upd_def kmalloc_def KSTACK_SIZE_def proc_create_tail_def
  fd_table_create_def sizeof_fd_table_def setup_stack_def Let_def set_table_def proc_by_pid_def

lemma boot_pcb_fold:
  "init_pcb ent 0 0 prio is_fg nm pd ppid (pcb_zero\<lparr>used := True\<rparr>)
     \<lparr>kstack_base := stk, kframe := (stk + 16384) div 16 * 16 - 160, fd_table := t\<rparr>
   = boot_pcb ent prio is_fg nm pd ppid stk t"
  by (simp add: boot_pcb_def KSTACK_SIZE_def)

lemma idle_starts:
  assumes f: "three f0 f1 f2" and m: "mm_malloc 16384 h = Some (s0, h1)" "mm_malloc 512 h1 = Some (t0, h2)"
    and ne: "0 < s0" "0 < t0" "0 < ent"
  shows "\<exists>fr'. sched_init ent (with_console f0 f1 f2 h fr) = Some (with_idle f0 f1 f2 ent s0 t0 h2 fr')"
  apply (rule exI [of _ "fr((s0 + 16384) div 16 * 16 - 160 :=
    \<lparr>r_rip = Trampoline, r_cs = 8, r_rflags = 514, r_rsp = (s0 + 16384) div 16 * 16 - 8, r_ss = 0, r_rdi = 0,
     r_rbp = (s0 + 16384) div 16 * 16 - 8, r_others = 0\<rparr>)"])
  using f m ne
  apply (simp add: sched_init_def with_console_def find_slot_0 boot_exec MIN_PRIO_def attach_console [of f0 f1 f2 _ 1])
  apply (simp add: share_console_def boot_pcb_fold insert_proc_def sched_enqueue_def sched_remove_def boot_exec find_slot_0)
  apply (simp add: with_idle_def with_console_def idle_pcb_def kernel_boot_def boot_pcb_def init_pcb_def pcb_zero_def
      cong: if_cong)
  done

definition shell_pcb :: "nat \<Rightarrow> nat \<Rightarrow> nat \<Rightarrow> pcb" where
  "shell_pcb ent stk t = (boot_pcb ent 2 True ''shell'' 2 1 stk t)
     \<lparr>state := READY, ticks_left := TIME_SLICE_TICKS, prev_proc := Some 0\<rparr>"

definition with_shell ::
  "nat \<Rightarrow> nat \<Rightarrow> nat \<Rightarrow> nat \<Rightarrow> nat \<Rightarrow> nat \<Rightarrow> nat \<Rightarrow> nat \<Rightarrow> nat \<Rightarrow> mm \<Rightarrow> (nat \<Rightarrow> regs) \<Rightarrow> kernel" where
  "with_shell f0 f1 f2 ie s0 t0 se s1 t1 h fr = (with_idle f0 f1 f2 ie s0 t0 h fr)
    \<lparr>procs := (\<lambda>_. pcb_zero)(0 := (idle_pcb ie s0 t0)\<lparr>child_head := Some 1, next_proc := Some 1\<rparr>, 1 := shell_pcb se s1 t1),
     files := boot_files f0 f1 f2 3, fd_tables := (\<lambda>_. None)(t0 \<mapsto> boot_table f0 f1 f2, t1 \<mapsto> boot_table f0 f1 f2),
     ready_head := (\<lambda>_. None)(2 \<mapsto> 1), ready_tail := (\<lambda>_. None)(2 \<mapsto> 1), next_pid := 3, proc_tail := Some 1,
     default_tty := tty_zero\<lparr>t_fg_pid := 2\<rparr>\<rparr>"

lemma prio_index_2: "prio_index 2 = 2"
  by (simp add: prio_index_def const_defs)

lemma shell_starts:
  assumes f: "three f0 f1 f2" and m: "mm_malloc 16384 h = Some (s1, h1)" "mm_malloc 512 h1 = Some (t1, h2)"
    and ne: "0 < s1" "0 < t1" "0 < t0" "t0 \<noteq> t1" "0 < se"
  shows "\<exists>fr'. proc_create se 0 0 DEFAULT_PRIO True (Some ''shell'') (with_idle f0 f1 f2 ie s0 t0 h fr)
    = Some (2, with_shell f0 f1 f2 ie s0 t0 se s1 t1 h2 fr')"
  apply (rule exI [of _ "fr((s1 + 16384) div 16 * 16 - 160 :=
    \<lparr>r_rip = Trampoline, r_cs = 8, r_rflags = 514, r_rsp = (s1 + 16384) div 16 * 16 - 8, r_ss = 0, r_rdi = 1,
     r_rbp = (s1 + 16384) div 16 * 16 - 8, r_others = 0\<rparr>)"])
  using f m ne
  apply (simp add: with_idle_def with_console_def idle_pcb_def find_slot_1 boot_exec DEFAULT_PRIO_def
      clone_console [of f0 f1 f2 _ 2])
  apply (simp add: share_console_def boot_pcb_fold insert_proc_def sched_enqueue_def q_push_def link_child_def boot_exec
      tty_set_foreground_def tty_default_def prio_index_2 MIN_PRIO_def HIGHEST_PRIO_def)
  apply (simp add: with_shell_def with_idle_def with_console_def idle_pcb_def shell_pcb_def kernel_boot_def boot_pcb_def init_pcb_def
      pcb_zero_def tty_zero_def fun_upd_twist)
  done

section \<open>The kernel after the start\<close>

lemma boot_frame: "0 < stk \<Longrightarrow> (stk + KSTACK_SIZE) div 16 * 16 - 160 \<noteq> (0::nat)"
  unfolding KSTACK_SIZE_def by linarith

lemma shell_kernel_ok:
  assumes "0 < s0" "0 < s1" "mm_inv h"
  shows "kernel_ok (sched_start (with_shell f0 f1 f2 ie s0 t0 se s1 t1 h fr))" (is "kernel_ok ?k")
proof -
  let ?Q = "(\<lambda>_. [])(2 := [1 :: nat])"
  have k: "procs ?k = (\<lambda>_. pcb_zero)(0 := (idle_pcb ie s0 t0)\<lparr>child_head := Some 1, next_proc := Some 1\<rparr>, 1 := shell_pcb se s1 t1)"
    "ready_head ?k = (\<lambda>_. None)(2 \<mapsto> 1)" "ready_tail ?k = (\<lambda>_. None)(2 \<mapsto> 1)" "cur ?k = Some 0" "idle_proc ?k = Some 0"
    "scheduler_enabled ?k" "zombie_head ?k = None" "heap ?k = h"
    by (simp_all add: sched_start_def with_shell_def with_idle_def with_console_def)
  have p: "state (shell_pcb se s1 t1) = READY" "used (shell_pcb se s1 t1)" "pid (shell_pcb se s1 t1) = 2"
    "queue_next (shell_pcb se s1 t1) = None" "priority (shell_pcb se s1 t1) = 2" "aging_ticks (shell_pcb se s1 t1) = 0"
    "kframe (shell_pcb se s1 t1) \<noteq> 0" "base_priority (shell_pcb se s1 t1) = 2" "base_priority (idle_pcb ie s0 t0) = 0"
    "state (idle_pcb ie s0 t0) = RUNNING" "used (idle_pcb ie s0 t0)"
    "pid (idle_pcb ie s0 t0) = 1" "kframe (idle_pcb ie s0 t0) \<noteq> 0" "ticks_left (idle_pcb ie s0 t0) = TIME_SLICE_TICKS"
    using boot_frame assms by (simp_all add: shell_pcb_def idle_pcb_def)
  have Q: "queued ?Q = {1}" by (auto simp: queued_def)
  have "queues ?Q ?k" unfolding queues_def k using p by (auto simp: last_opt_def)
  moreover have "in_prio ?Q ?k" unfolding in_prio_def k using p by simp
  ultimately have "sched_inv ?Q ?k" unfolding sched_inv_def Q k using p by (auto simp: pcb_zero_def)
  then have "sched_ok ?Q ?k" unfolding sched_ok_def sched_pre_def Q k using p
    by (simp add: queued_ok_def const_defs sched_start_def)
  moreover have "table_ok ?k" unfolding table_ok_def k using p by auto
  ultimately show ?thesis using k assms(3) by (auto simp: kernel_ok_def kheap_ok_def)
qed

lemma shell_name: "copy_name (Some ''shell'') PROC_NAME_MAX = ''shell''"
  by (simp add: copy_name_def const_defs numeral_eq_Suc)

text \<open>C6. Boot establishes the invariant: with a heap of 4 MB above the kernel's stack, \<^verbatim>\<open>main\<close> runs to its last loop
  without failing and leaves a well-formed kernel whose scheduler is on. The idle process (slot 0) has the CPU, the
  shell (slot 1, pid 2, a child of pid 1) is ready, alone in the queue of priority 2, and has the foreground of the
  terminal; its descriptors 0 to 2 are open console files, each counted three times (the kernel, idle and the
  shell), of which only descriptor 0 can be read.\<close>

theorem boot_establishes_invariant:
  assumes "0 < endOfKernel" "endOfKernel + PageSize * 8 + HEAP_SIZE < 2 ^ 64" "0 < idle_entry" "0 < shell_entry"
  shows "\<exists>k. kernel_main endOfKernel idle_entry shell_entry (kernel_boot (First_Fit s) fr) kb = Some (k, setCeroChar kb)
    \<and> kernel_ok k \<and> cur k = Some 0 \<and> ready_head k 2 = Some 1 \<and> ready_tail k 2 = Some 1
    \<and> used (procs k 1) \<and> state (procs k 1) = READY \<and> pid (procs k 1) = 2 \<and> parent_pid (procs k 1) = 1
    \<and> name (procs k 1) = ''shell'' \<and> entry (procs k 1) = shell_entry \<and> fst (tty_get_foreground k) = 2
    \<and> (\<forall>fd \<in> {0, 1, 2}. \<exists>f fl. fd_table_get (fd_table (procs k 1)) fd k = Some f \<and> f \<noteq> 0 \<and> files k f = Some fl
         \<and> refcount fl = 3 \<and> can_read fl = (fd = 0) \<and> can_write fl = (fd \<noteq> 0))"
proof -
  let ?h = "First_Fit (first_fit_init (endOfKernel + PageSize * 8) HEAP_SIZE s)"
  obtain f0 f1 f2 s0 t0 s1 t1 h1 h2 h3 h4 h5 h6 h7 where
    m: "mm_malloc 32 ?h = Some (f0, h1)" "mm_malloc 32 h1 = Some (f1, h2)"
    "mm_malloc 32 h2 = Some (f2, h3)" "mm_malloc 16384 h3 = Some (s0, h4)" "mm_malloc 512 h4 = Some (t0, h5)"
    "mm_malloc 16384 h5 = Some (s1, h6)" "mm_malloc 512 h6 = Some (t1, h7)"
    and ps: "0 \<notin> {f0, f1, f2, s0, t0, s1, t1}" "distinct [f0, f1, f2, s0, t0, s1, t1]" and inv: "mm_inv h7"
    by (rule boot_heap [OF _ assms(2) refl]) (use assms(1) in simp)
  from ps have f: "three f0 f1 f2" and ne: "0 < s0" "0 < t0" "0 < s1" "0 < t1" "t0 \<noteq> t1" by (auto simp: three_def)
  obtain fr1 where i: "sched_init idle_entry (with_console f0 f1 f2 h3 fr) = Some (with_idle f0 f1 f2 idle_entry s0 t0 h5 fr1)"
    using idle_starts [OF f m(4,5) ne(1,2) assms(3)] by blast
  obtain fr2 where c: "proc_create shell_entry 0 0 DEFAULT_PRIO True (Some ''shell'') (with_idle f0 f1 f2 idle_entry s0 t0 h5 fr1)
      = Some (2, with_shell f0 f1 f2 idle_entry s0 t0 shell_entry s1 t1 h7 fr2)"
    using shell_starts [OF f m(6,7) ne(3,4,2,5) assms(4)] by blast
  let ?k = "sched_start (with_shell f0 f1 f2 idle_entry s0 t0 shell_entry s1 t1 h7 fr2)"
  have b: "(kernel_boot (First_Fit s) fr)\<lparr>heap := ?h\<rparr> = kernel_boot ?h fr" by (simp add: kernel_boot_def)
  have run: "kernel_main endOfKernel idle_entry shell_entry (kernel_boot (First_Fit s) fr) kb = Some (?k, setCeroChar kb)"
    using b i c console_opens [OF m(1-3) f, of fr] by (simp add: kernel_main_def Let_def)
  have "fd_table_get t1 0 ?k = Some f0" "fd_table_get t1 1 ?k = Some f1" "fd_table_get t1 2 ?k = Some f2"
    using ne boot_table_nth [of f0 f1 f2]
    by (simp_all add: fd_table_get_def bad_fd_def FD_MAX_def sched_start_def with_shell_def)
  moreover have "files ?k = boot_files f0 f1 f2 3" by (simp add: sched_start_def with_shell_def)
  ultimately have fds: "\<forall>fd \<in> {0, 1, 2}. \<exists>f fl. fd_table_get t1 fd ?k = Some f \<and> f \<noteq> 0 \<and> files ?k f = Some fl
      \<and> refcount fl = 3 \<and> can_read fl = (fd = 0) \<and> can_write fl = (fd \<noteq> 0)"
    using f by (simp add: boot_files_def boot_file_def three_def)
  have "name (shell_pcb shell_entry s1 t1) = ''shell''"
    by (simp add: shell_pcb_def shell_name)
  then show ?thesis
    using run shell_kernel_ok [OF ne(1,3) inv] fds
    by (intro exI [of _ ?k]) (simp add: sched_start_def with_shell_def with_idle_def with_console_def shell_pcb_def
        tty_get_foreground_def tty_default_def)
qed

definition demo_keyboard :: keyboard where
  "demo_keyboard = \<lparr>notChar = 7, retChar = CHR ''a'', shift = False, capsLock = False, ctrl = False\<rparr>"

definition demo_frame :: regs where
  "demo_frame = \<lparr>r_rip = Code 0, r_cs = 0, r_rflags = 0, r_rsp = 0, r_ss = 0, r_rdi = 0, r_rbp = 0, r_others = 0\<rparr>"

theorem boot_establishes_invariant_witness:
  "\<exists>k. kernel_main 0x100000 0x100100 0x100200 (kernel_boot (First_Fit ff_small) (\<lambda>_. demo_frame)) demo_keyboard
    = Some (k, setCeroChar demo_keyboard) \<and> kernel_ok k"
  using boot_establishes_invariant [of "0x100000" "0x100100" "0x100200" ff_small "\<lambda>_. demo_frame" demo_keyboard]
  by (auto simp: const_defs)

end
