(* ===== verification/Hardware.thy ===== *)
theory Hardware
  imports Video_State
begin

unbundle bit_operations_syntax

text \<open>
  \<^verbatim>\<open>Kernel/drivers/sound.c\<close>, \<^verbatim>\<open>Kernel/interrupt/idtLoader.c\<close> and \<^verbatim>\<open>Kernel/interrupt/exceptions.c\<close>: the code that
  only talks to devices. A port is what was last written to it; every write is also recorded in order.
  The lock of \<^verbatim>\<open>Kernel/include/spinlock.h\<close> is a step relation of the processors that use it.
\<close>

section \<open>The speaker\<close>

record ports =
  io :: "nat \<Rightarrow> byte"
  outs :: "(nat \<times> byte) list"

definition spkIn :: "nat \<Rightarrow> ports \<Rightarrow> byte" where "spkIn port s = io s port"

definition spkOut :: "nat \<Rightarrow> byte \<Rightarrow> ports \<Rightarrow> ports" where
  "spkOut port v s = s\<lparr>io := (io s)(port := v), outs := outs s @ [(port, v)]\<rparr>"

definition stopSpeaker :: "ports \<Rightarrow> ports" where
  "stopSpeaker s = (let tmp = spkIn 0x61 s AND 0xFC in spkOut 0x61 tmp s)"

definition triggerSpeaker :: "32 word \<Rightarrow> ports \<Rightarrow> ports" where
  "triggerSpeaker frequence s =
    (if frequence = 0 then stopSpeaker s
     else
       let dvs = 1193180 div frequence;
           s1 = spkOut 0x42 (ucast (drop_bit 8 dvs)) (spkOut 0x42 (ucast dvs) (spkOut 0x43 0xb6 s));
           tmp = spkIn 0x61 s1
       in if tmp \<noteq> tmp OR 3 then spkOut 0x61 (tmp OR 3) s1 else s1)"

text \<open>Between the two calls \<^verbatim>\<open>beep\<close> only lets time pass.\<close>

definition beep :: "32 word \<Rightarrow> ports \<Rightarrow> ports" where
  "beep freq s = stopSpeaker (triggerSpeaker freq s)"

lemma stop_clears_gate: "io (stopSpeaker s) 0x61 AND 3 = 0" "io (stopSpeaker s) 0x61 AND 0xFC = io s 0x61 AND 0xFC"
  by (simp_all add: stopSpeaker_def spkOut_def spkIn_def and.assoc Let_def)

lemma trigger_sets_gate: "f \<noteq> 0 \<Longrightarrow> io (triggerSpeaker f s) 0x61 = io s 0x61 OR 3"
  by (simp add: triggerSpeaker_def spkOut_def spkIn_def Let_def)

section \<open>The interrupt descriptor table\<close>

record descr_int =
  offset_l :: "16 word"
  selector :: "16 word"
  cero :: "8 word"
  access_b :: "8 word"
  offset_m :: "16 word"
  offset_h :: "32 word"
  other_cero :: "32 word"

definition ACS_INT :: "8 word" where "ACS_INT = 0x80 OR 0x0E"

definition setup_IDT_entry :: "nat \<Rightarrow> 64 word \<Rightarrow> (nat \<Rightarrow> descr_int) \<Rightarrow> nat \<Rightarrow> descr_int" where
  "setup_IDT_entry index offset idt = idt(index :=
    \<lparr>offset_l = ucast (offset AND 0xFFFF), selector = 0x08, cero = 0, access_b = ACS_INT,
     offset_m = ucast (drop_bit 16 offset AND 0xFFFF), offset_h = ucast (drop_bit 32 offset AND 0xFFFFFFFF), other_cero = 0\<rparr>)"

text \<open>
  The five handlers are parameters: keyboard, timer, system call and the two exceptions. The interrupt masks are
  written to the ports of the two controllers; the interrupt flag is the last component.
\<close>

definition load_idt ::
  "64 word \<Rightarrow> 64 word \<Rightarrow> 64 word \<Rightarrow> 64 word \<Rightarrow> 64 word \<Rightarrow> (nat \<Rightarrow> descr_int) \<Rightarrow> ports \<Rightarrow> (nat \<Rightarrow> descr_int) \<times> ports \<times> bool" where
  "load_idt keyboard_h timer_h syscall_h zero_h opcode_h idt s =
    (let idt1 = setup_IDT_entry 0x21 keyboard_h idt;
         idt2 = setup_IDT_entry 0x20 timer_h idt1;
         idt3 = setup_IDT_entry 0x80 syscall_h idt2;
         idt4 = setup_IDT_entry 0x00 zero_h idt3;
         idt5 = setup_IDT_entry 0x06 opcode_h idt4
     in (idt5, spkOut 0xA1 0xFF (spkOut 0x21 0xFC s), True))"

text \<open>The address the processor puts together from an entry is the address of the handler.\<close>

definition gate_target :: "descr_int \<Rightarrow> 64 word" where
  "gate_target d = ucast (offset_l d) OR push_bit 16 (ucast (offset_m d)) OR push_bit 32 (ucast (offset_h d))"

lemma gate_target_setup: "gate_target (setup_IDT_entry i h idt i) = h"
proof -
  have m: "(0xFFFF :: 64 word) = mask 16" "(0xFFFFFFFF :: 64 word) = mask 32"
    by (simp_all add: mask_eq_exp_minus_1)
  show ?thesis
  proof (rule bit_word_eqI)
    fix n assume "n < LENGTH(64)"
    then show "bit (gate_target (setup_IDT_entry i h idt i)) n = bit h n"
      by (cases "n < 16"; cases "n < 32") (auto simp: gate_target_def setup_IDT_entry_def m bit_simps)
  qed
qed

section \<open>Exceptions\<close>

definition ex_red :: pixel_color where "ex_red = \<lparr>col_b = 30, col_g = 30, col_r = 255\<rparr>"

definition registers :: "string list" where
  "registers = [''RAX'', ''RBX'', ''RCX'', ''RDX'', ''RSI'', ''RDI'', ''RBP'', ''RSP'', ''R8 '', ''R9 '', ''R10'',
     ''R11'', ''R12'', ''R13'', ''R14'', ''R15'', ''RIP'', ''RFLAGS '']"

fun ex_hex_fill :: "nat \<Rightarrow> nat \<Rightarrow> string" where
  "ex_hex_fill 0 n = []"
| "ex_hex_fill (Suc i) n =
    ex_hex_fill i (n div 16) @ [char_of (if n mod 16 < 10 then 48 + n mod 16 else 55 + n mod 16)]"

definition ex_uint64ToHex :: "nat \<Rightarrow> string" where "ex_uint64ToHex n = ex_hex_fill 16 n"

definition print_register :: "nat \<Rightarrow> nat \<Rightarrow> video_st \<Rightarrow> video_st option" where
  "print_register i r v = do {
     v1 \<leftarrow> vDriver_prints (registers ! i) WHITE BLACK v;
     v2 \<leftarrow> vDriver_prints '': '' WHITE BLACK v1;
     v3 \<leftarrow> vDriver_prints (''0x'' @ ex_uint64ToHex r) WHITE BLACK v2;
     if i mod 4 = 3 then Some (vDriver_newline v3) else vDriver_prints ''   '' WHITE BLACK v3
   }"

fun dump_registers :: "nat \<Rightarrow> nat list \<Rightarrow> video_st \<Rightarrow> video_st option" where
  "dump_registers i [] v = Some v"
| "dump_registers i (r # rs) v = do { v1 \<leftarrow> print_register i r v; dump_registers (i + 1) rs v1 }"

text \<open>The screen when the machine is reset.\<close>

definition exception_handler :: "int \<Rightarrow> nat list \<Rightarrow> video_st \<Rightarrow> video_st option" where
  "exception_handler exception register_data v = do {
     v1 \<leftarrow> vDriver_prints (CHR 0x0A # ''ERROR: '') ex_red BLACK v;
     v2 \<leftarrow> (if exception = 0 then vDriver_prints (''zero division detected'' @ [CHR 0x0A]) WHITE BLACK v1
            else if exception = 6 then vDriver_prints (''invalid op code detected'' @ [CHR 0x0A]) WHITE BLACK v1
            else Some v1);
     dump_registers 0 (take 16 register_data) v2
   }"

lemma drawable_hex: "list_all drawable (ex_hex_fill k n)"
proof (induction k arbitrary: n)
  case (Suc k)
  have "of_char (char_of m :: char) = m" if "m < 256" for m :: nat using that by simp
  moreover have "n mod 16 < 16" by simp
  ultimately have "drawable (char_of (if n mod 16 < 10 then 48 + n mod 16 else 55 + n mod 16))"
    unfolding drawable_def Let_def by (auto split: if_splits)
  with Suc show ?case by simp
qed simp

lemma registers_drawable: "list_all (list_all drawable) registers"
  by code_simp

lemma prints_on: "keeps w v \<Longrightarrow> list_all drawable str \<Longrightarrow> \<exists>v'. vDriver_prints str fnt bgd v = Some v' \<and> keeps w v'"
  using prints_keeps [of v str fnt bgd] keeps_trans [of w v] by (auto simp: keeps_def [of w v])

lemma newline_on: "keeps w v \<Longrightarrow> keeps w (vDriver_newline v)"
  using newline_keeps [of v] keeps_trans [of w v] by (simp add: keeps_def [of w v])

lemma print_register_keeps: "keeps w v \<Longrightarrow> i < 18 \<Longrightarrow> \<exists>v'. print_register i r v = Some v' \<and> keeps w v'"
proof -
  assume k: "keeps w v" and i: "i < 18"
  have "list_all drawable (registers ! i)"
    using registers_drawable i unfolding list_all_length by (simp add: registers_def)
  moreover have "list_all drawable '': ''" "list_all drawable ''   ''" by code_simp+
  moreover have "list_all drawable (''0x'' @ ex_uint64ToHex r)"
    unfolding list_all_append ex_uint64ToHex_def by (rule conjI [OF _ drawable_hex]) code_simp
  ultimately obtain v1 v2 v3 v4 where "vDriver_prints (registers ! i) WHITE BLACK v = Some v1"
    "vDriver_prints '': '' WHITE BLACK v1 = Some v2" "vDriver_prints (''0x'' @ ex_uint64ToHex r) WHITE BLACK v2 = Some v3"
    "keeps w v3" "vDriver_prints ''   '' WHITE BLACK v3 = Some v4" "keeps w v4"
    using k prints_on by metis
  then show ?thesis unfolding print_register_def
    by (cases "i mod 4 = 3") (simp_all add: newline_on del: vDriver_prints.simps)
qed

text \<open>The report is always printed: it has only characters with a glyph.\<close>

lemma dump_keeps: "keeps w v \<Longrightarrow> i + length xs \<le> 18 \<Longrightarrow> \<exists>v'. dump_registers i xs v = Some v' \<and> keeps w v'"
proof (induction xs arbitrary: i v)
  case (Cons x xs)
  from print_register_keeps [OF Cons.prems(1), of i x] Cons.prems(2) obtain v1 where
    "print_register i x v = Some v1" "keeps w v1" by auto
  with Cons.IH [of v1 "i + 1"] Cons.prems(2) show ?case by auto
qed simp

lemma exception_report_is_printed:
  assumes wf: "video_wf v"
  shows "\<exists>v'. exception_handler e rs v = Some v' \<and> video_wf v' \<and> same_mode v v'"
proof -
  have d: "list_all drawable (CHR 0x0A # ''ERROR: '')" "list_all drawable (''zero division detected'' @ [CHR 0x0A])"
    "list_all drawable (''invalid op code detected'' @ [CHR 0x0A])" by code_simp+
  obtain v1 where v1: "vDriver_prints (CHR 0x0A # ''ERROR: '') ex_red BLACK v = Some v1" "keeps v v1"
    using prints_on [OF keeps_refl [OF wf] d(1)] by blast
  obtain v2 where v2: "(if e = 0 then vDriver_prints (''zero division detected'' @ [CHR 0x0A]) WHITE BLACK v1
            else if e = 6 then vDriver_prints (''invalid op code detected'' @ [CHR 0x0A]) WHITE BLACK v1
            else Some v1) = Some v2" "keeps v v2"
    using prints_on [OF v1(2) d(2)] prints_on [OF v1(2) d(3)] v1(2) by (metis (full_types))
  have "0 + length (take 16 rs) \<le> 18" by (simp add: min_def)
  from dump_keeps [OF v2(2) this] obtain v3 where "dump_registers 0 (take 16 rs) v2 = Some v3" "keeps v v3" by blast
  then show ?thesis unfolding exception_handler_def v1(1) bind.bind_lunit v2(1) by (simp add: keeps_def)
qed

section \<open>Spinlocks\<close>

text \<open>
  \<^verbatim>\<open>__sync_lock_test_and_set\<close> stores 1 and answers the old value in one step. A user is outside, spins, or holds
  the lock, the last two with the interrupt flag it had before. The variants without the flag are for code that
  runs with interrupts off: they are the same steps with a flag that is clear.
\<close>

record spinlock = lock_value :: int

definition spinlock_init :: "spinlock \<Rightarrow> spinlock" where
  "spinlock_init l = l\<lparr>lock_value := 0\<rparr>"

definition test_and_set :: "spinlock \<Rightarrow> int \<times> spinlock" where
  "test_and_set l = (lock_value l, l\<lparr>lock_value := 1\<rparr>)"

definition lock_release :: "spinlock \<Rightarrow> spinlock" where
  "lock_release l = l\<lparr>lock_value := 0\<rparr>"

datatype spin_pc = Out | Spinning bool | Holds bool

record spin_run =
  the_lock :: spinlock
  spc :: "nat \<Rightarrow> spin_pc"
  ints_on :: "nat \<Rightarrow> bool"

inductive spin_step :: "spin_run \<Rightarrow> spin_run \<Rightarrow> bool" where
  sp_enter: "spc s i = Out \<Longrightarrow>
     spin_step s (s\<lparr>spc := (spc s)(i := Spinning (ints_on s i)), ints_on := (ints_on s)(i := False)\<rparr>)"
| sp_enter_plain: "spc s i = Out \<Longrightarrow> \<not> ints_on s i \<Longrightarrow> spin_step s (s\<lparr>spc := (spc s)(i := Spinning False)\<rparr>)"
| sp_spin: "spc s i = Spinning fl \<Longrightarrow> test_and_set (the_lock s) = (old, l) \<Longrightarrow> old \<noteq> 0 \<Longrightarrow>
     spin_step s (s\<lparr>the_lock := l\<rparr>)"
| sp_take: "spc s i = Spinning fl \<Longrightarrow> test_and_set (the_lock s) = (old, l) \<Longrightarrow> old = 0 \<Longrightarrow>
     spin_step s (s\<lparr>the_lock := l, spc := (spc s)(i := Holds fl)\<rparr>)"
| sp_release: "spc s i = Holds fl \<Longrightarrow>
     spin_step s (s\<lparr>the_lock := lock_release (the_lock s), spc := (spc s)(i := Out),
       ints_on := (ints_on s)(i := (fl \<or> ints_on s i))\<rparr>)"

inductive spin_reach :: "spin_run \<Rightarrow> bool" where
  sp_begin: "lock_value (the_lock s) = 0 \<Longrightarrow> \<forall>i. spc s i = Out \<Longrightarrow> spin_reach s"
| sp_more: "spin_reach s \<Longrightarrow> spin_step s s' \<Longrightarrow> spin_reach s'"

definition holds :: "spin_run \<Rightarrow> nat \<Rightarrow> bool" where
  "holds s i \<longleftrightarrow> (\<exists>fl. spc s i = Holds fl)"

text \<open>At most one user holds the lock, and it holds it with its interrupts off.\<close>

lemma spinlock_excludes:
  "spin_reach s \<Longrightarrow> (lock_value (the_lock s) = 0 \<longleftrightarrow> (\<forall>i. \<not> holds s i))
     \<and> (\<forall>i j. holds s i \<and> holds s j \<longrightarrow> i = j) \<and> (\<forall>i. spc s i \<noteq> Out \<longrightarrow> \<not> ints_on s i)"
proof (induction rule: spin_reach.induct)
  case (sp_more s s')
  from sp_more.hyps(2) sp_more.IH show ?case
  proof cases
    case (sp_enter i)
    then have "holds s' = holds s" by (auto simp: holds_def fun_eq_iff)
    with sp_enter sp_more.IH show ?thesis by simp
  next
    case (sp_enter_plain i)
    then have "holds s' = holds s" by (auto simp: holds_def fun_eq_iff)
    with sp_enter_plain sp_more.IH show ?thesis by simp
  qed (auto simp: holds_def test_and_set_def lock_release_def split: if_splits)
qed (simp add: holds_def)

end
