(* ===== verification/Test_Util.thy ===== *)
theory Test_Util
  imports Mvar User_Programs Kernel_Lib
begin

text \<open>
  \<^verbatim>\<open>tests/test_util.c\<close> and \<^verbatim>\<open>tests/syscall.c\<close>: what the test programs share, and the C start-up code of the
  module in \<^verbatim>\<open>_loader.c\<close>. User programs live in one address space, so the random state and the table of open
  semaphores are common to all tests. \<open>bussy_wait\<close> and the endless loops without output have no effect.
\<close>

record sem_entry =
  se_name :: string
  se_handle :: int
  se_owner :: int
  se_in_use :: bool

record test_st = user_st +
  m_z :: "32 word"
  m_w :: "32 word"
  sem_entries :: "sem_entry list"
  umem :: ram

definition sem_entry_zero :: sem_entry where
  "sem_entry_zero = \<lparr>se_name = [], se_handle = 0, se_owner = 0, se_in_use = False\<rparr>"

definition test_boot :: "int list \<Rightarrow> ram \<Rightarrow> test_st" where
  "test_boot rs m = \<lparr>trace = [], replies = rs, m_z = 362436069, m_w = 521288629,
     sem_entries = replicate 16 sem_entry_zero, umem = m\<rparr>"

section \<open>The start of the module\<close>

definition u_memset :: "nat \<Rightarrow> int \<Rightarrow> nat \<Rightarrow> ram \<Rightarrow> ram" where
  "u_memset destination c len m = memset_loop destination (word_of_int c) len m"

definition module_start :: "nat \<Rightarrow> nat \<Rightarrow> ram \<Rightarrow> ram" where
  "module_start bss endOfBinary m = u_memset bss 0 (endOfBinary - bss) m"

section \<open>Random numbers\<close>

definition GetUint :: "'a test_st_scheme \<Rightarrow> 32 word \<times> 'a test_st_scheme" where
  "GetUint u =
    (let z = 36969 * (m_z u AND 65535) + drop_bit 16 (m_z u);
         w = 18000 * (m_w u AND 65535) + drop_bit 16 (m_w u)
     in (push_bit 16 z + w, u\<lparr>m_z := z, m_w := w\<rparr>))"

text \<open>
  \<^verbatim>\<open>GetUniform\<close> scales with floating-point arithmetic, which is a parameter: \<open>scale u mx\<close> is the product
  \<^verbatim>\<open>(u + 1.0) * 2.328306435454494e-10 * max\<close> converted to an integer.
\<close>

type_synonym fscale = "32 word \<Rightarrow> nat \<Rightarrow> nat"

definition GetUniform :: "fscale \<Rightarrow> nat \<Rightarrow> 'a test_st_scheme \<Rightarrow> nat \<times> 'a test_st_scheme" where
  "GetUniform scale mx u = (let (r, u1) = GetUint u in (scale r mx, u1))"

section \<open>Memory and parameters\<close>

fun memcheck :: "nat \<Rightarrow> byte \<Rightarrow> nat \<Rightarrow> ram \<Rightarrow> bool" where
  "memcheck start chr 0 m \<longleftrightarrow> True"
| "memcheck start chr (Suc n) m \<longleftrightarrow> (if m start \<noteq> chr then False else memcheck (start + 1) chr n m)"

definition in_long :: "int \<Rightarrow> bool" where
  "in_long v \<longleftrightarrow> - 9223372036854775808 \<le> v \<and> v \<le> 9223372036854775807"

text \<open>\<^verbatim>\<open>satoi\<close>; a sum outside 64 bits has no defined meaning.\<close>

fun satoi_loop :: "int \<Rightarrow> string \<Rightarrow> int \<Rightarrow> int option" where
  "satoi_loop sign [] res = Some (res * sign)"
| "satoi_loop sign (c # str) res =
    (if c = NUL then Some (res * sign)
     else if schar c < 48 \<or> schar c > 57 then Some 0
     else if in_long (res * 10 + schar c) then satoi_loop sign str (res * 10 + schar c - 48) else None)"

definition satoi :: "string option \<Rightarrow> int option" where
  "satoi str =
    (case str of None \<Rightarrow> Some 0
     | Some s \<Rightarrow> if first_char s = CHR ''-'' then satoi_loop (-1) (tl s) 0 else satoi_loop 1 s 0)"

text \<open>One turn of each loop that prints; \<open>pd\<close> is what \<^verbatim>\<open>my_getpid\<close> answered before the loop.\<close>

definition endless_loop_print :: "int \<Rightarrow> 'a user_st_scheme \<Rightarrow> 'a user_st_scheme option" where
  "endless_loop_print pd u = uprintf ''%ld '' [VLong pd] u"

definition endless_loop_print_wrapper :: "int \<Rightarrow> 'a user_st_scheme \<Rightarrow> 'a user_st_scheme option" where
  "endless_loop_print_wrapper pd u = do { u1 \<leftarrow> uprintf ''%ld '' [VLong pd] u; Some (say SysYield u1) }"

section \<open>Processes by name\<close>

definition my_getpid :: "'a user_st_scheme \<Rightarrow> (int \<times> 'a user_st_scheme) option" where
  "my_getpid u = ask SysGetpid u"

fun same_name :: "string \<Rightarrow> string \<Rightarrow> bool" where
  "same_name (e # el) (c # nm) =
    (if e \<noteq> NUL \<and> c \<noteq> NUL then (if e \<noteq> c then False else same_name el nm) else e = NUL \<and> c = NUL)"
| "same_name el nm \<longleftrightarrow> first_char el = NUL \<and> first_char nm = NUL"

definition entry_of_name :: "string \<Rightarrow> string" where
  "entry_of_name nm =
    (if same_name ''endless_loop_wrapper'' nm then ''endless_loop_wrapper''
     else if same_name ''endless_loop'' nm then ''endless_loop_wrapper''
     else if same_name ''endless_loop_print_wrapper'' nm then ''endless_loop_print_wrapper''
     else if same_name ''endless_loop_print'' nm then ''endless_loop_print_wrapper''
     else if same_name ''my_process_inc'' nm then ''my_process_inc_entry''
     else ''endless_loop_wrapper'')"

text \<open>The last argument of \<^verbatim>\<open>sys_create_process\<close> is the priority; the process is in the background.\<close>

definition my_create_process :: "string \<Rightarrow> nat \<Rightarrow> nat \<Rightarrow> string list \<Rightarrow> 'a user_st_scheme \<Rightarrow> (int \<times> 'a user_st_scheme) option" where
  "my_create_process nm argc argv args u =
    ask (SysCreateProcess (entry_of_name nm) (int argc) argv args nm 0 0) u"

definition sint32 :: "int \<Rightarrow> int" where
  "sint32 v = sint (word_of_int v :: 32 word)"

definition my_nice :: "int \<Rightarrow> int \<Rightarrow> 'a user_st_scheme \<Rightarrow> (int \<times> 'a user_st_scheme) option" where
  "my_nice pd newPrio u = ask (SysNice (sint32 pd) (nat (newPrio mod 256))) u"

definition my_kill :: "int \<Rightarrow> 'a user_st_scheme \<Rightarrow> (int \<times> 'a user_st_scheme) option" where
  "my_kill pd u = ask (SysKill (sint32 pd)) u"

definition my_block :: "int \<Rightarrow> 'a user_st_scheme \<Rightarrow> (int \<times> 'a user_st_scheme) option" where
  "my_block pd u = ask (SysBlock (sint32 pd)) u"

definition my_unblock :: "int \<Rightarrow> 'a user_st_scheme \<Rightarrow> (int \<times> 'a user_st_scheme) option" where
  "my_unblock pd u = ask (SysUnblock (sint32 pd)) u"

definition my_yield :: "'a user_st_scheme \<Rightarrow> 'a user_st_scheme" where
  "my_yield u = say SysYield u"

definition my_wait_pid :: "int \<Rightarrow> int \<Rightarrow> 'a user_st_scheme \<Rightarrow> (int \<times> int \<times> 'a user_st_scheme) option" where
  "my_wait_pid pd status u = ask_wait (sint32 pd) status u"

text \<open>\<^verbatim>\<open>my_wait\<close> passes no place for the status.\<close>

definition my_wait :: "int \<Rightarrow> 'a user_st_scheme \<Rightarrow> (int \<times> 'a user_st_scheme) option" where
  "my_wait pd u = ask (SysWaitPid (sint32 pd)) u"

section \<open>Semaphores by name and process\<close>

definition find_sem_entry :: "string \<Rightarrow> int \<Rightarrow> 'a test_st_scheme \<Rightarrow> nat option" where
  "find_sem_entry nm owner_pid u =
    find_index (\<lambda>e. se_in_use e \<and> se_owner e = owner_pid \<and> u_strcmp (se_name e) nm = 0) (sem_entries u)"

text \<open>A name is copied without a bound into 32 characters.\<close>

definition store_sem_entry :: "string \<Rightarrow> int \<Rightarrow> int \<Rightarrow> 'a test_st_scheme \<Rightarrow> (int \<times> 'a test_st_scheme) option" where
  "store_sem_entry nm owner_pid h u =
    (case find_sem_entry nm owner_pid u of
       Some i \<Rightarrow> Some (int i, u\<lparr>sem_entries := (sem_entries u)[i := (sem_entries u ! i)\<lparr>se_handle := h\<rparr>]\<rparr>)
     | None \<Rightarrow>
       (case find_index (\<lambda>e. \<not> se_in_use e) (sem_entries u) of
          None \<Rightarrow> Some (-1, u)
        | Some i \<Rightarrow>
          if length (u_strcpy nm) \<ge> 32 then None
          else Some (int i, u\<lparr>sem_entries := (sem_entries u)[i :=
                 \<lparr>se_name = u_strcpy nm, se_handle = h, se_owner = owner_pid, se_in_use = True\<rparr>]\<rparr>)))"

definition drop_sem_entry :: "nat \<Rightarrow> 'a test_st_scheme \<Rightarrow> 'a test_st_scheme" where
  "drop_sem_entry i u = u\<lparr>sem_entries := (sem_entries u)[i := sem_entry_zero]\<rparr>"

definition my_sem_open :: "string option \<Rightarrow> nat \<Rightarrow> 'a test_st_scheme \<Rightarrow> (int \<times> 'a test_st_scheme) option" where
  "my_sem_open sem_id initialValue u =
    (case sem_id of None \<Rightarrow> Some (-1, u)
     | Some nm \<Rightarrow> do {
         (h, u1) \<leftarrow> ask (SysSemOpen nm (initialValue mod 4294967296)) u;
         if h < 0 then Some (-1, u1)
         else do {
           (owner, u2) \<leftarrow> my_getpid u1;
           (i, u3) \<leftarrow> store_sem_entry nm owner h u2;
           if i < 0 then Some (-1, say (SysSemClose h) u3) else Some (h, u3)
         }
       })"

definition my_sem_wait :: "string \<Rightarrow> 'a test_st_scheme \<Rightarrow> (int \<times> 'a test_st_scheme) option" where
  "my_sem_wait sem_id u = do {
     (owner, u1) \<leftarrow> my_getpid u;
     case find_sem_entry sem_id owner u1 of None \<Rightarrow> Some (-1, u1)
     | Some i \<Rightarrow> ask (SysSemWait (se_handle (sem_entries u1 ! i))) u1
   }"

definition my_sem_post :: "string \<Rightarrow> 'a test_st_scheme \<Rightarrow> (int \<times> 'a test_st_scheme) option" where
  "my_sem_post sem_id u = do {
     (owner, u1) \<leftarrow> my_getpid u;
     case find_sem_entry sem_id owner u1 of None \<Rightarrow> Some (-1, u1)
     | Some i \<Rightarrow> ask (SysSemPost (se_handle (sem_entries u1 ! i))) u1
   }"

definition my_sem_close :: "string \<Rightarrow> 'a test_st_scheme \<Rightarrow> (int \<times> 'a test_st_scheme) option" where
  "my_sem_close sem_id u = do {
     (owner, u1) \<leftarrow> my_getpid u;
     case find_sem_entry sem_id owner u1 of None \<Rightarrow> Some (-1, u1)
     | Some i \<Rightarrow> do {
         (result, u2) \<leftarrow> ask (SysSemClose (se_handle (sem_entries u1 ! i))) u1;
         Some (result, if result = 0 then drop_sem_entry i u2 else u2)
       }
   }"

definition my_sem_unlink :: "string \<Rightarrow> 'a test_st_scheme \<Rightarrow> (int \<times> 'a test_st_scheme) option" where
  "my_sem_unlink sem_id u = do {
     (result, u1) \<leftarrow> ask (SysSemUnlink sem_id) u;
     if result \<noteq> 0 then Some (result, u1)
     else do {
       (owner, u2) \<leftarrow> my_getpid u1;
       Some (result, case find_sem_entry sem_id owner u2 of None \<Rightarrow> u2 | Some i \<Rightarrow> drop_sem_entry i u2)
     }
   }"

section \<open>What the helpers do\<close>

lemma memcheck_iff: "memcheck start chr n m \<longleftrightarrow> (\<forall>a. start \<le> a \<and> a < start + n \<longrightarrow> m a = chr)"
proof (induction n arbitrary: start)
  case (Suc n)
  have "(\<forall>a. start \<le> a \<and> a < start + Suc n \<longrightarrow> m a = chr) \<longleftrightarrow>
    m start = chr \<and> (\<forall>a. start + 1 \<le> a \<and> a < start + 1 + n \<longrightarrow> m a = chr)"
    by (auto, metis Suc_leI le_neq_implies_less)
  with Suc show ?case by simp
qed auto

lemma same_name_iff: "same_name el nm \<longleftrightarrow> cstr el = cstr nm"
proof (induction el nm rule: same_name.induct)
  case (1 e el c nm)
  then show ?case by (auto simp: cstr_def)
qed (auto simp: cstr_def first_char_def split: list.splits)

end
