(* ===== verification/Test_Sync.thy ===== *)
theory Test_Sync
  imports Test_Util
begin

text \<open>
  \<^verbatim>\<open>tests/test_sync.c\<close>: processes that add to one shared number, with and without a semaphore around each
  addition. A process up to its loop is a function of its arguments; the loops of all of them are an
  interleaving of steps, where the additions of \<^verbatim>\<open>slowInc\<close> are split at its yield.
\<close>

section \<open>A process up to its loop\<close>

text \<open>The log line is printed before the arguments are looked at.\<close>

definition inc_log :: "int \<Rightarrow> nat \<Rightarrow> string option list \<Rightarrow> 'a user_st_scheme \<Rightarrow> 'a user_st_scheme option" where
  "inc_log pd argc args u =
    (if length args < 3 then None
     else uprintf (''[pid=%ld] argc=%lu args: %s | %s | %s'' @ [NL])
       (VLong pd # VUInt argc # map (\<lambda>a. VStr (Some (case a of None \<Rightarrow> ''NULL'' | Some s \<Rightarrow> s))) (take 3 args)) u)"

datatype inc_proc = IncEnded | IncLoops nat int bool "32 word"

definition signed8 :: "int \<Rightarrow> int" where
  "signed8 v = sint (word_of_int v :: 8 word)"

text \<open>With its numbers read: the state of the random numbers and the semaphore.\<close>

definition inc_open :: "nat \<Rightarrow> int \<Rightarrow> bool \<Rightarrow> 'a test_st_scheme \<Rightarrow> (inc_proc \<times> 'a test_st_scheme) option" where
  "inc_open n inc use_sem u = do {
     (pd, u1) \<leftarrow> my_getpid u;
     let run = IncLoops n inc use_sem (word_of_int (sint32 pd) * 1103515245 + 12345);
     if use_sem then do {
       (h, u2) \<leftarrow> my_sem_open (Some ''sem'') 1 u1;
       if h < 0 then do {
         u3 \<leftarrow> uprintf (''test_sync: ERROR opening semaphore'' @ [NL]) [] u2;
         Some (IncEnded, u3)
       } else Some (run, u2)
     } else Some (run, u1)
   }"

text \<open>
  The count is compared as an unsigned number, so only 0 is refused; the other two are cut to 8 bits.
\<close>

definition inc_start :: "nat \<Rightarrow> string option list \<Rightarrow> 'a test_st_scheme \<Rightarrow> (inc_proc \<times> 'a test_st_scheme) option" where
  "inc_start argc args u =
    (if argc \<noteq> 3 then Some (IncEnded, u)
     else if length args < 3 then None
     else do {
       n \<leftarrow> satoi (args ! 0);
       if n = 0 then Some (IncEnded, u)
       else do {
         inc \<leftarrow> satoi (args ! 1);
         if signed8 inc = 0 then Some (IncEnded, u)
         else do {
           use_sem \<leftarrow> satoi (args ! 2);
           if signed8 use_sem < 0 then Some (IncEnded, u)
           else inc_open (nat (n mod 18446744073709551616)) (signed8 inc) (signed8 use_sem \<noteq> 0) u
         }
       }
     })"

definition my_process_inc :: "nat \<Rightarrow> string option list \<Rightarrow> 'a test_st_scheme \<Rightarrow> (inc_proc \<times> 'a test_st_scheme) option" where
  "my_process_inc argc args u = do {
     (pd, u1) \<leftarrow> my_getpid u;
     u2 \<leftarrow> inc_log pd argc args u1;
     inc_start argc args u2
   }"

text \<open>Without the semaphore each turn starts with up to three extra yields.\<close>

definition extra_yields :: "32 word \<Rightarrow> 'a user_st_scheme \<Rightarrow> 32 word \<times> 'a user_st_scheme" where
  "extra_yields rng u = (let rng' = rng_step rng in (rng', (my_yield ^^ unat (rng' AND 3)) u))"

text \<open>After the loop.\<close>

definition inc_finish :: "bool \<Rightarrow> 'a test_st_scheme \<Rightarrow> 'a test_st_scheme option" where
  "inc_finish use_sem u =
    (if use_sem then do { (r, u1) \<leftarrow> my_sem_close ''sem'' u; Some u1 } else Some u)"

section \<open>The test\<close>

definition TOTAL_PAIR_PROCESSES :: nat where [const_defs]: "TOTAL_PAIR_PROCESSES = 2"

fun create_pairs :: "nat \<Rightarrow> nat \<times> string list \<Rightarrow> nat \<times> string list \<Rightarrow> 'a user_st_scheme \<Rightarrow> ((int \<times> int) list \<times> 'a user_st_scheme) option" where
  "create_pairs 0 d i u = Some ([], u)"
| "create_pairs (Suc n) d i u = do {
     (p, u1) \<leftarrow> my_create_process ''my_process_inc'' 3 (fst d) (snd d) u;
     (q, u2) \<leftarrow> my_create_process ''my_process_inc'' 3 (fst i) (snd i) u1;
     (ps, u3) \<leftarrow> create_pairs n d i u2;
     Some ((p, q) # ps, u3)
   }"

fun wait_pairs :: "(int \<times> int) list \<Rightarrow> 'a user_st_scheme \<Rightarrow> 'a user_st_scheme option" where
  "wait_pairs [] u = Some u"
| "wait_pairs ((p, q) # ps) u = do { (r, u1) \<leftarrow> my_wait p u; (r', u2) \<leftarrow> my_wait q u1; wait_pairs ps u2 }"

text \<open>
  \<open>dec_av\<close> and \<open>inc_av\<close> are the addresses of the two arrays on the stack; \<open>final\<close> is the shared number when the
  last child is gone. The result is the return value.
\<close>

definition test_sync :: "nat \<Rightarrow> nat \<Rightarrow> int \<Rightarrow> nat \<Rightarrow> string list \<Rightarrow> 'a user_st_scheme \<Rightarrow> (int \<times> 'a user_st_scheme) option" where
  "test_sync dec_av inc_av final argc args u =
    (if argc \<noteq> 2 then Some (-1, u)
     else if length args < 2 then None
     else do {
       (pids, u1) \<leftarrow> create_pairs TOTAL_PAIR_PROCESSES (dec_av, [args ! 0, ''-1'', args ! 1])
                       (inc_av, [args ! 0, ''1'', args ! 1]) u;
       u2 \<leftarrow> wait_pairs pids u1;
       u3 \<leftarrow> uprintf (''Final value: %ld'' @ [NL]) [VLong final] u2;
       Some (0, u3)
     })"

text \<open>Both wrappers take the arguments they miss from constants.\<close>

definition arg_or :: "nat \<Rightarrow> string \<Rightarrow> nat \<Rightarrow> string list \<Rightarrow> string option" where
  "arg_or i dflt argc args =
    (if argc \<ge> i + 1 then if i < length args then Some (args ! i) else None else Some dflt)"

definition test_no_synchro :: "nat \<Rightarrow> nat \<Rightarrow> int \<Rightarrow> nat \<Rightarrow> string list \<Rightarrow> 'a user_st_scheme \<Rightarrow> (int \<times> 'a user_st_scheme) option" where
  "test_no_synchro dec_av inc_av final argc args u = do {
     a0 \<leftarrow> arg_or 0 ''10'' argc args;
     test_sync dec_av inc_av final 2 [a0, ''0''] u
   }"

definition test_synchro :: "nat \<Rightarrow> nat \<Rightarrow> int \<Rightarrow> nat \<Rightarrow> string list \<Rightarrow> 'a user_st_scheme \<Rightarrow> (int \<times> 'a user_st_scheme) option" where
  "test_synchro dec_av inc_av final argc args u = do {
     a0 \<leftarrow> arg_or 0 ''10'' argc args;
     a1 \<leftarrow> arg_or 1 ''1'' argc args;
     test_sync dec_av inc_av final 2 [a0, a1] u
   }"

section \<open>The loops under every interleaving\<close>

text \<open>
  Where a process is in its turn: before it, past the wait, with the value it has read, past the store.
  \<open>left\<close> counts the turns it still has to do. The semaphore is its count.
\<close>

datatype inc_pc = Before | Inside | Loaded "64 word" | Stored

record sync_run =
  sem_count :: nat
  shared :: "64 word"
  ipc :: "nat \<Rightarrow> inc_pc"
  left :: "nat \<Rightarrow> nat"

text \<open>\<open>np\<close> processes, of which process \<open>i\<close> adds \<open>inc i\<close>.\<close>

inductive inc_step :: "bool \<Rightarrow> nat \<Rightarrow> (nat \<Rightarrow> int) \<Rightarrow> sync_run \<Rightarrow> sync_run \<Rightarrow> bool" for use_sem np inc where
  s_wait: "i < np \<Longrightarrow> ipc s i = Before \<Longrightarrow> 0 < left s i \<Longrightarrow> use_sem \<Longrightarrow> 0 < sem_count s \<Longrightarrow>
     inc_step use_sem np inc s (s\<lparr>sem_count := sem_count s - 1, ipc := (ipc s)(i := Inside)\<rparr>)"
| s_enter: "i < np \<Longrightarrow> ipc s i = Before \<Longrightarrow> 0 < left s i \<Longrightarrow> \<not> use_sem \<Longrightarrow>
     inc_step use_sem np inc s (s\<lparr>ipc := (ipc s)(i := Inside)\<rparr>)"
| s_load: "i < np \<Longrightarrow> ipc s i = Inside \<Longrightarrow>
     inc_step use_sem np inc s (s\<lparr>ipc := (ipc s)(i := Loaded (shared s))\<rparr>)"
| s_store: "i < np \<Longrightarrow> ipc s i = Loaded aux \<Longrightarrow>
     inc_step use_sem np inc s (s\<lparr>shared := aux + word_of_int (inc i), ipc := (ipc s)(i := Stored)\<rparr>)"
| s_post: "i < np \<Longrightarrow> ipc s i = Stored \<Longrightarrow>
     inc_step use_sem np inc s (s\<lparr>sem_count := (if use_sem then sem_count s + 1 else sem_count s),
       ipc := (ipc s)(i := Before), left := (left s)(i := left s i - 1)\<rparr>)"

text \<open>\<^verbatim>\<open>test_sync\<close> clears the number; the semaphore is opened with one unit.\<close>

definition sync_begin :: "nat \<Rightarrow> sync_run" where
  "sync_begin n = \<lparr>sem_count = 1, shared = 0, ipc = (\<lambda>_. Before), left = (\<lambda>_. n)\<rparr>"

inductive sync_reach :: "bool \<Rightarrow> nat \<Rightarrow> (nat \<Rightarrow> int) \<Rightarrow> nat \<Rightarrow> sync_run \<Rightarrow> bool" for use_sem np inc n where
  at_begin: "sync_reach use_sem np inc n (sync_begin n)"
| one_more: "sync_reach use_sem np inc n s \<Longrightarrow> inc_step use_sem np inc s s' \<Longrightarrow> sync_reach use_sem np inc n s'"

definition finished :: "nat \<Rightarrow> sync_run \<Rightarrow> bool" where
  "finished np s \<longleftrightarrow> (\<forall>i < np. ipc s i = Before \<and> left s i = 0)"

text \<open>The two pairs of the test: processes 0 and 1 subtract, 2 and 3 add.\<close>

definition pair_inc :: "nat \<Rightarrow> int" where
  "pair_inc i = (if i < TOTAL_PAIR_PROCESSES then -1 else 1)"

end
