(* ===== verification/Test_Programs.thy ===== *)
theory Test_Programs
  imports Test_Util
begin

text \<open>
  \<^verbatim>\<open>tests/test_mm.c\<close>, \<^verbatim>\<open>tests/test_prio.c\<close> and \<^verbatim>\<open>tests/test_processes.c\<close>. The tests that never end are one
  cycle of their loop. What a call stores in the caller's memory is an argument.
\<close>

section \<open>\<^verbatim>\<open>test_mm\<close>\<close>

definition MAX_BLOCKS :: nat where [const_defs]: "MAX_BLOCKS = 128"

text \<open>The arguments: the largest amount to ask for, or the end with -1. A negative number is a huge one.\<close>

definition test_mm_start :: "nat \<Rightarrow> string option list \<Rightarrow> 'a user_st_scheme \<Rightarrow> (nat option \<times> 'a user_st_scheme) option" where
  "test_mm_start argc args u =
    (if args = [] then None
     else do {
       u1 \<leftarrow> uprintf (''Iniciando test_mm con %s bytes'' @ [NL]) [VStr (hd args)] u;
       if argc \<noteq> 1 then Some (None, u1)
       else do {
         v \<leftarrow> satoi (hd args);
         Some (if v = 0 then None else Some (nat (v mod 18446744073709551616)), u1)
       }
     })"

definition mm_report :: "mm_stats \<Rightarrow> 'a user_st_scheme \<Rightarrow> 'a user_st_scheme option" where
  "mm_report stats u = do {
     (r, u1) \<leftarrow> ask SysMmGetStats u;
     if r \<ge> 0 then do {
       u2 \<leftarrow> uprintf (''heap: %d bytes'' @ [NL]) [VInt (sint32 (int (heap_total stats)))] u1;
       u3 \<leftarrow> uprintf (''used: %d bytes'' @ [NL]) [VInt (sint32 (int (used_bytes stats)))] u2;
       uprintf (''free: %d bytes'' @ [NL]) [VInt (sint32 (int (free_bytes stats)))] u3
     } else Some u1
   }"

text \<open>
  The requests: \<open>n\<close> entries of the array are free, \<open>rqs\<close> are the blocks so far with their sizes.
\<close>

fun mm_requests :: "fscale \<Rightarrow> mm_stats \<Rightarrow> nat \<Rightarrow> nat \<Rightarrow> (nat \<times> nat) list \<Rightarrow> nat \<Rightarrow> 'a test_st_scheme \<Rightarrow>
    (((nat \<times> nat) list \<times> nat) \<times> 'a test_st_scheme) option" where
  "mm_requests scale stats max_memory 0 rqs tot u = Some ((rqs, tot), u)"
| "mm_requests scale stats max_memory (Suc n) rqs tot u =
    (if tot < max_memory then
       let max_block_size = (if max_memory - tot > 1024 then 1024 else max_memory - tot) in
       if max_block_size < 8 then Some ((rqs, tot), u)
       else do {
         let (r, u1) = GetUniform scale (max_block_size - 8) u;
         let sz = (r + 8) mod 4294967296;
         u2 \<leftarrow> uprintf (''Intentando asignar bloque %d de %d bytes'' @ [NL])
                 [VInt (int (length rqs)), VInt (sint32 (int sz))] u1;
         (a, u3) \<leftarrow> umalloc sz u2;
         if a \<noteq> 0 then do {
           u4 \<leftarrow> uprintf (''Bloque %d asignado exitosamente'' @ [NL]) [VInt (int (length rqs))] u3;
           u5 \<leftarrow> mm_report stats u4;
           mm_requests scale stats max_memory n (rqs @ [(a, sz)]) ((tot + sz) mod 4294967296) u5
         } else do {
           u4 \<leftarrow> uprintf (''Error: no se pudo asignar bloque %d'' @ [NL]) [VInt (int (length rqs))] u3;
           Some ((rqs, tot), u4)
         }
       }
     else Some ((rqs, tot), u))"

text \<open>Block \<open>i\<close> is filled with the byte \<open>i\<close>.\<close>

fun mm_fill :: "nat \<Rightarrow> (nat \<times> nat) list \<Rightarrow> ram \<Rightarrow> ram" where
  "mm_fill i [] m = m"
| "mm_fill i ((a, sz) # rqs) m = mm_fill (i + 1) rqs (if a \<noteq> 0 then u_memset a (int i) sz m else m)"

fun mm_check :: "nat \<Rightarrow> (nat \<times> nat) list \<Rightarrow> ram \<Rightarrow> bool" where
  "mm_check i [] m = True"
| "mm_check i ((a, sz) # rqs) m =
    (if a \<noteq> 0 \<and> \<not> memcheck a (of_nat i) sz m then False else mm_check (i + 1) rqs m)"

fun mm_release :: "(nat \<times> nat) list \<Rightarrow> 'a user_st_scheme \<Rightarrow> 'a user_st_scheme" where
  "mm_release [] u = u"
| "mm_release ((a, sz) # rqs) u = mm_release rqs (if a \<noteq> 0 then say (SysFree a) u else u)"

text \<open>One cycle; the result tells whether the test goes on or ends with an error.\<close>

definition mm_cycle :: "fscale \<Rightarrow> mm_stats \<Rightarrow> nat \<Rightarrow> 'a test_st_scheme \<Rightarrow> (bool \<times> 'a test_st_scheme) option" where
  "mm_cycle scale stats max_memory u = do {
     u1 \<leftarrow> uprintf (''Ciclo de test_mm iniciado'' @ [NL]) [] u;
     ((rqs, tot), u2) \<leftarrow> mm_requests scale stats max_memory MAX_BLOCKS [] 0 u1;
     u3 \<leftarrow> uprintf (''Total asignados: %d bloques, %d bytes'' @ [NL]) [VInt (int (length rqs)), VInt (sint32 (int tot))] u2;
     let u4 = u3\<lparr>umem := mm_fill 0 rqs (umem u3)\<rparr>;
     if \<not> mm_check 0 rqs (umem u4) then do {
       u5 \<leftarrow> uprintf (''test_mm ERROR'' @ [NL]) [] u4;
       Some (False, u5)
     } else do {
       u5 \<leftarrow> uprintf (''Ciclo completado'' @ [NL]) [] (mm_release rqs u4);
       Some (True, u5)
     }
   }"

section \<open>\<^verbatim>\<open>test_prio\<close>\<close>

definition SPIN_WAIT :: nat where [const_defs]: "SPIN_WAIT = 30000000"
definition TOTAL_PROCESSES :: nat where [const_defs]: "TOTAL_PROCESSES = 3"
definition DEFAULT_LIMIT :: nat where [const_defs]: "DEFAULT_LIMIT = 1500"
definition YIELD_INTERVAL :: nat where [const_defs]: "YIELD_INTERVAL = 128"

definition test_prios :: "int list" where
  "test_prios = [0, 1, 2]"

text \<open>The digits, last one first, in a buffer of \<open>n\<close> characters; then as many as fit, first one first.\<close>

fun temp_digits :: "nat \<Rightarrow> nat \<Rightarrow> string" where
  "temp_digits 0 v = []"
| "temp_digits (Suc n) v = (if v > 0 then char_of (48 + v mod 10) # temp_digits n (v div 10) else [])"

definition number_digits :: "nat \<Rightarrow> nat \<Rightarrow> string" where
  "number_digits n v = (if v = 0 then ''0'' else temp_digits n v)"

definition uint64_to_string :: "nat \<Rightarrow> nat \<Rightarrow> string option" where
  "uint64_to_string v cap =
    (if cap = 0 then None else Some (take (cap - 1) (rev (number_digits 32 v))))"

text \<open>The least int cannot be negated.\<close>

definition int_to_string :: "int \<Rightarrow> nat \<Rightarrow> string option" where
  "int_to_string v cap =
    (if cap = 0 \<or> v = - 2147483648 then None
     else let neg = (if v < 0 \<and> 1 < cap then ''-'' else [])
          in Some (neg @ take (cap - 1 - length neg) (rev (number_digits 12 (nat \<bar>v\<bar>)))))"

definition print_progress :: "string \<Rightarrow> nat \<Rightarrow> nat \<Rightarrow> 'a user_st_scheme \<Rightarrow> 'a user_st_scheme option" where
  "print_progress proc_id counter limit u = do {
     c \<leftarrow> uint64_to_string counter 32;
     l \<leftarrow> uint64_to_string limit 32;
     uprintf (''[%s] %s/%s'' @ [NL]) [VStr (Some proc_id), VStr (Some c), VStr (Some l)] u
   }"

text \<open>The worker's loop with \<open>n\<close> turns to go; the spinning of each turn has no effect.\<close>

fun pid_loop :: "string \<Rightarrow> nat \<Rightarrow> nat \<Rightarrow> nat \<Rightarrow> nat \<Rightarrow> 'a user_st_scheme \<Rightarrow> 'a user_st_scheme option" where
  "pid_loop proc_id limit step counter 0 u = Some u"
| "pid_loop proc_id limit step counter (Suc n) u = do {
     u1 \<leftarrow> (if (counter + 1) mod step = 0 \<or> counter + 1 = limit then print_progress proc_id (counter + 1) limit u else Some u);
     pid_loop proc_id limit step (counter + 1) n
       (if (counter + 1) mod YIELD_INTERVAL = 0 then my_yield u1 else u1)
   }"

definition endless_pid :: "nat \<Rightarrow> string list \<Rightarrow> 'a user_st_scheme \<Rightarrow> 'a user_st_scheme option" where
  "endless_pid argc args u =
    (if argc < 2 then do {
       u1 \<leftarrow> uprintf (''[test_prio] Invalid arguments for worker process'' @ [NL]) [] u;
       Some (say (SysExit 1) u1)
     } else if length args < 2 then None
     else do {
       parsed \<leftarrow> satoi (Some (args ! 1));
       let limit = (if parsed > 0 then nat parsed else DEFAULT_LIMIT);
       let step = (if limit div 10 = 0 then 1 else limit div 10);
       u1 \<leftarrow> pid_loop (args ! 0) limit step 0 limit u;
       u2 \<leftarrow> uprintf (''[test_prio] Process %s reached target %s'' @ [NL]) [VStr (Some (args ! 0)), VStr (Some (args ! 1))] u1;
       Some (say (SysExit 0) u2)
     })"

text \<open>\<open>avs\<close> are the addresses of the three static arrays of arguments.\<close>

fun prio_create :: "nat list \<Rightarrow> string \<Rightarrow> nat \<Rightarrow> 'a user_st_scheme \<Rightarrow> (int list \<times> 'a user_st_scheme) option" where
  "prio_create [] limit_str i u = Some ([], u)"
| "prio_create (av # avs) limit_str i u = do {
     idt \<leftarrow> int_to_string (int i) 12;
     (pd, u1) \<leftarrow> ask (SysCreateProcess ''endless_pid'' 2 av [idt, limit_str] ''test_prio_worker'' 1 0) u;
     u2 \<leftarrow> uprintf (''[test_prio] Created process %d, returned PID=%d'' @ [NL]) [VInt (int i), VInt (sint32 pd)] u1;
     (pds, u3) \<leftarrow> prio_create avs limit_str (i + 1) u2;
     Some (pd # pds, u3)
   }"

fun prio_show :: "int list \<Rightarrow> nat \<Rightarrow> 'a user_st_scheme \<Rightarrow> 'a user_st_scheme option" where
  "prio_show [] i u = Some u"
| "prio_show (p # ps) i u = do {
     u1 \<leftarrow> uprintf (''PROCESS: %d  PRIORITY: %d'' @ [NL]) [VInt (int i), VInt p] u;
     prio_show ps (i + 1) u1
   }"

fun prio_set :: "(int \<times> int) list \<Rightarrow> 'a user_st_scheme \<Rightarrow> 'a user_st_scheme option" where
  "prio_set [] u = Some u"
| "prio_set ((pd, p) # ps) u = do { (r, u1) \<leftarrow> my_nice pd p u; prio_set ps u1 }"

fun prio_wait :: "int list \<Rightarrow> nat \<Rightarrow> 'a user_st_scheme \<Rightarrow> 'a user_st_scheme option" where
  "prio_wait [] i u = Some u"
| "prio_wait (pd # pds) i u = do {
     (r, st, u1) \<leftarrow> my_wait_pid pd 0 u;
     u2 \<leftarrow> (if r < 0 then uprintf (''[test_prio] Failed to wait process %d (PID=%d)'' @ [NL]) [VInt (int i), VInt (sint32 pd)] u1
            else Some u1);
     prio_wait pds (i + 1) u2
   }"

definition test_prio :: "nat list \<Rightarrow> nat \<Rightarrow> string option list \<Rightarrow> 'a user_st_scheme \<Rightarrow> 'a user_st_scheme option" where
  "test_prio avs argc args u = do {
     parsed \<leftarrow> (if argc \<ge> 1 then if args = [] then None else satoi (hd args) else Some 0);
     let limit = (if parsed > 0 then nat parsed else DEFAULT_LIMIT);
     limit_str \<leftarrow> uint64_to_string limit 32;
     u1 \<leftarrow> uprintf (NL # ''=== TEST PRIO START ==='' @ [NL]) [] u;
     u2 \<leftarrow> uprintf (''[test_prio] Target count per process: %s'' @ [NL]) [VStr (Some limit_str)] u1;
     (pids, u3) \<leftarrow> prio_create (take TOTAL_PROCESSES avs) limit_str 0 u2;
     u4 \<leftarrow> uprintf (''[test_prio] Starting PHASE 1 observation...'' @ [NL]) [] u3;
     u5 \<leftarrow> uprintf (''[test_prio] Phase 1 complete. Todos avanzaron con la misma prioridad.'' @ [NL]) [] u4;
     u6 \<leftarrow> uprintf (NL # ''CHANGING PRIORITIES...'' @ [NL]) [] u5;
     u7 \<leftarrow> uprintf (''NEW PROCESS PRIORITY:'' @ [NL]) [] u6;
     u8 \<leftarrow> prio_show test_prios 0 u7;
     u9 \<leftarrow> prio_set (zip pids test_prios) u8;
     u10 \<leftarrow> uprintf (''[test_prio] Phase 2: prioridades diferenciadas en ejecucion.'' @ [NL]) [] u9;
     u11 \<leftarrow> uprintf (NL # ''WAITING FOR PROCESSES TO FINISH...'' @ [NL]) [] u10;
     u12 \<leftarrow> prio_wait pids 0 u11;
     uprintf (''[test_prio] All processes reached their targets.'' @ [NL]) [] u12
   }"

section \<open>\<^verbatim>\<open>test_processes\<close>\<close>

datatype p_state = PRun | PBlock | PKilled

text \<open>The texts of the states and the table are those of \<^verbatim>\<open>ps\<close>, printed in another layout.\<close>

definition proc_row :: "uproc_info \<Rightarrow> 'a user_st_scheme \<Rightarrow> 'a user_st_scheme option" where
  "proc_row p u = do {
     u1 \<leftarrow> uprintf ''PID %d PRIO %d STATE %s TICKS %d %s ''
             [VInt (up_pid p), VInt (up_priority p), VStr (Some (state_to_string (up_state p))), VInt (up_ticks_left p),
              VStr (Some (if up_fg p \<noteq> 0 then ''FG'' else ''BG''))] u;
     u2 \<leftarrow> uprintf ''0x'' [] u1;
     u3 \<leftarrow> printHex (up_sp p) u2;
     u4 \<leftarrow> uprintf '' '' [] u3;
     u5 \<leftarrow> uprintf ''0x'' [] u4;
     u6 \<leftarrow> printHex (up_bp p) u5;
     uprintf ('' %s'' @ [NL]) [VStr (Some (up_name p))] u6
   }"

fun proc_rows :: "uproc_info list \<Rightarrow> 'a user_st_scheme \<Rightarrow> 'a user_st_scheme option" where
  "proc_rows [] u = Some u"
| "proc_rows (p # ps) u = do { u1 \<leftarrow> proc_row p u; proc_rows ps u1 }"

definition print_processes_info :: "uproc_info list \<Rightarrow> 'a user_st_scheme \<Rightarrow> 'a user_st_scheme option" where
  "print_processes_info info u = do {
     (count, u1) \<leftarrow> ask (SysProcSnapshot 128) u;
     if count \<le> 0 then uprintf (NL # ''No processes to show'' @ [NL]) [] u1
     else do {
       u2 \<leftarrow> uprintf [NL] [] (printsColor
         (NL # ''PID   PRIO STATE  TICKS FG        SP                BP                NAME'') 254 GREEN u1);
       proc_rows (take (nat count) info) u2
     }
   }"

text \<open>The argument is read as for \<open>test_mm\<close>.\<close>

definition test_processes_start :: "nat \<Rightarrow> string option list \<Rightarrow> nat option option" where
  "test_processes_start argc args =
    (if argc \<noteq> 1 then Some None
     else if args = [] then None
     else do { v \<leftarrow> satoi (hd args); Some (if v = 0 then None else Some (nat (v mod 18446744073709551616))) })"

text \<open>
  Creating the processes, with \<open>av\<close> the address of the empty array of arguments; both counters are 8 bits wide, so a number above 255 is never reached. The result
  has the processes with their states and how many are alive, or nothing after an error.
\<close>

partial_function (option) create_all :: "nat \<Rightarrow> nat \<Rightarrow> nat \<Rightarrow> (int \<times> p_state) list \<Rightarrow> nat \<Rightarrow> 'a user_st_scheme \<Rightarrow>
    (((int \<times> p_state) list \<times> nat) option \<times> 'a user_st_scheme) option" where
  "create_all av max_processes rq ps alive u =
    (if rq < max_processes then do {
       (r, u1) \<leftarrow> my_create_process ''endless_loop_wrapper'' 0 av [] u;
       let pd = sint32 r;
       if pd = -1 then do {
         u2 \<leftarrow> uprintf (''test_processes: ERROR creating process'' @ [NL]) [] u1;
         Some (None, u2)
       } else create_all av max_processes ((rq + 1) mod 256) (ps[rq := (pd, PRun)]) ((alive + 1) mod 256) u1
     } else Some (Some (ps, alive), u))"

text \<open>One random action on process \<open>rq\<close>; \<open>None\<close> is the end after an error.\<close>

definition random_action :: "fscale \<Rightarrow> nat \<Rightarrow> (int \<times> p_state) list \<Rightarrow> nat \<Rightarrow> 'a test_st_scheme \<Rightarrow>
    (((int \<times> p_state) list \<times> nat) option \<times> 'a test_st_scheme) option" where
  "random_action scale rq ps alive u0 =
    (let (r, u) = GetUniform scale 100 u0; (pd, st) = ps ! rq in
     if r mod 2 = 0 then
       (if st = PRun \<or> st = PBlock then do {
          (k, u1) \<leftarrow> my_kill pd u;
          if k = -1 then do {
            u2 \<leftarrow> uprintf (''test_processes: ERROR killing process'' @ [NL]) [] u1;
            Some (None, u2)
          } else Some (Some (ps[rq := (pd, PKilled)], (alive + 255) mod 256), u1)
        } else Some (Some (ps, alive), u))
     else
       (if st = PRun then do {
          (k, u1) \<leftarrow> my_block pd u;
          if k = -1 then do {
            u2 \<leftarrow> uprintf (''test_processes: ERROR blocking process'' @ [NL]) [] u1;
            Some (None, u2)
          } else Some (Some (ps[rq := (pd, PBlock)], alive), u1)
        } else Some (Some (ps, alive), u)))"

fun action_loop :: "fscale \<Rightarrow> nat list \<Rightarrow> (int \<times> p_state) list \<Rightarrow> nat \<Rightarrow> 'a test_st_scheme \<Rightarrow>
    (((int \<times> p_state) list \<times> nat) option \<times> 'a test_st_scheme) option" where
  "action_loop scale [] ps alive u = Some (Some (ps, alive), u)"
| "action_loop scale (rq # rqs) ps alive u = do {
     (res, u1) \<leftarrow> random_action scale rq ps alive u;
     case res of None \<Rightarrow> Some (None, u1)
     | Some (ps1, alive1) \<Rightarrow> action_loop scale rqs ps1 alive1 u1
   }"

fun unblock_loop :: "fscale \<Rightarrow> nat list \<Rightarrow> (int \<times> p_state) list \<Rightarrow> 'a test_st_scheme \<Rightarrow>
    ((int \<times> p_state) list option \<times> 'a test_st_scheme) option" where
  "unblock_loop scale [] ps u = Some (Some ps, u)"
| "unblock_loop scale (rq # rqs) ps u =
    (let (pd, st) = ps ! rq in
     if st = PBlock then
       let (r, u1) = GetUniform scale 100 u in
       if r mod 2 \<noteq> 0 then do {
         (k, u2) \<leftarrow> my_unblock pd u1;
         if k = -1 then do {
           u3 \<leftarrow> uprintf (''test_processes: ERROR unblocking process'' @ [NL]) [] u2;
           Some (None, u3)
         } else unblock_loop scale rqs (ps[rq := (pd, PRun)]) u2
       } else unblock_loop scale rqs ps u1
     else unblock_loop scale rqs ps u)"

text \<open>One turn of the loop that runs while a process is alive.\<close>

definition processes_round :: "fscale \<Rightarrow> uproc_info list \<Rightarrow> nat \<Rightarrow> (int \<times> p_state) list \<Rightarrow> nat \<Rightarrow> 'a test_st_scheme \<Rightarrow>
    (((int \<times> p_state) list \<times> nat) option \<times> 'a test_st_scheme) option" where
  "processes_round scale info max_processes ps alive u = do {
     (res, u1) \<leftarrow> action_loop scale [0 ..< max_processes] ps alive u;
     case res of None \<Rightarrow> Some (None, u1)
     | Some (ps1, alive1) \<Rightarrow> do {
         (res2, u2) \<leftarrow> unblock_loop scale [0 ..< max_processes] ps1 u1;
         case res2 of None \<Rightarrow> Some (None, u2)
         | Some ps2 \<Rightarrow> do {
             u3 \<leftarrow> uprintf (NL # ''Estado despues de modificaciones (vivos: %d):'' @ [NL]) [VInt (int alive1)] u2;
             u4 \<leftarrow> print_processes_info info u3;
             Some (Some (ps2, alive1), u4)
           }
       }
   }"

end
