(* ===== verification/Test_Theorems.thy ===== *)
theory Test_Theorems
  imports Test_Sync Test_Programs Memory_Theorems
begin

text \<open>
  What the tests establish: additions guarded by the semaphore are not lost under any interleaving, those
  without it can be, and \<^verbatim>\<open>test_mm\<close> fails exactly when two blocks overlap.
\<close>

section \<open>Additions under the semaphore\<close>

definition turns :: "nat \<Rightarrow> sync_run \<Rightarrow> nat \<Rightarrow> nat" where
  "turns n s i = n - left s i + (if ipc s i = Stored then 1 else 0)"

definition added :: "nat \<Rightarrow> (nat \<Rightarrow> int) \<Rightarrow> (nat \<Rightarrow> nat) \<Rightarrow> int" where
  "added np inc d = (\<Sum>i<np. int (d i) * inc i)"

lemma added_one: "i < np \<Longrightarrow> added np inc (d(i := Suc (d i))) = added np inc d + inc i"
proof -
  assume i: "i < np"
  have "added np inc e = int (e i) * inc i + (\<Sum>j\<in>{..<np} - {i}. int (e j) * inc j)" for e
    unfolding added_def using i by (subst sum.remove [of _ i]) auto
  moreover have "(\<Sum>j\<in>{..<np} - {i}. int ((d(i := Suc (d i))) j) * inc j) = (\<Sum>j\<in>{..<np} - {i}. int (d j) * inc j)"
    by (intro sum.cong) auto
  ultimately show ?thesis by (simp add: algebra_simps)
qed

text \<open>\<open>h\<close> is the process between its wait and its post, if there is one.\<close>

definition sync_at :: "nat \<Rightarrow> (nat \<Rightarrow> int) \<Rightarrow> nat \<Rightarrow> nat option \<Rightarrow> sync_run \<Rightarrow> bool" where
  "sync_at np inc n h s \<longleftrightarrow>
     sem_count s = (if h = None then 1 else 0) \<and> (\<forall>i. ipc s i \<noteq> Before \<longleftrightarrow> h = Some i)
     \<and> (\<forall>i. h = Some i \<longrightarrow> i < np \<and> 0 < left s i) \<and> (\<forall>i aux. ipc s i = Loaded aux \<longrightarrow> aux = shared s)
     \<and> (\<forall>i. left s i \<le> n) \<and> shared s = word_of_int (added np inc (turns n s))"

lemma sync_at_begin: "sync_at np inc n None (sync_begin n)"
  by (simp add: sync_at_def sync_begin_def added_def turns_def)

lemma sync_step_at:
  assumes step: "inc_step True np inc s s'" and at: "sync_at np inc n h s"
  shows "\<exists>h'. sync_at np inc n h' s'"
  using step
proof cases
  case (s_wait i)
  then have h: "h = None" using at by (auto simp: sync_at_def split: if_splits)
  have "turns n s' = turns n s" using s_wait by (auto simp: turns_def fun_eq_iff)
  with s_wait at h show ?thesis by (intro exI [of _ "Some i"]) (auto simp: sync_at_def)
next
  case s_enter
  then show ?thesis by simp
next
  case (s_load i)
  then have h: "h = Some i" using at by (auto simp: sync_at_def)
  have "turns n s' = turns n s" using s_load by (auto simp: turns_def fun_eq_iff)
  with s_load at h show ?thesis by (intro exI [of _ "Some i"]) (auto simp: sync_at_def)
next
  case (s_store i aux)
  then have h: "h = Some i" and aux: "aux = shared s" using at by (auto simp: sync_at_def)
  have "turns n s' = (turns n s)(i := Suc (turns n s i))" using s_store by (auto simp: turns_def fun_eq_iff)
  then have "shared s' = word_of_int (added np inc (turns n s'))"
    using s_store aux at by (simp add: added_one sync_at_def del: fun_upd_apply)
  with s_store at h show ?thesis by (intro exI [of _ "Some i"]) (auto simp: sync_at_def)
next
  case (s_post i)
  then have h: "h = Some i" and l: "0 < left s i" "left s i \<le> n" using at by (auto simp: sync_at_def)
  have "turns n s' = turns n s" using s_post l by (auto simp: turns_def fun_eq_iff)
  with s_post at h show ?thesis
    by (intro exI [of _ None]) (auto simp: sync_at_def intro: le_trans [OF diff_le_self])
qed

lemma sync_reach_at: "sync_reach True np inc n s \<Longrightarrow> \<exists>h. sync_at np inc n h s"
  by (induction rule: sync_reach.induct) (blast intro: sync_at_begin sync_step_at)+


text \<open>The next step of a chosen process, and a run by a schedule of processes.\<close>

definition next_step :: "bool \<Rightarrow> (nat \<Rightarrow> int) \<Rightarrow> nat \<Rightarrow> sync_run \<Rightarrow> sync_run option" where
  "next_step use_sem inc i s =
    (case ipc s i of
       Before \<Rightarrow> if left s i = 0 then None
         else if use_sem then
           if sem_count s = 0 then None else Some (s\<lparr>sem_count := sem_count s - 1, ipc := (ipc s)(i := Inside)\<rparr>)
         else Some (s\<lparr>ipc := (ipc s)(i := Inside)\<rparr>)
     | Inside \<Rightarrow> Some (s\<lparr>ipc := (ipc s)(i := Loaded (shared s))\<rparr>)
     | Loaded aux \<Rightarrow> Some (s\<lparr>shared := aux + word_of_int (inc i), ipc := (ipc s)(i := Stored)\<rparr>)
     | Stored \<Rightarrow> Some (s\<lparr>sem_count := (if use_sem then sem_count s + 1 else sem_count s),
         ipc := (ipc s)(i := Before), left := (left s)(i := left s i - 1)\<rparr>))"

lemma next_step_sound: "i < np \<Longrightarrow> next_step use_sem inc i s = Some s' \<Longrightarrow> inc_step use_sem np inc s s'"
  by (cases use_sem) (auto simp: next_step_def simp del: One_nat_def split: inc_pc.splits if_splits
      intro: inc_step.intros s_post [where use_sem = True, simplified] s_post [where use_sem = False, simplified])

fun run_schedule :: "bool \<Rightarrow> (nat \<Rightarrow> int) \<Rightarrow> nat list \<Rightarrow> sync_run \<Rightarrow> sync_run option" where
  "run_schedule use_sem inc [] s = Some s"
| "run_schedule use_sem inc (i # is) s = do { s1 \<leftarrow> next_step use_sem inc i s; run_schedule use_sem inc is s1 }"

lemma run_schedule_reach:
  "run_schedule use_sem inc is s = Some s' \<Longrightarrow> \<forall>i \<in> set is. i < np \<Longrightarrow> sync_reach use_sem np inc n s \<Longrightarrow>
   sync_reach use_sem np inc n s'"
proof (induction "is" arbitrary: s)
  case (Cons i "is")
  from Cons.prems(1) obtain s1 where s1: "next_step use_sem inc i s = Some s1" "run_schedule use_sem inc is s1 = Some s'"
    by (auto simp: bind_eq_Some_conv)
  have "sync_reach use_sem np inc n s1" using Cons.prems one_more next_step_sound [OF _ s1(1)] by auto
  with Cons.IH s1(2) Cons.prems(2) show ?case by simp
qed simp

text \<open>The two pairs of the test end at 0.\<close>

lemma test_sync_ends_at_zero:
  "sync_reach True (2 * TOTAL_PAIR_PROCESSES) pair_inc n s \<Longrightarrow> finished (2 * TOTAL_PAIR_PROCESSES) s \<Longrightarrow> shared s = 0"
proof -
  assume r: "sync_reach True (2 * TOTAL_PAIR_PROCESSES) pair_inc n s" and f: "finished (2 * TOTAL_PAIR_PROCESSES) s"
  obtain h where at: "sync_at (2 * TOTAL_PAIR_PROCESSES) pair_inc n h s" using sync_reach_at [OF r] by blast
  have "added (2 * TOTAL_PAIR_PROCESSES) pair_inc (turns n s) = (\<Sum>i<2 * TOTAL_PAIR_PROCESSES. int n * pair_inc i)"
    unfolding added_def using f by (intro sum.cong) (auto simp: turns_def finished_def)
  also have "\<dots> = 0" by (simp add: TOTAL_PAIR_PROCESSES_def pair_inc_def numeral_eq_Suc)
  finally show ?thesis using at by (simp add: sync_at_def)
qed



text \<open>Without the semaphore additions are lost: one turn of a pair can end at 1.\<close>

lemma unguarded_addition_is_lost:
  "\<exists>s. sync_reach False 2 (\<lambda>i. if i = 0 then -1 else 1) 1 s \<and> finished 2 s \<and> shared s = 1"
proof -
  let ?inc = "\<lambda>i. if i = 0 then -1 else 1 :: int"
  let ?s = "the (run_schedule False ?inc [0, 1, 0, 1, 0, 1, 0, 1] (sync_begin 1))"
  have run: "run_schedule False ?inc [0, 1, 0, 1, 0, 1, 0, 1] (sync_begin 1) = Some ?s"
    and fin: "finished 2 ?s" "shared ?s = 1"
    by (auto simp: next_step_def sync_begin_def finished_def less_Suc_eq numeral_eq_Suc)
  have "sync_reach False 2 ?inc 1 ?s"
    by (rule run_schedule_reach [OF run]) (auto simp: at_begin)
  with fin show ?thesis by blast
qed

text \<open>
  The log line of the processes asks for \<^verbatim>\<open>%lu\<close>, which \<^verbatim>\<open>printf\<close> does not know: the next \<^verbatim>\<open>%s\<close> takes the number of
  arguments for an address.
\<close>

lemma dead_char:
  "c \<noteq> NUL \<Longrightarrow> c \<noteq> CHR ''%'' \<Longrightarrow> (\<And>b n (v :: 'a user_st_scheme). printf_loop fmt args b n v = None) \<Longrightarrow>
   printf_loop (c # fmt) args b n (v :: 'a user_st_scheme) = None"
  by (simp add: printf_loop.simps split: option.split)

lemma dead_conv:
  "(\<And>s k r b n (v :: 'a user_st_scheme). printf_conv fmt args = Some (s, k, r) \<Longrightarrow> printf_loop (drop k fmt) r b n v = None) \<Longrightarrow>
   printf_loop (CHR ''%'' # fmt) args b n (v :: 'a user_st_scheme) = None"
  by (auto simp: printf_loop.simps split: option.split)

lemma dead_log: "printf_loop (''] argc=%lu args: %s'' @ fmt) (VUInt argc # args) b n v = None"
  apply (simp only: append.simps)
  apply (rule dead_char, (simp; fail), (simp; fail))+
  apply (rule dead_conv)
  apply (simp add: printf_conv_def first_char_def)
  apply (rule dead_char, (simp; fail), (simp; fail))+
  apply (rule dead_conv)
  apply (simp add: printf_conv_def first_char_def take_arg_def conv_str_def)
  done

lemma dead_log_start: "printf_loop (''[pid=%ld] argc=%lu args: %s'' @ fmt) (VLong pd # VUInt argc # as) b n v = None"
  apply (simp only: append.simps)
  apply (rule dead_char, (simp; fail), (simp; fail))+
  apply (rule dead_conv)
  using dead_log [of fmt argc as]
  apply (auto simp: printf_conv_def first_char_def take_arg_def bind_eq_Some_conv)
  done

lemma inc_log_undefined: "inc_log pd argc args u = None"
  by (simp add: inc_log_def uprintf_def printf_def dead_log_start [of "'' | %s | %s'' @ [NL]", simplified])

section \<open>\<^verbatim>\<open>test_mm\<close>\<close>

definition in_block :: "nat \<Rightarrow> nat \<times> nat \<Rightarrow> bool" where
  "in_block x b \<longleftrightarrow> fst b \<le> x \<and> x < fst b + snd b"

definition blocks_apart :: "(nat \<times> nat) list \<Rightarrow> bool" where
  "blocks_apart rqs \<longleftrightarrow> (\<forall>i j x. i < j \<longrightarrow> j < length rqs \<longrightarrow> in_block x (rqs ! i) \<longrightarrow> \<not> in_block x (rqs ! j))"

lemma mm_fill_outside:
  "\<forall>b \<in> set rqs. \<not> in_block x b \<Longrightarrow> mm_fill i rqs m x = m x"
  by (induction rqs arbitrary: i m) (auto simp: u_memset_def memset_loop_apply in_block_def)

text \<open>An address has the number of the last block around it.\<close>

lemma mm_fill_last:
  "\<forall>b \<in> set rqs. fst b \<noteq> 0 \<Longrightarrow> j < length rqs \<Longrightarrow> in_block x (rqs ! j) \<Longrightarrow>
   \<forall>k. j < k \<longrightarrow> k < length rqs \<longrightarrow> \<not> in_block x (rqs ! k) \<Longrightarrow> mm_fill i rqs m x = of_nat (i + j)"
proof (induction rqs arbitrary: i m j)
  case (Cons b rqs)
  obtain a sz where b: "b = (a, sz)" by (cases b)
  show ?case
  proof (cases j)
    case 0
    have "\<not> in_block x c" if "c \<in> set rqs" for c
      using Cons.prems(4) that 0 by (auto simp: in_set_conv_nth)
    then show ?thesis using Cons.prems(1,3) 0 b
      by (simp add: mm_fill_outside u_memset_def memset_loop_apply in_block_def)
  next
    case (Suc j')
    have "\<forall>k. j' < k \<longrightarrow> k < length rqs \<longrightarrow> \<not> in_block x (rqs ! k)"
      using Cons.prems(4) Suc by (metis Suc_less_eq length_Cons nth_Cons_Suc)
    then have "mm_fill (i + 1) rqs (if a \<noteq> 0 then u_memset a (int i) sz m else m) x = of_nat (i + 1 + j')"
      using Cons.prems Suc by (intro Cons.IH) auto
    then show ?thesis using b Suc by simp
  qed
qed simp

lemma mm_check_iff:
  "\<forall>b \<in> set rqs. fst b \<noteq> 0 \<Longrightarrow>
   mm_check i rqs m \<longleftrightarrow> (\<forall>j < length rqs. \<forall>x. in_block x (rqs ! j) \<longrightarrow> m x = of_nat (i + j))"
proof (induction rqs arbitrary: i)
  case (Cons b rqs)
  obtain a sz where b: "b = (a, sz)" by (cases b)
  from Cons have IH: "mm_check (i + 1) rqs m \<longleftrightarrow> (\<forall>j < length rqs. \<forall>x. in_block x (rqs ! j) \<longrightarrow> m x = of_nat (i + Suc j))"
    by (simp add: ac_simps)
  have "mm_check i (b # rqs) m \<longleftrightarrow> (\<forall>x. in_block x b \<longrightarrow> m x = of_nat i) \<and> mm_check (i + 1) rqs m"
    using Cons.prems b by (auto simp: memcheck_iff in_block_def)
  then show ?case unfolding IH by (simp add: All_less_Suc2 del: of_nat_add of_nat_Suc)
qed simp

lemma mm_fill_check:
  assumes nz: "\<forall>b \<in> set rqs. fst b \<noteq> 0" and few: "length rqs \<le> 256"
  shows "mm_check 0 rqs (mm_fill 0 rqs m) \<longleftrightarrow> blocks_apart rqs"
proof
  assume "blocks_apart rqs"
  then have "mm_fill 0 rqs m x = of_nat (0 + j)" if "j < length rqs" "in_block x (rqs ! j)" for j x
    using that by (intro mm_fill_last nz) (auto simp: blocks_apart_def)
  then show "mm_check 0 rqs (mm_fill 0 rqs m)" by (simp add: mm_check_iff [OF nz])
next
  assume ok: "mm_check 0 rqs (mm_fill 0 rqs m)"
  show "blocks_apart rqs" unfolding blocks_apart_def
  proof (intro allI impI notI)
    fix i j x assume ij: "i < j" "j < length rqs" and x: "in_block x (rqs ! i)" "in_block x (rqs ! j)"
    define k where "k = Max {k. k < length rqs \<and> in_block x (rqs ! k)}"
    have fin: "finite {k. k < length rqs \<and> in_block x (rqs ! k)}" by simp
    have "k \<in> {k. k < length rqs \<and> in_block x (rqs ! k)}"
      unfolding k_def by (rule Max_in [OF fin]) (use ij x in auto)
    then have k: "k < length rqs" "in_block x (rqs ! k)" "j \<le> k"
      using Max_ge [OF fin, of j] ij x unfolding k_def by auto
    have "\<not> in_block x (rqs ! l)" if l: "k < l" "l < length rqs" for l
    proof
      assume "in_block x (rqs ! l)"
      with l have "l \<in> {k. k < length rqs \<and> in_block x (rqs ! k)}" by simp
      from Max_ge [OF fin this] l(1) show False unfolding k_def by simp
    qed
    then have "mm_fill 0 rqs m x = of_nat (0 + k)" using k by (intro mm_fill_last nz) auto
    moreover have "\<forall>j < length rqs. \<forall>x. in_block x (rqs ! j) \<longrightarrow> mm_fill 0 rqs m x = of_nat (0 + j)"
      using ok unfolding mm_check_iff [OF nz] .
    then have "mm_fill 0 rqs m x = of_nat (0 + i)" using ij x(1) less_trans [OF ij] by blast
    ultimately have "(of_nat i :: byte) = of_nat k" by simp
    then have "i = k" using ij k few by (simp add: word_of_nat_eq_iff take_bit_eq_mod)
    with ij k show False by simp
  qed
qed

text \<open>The blocks an allocator served, with the sizes asked for.\<close>

definition served :: "nat list \<Rightarrow> nat list \<Rightarrow> (nat \<times> nat) list" where
  "served ps ns = filter (\<lambda>b. fst b \<noteq> 0) (zip ps ns)"

lemma served_simps [simp]:
  "served (0 # ps) (n # ns) = served ps ns" "p \<noteq> 0 \<Longrightarrow> served (p # ps) (n # ns) = (p, n) # served ps ns"
  by (simp_all add: served_def)

lemma alloc_size_large: "n \<le> 1024 \<Longrightarrow> n \<le> alloc_size n"
  using align8_bounds [of n] by (auto simp: alloc_size_def Let_def)

lemma served_apart:
  "mmheap.alloc_all ns h = Some (ps, h') \<Longrightarrow> mm_inv h \<Longrightarrow> \<forall>n \<in> set ns. n \<le> 1024 \<Longrightarrow>
   mm_inv h' \<and> mm_live h \<subseteq> mm_live h'
   \<and> (\<forall>b \<in> set (served ps ns). fst b \<notin> fst ` mm_live h \<and> (\<exists>k. snd b \<le> k \<and> (fst b, k) \<in> mm_live h'))
   \<and> sorted_wrt (\<lambda>b c. \<forall>x. in_block x b \<longrightarrow> \<not> in_block x c) (served ps ns)"
proof (induction ns arbitrary: h ps)
  case (Cons n ns)
  from Cons.prems(1) obtain p h1 qs where p: "mm_malloc n h = Some (p, h1)"
    and qs: "mmheap.alloc_all ns h1 = Some (qs, h')" and ps: "ps = p # qs"
    by (auto simp: bind_eq_Some_conv)
  note k = mmheap.alloc_keeps [OF Cons.prems(2) p]
  have IH: "mm_inv h'" "mm_live h1 \<subseteq> mm_live h'"
    "\<forall>b \<in> set (served qs ns). fst b \<notin> fst ` mm_live h1 \<and> (\<exists>k. snd b \<le> k \<and> (fst b, k) \<in> mm_live h')"
    "sorted_wrt (\<lambda>b c. \<forall>x. in_block x b \<longrightarrow> \<not> in_block x c) (served qs ns)"
    using Cons.IH [OF qs k(1)] Cons.prems(3) by auto
  show ?case
  proof (cases "p = 0")
    case True
    with k(2) ps have "h1 = h" "served ps (n # ns) = served qs ns" by simp_all
    with IH show ?thesis by simp
  next
    case False
    with k(3) obtain l where l: "alloc_size n \<le> l" "p \<notin> fst ` mm_live h" "mm_live h1 = insert (p, l) (mm_live h)"
      by auto
    have n: "n \<le> l" using alloc_size_large [of n] Cons.prems(3) l(1) by simp
    have pl: "(p, l) \<in> mm_live h'" using IH(2) l(3) by auto
    have "\<not> in_block x b" if b: "b \<in> set (served qs ns)" and x: "in_block x (p, n)" for b x
    proof -
      from IH(3) b obtain m where m: "snd b \<le> m" "(fst b, m) \<in> mm_live h'" and ne: "fst b \<noteq> p" using l(3) by auto
      have "p + l \<le> fst b \<or> fst b + m \<le> p"
        using mmheap.live_disjoint [OF IH(1)] pl m(2) ne unfolding ranges_disjoint_def by fastforce
      with x n m(1) show ?thesis by (auto simp: in_block_def)
    qed
    moreover have "fst b \<notin> fst ` mm_live h" if "b \<in> set (served qs ns)" for b using IH(3) that l(3) by auto
    moreover have "served ps (n # ns) = (p, n) # served qs ns" using False ps by simp
    ultimately show ?thesis using IH l n pl by auto
  qed
qed (simp add: served_def)

text \<open>C12. The kernel's first-fit allocator passes \<^verbatim>\<open>test_mm\<close>: whatever the sizes of up to 128 requests of at most 1024 bytes,
  after every block that could be had is filled with its number, each block still has its number in every byte. (The
  check of the test fails exactly when two blocks overlap: \<open>mm_fill_check\<close>.)\<close>

theorem first_fit_passes_test_mm:
  assumes "mm_inv h" "length ns \<le> MAX_BLOCKS" "\<forall>n \<in> set ns. n \<le> 1024" "mmheap.alloc_all ns h = Some (ps, h')"
  shows "mm_check 0 (served ps ns) (mm_fill 0 (served ps ns) m)"
proof -
  have "sorted_wrt (\<lambda>b c. \<forall>x. in_block x b \<longrightarrow> \<not> in_block x c) (served ps ns)"
    using served_apart [OF assms(4,1,3)] by blast
  then have "blocks_apart (served ps ns)" by (auto simp: blocks_apart_def sorted_wrt_iff_nth_less)
  moreover have "length (served ps ns) \<le> 256"
    using assms(2) length_filter_le [of "\<lambda>b. fst b \<noteq> 0" "zip ps ns"] by (simp add: served_def MAX_BLOCKS_def)
  ultimately show ?thesis by (subst mm_fill_check) (auto simp: served_def)
qed

theorem first_fit_passes_test_mm_witness:
  "\<exists>ps h'. mmheap.alloc_all [100, 8, 1024] (First_Fit ff_small) = Some (ps, h')
     \<and> mm_check 0 (served ps [100, 8, 1024]) (mm_fill 0 (served ps [100, 8, 1024]) (\<lambda>_. 0))"
proof -
  have inv: "mm_inv (First_Fit ff_small)" using ff_small_inv by simp
  obtain ps h' where run: "mmheap.alloc_all [100, 8, 1024] (First_Fit ff_small) = Some (ps, h')"
    using mmheap.alloc_all_spec [OF inv, of "[100, 8, 1024]"] by (elim exE conjE) (rule that)
  have "mm_check 0 (served ps [100, 8, 1024]) (mm_fill 0 (served ps [100, 8, 1024]) (\<lambda>_. 0))"
    by (rule first_fit_passes_test_mm [OF inv _ _ run]) (simp_all add: MAX_BLOCKS_def)
  with run show ?thesis by blast
qed

end
