(* ===== verification/Spec2Isabelle.thy ===== *)
theory Spec2Isabelle
  imports Sched_Theorems Memory_Theorems Pipe_Theorems Sem_Theorems Tty_Theorems Proc_Theorems Dispatcher
    Video_State Kernel_Lib_Theorems User_Theorems Mvar_Theorems Shell_Theorems Shell_Typing Boot_Theorems Hardware Test_Theorems
begin
text \<open>
  A model of the TP2 kernel: a 64-bit teaching kernel with its user module. The theories follow the C code
  file by file; every definition has the name of the function, type or constant it translates, with a
  suffix or prefix where HOL already has the name.

  \<^bold>\<open>The program.\<close> The boot loader puts the kernel and two modules into memory. \<^verbatim>\<open>main\<close> (\<^verbatim>\<open>Kernel/kernel.c\<close>)
  sets up the heap, the scheduler, the terminal and the process table, starts the idle process and the
  shell, and from then on everything happens in interrupts: the timer (\<^verbatim>\<open>sys/time.c\<close> into
  \<^verbatim>\<open>process/sched.c\<close>), the keyboard (\<^verbatim>\<open>drivers/keyboard.c\<close> into \<^verbatim>\<open>fs/tty.c\<close>) and the system calls
  (\<^verbatim>\<open>interrupt/sysCallDispatcher.c\<close> into \<^verbatim>\<open>sys/syscalls.c\<close>). Processes share the kernel objects: open
  files and descriptor tables (\<^verbatim>\<open>fs/fd.c\<close>), pipes (\<^verbatim>\<open>ipc/pipe.c\<close>, \<^verbatim>\<open>ipc/pipe_fd.c\<close>), semaphores
  (\<^verbatim>\<open>ipc/semaphore.c\<close>). Each object takes its storage from the heap (\<^verbatim>\<open>mm/\<close>), puts processes to sleep
  and wakes them through \<^verbatim>\<open>process/proc.c\<close>. The user module (\<^verbatim>\<open>Userland/SampleCodeModule\<close>) is the shell
  with its library, its programs and the tests.

  \<^bold>\<open>Where each part is.\<close>
  \<^item> \<open>Prelude\<close>: the collections of the component proofs, the list predicate \<open>lseg\<close> of intrusive lists,
    machine-integer helpers. \<open>Strings\<close>: hash, comparison and copy of C strings.
  \<^item> \<^verbatim>\<open>mm/first_fit.c\<close>: \<open>First_Fit\<close>; its invariant in \<open>First_Fit_Inv\<close>, release in \<open>First_Fit_Free\<close>, the
    contract in \<open>First_Fit_Props\<close>, the read-only reports in \<open>First_Fit_Reports\<close>. \<^verbatim>\<open>mm/buddy_system.c\<close>:
    \<open>Buddy\<close>, \<open>Buddy_Props\<close>. \<^verbatim>\<open>mm/memory_manager.c\<close>: \<open>Memory_Manager\<close> over the data of \<open>Mm_Types\<close>; the locale \<open>allocator\<close> in
    \<open>Allocator\<close> is what the rest of the kernel uses of a heap. Properties: \<open>Memory_Theorems\<close>.
  \<^item> \<^verbatim>\<open>process/sched.c\<close>, \<^verbatim>\<open>sys/time.c\<close>: \<open>Sched\<close>; the queues as lists in \<open>Sched_Queues\<close>, aging in
    \<open>Sched_Aging\<close>, one decision in \<open>Sched_Props\<close>, the state machine in \<open>Sched_Run\<close>, properties in
    \<open>Sched_Theorems\<close>.
  \<^item> The records of the kernel objects: \<open>Kernel_State\<close>. \<^verbatim>\<open>process/proc.c\<close>: \<open>Proc_Base\<close>, \<open>Proc\<close>, properties
    \<open>Proc_Theorems\<close>. What \<^verbatim>\<open>proc_unblock\<close> reaches (collecting zombies, releasing a slot, closing files and
    pipe ends, waking again): \<open>Wake\<close>. The kernel invariant and the contract of waking, locale \<open>waker\<close>:
    \<open>Kernel_Inv\<close>. Waiter queues for any waking function, locale \<open>drain\<close>: \<open>Waiters\<close>. A concrete kernel:
    \<open>Demo_Kernel\<close>.
  \<^item> \<^verbatim>\<open>fs/fd.c\<close>: \<open>Fd\<close>. \<^verbatim>\<open>ipc/pipe.c\<close>, \<^verbatim>\<open>ipc/pipe_fd.c\<close>: \<open>Pipe\<close>, \<open>Pipe_IO\<close>, \<open>Pipe_Theorems\<close>. \<^verbatim>\<open>ipc/semaphore.c\<close>:
    \<open>Semaphore\<close>, \<open>Sem_Theorems\<close>. \<^verbatim>\<open>fs/tty.c\<close> and \<^verbatim>\<open>drivers/keyboard.c\<close>: \<open>Tty\<close>, \<open>Tty_Input\<close>, \<open>Tty_Theorems\<close>. The
    circular buffers of pipes and terminal share the locale \<open>ring\<close> in \<open>Ring\<close>.
  \<^item> \<^verbatim>\<open>sys/syscalls.c\<close>: \<open>Syscalls\<close>. \<^verbatim>\<open>interrupt/sysCallDispatcher.c\<close>: \<open>Dispatcher\<close>.
  \<^item> \<^verbatim>\<open>drivers/videoDriver.c\<close> with the table of \<^verbatim>\<open>include/font.h\<close>: \<open>Video\<close>, \<open>Font\<close>; what is painted in
    \<open>Video_Theorems\<close>, the state under any sequence of calls in \<open>Video_State\<close>. \<^verbatim>\<open>lib/naiveConsole.c\<close>:
    \<open>Console\<close>. \<^verbatim>\<open>lib/lib.c\<close>, \<^verbatim>\<open>sys/moduleLoader.c\<close> and \<^verbatim>\<open>Toolchain/ModulePacker/main.c\<close>: \<open>Kernel_Lib\<close>, \<open>Kernel_Lib_Theorems\<close>.
    \<^verbatim>\<open>drivers/sound.c\<close>, \<^verbatim>\<open>interrupt/idtLoader.c\<close>, \<^verbatim>\<open>interrupt/exceptions.c\<close>, \<^verbatim>\<open>include/spinlock.h\<close>:
    \<open>Hardware\<close>. \<^verbatim>\<open>kernel.c\<close>: \<open>Boot\<close>, \<open>Boot_Theorems\<close>.
  \<^item> \<^verbatim>\<open>lib/userlib.c\<close>, \<^verbatim>\<open>lib/stdio.c\<close>: \<open>Digits\<close> (numbers as text, which the kernel has copies of), \<open>User_Sys\<close>
    (the calls of a program), \<open>User_Lib\<close>, \<open>Stdio\<close>, \<open>User_Theorems\<close>.
  \<^item> \<^verbatim>\<open>shell/sh.c\<close>: \<open>Shell\<close>, \<open>Shell_Commands\<close>, \<open>Shell_Tests\<close>, \<open>Shell_Loop\<close>, \<open>Ascii_Art\<close>; properties in \<open>Shell_Quiet\<close>,
    \<open>Shell_Theorems\<close>, \<open>Shell_Typing\<close>. \<^verbatim>\<open>programs/\<close>: \<open>User_Programs\<close>, and \<open>Mvar\<close>, \<open>Mvar_Theorems\<close> for \<^verbatim>\<open>mvar.c\<close>.
    \<^verbatim>\<open>tests/\<close> and \<^verbatim>\<open>_loader.c\<close>: \<open>Test_Util\<close>, \<open>Test_Sync\<close>, \<open>Test_Programs\<close>, \<open>Test_Theorems\<close>.

  \<^bold>\<open>How the code is read.\<close>
  \<^item> A pointer to a process is its slot in the process table, \<open>None\<close> for \<^verbatim>\<open>NULL\<close>; the lists through the
    fields of the processes are kept as those fields. An object on the kernel heap is an entry of a map
    of its type at the address \<^verbatim>\<open>mm_malloc\<close> returned, and is gone after \<^verbatim>\<open>mm_free\<close>. The heap itself is a
    memory of 64-bit words in which the allocators keep their headers.
  \<^item> Machine integers are \<open>nat\<close> or \<open>int\<close> with the wrap-around written out, words where the code works on
    bits (colours, ports, descriptors, random numbers).
  \<^item> \<open>None\<close> as a result means that the C code has no result: a loop that does not end, an access outside an
    object or to one that was freed. Errors of the code are values, with its numbers.
  \<^item> A call that sleeps is cut where the processor is given away: the outcome \<open>io\<close> is a return, a suspension, or
    the next turn of the loop, and a step relation interleaves the turns of all processes.
  \<^item> A user program works on a record with the calls it has made and the answers it will get. What a call stores
    in the caller's memory is an argument of the model.
  \<^item> Spinlocks and masked interrupts are left out of the kernel's operations: on one processor each is one step of the
    model. The lock itself is in \<open>Hardware\<close> as a step relation of several processors.

  \<^bold>\<open>What is shown.\<close>
  \<^item> Memory: first fit keeps a heap tiled by its blocks and coalesced, hands out aligned, disjoint storage, fails only when
    no free block is large enough, and gives back exactly what is freed; a size close to the largest number wraps. The
    buddy system hands out a page outside its region, twice. The blocks of first fit pass the check of \<^verbatim>\<open>test_mm\<close>.
  \<^item> Scheduler: the linked queues are four lists; every reachable state is consistent; one decision takes the head of
    the highest queue; aging moves processes up in order; a ready process runs within 953 ticks.
  \<^item> Processes: \<^verbatim>\<open>wait\<close> returns the result its child left, the foreground process is unique, and a process that changes its
    own priority stops the scheduler. Boot ends in a state with the kernel invariant.
  \<^item> Pipes, terminal: each delivers its bytes in order, sleepers are woken first come, first served, and the last writer wakes
    all readers. Semaphores: units are conserved while posts are what wakes; a sleeper woken by other means strands the next.
  \<^item> Screen and console: a character paints its cell and nothing else, the state of the driver keeps its type under every
    sequence of calls; the two ways of \<^verbatim>\<open>memcpy\<close> agree; packed modules are loaded unchanged.
  \<^item> User side: numbers and their texts, the descriptors of a pipeline on every error path, argument blocks without leaks, from
    the keys to the command, the buffers of the shell where they give out; the values of the MVar are read once and in
    order, and additions under the semaphore are never lost.

  \<^bold>\<open>Bounds.\<close>
  \<^item> \<open>zombie_loop\<close> has fuel \<open>Suc MAX_PROCS\<close>, one more than a list of process slots can hold; the loops that wake
    a queue have one more than its length. Other loops whose recursion is not structural are \<open>partial_function (option)\<close>,
    and the theorems state that they return.
  \<^item> 953 ticks: a process that is passed over rises one level per period of aging, and at the top it waits for at most the
    other slots of the table; \<open>Sched_Run\<close> has the count. The boot theorem is about the heap of 4 MB of \<^verbatim>\<open>kernel.c\<close>.

  \<^bold>\<open>What is assumed.\<close>
  \<^item> \<open>mm_inv\<close>, and with it the kernel invariant, is that of the default build with first fit.
  \<^item> The conservation theorems for semaphores are about sleepers woken by posts only; the system call \<^verbatim>\<open>unblock\<close> breaks it, as
    \<open>sem_stale_node_strands_next\<close> shows. The runs of the MVar and of \<^verbatim>\<open>test_sync\<close> take a semaphore as its count.
  \<^item> The floating-point scaling of \<^verbatim>\<open>GetUniform\<close> is a parameter, as are the entry points of programs and the tests the shell starts.

  \<^bold>\<open>Not modelled.\<close>
  \<^item> The third-party boot loader (Pure64, BMFS) under \<^verbatim>\<open>Bootloader/\<close>, and \<^verbatim>\<open>Image/\<close>: they run before the kernel or build the image.
  \<^item> The assembly stubs, other than as what they do: save a context, load registers for a call, access a port.
  \<^item> The option parsing of the image packer (\<^verbatim>\<open>argp\<close>), the debugging prints of the allocators and the log of the kernel: library
    calls and output without effect on the state.
  \<^item> Waiting loops without output (\<^verbatim>\<open>bussy_wait\<close>, \<^verbatim>\<open>endless_loop\<close>, the halting loops of \<^verbatim>\<open>time.c\<close>): they change nothing; where the
    code relies on what they wait for, that condition is in the model.
\<close>
end
